(* ===== verification/CPrelude.thy ===== *)
theory CPrelude
  imports Main "HOL-Library.Word"
begin

text \<open>
  Shared vocabulary of the development: machine words, pointers, the faults a C
  statement can raise, the result type that carries them, C string comparison and
  the list lemmas the components share.

  A C function that may hit undefined behaviour, a failed \<open>assert\<close> or an
  \<open>exit\<close> is a HOL function into \<open>fault + 'a\<close>: \<open>Inl\<close> is the fault,
  \<open>Inr\<close> the value.  Statements are sequenced with \<open>bindE\<close>.
\<close>

section \<open>Machine words and pointers\<close>

type_synonym u8 = "8 word"
type_synonym u16 = "16 word"
type_synonym u32 = "32 word"
type_synonym u64 = "64 word"

text \<open>Addresses of heap objects; \<open>0\<close> is the null pointer, as \<open>MY_NULL\<close> in \<open>sn_ll.h\<close>.\<close>

type_synonym ptr = nat

abbreviation MY_NULL :: ptr where
  "MY_NULL \<equiv> 0"

section \<open>Faults and results\<close>

datatype fault =
    NullDeref       \<comment> \<open>a null or unset pointer is dereferenced\<close>
  | UseAfterFree    \<comment> \<open>a freed object is read or written\<close>
  | OutOfBounds     \<comment> \<open>an array is indexed outside its allocation\<close>
  | AssertFail      \<comment> \<open>\<open>assert\<close> fails: the process aborts\<close>
  | DivByZero       \<comment> \<open>integer division or remainder by zero\<close>
  | WrongMember     \<comment> \<open>a union is read through a member other than the one stored\<close>
  | DoubleFree      \<comment> \<open>a freed object is freed again\<close>
  | Uninit          \<comment> \<open>an object is used that was never set\<close>
  | ProcExit        \<comment> \<open>the code calls \<open>exit\<close>\<close>

type_synonym 'a result = "fault + 'a"

definition bindE :: "'a result \<Rightarrow> ('a \<Rightarrow> 'b result) \<Rightarrow> 'b result" where
  "bindE m f = (case m of Inl e \<Rightarrow> Inl e | Inr x \<Rightarrow> f x)"

lemma bindE_simps [simp]:
  "bindE (Inl e) f = Inl e"
  "bindE (Inr x) f = f x"
  by (simp_all add: bindE_def)

lemma bindE_eq_Inr: "bindE m f = Inr y \<longleftrightarrow> (\<exists>x. m = Inr x \<and> f x = Inr y)"
  by (cases m) auto

lemma bindE_eq_Inl: "bindE m f = Inl e \<longleftrightarrow> m = Inl e \<or> (\<exists>x. m = Inr x \<and> f x = Inl e)"
  by (cases m) auto

lemma bindE_assoc: "bindE (bindE m f) g = bindE m (\<lambda>x. bindE (f x) g)"
  by (cases m) auto

text \<open>\<open>nonnull p\<close> reads an optional pointer; \<open>deref\<close> reads an object of a store.\<close>

definition nonnull :: "'a option \<Rightarrow> 'a result" where
  "nonnull p = (case p of None \<Rightarrow> Inl NullDeref | Some x \<Rightarrow> Inr x)"

definition deref :: "(ptr \<rightharpoonup> 'a) \<Rightarrow> ptr \<Rightarrow> 'a result" where
  "deref h p = (case h p of None \<Rightarrow> Inl UseAfterFree | Some x \<Rightarrow> Inr x)"

definition assertE :: "bool \<Rightarrow> unit result" where
  "assertE b = (if b then Inr () else Inl AssertFail)"

definition at :: "'a list \<Rightarrow> nat \<Rightarrow> 'a result" where
  "at xs i = (if i < length xs then Inr (xs ! i) else Inl OutOfBounds)"

definition upd_at :: "'a list \<Rightarrow> nat \<Rightarrow> 'a \<Rightarrow> 'a list result" where
  "upd_at xs i v = (if i < length xs then Inr (xs[i := v]) else Inl OutOfBounds)"

lemma nonnull_simps [simp]:
  "nonnull None = Inl NullDeref" "nonnull (Some x) = Inr x"
  by (simp_all add: nonnull_def)

lemma nonnull_eq_Inr [simp]: "nonnull p = Inr x \<longleftrightarrow> p = Some x"
  by (cases p) auto

lemma deref_eq_Inr [simp]: "deref h p = Inr x \<longleftrightarrow> h p = Some x"
  by (auto simp: deref_def split: option.splits)

lemma deref_Some [simp]: "h p = Some x \<Longrightarrow> deref h p = Inr x"
  by simp

lemma deref_None [simp]: "h p = None \<Longrightarrow> deref h p = Inl UseAfterFree"
  by (simp add: deref_def)

lemma assertE_simps [simp]: "assertE True = Inr ()" "assertE False = Inl AssertFail"
  by (simp_all add: assertE_def)

lemma at_eq_Inr [simp]: "at xs i = Inr x \<longleftrightarrow> i < length xs \<and> x = xs ! i"
  by (auto simp: at_def)

lemma at_in [simp]: "i < length xs \<Longrightarrow> at xs i = Inr (xs ! i)"
  by simp

lemma at_out [simp]: "\<not> i < length xs \<Longrightarrow> at xs i = Inl OutOfBounds"
  by (simp add: at_def)

lemma upd_at_in [simp]: "i < length xs \<Longrightarrow> upd_at xs i v = Inr (xs[i := v])"
  by (simp add: upd_at_def)

lemma upd_at_out [simp]: "\<not> i < length xs \<Longrightarrow> upd_at xs i v = Inl OutOfBounds"
  by (simp add: upd_at_def)

lemma upd_at_eq_Inr: "upd_at xs i v = Inr ys \<longleftrightarrow> i < length xs \<and> ys = xs[i := v]"
  by (auto simp: upd_at_def)

text \<open>A pointer that owns a heap buffer: never set, freed, or the buffer's content.\<close>

datatype 'a own = Unset | Freed | Own 'a

fun own_get :: "'a own \<Rightarrow> 'a result" where
  "own_get Unset = Inl Uninit"
| "own_get Freed = Inl UseAfterFree"
| "own_get (Own x) = Inr x"

fun own_free :: "'a own \<Rightarrow> 'a own result" where
  "own_free Unset = Inl Uninit"
| "own_free Freed = Inl DoubleFree"
| "own_free (Own x) = Inr Freed"

lemma own_get_eq_Inr [simp]: "own_get p = Inr x \<longleftrightarrow> p = Own x"
  by (cases p) auto

lemma own_free_eq_Inr [simp]: "own_free p = Inr q \<longleftrightarrow> (\<exists>x. p = Own x) \<and> q = Freed"
  by (cases p) auto

section \<open>Partial correctness of results\<close>

text \<open>\<open>wp m Q\<close>: if \<open>m\<close> returns a value, it satisfies \<open>Q\<close>.\<close>

definition wp :: "'a result \<Rightarrow> ('a \<Rightarrow> bool) \<Rightarrow> bool" where
  "wp m Q = (case m of Inl _ \<Rightarrow> True | Inr x \<Rightarrow> Q x)"

lemma wp_simps [simp]: "wp (Inl e) Q" "wp (Inr x) Q = Q x"
  by (simp_all add: wp_def)

lemma wpD: "wp m Q \<Longrightarrow> m = Inr x \<Longrightarrow> Q x"
  by simp

lemma wpI: "(\<And>x. m = Inr x \<Longrightarrow> Q x) \<Longrightarrow> wp m Q"
  by (cases m) auto

lemma wp_bindI: "wp m P \<Longrightarrow> (\<And>x. P x \<Longrightarrow> wp (f x) Q) \<Longrightarrow> wp (bindE m f) Q"
  by (cases m) auto

lemma wp_bind_valueI: "(\<And>x. m = Inr x \<Longrightarrow> wp (f x) Q) \<Longrightarrow> wp (bindE m f) Q"
  by (cases m) auto

lemma wp_mono: "wp m P \<Longrightarrow> (\<And>x. P x \<Longrightarrow> Q x) \<Longrightarrow> wp m Q"
  by (cases m) auto

lemma wp_ifI: "(b \<Longrightarrow> wp m Q) \<Longrightarrow> (\<not> b \<Longrightarrow> wp m' Q) \<Longrightarrow> wp (if b then m else m') Q"
  by simp

lemma wp_optionI: "(x = None \<Longrightarrow> wp m Q) \<Longrightarrow> (\<And>y. x = Some y \<Longrightarrow> wp (f y) Q) \<Longrightarrow> wp (case x of None \<Rightarrow> m | Some y \<Rightarrow> f y) Q"
  by (cases x) auto

lemma wp_bind_ifI:
  "(b \<Longrightarrow> wp (bindE m f) Q) \<Longrightarrow> (\<not> b \<Longrightarrow> wp (bindE m' f) Q) \<Longrightarrow> wp (bindE (if b then m else m') f) Q"
  by simp

lemma wp_bind_optionI:
  "(x = None \<Longrightarrow> wp (bindE m f) Q) \<Longrightarrow> (\<And>y. x = Some y \<Longrightarrow> wp (bindE (h y) f) Q) \<Longrightarrow>
   wp (bindE (case x of None \<Rightarrow> m | Some y \<Rightarrow> h y) f) Q"
  by (cases x) auto

lemma wp_bind_assocI: "wp (bindE m (\<lambda>x. bindE (f x) g)) Q \<Longrightarrow> wp (bindE (bindE m f) g) Q"
  by (simp add: bindE_assoc)

lemma wp_bind_returnI: "wp (f x) Q \<Longrightarrow> wp (bindE (Inr x) f) Q"
  by simp

lemma wp_faultI: "wp (Inl e) Q" "wp (bindE (Inl e) f) Q"
  by simp_all

lemmas wp_structure = wp_faultI wp_bind_returnI wp_bind_assocI wp_ifI wp_optionI wp_bind_ifI wp_bind_optionI

section \<open>C strings\<close>

text \<open>
  A C string is the list of its characters before the terminating NUL.
  \<open>strcmp_eq s t\<close> is \<open>strcmp(s,t) == 0\<close>; \<open>strncmp_eq s t n\<close> is
  \<open>strncmp(s,t,n) == 0\<close>, which stops at the first NUL of both.
\<close>

definition strcmp_eq :: "string \<Rightarrow> string \<Rightarrow> bool" where
  "strcmp_eq s t \<longleftrightarrow> s = t"

fun strncmp_eq :: "string \<Rightarrow> string \<Rightarrow> nat \<Rightarrow> bool" where
  "strncmp_eq s t 0 = True"
| "strncmp_eq [] [] (Suc n) = True"
| "strncmp_eq (c # s) (d # t) (Suc n) = (c = d \<and> strncmp_eq s t n)"
| "strncmp_eq [] (d # t) (Suc n) = False"
| "strncmp_eq (c # s) [] (Suc n) = False"

lemma strncmp_eq_take: "strncmp_eq s t n \<longleftrightarrow> take n s = take n t"
  by (induction s t n rule: strncmp_eq.induct) auto

lemma strncmp_eq_refl [simp]: "strncmp_eq s s n"
  by (simp add: strncmp_eq_take)

section \<open>Shared list lemmas\<close>

lemma remove1_split:
  "e \<notin> set xs \<Longrightarrow> remove1 e (xs @ e # ys) = xs @ ys"
  by (induction xs) auto

lemma distinct_split_member:
  assumes "e \<in> set xs" "distinct xs"
  obtains as bs where "xs = as @ e # bs" "e \<notin> set as" "e \<notin> set bs"
  using assms by (metis distinct.simps(2) distinct_append not_distinct_conv_prefix
      split_list_first)

lemma snoc_cases:
  obtains "xs = []" | ys y where "xs = ys @ [y]"
  by (cases xs rule: rev_cases) auto

section \<open>Objects allocated one after the other\<close>

definition placed :: "ptr \<Rightarrow> 'a list \<Rightarrow> (ptr \<rightharpoonup> 'a) \<Rightarrow> (ptr \<rightharpoonup> 'a)" where
  "placed a xs h = (\<lambda>p. if a \<le> p \<and> p < a + length xs then Some (xs ! (p - a)) else h p)"

lemma placed_Nil [simp]: "placed a [] h = h"
  by (auto simp: placed_def fun_eq_iff)

lemma placed_Cons: "placed (Suc a) xs (h(a \<mapsto> x)) = placed a (x # xs) h"
proof
  fix p
  show "placed (Suc a) xs (h(a \<mapsto> x)) p = placed a (x # xs) h p"
  proof (cases "p \<le> a")
    case False
    then have "p - a = Suc (p - Suc a)" by simp
    then show ?thesis using False by (auto simp: placed_def)
  qed (auto simp: placed_def)
qed

lemma placed_nth [simp]: "i < length xs \<Longrightarrow> placed a xs h (a + i) = Some (xs ! i)"
  by (simp add: placed_def)

lemma rev_upt_Cons: "rev [a..<a + length (x # xs)] = rev [Suc a..<Suc a + length xs] @ [a]"
  by (simp only: rev_swap) (simp add: upt_rec)

end
