(* ===== verification/SnList.thy ===== *)
theory SnList
  imports CPrelude
begin

text \<open>
  \<open>src/src/sn_ll.c\<close>: the intrusive doubly linked list every other component
  stores its nodes in.  The heap of list elements is a function from addresses to
  \<open>sn_list_element_t\<close>; a list head is an \<open>sn_list_t\<close>.  Mind the code's naming:
  the \<open>prev\<close> field of the head points at the first element and its \<open>next\<close> field
  at the last one.  The second half proves every operation correct against
  \<open>dll h L xs\<close>: the heap holds exactly the elements \<open>xs\<close>, linked in both
  directions.  The \<open>SN_LIST_ASSERT\<close> macros are empty in the build
  (\<open>SN_LIST_ASSERT_ENABLE\<close> is not defined) and are left out.
\<close>

section \<open>The data and the operations\<close>

record sn_list_element =
  elem_next :: ptr
  elem_prev :: ptr

record sn_list =
  list_next :: ptr
  list_prev :: ptr
  list_length :: u64

type_synonym sn_heap = "ptr \<Rightarrow> sn_list_element"
type_synonym sn_state = "sn_heap \<times> sn_list"

definition SN_LIST_INIT :: "sn_list \<Rightarrow> sn_list" where
  "SN_LIST_INIT L = L\<lparr>list_length := 0, list_next := MY_NULL, list_prev := MY_NULL\<rparr>"

definition SN_LIST_ELEMENT_INIT :: "sn_heap \<Rightarrow> ptr \<Rightarrow> sn_heap" where
  "SN_LIST_ELEMENT_INIT h e = h(e := (h e)\<lparr>elem_next := MY_NULL, elem_prev := MY_NULL\<rparr>)"

definition SN_LIST_ELEMENT_NEXT :: "sn_heap \<Rightarrow> ptr \<Rightarrow> ptr" where
  "SN_LIST_ELEMENT_NEXT h e = elem_next (h e)"

definition SN_LIST_ELEMENT_PREV :: "sn_heap \<Rightarrow> ptr \<Rightarrow> ptr" where
  "SN_LIST_ELEMENT_PREV h e = elem_prev (h e)"

definition SN_LIST_HEAD :: "sn_list \<Rightarrow> ptr" where
  "SN_LIST_HEAD L = list_prev L"

definition SN_LIST_TAIL :: "sn_list \<Rightarrow> ptr" where
  "SN_LIST_TAIL L = list_next L"

definition SN_LIST_LENGTH :: "sn_list \<Rightarrow> u64" where
  "SN_LIST_LENGTH L = list_length L"

definition SN_LIST_ELEMENT_UNLINK :: "sn_heap \<Rightarrow> sn_list \<Rightarrow> ptr \<Rightarrow> sn_state" where
  "SN_LIST_ELEMENT_UNLINK h L e =
     (let (h1, L1) =
            (if elem_prev (h e) \<noteq> MY_NULL
             then (h(elem_prev (h e) := (h (elem_prev (h e)))\<lparr>elem_next := elem_next (h e)\<rparr>), L)
             else (h, L\<lparr>list_prev := elem_next (h e)\<rparr>));
          (h2, L2) =
            (if elem_next (h1 e) \<noteq> MY_NULL
             then (h1(elem_next (h1 e) := (h1 (elem_next (h1 e)))\<lparr>elem_prev := elem_prev (h1 e)\<rparr>), L1)
             else (h1, L1\<lparr>list_next := elem_prev (h1 e)\<rparr>));
          h3 = h2(e := (h2 e)\<lparr>elem_next := MY_NULL, elem_prev := MY_NULL\<rparr>)
      in (h3, L2\<lparr>list_length := list_length L2 - 1\<rparr>))"

definition SN_LIST_REMOVE_HEAD :: "sn_heap \<Rightarrow> sn_list \<Rightarrow> ptr \<times> sn_state" where
  "SN_LIST_REMOVE_HEAD h L =
     (let head = SN_LIST_HEAD L
      in (head, if head \<noteq> MY_NULL then SN_LIST_ELEMENT_UNLINK h L head else (h, L)))"

definition SN_LIST_REMOVE_HEAD_NORETURN :: "sn_heap \<Rightarrow> sn_list \<Rightarrow> sn_state" where
  "SN_LIST_REMOVE_HEAD_NORETURN h L =
     (let head = SN_LIST_HEAD L
      in if head \<noteq> MY_NULL then SN_LIST_ELEMENT_UNLINK h L head else (h, L))"

definition SN_LIST_REMOVE_TAIL :: "sn_heap \<Rightarrow> sn_list \<Rightarrow> ptr \<times> sn_state" where
  "SN_LIST_REMOVE_TAIL h L =
     (let tail = SN_LIST_TAIL L
      in (tail, if tail \<noteq> MY_NULL then SN_LIST_ELEMENT_UNLINK h L tail else (h, L)))"

definition SN_LIST_ELEMENT_INSERT_BEFORE :: "sn_heap \<Rightarrow> sn_list \<Rightarrow> ptr \<Rightarrow> ptr \<Rightarrow> sn_state" where
  "SN_LIST_ELEMENT_INSERT_BEFORE h L e b =
     (let (h', L') =
       (if b = list_prev L then
          \<comment> \<open>insert element at the head of the list\<close>
          let h1 = h(e := (h e)\<lparr>elem_prev := MY_NULL, elem_next := list_prev L\<rparr>);
              L1 = L\<lparr>list_prev := e\<rparr>
          in if elem_next (h1 e) \<noteq> MY_NULL
             then (h1(elem_next (h1 e) := (h1 (elem_next (h1 e)))\<lparr>elem_prev := e\<rparr>), L1)
             else (h1, L1\<lparr>list_next := e\<rparr>)
        else if b = MY_NULL then
          \<comment> \<open>insert element at tail of list\<close>
          let h1 = h(e := (h e)\<lparr>elem_next := MY_NULL, elem_prev := list_next L\<rparr>);
              h2 = (if elem_prev (h1 e) \<noteq> MY_NULL
                    then h1(elem_prev (h1 e) := (h1 (elem_prev (h1 e)))\<lparr>elem_next := e\<rparr>)
                    else h1)
          in (h2, L\<lparr>list_next := e\<rparr>)
        else
          \<comment> \<open>insert element in middle of list\<close>
          let h1 = h(e := (h e)\<lparr>elem_next := b, elem_prev := elem_prev (h b)\<rparr>);
              h2 = h1(elem_prev (h1 e) := (h1 (elem_prev (h1 e)))\<lparr>elem_next := e\<rparr>);
              h3 = h2(elem_next (h2 e) := (h2 (elem_next (h2 e)))\<lparr>elem_prev := e\<rparr>)
          in (h3, L))
      in (h', L'\<lparr>list_length := list_length L' + 1\<rparr>))"

definition SN_LIST_INSERT_HEAD :: "sn_heap \<Rightarrow> sn_list \<Rightarrow> ptr \<Rightarrow> sn_state" where
  "SN_LIST_INSERT_HEAD h L e = SN_LIST_ELEMENT_INSERT_BEFORE h L e (SN_LIST_HEAD L)"

definition SN_LIST_INSERT_TAIL :: "sn_heap \<Rightarrow> sn_list \<Rightarrow> ptr \<Rightarrow> sn_state" where
  "SN_LIST_INSERT_TAIL h L e = SN_LIST_ELEMENT_INSERT_BEFORE h L e MY_NULL"

definition SN_LIST_PUSH :: "sn_heap \<Rightarrow> sn_list \<Rightarrow> ptr \<Rightarrow> sn_state" where
  "SN_LIST_PUSH h L e = SN_LIST_INSERT_HEAD h L e"

definition SN_LIST_POP :: "sn_heap \<Rightarrow> sn_list \<Rightarrow> ptr \<times> sn_state" where
  "SN_LIST_POP h L = SN_LIST_REMOVE_HEAD h L"

definition SN_LIST_ENQUEUE :: "sn_heap \<Rightarrow> sn_list \<Rightarrow> ptr \<Rightarrow> sn_state" where
  "SN_LIST_ENQUEUE h L e = SN_LIST_INSERT_TAIL h L e"

definition SN_LIST_DEQUEUE :: "sn_heap \<Rightarrow> sn_list \<Rightarrow> ptr \<times> sn_state" where
  "SN_LIST_DEQUEUE h L = SN_LIST_REMOVE_HEAD h L"

definition SN_LIST_PUTBACKQUEUE :: "sn_heap \<Rightarrow> sn_list \<Rightarrow> ptr \<Rightarrow> sn_state" where
  "SN_LIST_PUTBACKQUEUE h L e = SN_LIST_INSERT_HEAD h L e"

text \<open>
  The two traversals loop along \<open>next\<close>; on a cyclic heap they would not return, so
  they are partial functions (\<open>None\<close> is "does not return").
\<close>

partial_function (option) contains_from :: "sn_heap \<Rightarrow> ptr \<Rightarrow> ptr \<Rightarrow> bool option" where
  "contains_from h p e =
     (if p = MY_NULL then Some False
      else if p = e then Some True
      else contains_from h (elem_next (h p)) e)"

declare contains_from.simps [code]

definition sn_list_contains_element :: "sn_heap \<Rightarrow> sn_list \<Rightarrow> ptr \<Rightarrow> bool option" where
  "sn_list_contains_element h L e = contains_from h (list_prev L) e"

partial_function (option) length_from :: "sn_heap \<Rightarrow> ptr \<Rightarrow> u64 \<Rightarrow> u64 option" where
  "length_from h p n =
     (if p = MY_NULL then Some n else length_from h (elem_next (h p)) (n + 1))"

declare length_from.simps [code]

definition sn_list_length :: "sn_heap \<Rightarrow> sn_list \<Rightarrow> u64 option" where
  "sn_list_length h L = length_from h (list_prev L) 0"

section \<open>What a list promises\<close>

text \<open>
  \<open>dseg h p x as y q\<close>: from \<open>x\<close> (whose predecessor is \<open>p\<close>) the elements \<open>as\<close>
  are linked in both directions; \<open>y\<close> is what follows the last of them and \<open>q\<close>
  the last of them (\<open>p\<close> when there is none).
\<close>

fun dseg :: "sn_heap \<Rightarrow> ptr \<Rightarrow> ptr \<Rightarrow> ptr list \<Rightarrow> ptr \<Rightarrow> ptr \<Rightarrow> bool" where
  "dseg h p x [] y q \<longleftrightarrow> x = y \<and> q = p"
| "dseg h p x (a # as) y q \<longleftrightarrow>
     x = a \<and> a \<noteq> MY_NULL \<and> elem_prev (h a) = p \<and> dseg h a (elem_next (h a)) as y q"

definition dll :: "sn_heap \<Rightarrow> sn_list \<Rightarrow> ptr list \<Rightarrow> bool" where
  "dll h L xs \<longleftrightarrow> dseg h MY_NULL (list_prev L) xs MY_NULL (list_next L) \<and> distinct xs \<and>
     list_length L = of_nat (length xs)"

lemma dseg_append:
  "dseg h p x (as @ bs) y q \<longleftrightarrow> (\<exists>m r. dseg h p x as m r \<and> dseg h r m bs y q)"
  by (induction as arbitrary: p x) auto

lemma dseg_cong:
  "(\<And>a. a \<in> set as \<Longrightarrow> elem_next (h a) = elem_next (h' a) \<and> elem_prev (h a) = elem_prev (h' a)) \<Longrightarrow>
   dseg h p x as y q = dseg h' p x as y q"
  by (induction as arbitrary: p x) auto

lemma dseg_upd [simp]:
  "a \<notin> set as \<Longrightarrow> dseg (h(a := v)) p x as y q = dseg h p x as y q"
  by (rule dseg_cong) auto

lemma dseg_nonnull: "dseg h p x as y q \<Longrightarrow> MY_NULL \<notin> set as"
  by (induction as arbitrary: p x) auto

lemma dseg_snoc:
  "dseg h p x (as @ [a]) y q \<longleftrightarrow>
     (\<exists>r. dseg h p x as a r \<and> a \<noteq> MY_NULL \<and> elem_prev (h a) = r \<and> elem_next (h a) = y \<and> q = a)"
  by (auto simp: dseg_append)

lemma dseg_first: "dseg h p x as y q \<Longrightarrow> as \<noteq> [] \<Longrightarrow> x = hd as \<and> elem_prev (h x) = p \<and> x \<noteq> MY_NULL"
  by (cases as) auto

text \<open>Re-linking the last element's \<open>next\<close> and the first element's \<open>prev\<close>.\<close>

lemma dseg_set_next:
  "dseg h p x (as @ [a]) y q \<Longrightarrow> a \<notin> set as \<Longrightarrow>
   dseg (h(a := (h a)\<lparr>elem_next := z\<rparr>)) p x (as @ [a]) z q"
  by (auto simp: dseg_append)

lemma dseg_set_prev:
  "dseg h p x (b # bs) y q \<Longrightarrow> b \<notin> set bs \<Longrightarrow>
   dseg (h(b := (h b)\<lparr>elem_prev := r\<rparr>)) r x (b # bs) y q"
  by auto


section \<open>Unlinking and inserting\<close>

lemma dll_nonnull: "dll h L xs \<Longrightarrow> MY_NULL \<notin> set xs"
  by (auto simp: dll_def dest: dseg_nonnull)

lemma unlink_dll:
  assumes "dll h L (as @ e # bs)"
  shows "dll (fst (SN_LIST_ELEMENT_UNLINK h L e)) (snd (SN_LIST_ELEMENT_UNLINK h L e)) (as @ bs)"
proof -
  have nn: "MY_NULL \<notin> set (as @ e # bs)"
    using assms by (rule dll_nonnull)
  show ?thesis
  proof (cases as rule: rev_cases; cases bs)
    assume "as = []" "bs = []"
    then show ?thesis using assms nn
      by (simp add: dll_def SN_LIST_ELEMENT_UNLINK_def Let_def)
  next
    fix b bs' assume "as = []" "bs = b # bs'"
    then show ?thesis using assms nn
      by (auto simp: dll_def SN_LIST_ELEMENT_UNLINK_def Let_def)
  next
    fix as' a assume "as = as' @ [a]" "bs = []"
    then show ?thesis using assms nn
      by (auto simp: dll_def SN_LIST_ELEMENT_UNLINK_def Let_def dseg_append)
  next
    fix as' a b bs' assume "as = as' @ [a]" "bs = b # bs'"
    then show ?thesis using assms nn
      by (auto simp: dll_def SN_LIST_ELEMENT_UNLINK_def Let_def dseg_append)
  qed
qed

lemma insert_head_dll:
  assumes "dll h L xs" "e \<notin> set xs" "e \<noteq> MY_NULL"
  shows "dll (fst (SN_LIST_INSERT_HEAD h L e)) (snd (SN_LIST_INSERT_HEAD h L e)) (e # xs)"
  using assms dll_nonnull [OF assms(1)]
  by (cases xs)
    (auto simp: dll_def SN_LIST_INSERT_HEAD_def SN_LIST_HEAD_def SN_LIST_ELEMENT_INSERT_BEFORE_def Let_def)

lemma insert_tail_dll:
  assumes "dll h L xs" "e \<notin> set xs" "e \<noteq> MY_NULL"
  shows "dll (fst (SN_LIST_INSERT_TAIL h L e)) (snd (SN_LIST_INSERT_TAIL h L e)) (xs @ [e])"
proof (cases xs rule: rev_cases)
  case Nil
  then show ?thesis using assms
    by (auto simp: dll_def SN_LIST_INSERT_TAIL_def SN_LIST_ELEMENT_INSERT_BEFORE_def Let_def)
next
  case (snoc ys y)
  have "list_prev L \<noteq> MY_NULL"
    using assms(1) snoc by (cases ys) (auto simp: dll_def)
  then show ?thesis using assms snoc dll_nonnull [OF assms(1)]
    by (auto simp: dll_def SN_LIST_INSERT_TAIL_def SN_LIST_ELEMENT_INSERT_BEFORE_def Let_def dseg_append)
qed

lemma insert_middle_dll:
  assumes "dll h L (as @ b # bs)" "e \<notin> set (as @ b # bs)" "e \<noteq> MY_NULL"
  shows "dll (fst (SN_LIST_ELEMENT_INSERT_BEFORE h L e b)) (snd (SN_LIST_ELEMENT_INSERT_BEFORE h L e b))
           (as @ e # b # bs)"
proof (cases as rule: rev_cases)
  case Nil
  then have "SN_LIST_ELEMENT_INSERT_BEFORE h L e b = SN_LIST_INSERT_HEAD h L e"
    using assms(1) by (simp add: dll_def SN_LIST_INSERT_HEAD_def SN_LIST_HEAD_def)
  then show ?thesis using insert_head_dll [OF assms] Nil by simp
next
  case (snoc as' a)
  have "list_prev L \<noteq> b"
    using assms(1) snoc by (cases as') (auto simp: dll_def)
  then show ?thesis using assms snoc dll_nonnull [OF assms(1)]
    by (auto simp: dll_def SN_LIST_ELEMENT_INSERT_BEFORE_def Let_def dseg_append)
qed

section \<open>The traversals return\<close>

lemma contains_from_dseg:
  "dseg h p x xs MY_NULL q \<Longrightarrow> contains_from h x e = Some (e \<in> set xs)"
  by (induction xs arbitrary: p x) (subst contains_from.simps; auto)+

lemma length_from_dseg:
  "dseg h p x xs MY_NULL q \<Longrightarrow> length_from h x n = Some (n + of_nat (length xs))"
proof (induction xs arbitrary: p x n)
  case Nil
  then show ?case by (subst length_from.simps) simp
next
  case (Cons a as)
  then have "length_from h (elem_next (h a)) (n + 1) = Some (n + 1 + of_nat (length as))"
    by (intro Cons.IH) auto
  with Cons.prems show ?case
    by (subst length_from.simps) (simp add: algebra_simps)
qed

text \<open>
  On a well-formed list the debug traversals of \<open>sn_ll.c\<close> return: the membership
  test answers whether the element is linked, and the counted length is the length the
  head caches.
\<close>

theorem sn_traversals_return:
  assumes "dll h L xs"
  shows "sn_list_contains_element h L e = Some (e \<in> set xs) \<and>
         sn_list_length h L = Some (SN_LIST_LENGTH L)"
  using assms
  by (auto simp: dll_def sn_list_contains_element_def sn_list_length_def SN_LIST_LENGTH_def
      contains_from_dseg length_from_dseg)

section \<open>The interface the components use\<close>

text \<open>
  A component sees a list as a deque of node addresses: the operations below and their
  laws.  \<open>drain pop n s\<close> removes \<open>n\<close> elements one after the other.
\<close>

fun drain :: "('s \<Rightarrow> ptr \<times> 's) \<Rightarrow> nat \<Rightarrow> 's \<Rightarrow> ptr list" where
  "drain pop 0 s = []"
| "drain pop (Suc n) s = fst (pop s) # drain pop n (snd (pop s))"

locale sn_deque =
  fixes repr :: "'s \<Rightarrow> ptr list \<Rightarrow> bool"
    and push :: "ptr \<Rightarrow> 's \<Rightarrow> 's"
    and enq :: "ptr \<Rightarrow> 's \<Rightarrow> 's"
    and pop :: "'s \<Rightarrow> ptr \<times> 's"
    and unlink :: "ptr \<Rightarrow> 's \<Rightarrow> 's"
    and count :: "'s \<Rightarrow> u64"
  assumes repr_push: "repr s xs \<Longrightarrow> e \<notin> set xs \<Longrightarrow> e \<noteq> MY_NULL \<Longrightarrow> repr (push e s) (e # xs)"
    and repr_enq: "repr s xs \<Longrightarrow> e \<notin> set xs \<Longrightarrow> e \<noteq> MY_NULL \<Longrightarrow> repr (enq e s) (xs @ [e])"
    and pop_empty: "repr s [] \<Longrightarrow> pop s = (MY_NULL, s)"
    and pop_head: "repr s (x # xs) \<Longrightarrow> fst (pop s) = x \<and> repr (snd (pop s)) xs"
    and repr_unlink: "repr s (as @ e # bs) \<Longrightarrow> repr (unlink e s) (as @ bs)"
    and repr_count: "repr s xs \<Longrightarrow> count s = of_nat (length xs)"
    and repr_distinct: "repr s xs \<Longrightarrow> distinct xs \<and> MY_NULL \<notin> set xs"
begin

lemma fold_enq: "repr s xs \<Longrightarrow> distinct (xs @ es) \<Longrightarrow> MY_NULL \<notin> set es \<Longrightarrow> repr (fold enq es s) (xs @ es)"
proof (induction es arbitrary: s xs)
  case (Cons e es)
  then have "repr (enq e s) (xs @ [e])" by (auto intro: repr_enq)
  then show ?case using Cons.IH [of "enq e s" "xs @ [e]"] Cons.prems by simp
qed simp

lemma fold_push: "repr s xs \<Longrightarrow> distinct (xs @ es) \<Longrightarrow> MY_NULL \<notin> set es \<Longrightarrow> repr (fold push es s) (rev es @ xs)"
proof (induction es arbitrary: s xs)
  case (Cons e es)
  then have "repr (push e s) (e # xs)" by (auto intro: repr_push)
  then show ?case using Cons.IH [of "push e s" "e # xs"] Cons.prems by auto
qed simp

lemma drain_all: "repr s xs \<Longrightarrow> drain pop (length xs) s = xs"
  by (induction xs arbitrary: s) (auto dest!: pop_head)

lemma unlink_member: "repr s xs \<Longrightarrow> e \<in> set xs \<Longrightarrow> repr (unlink e s) (remove1 e xs)"
  using repr_distinct [of s xs]
  by (auto elim!: distinct_split_member simp: remove1_split repr_unlink)

lemma fifo:
  "repr s [] \<Longrightarrow> distinct es \<Longrightarrow> MY_NULL \<notin> set es \<Longrightarrow> drain pop (length es) (fold enq es s) = es"
  using fold_enq [of s "[]" es] drain_all by fastforce

lemma lifo:
  "repr s [] \<Longrightarrow> distinct es \<Longrightarrow> MY_NULL \<notin> set es \<Longrightarrow> drain pop (length es) (fold push es s) = rev es"
  using fold_push [of s "[]" es] drain_all by fastforce

end

definition sn_push :: "ptr \<Rightarrow> sn_state \<Rightarrow> sn_state" where
  "sn_push e s = SN_LIST_PUSH (fst s) (snd s) e"

definition sn_enqueue :: "ptr \<Rightarrow> sn_state \<Rightarrow> sn_state" where
  "sn_enqueue e s = SN_LIST_ENQUEUE (fst s) (snd s) e"

definition sn_dequeue :: "sn_state \<Rightarrow> ptr \<times> sn_state" where
  "sn_dequeue s = SN_LIST_DEQUEUE (fst s) (snd s)"

definition sn_unlink :: "ptr \<Rightarrow> sn_state \<Rightarrow> sn_state" where
  "sn_unlink e s = SN_LIST_ELEMENT_UNLINK (fst s) (snd s) e"

lemma remove_head_empty: "dll h L [] \<Longrightarrow> SN_LIST_REMOVE_HEAD h L = (MY_NULL, h, L)"
  by (auto simp: dll_def SN_LIST_REMOVE_HEAD_def SN_LIST_HEAD_def)

lemma remove_head_Cons:
  assumes "dll h L (x # xs)"
  shows "fst (SN_LIST_REMOVE_HEAD h L) = x"
    and "dll (fst (snd (SN_LIST_REMOVE_HEAD h L))) (snd (snd (SN_LIST_REMOVE_HEAD h L))) xs"
proof -
  have "list_prev L = x" "x \<noteq> MY_NULL" using assms by (auto simp: dll_def)
  then show "fst (SN_LIST_REMOVE_HEAD h L) = x"
    and "dll (fst (snd (SN_LIST_REMOVE_HEAD h L))) (snd (snd (SN_LIST_REMOVE_HEAD h L))) xs"
    using unlink_dll [of h L "[]" x xs] assms
    by (auto simp: SN_LIST_REMOVE_HEAD_def SN_LIST_HEAD_def)
qed

lemma dll_distinct: "dll h L xs \<Longrightarrow> distinct xs \<and> MY_NULL \<notin> set xs"
  by (auto simp: dll_def dest: dseg_nonnull)

lemma dll_count: "dll h L xs \<Longrightarrow> SN_LIST_LENGTH L = of_nat (length xs)"
  by (simp add: dll_def SN_LIST_LENGTH_def)

interpretation sn: sn_deque "\<lambda>s. dll (fst s) (snd s)" sn_push sn_enqueue sn_dequeue sn_unlink
  "\<lambda>s. SN_LIST_LENGTH (snd s)"
  by unfold_locales
    (auto simp: sn_push_def sn_enqueue_def sn_dequeue_def sn_unlink_def SN_LIST_PUSH_def
      SN_LIST_ENQUEUE_def SN_LIST_DEQUEUE_def insert_head_dll insert_tail_dll
      unlink_dll remove_head_empty remove_head_Cons dll_count dest: dll_distinct)

section \<open>Properties\<close>

text \<open>The list an insertion before \<open>b\<close> should produce: at the end when \<open>b\<close> is null.\<close>

fun insert_before :: "ptr \<Rightarrow> ptr \<Rightarrow> ptr list \<Rightarrow> ptr list" where
  "insert_before e b [] = [e]"
| "insert_before e b (x # xs) = (if x = b then e # x # xs else x # insert_before e b xs)"

lemma insert_before_absent: "b \<notin> set xs \<Longrightarrow> insert_before e b xs = xs @ [e]"
  by (induction xs) auto

lemma insert_before_split: "b \<notin> set as \<Longrightarrow> insert_before e b (as @ b # bs) = as @ e # b # bs"
  by (induction as) auto

text \<open>
  \<open>SN_LIST_ELEMENT_INSERT_BEFORE\<close> links a fresh element before the given one, or
  at the tail when that is null, and leaves a well-formed list: both directions, the two
  head pointers and the cached length agree with the list of elements.
\<close>

theorem sn_insert_before_refines:
  assumes "dll h L xs" "e \<notin> set xs" "e \<noteq> MY_NULL" "b \<in> set xs \<or> b = MY_NULL"
  shows "case SN_LIST_ELEMENT_INSERT_BEFORE h L e b of (h', L') \<Rightarrow> dll h' L' (insert_before e b xs)"
proof (cases "b = MY_NULL")
  case True
  then show ?thesis
    using insert_tail_dll [OF assms(1-3)] dll_distinct [OF assms(1)]
    by (simp add: SN_LIST_INSERT_TAIL_def insert_before_absent case_prod_beta)
next
  case False
  then obtain as bs where "xs = as @ b # bs" "b \<notin> set as"
    using assms(4) split_list_first by metis
  then show ?thesis
    using insert_middle_dll [of h L as b bs e] assms(1-3)
    by (simp add: insert_before_split case_prod_beta)
qed

text \<open>
  C9: \<open>SN_LIST_ELEMENT_UNLINK\<close> takes exactly the given element out of the list,
  re-links its neighbours (or the head), decrements the cached length, and leaves the
  element unlinked.
\<close>

theorem sn_unlink_refines:
  assumes "dll h L xs" "e \<in> set xs"
  shows "case SN_LIST_ELEMENT_UNLINK h L e of (h', L') \<Rightarrow>
    dll h' L' (remove1 e xs) \<and> SN_LIST_LENGTH L' = SN_LIST_LENGTH L - 1 \<and>
    elem_next (h' e) = MY_NULL \<and> elem_prev (h' e) = MY_NULL"
  using sn.unlink_member [of "(h, L)" xs e] assms
  by (auto simp: sn_unlink_def SN_LIST_ELEMENT_UNLINK_def SN_LIST_LENGTH_def Let_def
      case_prod_beta)

text \<open>
  C10: used as a queue (\<open>SN_LIST_ENQUEUE\<close> / \<open>SN_LIST_DEQUEUE\<close>) a list returns its
  elements in the order they were inserted, and used as a stack (\<open>SN_LIST_PUSH\<close> /
  \<open>SN_LIST_POP\<close>) in the opposite order.
\<close>

theorem sn_fifo_lifo:
  assumes "dll h L []" "distinct es" "MY_NULL \<notin> set es"
  shows "drain (\<lambda>s. SN_LIST_DEQUEUE (fst s) (snd s)) (length es)
           (fold (\<lambda>e s. SN_LIST_ENQUEUE (fst s) (snd s) e) es (h, L)) = es \<and>
         drain (\<lambda>s. SN_LIST_POP (fst s) (snd s)) (length es)
           (fold (\<lambda>e s. SN_LIST_PUSH (fst s) (snd s) e) es (h, L)) = rev es"
  using sn.fifo [of "(h, L)" es] sn.lifo [of "(h, L)" es] assms
  by (simp add: sn_push_def [abs_def] sn_enqueue_def [abs_def] sn_dequeue_def [abs_def]
      SN_LIST_POP_def SN_LIST_DEQUEUE_def)

section \<open>Witnesses\<close>

definition ex_heap :: sn_heap where
  "ex_heap = (\<lambda>_. \<lparr>elem_next = 0, elem_prev = 0\<rparr>)
     (5 := \<lparr>elem_next = 7, elem_prev = 0\<rparr>, 7 := \<lparr>elem_next = 0, elem_prev = 5\<rparr>)"

definition ex_list :: sn_list where
  "ex_list = \<lparr>list_next = 7, list_prev = 5, list_length = 2\<rparr>"

lemma ex_dll: "dll ex_heap ex_list [5, 7]"
  by (simp add: dll_def ex_heap_def ex_list_def)

lemma init_dll: "dll h (SN_LIST_INIT L) []"
  by (simp add: dll_def SN_LIST_INIT_def)

theorem sn_traversals_return_witness:
  "sn_list_contains_element ex_heap ex_list 7 = Some True \<and>
   sn_list_length ex_heap ex_list = Some 2"
  using sn_traversals_return [OF ex_dll, of 7]
  by (simp add: SN_LIST_LENGTH_def ex_list_def)

theorem sn_insert_before_refines_witness:
  "case SN_LIST_ELEMENT_INSERT_BEFORE ex_heap ex_list 6 7 of (h', L') \<Rightarrow> dll h' L' [5, 6, 7]"
  using sn_insert_before_refines [OF ex_dll, of 6 7] by simp

theorem sn_unlink_refines_witness:
  "case SN_LIST_ELEMENT_UNLINK ex_heap ex_list 5 of (h', L') \<Rightarrow>
     dll h' L' [7] \<and> SN_LIST_LENGTH L' = 1 \<and> elem_next (h' 5) = MY_NULL \<and> elem_prev (h' 5) = MY_NULL"
  using sn_unlink_refines [OF ex_dll, of 5]
  by (simp add: SN_LIST_LENGTH_def ex_list_def)

theorem sn_fifo_lifo_witness:
  "drain (\<lambda>s. SN_LIST_DEQUEUE (fst s) (snd s)) (length [3, 1, 2 :: ptr])
     (fold (\<lambda>e s. SN_LIST_ENQUEUE (fst s) (snd s) e) [3, 1, 2] (ex_heap, SN_LIST_INIT ex_list)) = [3, 1, 2]"
  by (rule sn_fifo_lifo [OF init_dll, THEN conjunct1]) simp_all

end
