(* ===== verification/NetAddr.thy ===== *)
theory NetAddr
  imports CPrelude
begin

unbundle bit_operations_syntax

text \<open>
  Socket addresses as the code handles them: \<open>struct sockaddr\<close> is the family and 14
  raw bytes, \<open>struct sockaddr_in\<close> the same memory read as port, IPv4 address and
  padding (the bytes of a word are stored low byte first, as on the x86 machines the
  code runs on).  \<open>calc_key\<close> (\<open>common.c\<close>) turns an address into the client id both
  programs use; \<open>read_record\<close> and \<open>RBTreeInsert\<close> copy addresses with \<open>strcpy\<close>,
  whose effect on raw bytes is \<open>strcpy_bytes\<close>.
\<close>

section \<open>Layout\<close>

record sockaddr =
  sa_family :: u16
  sa_data :: "u8 list"

record sockaddr_in =
  sin_family :: u16
  sin_port :: u16
  s_addr :: u32

definition AF_INET :: u16 where
  "AF_INET = 2"

definition byte :: "nat \<Rightarrow> 'a::len word \<Rightarrow> u8" where
  "byte i w = ucast (drop_bit (8 * i) w)"

definition join2 :: "u8 \<Rightarrow> u8 \<Rightarrow> u16" where
  "join2 b0 b1 = ucast b0 OR push_bit 8 (ucast b1)"

definition join4 :: "u8 \<Rightarrow> u8 \<Rightarrow> u8 \<Rightarrow> u8 \<Rightarrow> u32" where
  "join4 b0 b1 b2 b3 =
     ucast b0 OR push_bit 8 (ucast b1) OR push_bit 16 (ucast b2) OR push_bit 24 (ucast b3)"

text \<open>Reading a \<open>sockaddr\<close> as a \<open>sockaddr_in\<close> (a cast in the code) and back.\<close>

definition as_in :: "sockaddr \<Rightarrow> sockaddr_in" where
  "as_in a = \<lparr>sin_family = sa_family a,
     sin_port = join2 (sa_data a ! 0) (sa_data a ! 1),
     s_addr = join4 (sa_data a ! 2) (sa_data a ! 3) (sa_data a ! 4) (sa_data a ! 5)\<rparr>"

definition of_in :: "sockaddr_in \<Rightarrow> sockaddr" where
  "of_in a = \<lparr>sa_family = sin_family a,
     sa_data = [byte 0 (sin_port a), byte 1 (sin_port a),
                byte 0 (s_addr a), byte 1 (s_addr a), byte 2 (s_addr a), byte 3 (s_addr a)]
               @ replicate 8 0\<rparr>"

text \<open>\<open>calc_key\<close>: the client id of an address; 0 for a null pointer or another family.\<close>

definition calc_key :: "sockaddr option \<Rightarrow> u32" where
  "calc_key addr =
     (case addr of
        None \<Rightarrow> 0
      | Some a \<Rightarrow> if sa_family a = AF_INET then s_addr (as_in a) else 0)"

text \<open>
  \<open>strcpy(dst, src)\<close> on byte arrays: the bytes up to and including the first zero are
  copied, the rest of the destination keeps what it held; without a zero the copy runs
  out of the array.
\<close>

fun strcpy_bytes :: "u8 list \<Rightarrow> u8 list \<Rightarrow> u8 list result" where
  "strcpy_bytes dst [] = Inl OutOfBounds"
| "strcpy_bytes [] (b # src) = Inl OutOfBounds"
| "strcpy_bytes (d # dst) (b # src) =
     (if b = 0 then Inr (0 # dst) else bindE (strcpy_bytes dst src) (\<lambda>r. Inr (b # r)))"

section \<open>Round trip of the layout\<close>

lemma join2_byte: "join2 (byte 0 w) (byte 1 w) = w"
  by (rule bit_word_eqI) (auto simp: join2_def byte_def bit_simps)

lemma join4_byte: "join4 (byte 0 w) (byte 1 w) (byte 2 w) (byte 3 w) = w"
proof (rule bit_word_eqI)
  fix n assume "n < LENGTH(32)"
  then have n: "n < 32" by simp
  consider "n < 8" | "8 \<le> n \<and> n < 16" | "16 \<le> n \<and> n < 24" | "24 \<le> n" by linarith
  then show "bit (join4 (byte 0 w) (byte 1 w) (byte 2 w) (byte 3 w)) n = bit w n"
    using n by cases (auto simp: join4_def byte_def bit_simps)
qed

lemma as_in_of_in [simp]: "as_in (of_in a) = a"
  using join2_byte [of "sin_port a"] join4_byte [of "s_addr a"]
  by (simp add: as_in_def of_in_def)

lemma calc_key_of_in: "sin_family a = AF_INET \<Longrightarrow> calc_key (Some (of_in a)) = s_addr a"
  by (simp add: calc_key_def) (simp add: of_in_def)

section \<open>What \<open>strcpy\<close> keeps of an address\<close>

lemma strcpy_bytes_prefix:
  assumes "0 \<notin> set xs" "length dst = length xs + Suc (length zs)" "length ys = length zs"
  shows "strcpy_bytes dst (xs @ 0 # ys) = Inr (xs @ 0 # drop (Suc (length xs)) dst)"
  using assms
proof (induction xs arbitrary: dst)
  case Nil
  then show ?case by (cases dst) auto
next
  case (Cons x xs)
  then show ?case by (cases dst) auto
qed

lemma strcpy_bytes_no_zero: "0 \<notin> set src \<Longrightarrow> strcpy_bytes dst src = Inl OutOfBounds"
  by (induction dst src rule: strcpy_bytes.induct) auto

text \<open>What the destination holds after a copy: the source up to its first zero, then its own bytes.\<close>

definition copied :: "u8 list \<Rightarrow> u8 list \<Rightarrow> u8 list" where
  "copied dst src = (let xs = takeWhile (\<lambda>b. b \<noteq> 0) src in xs @ 0 # drop (Suc (length xs)) dst)"

lemma strcpy_bytes_copied:
  assumes "0 \<in> set src" "length dst = length src"
  shows "strcpy_bytes dst src = Inr (copied dst src)"
proof -
  obtain xs ys where src: "src = xs @ 0 # ys" "0 \<notin> set xs" using assms(1) split_list_first by metis
  then have "takeWhile (\<lambda>b. b \<noteq> 0) src = xs" by (auto simp: takeWhile_append)
  then show ?thesis
    using strcpy_bytes_prefix [OF src(2), of dst ys ys] assms(2) src(1) by (simp add: copied_def Let_def)
qed

end
