(* ===== verification/RbtHeap.thy ===== *)
theory RbtHeap
  imports NetAddr "HOL-Library.Multiset"
begin

text \<open>
  \<open>src/src/rbt.c\<close> and \<open>src/include/RBT.h\<close>: the server's index of clients, a
  red-black tree of heap nodes with parent pointers, a \<open>nil\<close> sentinel and a \<open>root\<close>
  sentinel whose left child is the tree.  The heap is a function from addresses to
  nodes; every function below is the C statement sequence, field write by field write.
  Loops whose end depends on the shape of the heap are partial functions (\<open>None\<close> is
  "does not return").  The memory of a node that \<open>SafeMalloc\<close> has just returned is
  whatever the heap holds there.
\<close>

datatype avail_state = RB_BUSY | RB_FREE

text \<open>
  \<open>client_grp_list\<close> points at an \<open>rb_info_t\<close> that holds a list of
  \<open>rb_cl_grp_node_t\<close>; such a node carries only the pointer of a group node, so the
  field is that list of pointers, head first.
\<close>

record RBT_node =
  rb_key :: u32
  rb_client_addr :: sockaddr
  rb_port :: u32
  rb_grp_list :: "ptr list"
  rb_av_status :: avail_state
  rb_is_moderator :: bool
  rb_red :: bool
  rb_left :: ptr
  rb_right :: ptr
  rb_parent :: ptr
  rb_capability :: u32

record RBT_tree =
  Compare :: "u32 \<Rightarrow> u32 \<Rightarrow> int"
  rb_root :: ptr
  rb_nil :: ptr

type_synonym rb_heap = "ptr \<Rightarrow> RBT_node"

text \<open>\<open>IntComp\<close> (\<open>server.c\<close>), the comparison the server creates its tree with.\<close>

definition IntComp :: "u32 \<Rightarrow> u32 \<Rightarrow> int" where
  "IntComp a b = (if a > b then 1 else if a < b then -1 else 0)"

definition set_left :: "rb_heap \<Rightarrow> ptr \<Rightarrow> ptr \<Rightarrow> rb_heap" where
  "set_left h p q = h(p := (h p)\<lparr>rb_left := q\<rparr>)"

definition set_right :: "rb_heap \<Rightarrow> ptr \<Rightarrow> ptr \<Rightarrow> rb_heap" where
  "set_right h p q = h(p := (h p)\<lparr>rb_right := q\<rparr>)"

definition set_parent :: "rb_heap \<Rightarrow> ptr \<Rightarrow> ptr \<Rightarrow> rb_heap" where
  "set_parent h p q = h(p := (h p)\<lparr>rb_parent := q\<rparr>)"

definition set_red :: "rb_heap \<Rightarrow> ptr \<Rightarrow> bool \<Rightarrow> rb_heap" where
  "set_red h p b = h(p := (h p)\<lparr>rb_red := b\<rparr>)"

section \<open>Creation and rotations\<close>

definition RBTreeCreate :: "rb_heap \<Rightarrow> ptr \<Rightarrow> ptr \<Rightarrow> (u32 \<Rightarrow> u32 \<Rightarrow> int) \<Rightarrow> rb_heap \<times> RBT_tree" where
  "RBTreeCreate h newnil newroot CompFunc =
     (let h1 = h(newnil := (h newnil)\<lparr>rb_parent := newnil, rb_left := newnil, rb_right := newnil,
                                      rb_red := False, rb_key := 0\<rparr>);
          h2 = h1(newroot := (h1 newroot)\<lparr>rb_parent := newnil, rb_left := newnil, rb_right := newnil,
                                      rb_key := 0, rb_red := False\<rparr>)
      in (h2, \<lparr>Compare = CompFunc, rb_root = newroot, rb_nil = newnil\<rparr>))"

definition LeftRotate :: "RBT_tree \<Rightarrow> rb_heap \<Rightarrow> ptr \<Rightarrow> rb_heap" where
  "LeftRotate T h x =
     (let y = rb_right (h x);
          h1 = set_right h x (rb_left (h y));
          h2 = (if rb_left (h1 y) \<noteq> rb_nil T then set_parent h1 (rb_left (h1 y)) x else h1);
          h3 = set_parent h2 y (rb_parent (h2 x));
          h4 = (if x = rb_left (h3 (rb_parent (h3 x)))
                then set_left h3 (rb_parent (h3 x)) y
                else set_right h3 (rb_parent (h3 x)) y);
          h5 = set_left h4 y x
      in set_parent h5 x y)"

definition RightRotate :: "RBT_tree \<Rightarrow> rb_heap \<Rightarrow> ptr \<Rightarrow> rb_heap" where
  "RightRotate T h y =
     (let x = rb_left (h y);
          h1 = set_left h y (rb_right (h x));
          h2 = (if rb_nil T \<noteq> rb_right (h1 x) then set_parent h1 (rb_right (h1 x)) y else h1);
          h3 = set_parent h2 x (rb_parent (h2 y));
          h4 = (if y = rb_left (h3 (rb_parent (h3 y)))
                then set_left h3 (rb_parent (h3 y)) x
                else set_right h3 (rb_parent (h3 y)) x);
          h5 = set_right h4 x y
      in set_parent h5 y x)"

section \<open>Search and insertion\<close>

partial_function (option) insert_pos :: "RBT_tree \<Rightarrow> rb_heap \<Rightarrow> u32 \<Rightarrow> ptr \<Rightarrow> ptr \<Rightarrow> ptr option" where
  "insert_pos T h k y x =
     (if x \<noteq> rb_nil T
      then insert_pos T h k x (if Compare T (rb_key (h x)) k = 1 then rb_left (h x) else rb_right (h x))
      else Some y)"

declare insert_pos.simps [code]

definition TreeInsertHelp :: "RBT_tree \<Rightarrow> rb_heap \<Rightarrow> ptr \<Rightarrow> rb_heap option" where
  "TreeInsertHelp T h z =
     (let h1 = set_right (set_left h z (rb_nil T)) z (rb_nil T)
      in case insert_pos T h1 (rb_key (h1 z)) (rb_root T) (rb_left (h1 (rb_root T))) of
           None \<Rightarrow> None
         | Some y \<Rightarrow>
             let h2 = set_parent h1 z y
             in Some (if y = rb_root T \<or> Compare T (rb_key (h2 y)) (rb_key (h2 z)) = 1
                      then set_left h2 y z else set_right h2 y z))"

text \<open>
  The last three statements of the black-uncle case: the parent turns black, the
  grandparent red, and the grandparent is rotated.
\<close>

definition recolour_right :: "RBT_tree \<Rightarrow> rb_heap \<Rightarrow> ptr \<Rightarrow> rb_heap" where
  "recolour_right T h x =
     (let h2 = set_red h (rb_parent (h x)) False;
          h3 = set_red h2 (rb_parent (h2 (rb_parent (h2 x)))) True
      in RightRotate T h3 (rb_parent (h3 (rb_parent (h3 x)))))"

definition recolour_left :: "RBT_tree \<Rightarrow> rb_heap \<Rightarrow> ptr \<Rightarrow> rb_heap" where
  "recolour_left T h x =
     (let h2 = set_red h (rb_parent (h x)) False;
          h3 = set_red h2 (rb_parent (h2 (rb_parent (h2 x)))) True
      in LeftRotate T h3 (rb_parent (h3 (rb_parent (h3 x)))))"

text \<open>The loop of \<open>RBTreeInsert\<close>: one unfolding is one pass of \<open>while (x->parent->red)\<close>.\<close>

definition insert_fix_step :: "RBT_tree \<Rightarrow> rb_heap \<Rightarrow> ptr \<Rightarrow> rb_heap \<times> ptr" where
  "insert_fix_step T h x =
     (let p = rb_parent (h x); g = rb_parent (h p)
      in if p = rb_left (h g) then
           let y = rb_right (h g)
           in if rb_red (h y)
              then (set_red (set_red (set_red h p False) y False) g True, g)
              else let (h1, x1) = (if x = rb_right (h p) then (LeftRotate T h p, p) else (h, x))
                   in (recolour_right T h1 x1, x1)
         else
           let y = rb_left (h g)
           in if rb_red (h y)
              then (set_red (set_red (set_red h p False) y False) g True, g)
              else let (h1, x1) = (if x = rb_left (h p) then (RightRotate T h p, p) else (h, x))
                   in (recolour_left T h1 x1, x1))"

partial_function (option) insert_fixup :: "RBT_tree \<Rightarrow> rb_heap \<Rightarrow> ptr \<Rightarrow> rb_heap option" where
  "insert_fixup T h x =
     (if rb_red (h (rb_parent (h x)))
      then insert_fixup T (fst (insert_fix_step T h x)) (snd (insert_fix_step T h x))
      else Some h)"

declare insert_fixup.simps [code]

text \<open>
  The field writes of \<open>RBTreeInsert\<close> before the node is linked.  The client address is
  copied with \<open>strcpy\<close>, so the copy can run out of the array: the result is then a fault.
\<close>

definition rb_fill_node :: "rb_heap \<Rightarrow> ptr \<Rightarrow> u32 \<Rightarrow> sockaddr \<Rightarrow> u32 \<Rightarrow> avail_state \<Rightarrow> ptr \<Rightarrow> u32 \<Rightarrow> rb_heap result" where
  "rb_fill_node h x key c_addr port status grp_ptr capability =
     bindE (strcpy_bytes (sa_data (rb_client_addr (h x))) (sa_data c_addr)) (\<lambda>d.
     Inr (h(x := (h x)\<lparr>rb_key := key,
                       rb_client_addr := \<lparr>sa_family = sa_family c_addr, sa_data = d\<rparr>,
                       rb_grp_list := [grp_ptr],
                       rb_port := port,
                       rb_av_status := status,
                       rb_is_moderator := False,
                       rb_capability := capability\<rparr>)))"

definition RBTreeInsert_link :: "RBT_tree \<Rightarrow> rb_heap \<Rightarrow> ptr \<Rightarrow> rb_heap option" where
  "RBTreeInsert_link T h x =
     (case TreeInsertHelp T h x of
        None \<Rightarrow> None
      | Some h1 \<Rightarrow>
          (case insert_fixup T (set_red h1 x True) x of
             None \<Rightarrow> None
           | Some h2 \<Rightarrow> Some (set_red h2 (rb_left (h2 (rb_root T))) False)))"

definition RBTreeInsert :: "RBT_tree \<Rightarrow> rb_heap \<Rightarrow> ptr \<Rightarrow> u32 \<Rightarrow> sockaddr \<Rightarrow> u32 \<Rightarrow> avail_state \<Rightarrow> ptr \<Rightarrow> u32
    \<Rightarrow> rb_heap option result" where
  "RBTreeInsert T h x key c_addr port status grp_ptr capability =
     bindE (rb_fill_node h x key c_addr port status grp_ptr capability) (\<lambda>h1.
     Inr (RBTreeInsert_link T h1 x))"

partial_function (option) find_from :: "RBT_tree \<Rightarrow> rb_heap \<Rightarrow> u32 \<Rightarrow> ptr \<Rightarrow> ptr option" where
  "find_from T h q x =
     (if x = rb_nil T then Some MY_NULL
      else if Compare T (rb_key (h x)) q = 0 then Some x
      else find_from T h q (if Compare T (rb_key (h x)) q = 1 then rb_left (h x) else rb_right (h x)))"

declare find_from.simps [code]

text \<open>\<open>RBFindNodeByID\<close> returns the null pointer when the key is absent.\<close>

definition RBFindNodeByID :: "RBT_tree \<Rightarrow> rb_heap \<Rightarrow> u32 \<Rightarrow> ptr option" where
  "RBFindNodeByID T h q = find_from T h q (rb_left (h (rb_root T)))"

section \<open>Neighbours in key order\<close>

partial_function (option) leftmost :: "RBT_tree \<Rightarrow> rb_heap \<Rightarrow> ptr \<Rightarrow> ptr option" where
  "leftmost T h y = (if rb_left (h y) \<noteq> rb_nil T then leftmost T h (rb_left (h y)) else Some y)"

declare leftmost.simps [code]

partial_function (option) rightmost :: "RBT_tree \<Rightarrow> rb_heap \<Rightarrow> ptr \<Rightarrow> ptr option" where
  "rightmost T h y = (if rb_right (h y) \<noteq> rb_nil T then rightmost T h (rb_right (h y)) else Some y)"

declare rightmost.simps [code]

partial_function (option) climb_right :: "rb_heap \<Rightarrow> ptr \<Rightarrow> ptr \<Rightarrow> ptr option" where
  "climb_right h x y = (if x = rb_right (h y) then climb_right h y (rb_parent (h y)) else Some y)"

declare climb_right.simps [code]

definition TreeSuccessor :: "RBT_tree \<Rightarrow> rb_heap \<Rightarrow> ptr \<Rightarrow> ptr option" where
  "TreeSuccessor T h x =
     (if rb_nil T \<noteq> rb_right (h x) then leftmost T h (rb_right (h x))
      else case climb_right h x (rb_parent (h x)) of
             None \<Rightarrow> None
           | Some y \<Rightarrow> Some (if y = rb_root T then rb_nil T else y))"

partial_function (option) climb_left :: "RBT_tree \<Rightarrow> rb_heap \<Rightarrow> ptr \<Rightarrow> ptr \<Rightarrow> ptr option" where
  "climb_left T h x y =
     (if x = rb_left (h y)
      then (if y = rb_root T then Some (rb_nil T) else climb_left T h y (rb_parent (h y)))
      else Some y)"

declare climb_left.simps [code]

definition TreePredecessor :: "RBT_tree \<Rightarrow> rb_heap \<Rightarrow> ptr \<Rightarrow> ptr option" where
  "TreePredecessor T h x =
     (if rb_nil T \<noteq> rb_left (h x) then rightmost T h (rb_left (h x))
      else climb_left T h x (rb_parent (h x)))"

section \<open>Deletion and destruction\<close>

text \<open>
  One pass of the loop of \<open>RBDeleteFixUp\<close>; \<open>root\<close> is the node that was the top of
  the tree when the function was entered.
\<close>

definition delete_fix_step :: "RBT_tree \<Rightarrow> ptr \<Rightarrow> rb_heap \<Rightarrow> ptr \<Rightarrow> rb_heap \<times> ptr" where
  "delete_fix_step T root h x =
     (if x = rb_left (h (rb_parent (h x))) then
        let w = rb_right (h (rb_parent (h x)));
            (h1, w1) =
              (if rb_red (h w)
               then let h' = set_red (set_red h w False) (rb_parent (h x)) True;
                        h'' = LeftRotate T h' (rb_parent (h' x))
                    in (h'', rb_right (h'' (rb_parent (h'' x))))
               else (h, w))
        in if \<not> rb_red (h1 (rb_right (h1 w1))) \<and> \<not> rb_red (h1 (rb_left (h1 w1)))
           then (set_red h1 w1 True, rb_parent (h1 x))
           else let (h2, w2) =
                      (if \<not> rb_red (h1 (rb_right (h1 w1)))
                       then let h' = set_red (set_red h1 (rb_left (h1 w1)) False) w1 True;
                                h'' = RightRotate T h' w1
                            in (h'', rb_right (h'' (rb_parent (h'' x))))
                       else (h1, w1));
                    h3 = set_red h2 w2 (rb_red (h2 (rb_parent (h2 x))));
                    h4 = set_red h3 (rb_parent (h3 x)) False;
                    h5 = set_red h4 (rb_right (h4 w2)) False
                in (LeftRotate T h5 (rb_parent (h5 x)), root)
      else
        let w = rb_left (h (rb_parent (h x)));
            (h1, w1) =
              (if rb_red (h w)
               then let h' = set_red (set_red h w False) (rb_parent (h x)) True;
                        h'' = RightRotate T h' (rb_parent (h' x))
                    in (h'', rb_left (h'' (rb_parent (h'' x))))
               else (h, w))
        in if \<not> rb_red (h1 (rb_right (h1 w1))) \<and> \<not> rb_red (h1 (rb_left (h1 w1)))
           then (set_red h1 w1 True, rb_parent (h1 x))
           else let (h2, w2) =
                      (if \<not> rb_red (h1 (rb_left (h1 w1)))
                       then let h' = set_red (set_red h1 (rb_right (h1 w1)) False) w1 True;
                                h'' = LeftRotate T h' w1
                            in (h'', rb_left (h'' (rb_parent (h'' x))))
                       else (h1, w1));
                    h3 = set_red h2 w2 (rb_red (h2 (rb_parent (h2 x))));
                    h4 = set_red h3 (rb_parent (h3 x)) False;
                    h5 = set_red h4 (rb_left (h4 w2)) False
                in (RightRotate T h5 (rb_parent (h5 x)), root))"

partial_function (option) delete_fix_loop :: "RBT_tree \<Rightarrow> ptr \<Rightarrow> rb_heap \<Rightarrow> ptr \<Rightarrow> rb_heap option" where
  "delete_fix_loop T root h x =
     (if \<not> rb_red (h x) \<and> root \<noteq> x
      then delete_fix_loop T root (fst (delete_fix_step T root h x)) (snd (delete_fix_step T root h x))
      else Some (set_red h x False))"

declare delete_fix_loop.simps [code]

definition RBDeleteFixUp :: "RBT_tree \<Rightarrow> rb_heap \<Rightarrow> ptr \<Rightarrow> rb_heap option" where
  "RBDeleteFixUp T h x = delete_fix_loop T (rb_left (h (rb_root T))) h x"

text \<open>
  \<open>RBDelete\<close> unlinks \<open>z\<close> from the tree and frees it; the result is the heap the tree
  is then read from (the freed node is no longer linked).
\<close>

definition RBDelete :: "RBT_tree \<Rightarrow> rb_heap \<Rightarrow> ptr \<Rightarrow> rb_heap option" where
  "RBDelete T h z =
     (case (if rb_left (h z) = rb_nil T \<or> rb_right (h z) = rb_nil T then Some z else TreeSuccessor T h z) of
        None \<Rightarrow> None
      | Some y \<Rightarrow>
          let x = (if rb_left (h y) = rb_nil T then rb_right (h y) else rb_left (h y));
              h1 = set_parent h x (rb_parent (h y));
              h2 = (if rb_root T = rb_parent (h1 x) then set_left h1 (rb_root T) x
                    else if y = rb_left (h1 (rb_parent (h1 y)))
                         then set_left h1 (rb_parent (h1 y)) x
                         else set_right h1 (rb_parent (h1 y)) x)
          in (case (if \<not> rb_red (h2 y) then RBDeleteFixUp T h2 x else Some h2) of
                None \<Rightarrow> None
              | Some h3 \<Rightarrow>
                  if y \<noteq> z then
                    let h4 = h3(y := (h3 y)\<lparr>rb_left := rb_left (h3 z), rb_right := rb_right (h3 z),
                                           rb_parent := rb_parent (h3 z), rb_red := rb_red (h3 z)\<rparr>);
                        h5 = set_parent h4 (rb_right (h4 z)) y;
                        h6 = set_parent h5 (rb_left (h5 z)) y
                    in Some (if z = rb_left (h6 (rb_parent (h6 z)))
                             then set_left h6 (rb_parent (h6 z)) y
                             else set_right h6 (rb_parent (h6 z)) y)
                  else Some h3))"

text \<open>
  \<open>RBTreeDestroy\<close> frees every node, children first, then the two sentinels (and last the
  structure of the tree itself, which is no node and not part of the heap): the result
  is the sequence of freed addresses.
\<close>

partial_function (option) TreeDestHelper :: "RBT_tree \<Rightarrow> rb_heap \<Rightarrow> ptr \<Rightarrow> ptr list option" where
  "TreeDestHelper T h x =
     (if x \<noteq> rb_nil T
      then Option.bind (TreeDestHelper T h (rb_left (h x))) (\<lambda>ls.
           Option.bind (TreeDestHelper T h (rb_right (h x))) (\<lambda>rs.
           Some (ls @ rs @ [x])))
      else Some [])"

declare TreeDestHelper.simps [code]

definition RBTreeDestroy :: "RBT_tree \<Rightarrow> rb_heap \<Rightarrow> ptr list option" where
  "RBTreeDestroy T h =
     Option.bind (TreeDestHelper T h (rb_left (h (rb_root T)))) (\<lambda>xs. Some (xs @ [rb_root T, rb_nil T]))"

end
