(* ===== verification/RbtShape.thy ===== *)
theory RbtShape
  imports RbtHeap
begin

text \<open>
  The abstraction of the heap of \<open>rbt.c\<close>: \<open>ptree\<close> is the tree of node addresses, a
  \<open>frame list\<close> is the path from a subtree up to the root sentinel.  \<open>focus T h x t C\<close>
  says that the heap holds, at \<open>x\<close>, the subtree \<open>t\<close> in the surroundings \<open>C\<close>.
  The rotations are proved here against that abstraction.
\<close>

section \<open>Field lemmas of the heap writes\<close>

named_theorems rb_fields "reading a field after a heap write"

lemma set_left_fields [rb_fields]:
  "rb_left (set_left h p q a) = (if a = p then q else rb_left (h a))"
  "rb_right (set_left h p q a) = rb_right (h a)"
  "rb_parent (set_left h p q a) = rb_parent (h a)"
  "rb_red (set_left h p q a) = rb_red (h a)"
  "rb_key (set_left h p q a) = rb_key (h a)"
  by (simp_all add: set_left_def)

lemma set_right_fields [rb_fields]:
  "rb_left (set_right h p q a) = rb_left (h a)"
  "rb_right (set_right h p q a) = (if a = p then q else rb_right (h a))"
  "rb_parent (set_right h p q a) = rb_parent (h a)"
  "rb_red (set_right h p q a) = rb_red (h a)"
  "rb_key (set_right h p q a) = rb_key (h a)"
  by (simp_all add: set_right_def)

lemma set_parent_fields [rb_fields]:
  "rb_left (set_parent h p q a) = rb_left (h a)"
  "rb_right (set_parent h p q a) = rb_right (h a)"
  "rb_parent (set_parent h p q a) = (if a = p then q else rb_parent (h a))"
  "rb_red (set_parent h p q a) = rb_red (h a)"
  "rb_key (set_parent h p q a) = rb_key (h a)"
  by (simp_all add: set_parent_def)

lemma set_red_fields [rb_fields]:
  "rb_left (set_red h p b a) = rb_left (h a)"
  "rb_right (set_red h p b a) = rb_right (h a)"
  "rb_parent (set_red h p b a) = rb_parent (h a)"
  "rb_red (set_red h p b a) = (if a = p then b else rb_red (h a))"
  "rb_key (set_red h p b a) = rb_key (h a)"
  by (simp_all add: set_red_def)

text \<open>What the tree operations never write: everything but the links and the colour.\<close>

definition payload :: "RBT_node \<Rightarrow> u32 \<times> sockaddr \<times> u32 \<times> ptr list \<times> avail_state \<times> bool \<times> u32" where
  "payload n = (rb_key n, rb_client_addr n, rb_port n, rb_grp_list n, rb_av_status n,
                rb_is_moderator n, rb_capability n)"

lemma payload_writes [rb_fields]:
  "payload (set_left h p q a) = payload (h a)"
  "payload (set_right h p q a) = payload (h a)"
  "payload (set_parent h p q a) = payload (h a)"
  "payload (set_red h p b a) = payload (h a)"
  by (simp_all add: payload_def set_left_def set_right_def set_parent_def set_red_def)

section \<open>Trees and surroundings\<close>

datatype ptree = Lf | Nd ptree ptr ptree

fun addrs :: "ptree \<Rightarrow> ptr list" where
  "addrs Lf = []"
| "addrs (Nd l a r) = addrs l @ a # addrs r"

datatype frame = FL ptr ptree | FR ptree ptr

fun frame_addrs :: "frame \<Rightarrow> ptr list" where
  "frame_addrs (FL p r) = p # addrs r"
| "frame_addrs (FR l p) = addrs l @ [p]"

definition ctx_addrs :: "frame list \<Rightarrow> ptr list" where
  "ctx_addrs C = concat (map frame_addrs C)"

fun plug :: "frame list \<Rightarrow> ptree \<Rightarrow> ptree" where
  "plug [] t = t"
| "plug (FL p r # C) t = plug C (Nd t p r)"
| "plug (FR l p # C) t = plug C (Nd l p t)"

fun hole_par :: "ptr \<Rightarrow> frame list \<Rightarrow> ptr" where
  "hole_par rt [] = rt"
| "hole_par rt (FL p r # C) = p"
| "hole_par rt (FR l p # C) = p"

fun tree_at :: "ptr \<Rightarrow> rb_heap \<Rightarrow> ptr \<Rightarrow> ptr \<Rightarrow> ptree \<Rightarrow> bool" where
  "tree_at nl h par x Lf \<longleftrightarrow> x = nl"
| "tree_at nl h par x (Nd l a r) \<longleftrightarrow> x = a \<and> a \<noteq> nl \<and> rb_parent (h a) = par \<and>
     tree_at nl h a (rb_left (h a)) l \<and> tree_at nl h a (rb_right (h a)) r"

fun ctx_at :: "ptr \<Rightarrow> ptr \<Rightarrow> rb_heap \<Rightarrow> ptr \<Rightarrow> frame list \<Rightarrow> bool" where
  "ctx_at nl rt h x [] \<longleftrightarrow> rb_left (h rt) = x"
| "ctx_at nl rt h x (FL p r # C) \<longleftrightarrow> rb_left (h p) = x \<and> p \<noteq> nl \<and> rb_parent (h p) = hole_par rt C \<and>
     tree_at nl h p (rb_right (h p)) r \<and> ctx_at nl rt h p C"
| "ctx_at nl rt h x (FR l p # C) \<longleftrightarrow> rb_right (h p) = x \<and> p \<noteq> nl \<and> rb_parent (h p) = hole_par rt C \<and>
     tree_at nl h p (rb_left (h p)) l \<and> ctx_at nl rt h p C"

definition focus :: "RBT_tree \<Rightarrow> rb_heap \<Rightarrow> ptr \<Rightarrow> ptree \<Rightarrow> frame list \<Rightarrow> bool" where
  "focus T h x t C \<longleftrightarrow> tree_at (rb_nil T) h (hole_par (rb_root T) C) x t \<and>
     ctx_at (rb_nil T) (rb_root T) h x C \<and> distinct (addrs t @ ctx_addrs C) \<and>
     rb_root T \<notin> set (addrs t @ ctx_addrs C) \<and> rb_nil T \<notin> set (addrs t @ ctx_addrs C) \<and>
     rb_root T \<noteq> rb_nil T \<and> rb_right (h (rb_root T)) = rb_nil T"

lemma ctx_addrs_simps [simp]:
  "ctx_addrs [] = []"
  "ctx_addrs (f # C) = frame_addrs f @ ctx_addrs C"
  by (simp_all add: ctx_addrs_def)

lemma mset_plug: "mset (addrs (plug C t)) = mset (addrs t) + mset (ctx_addrs C)"
  by (induction C t rule: plug.induct) auto

lemma set_plug: "set (addrs (plug C t)) = set (addrs t) \<union> set (ctx_addrs C)"
  by (metis mset_plug set_mset_mset set_mset_union)

lemma distinct_plug: "distinct (addrs (plug C t)) \<longleftrightarrow> distinct (addrs t @ ctx_addrs C)"
  using mset_plug [of C t] by (metis mset_append mset_eq_imp_distinct_iff)

lemma addrs_plug: "\<exists>ls rs. \<forall>t. addrs (plug C t) = ls @ addrs t @ rs"
proof (induction C)
  case Nil
  show ?case by (rule exI [of _ "[]"], rule exI [of _ "[]"]) simp
next
  case (Cons f C)
  then obtain ls rs where e: "\<And>t. addrs (plug C t) = ls @ addrs t @ rs" by blast
  show ?case
  proof (cases f)
    case (FL p r)
    then show ?thesis
      by (intro exI [of _ ls] exI [of _ "p # addrs r @ rs"]) (simp add: e)
  next
    case (FR l p)
    then show ?thesis
      by (intro exI [of _ "ls @ addrs l @ [p]"] exI [of _ rs]) (simp add: e)
  qed
qed

lemma plug_addrs_cong: "addrs t = addrs t' \<Longrightarrow> addrs (plug C t) = addrs (plug C t')"
  using addrs_plug [of C] by metis

text \<open>Frame rules: a subtree depends on the links of its own nodes only.\<close>

definition same_links :: "ptr set \<Rightarrow> rb_heap \<Rightarrow> rb_heap \<Rightarrow> bool" where
  "same_links S h h' \<longleftrightarrow> (\<forall>a\<in>S. rb_left (h' a) = rb_left (h a) \<and> rb_right (h' a) = rb_right (h a) \<and>
     rb_parent (h' a) = rb_parent (h a))"

lemma tree_at_cong: "same_links (set (addrs t)) h h' \<Longrightarrow> tree_at nl h' par x t = tree_at nl h par x t"
  by (induction t arbitrary: par x) (auto simp: same_links_def)

lemma ctx_at_cong:
  "same_links (insert rt (set (ctx_addrs C))) h h' \<Longrightarrow> ctx_at nl rt h' x C = ctx_at nl rt h x C"
proof (induction C arbitrary: x)
  case Nil
  then show ?case by (simp add: same_links_def)
next
  case (Cons f C)
  then have ih: "ctx_at nl rt h' y C = ctx_at nl rt h y C" for y
    by (auto simp: same_links_def)
  show ?case
  proof (cases f)
    case (FL p r)
    then have "same_links (set (addrs r)) h h'"
      and p: "rb_left (h' p) = rb_left (h p)" "rb_right (h' p) = rb_right (h p)"
        "rb_parent (h' p) = rb_parent (h p)"
      using Cons.prems by (auto simp: same_links_def)
    then show ?thesis using FL by (simp add: tree_at_cong p ih)
  next
    case (FR l p)
    then have "same_links (set (addrs l)) h h'"
      and p: "rb_left (h' p) = rb_left (h p)" "rb_right (h' p) = rb_right (h p)"
        "rb_parent (h' p) = rb_parent (h p)"
      using Cons.prems by (auto simp: same_links_def)
    then show ?thesis using FR by (simp add: tree_at_cong p ih)
  qed
qed

lemma focus_cong:
  "same_links (insert (rb_root T) (set (addrs t) \<union> set (ctx_addrs C))) h h' \<Longrightarrow>
   focus T h' x t C = focus T h x t C"
proof -
  assume a: "same_links (insert (rb_root T) (set (addrs t) \<union> set (ctx_addrs C))) h h'"
  then have "same_links (set (addrs t)) h h'"
    and "same_links (insert (rb_root T) (set (ctx_addrs C))) h h'"
    by (auto simp: same_links_def)
  with a show ?thesis by (simp add: focus_def tree_at_cong ctx_at_cong) (simp add: same_links_def)
qed

lemma focus_set_red [simp]: "focus T (set_red h p b) x t C = focus T h x t C"
  by (rule focus_cong) (simp add: same_links_def rb_fields)

text \<open>Hanging a subtree under another parent.\<close>

lemma tree_at_reparent:
  assumes "tree_at nl h par x t" "distinct (addrs t)"
    and "\<forall>a\<in>set (addrs t). rb_left (h' a) = rb_left (h a) \<and> rb_right (h' a) = rb_right (h a)"
    and "\<forall>a\<in>set (addrs t). a \<noteq> x \<longrightarrow> rb_parent (h' a) = rb_parent (h a)"
    and "x \<noteq> nl \<longrightarrow> rb_parent (h' x) = par'"
  shows "tree_at nl h' par' x t"
proof (cases t)
  case Lf
  with assms show ?thesis by simp
next
  case (Nd l a r)
  have "same_links (set (addrs l)) h h'" "same_links (set (addrs r)) h h'"
    using assms Nd by (auto simp: same_links_def)
  with assms Nd show ?thesis by (auto simp: tree_at_cong)
qed

text \<open>Replacing what the hole of the surroundings points at.\<close>

lemma ctx_at_retarget:
  assumes "ctx_at nl rt h x C" "distinct (ctx_addrs C)" "rt \<notin> set (ctx_addrs C)"
    and "x \<notin> set (ctx_addrs C)" "x \<noteq> nl"
    and "same_links (insert rt (set (ctx_addrs C)) - {hole_par rt C}) h h'"
    and "rb_parent (h' (hole_par rt C)) = rb_parent (h (hole_par rt C))"
    and "rb_left (h' (hole_par rt C)) =
           (if rb_left (h (hole_par rt C)) = x then y else rb_left (h (hole_par rt C)))"
    and "rb_right (h' (hole_par rt C)) =
           (if rb_left (h (hole_par rt C)) = x then rb_right (h (hole_par rt C)) else y)"
  shows "ctx_at nl rt h' y C"
proof (cases C)
  case Nil
  with assms show ?thesis by simp
next
  case (Cons f C')
  show ?thesis
  proof (cases f)
    case (FL p r)
    have "same_links (set (addrs r)) h h'" "same_links (insert rt (set (ctx_addrs C'))) h h'"
      using assms Cons FL by (auto simp: same_links_def)
    with assms Cons FL show ?thesis by (auto simp: tree_at_cong ctx_at_cong)
  next
    case (FR l p)
    have "same_links (set (addrs l)) h h'" "same_links (insert rt (set (ctx_addrs C'))) h h'"
      using assms Cons FR by (auto simp: same_links_def)
    moreover have "rb_left (h p) \<noteq> x"
      using assms Cons FR by (cases l) auto
    ultimately show ?thesis using assms Cons FR by (auto simp: tree_at_cong ctx_at_cong)
  qed
qed

lemma focus_FL:
  "focus T h x t (FL p r # C) \<longleftrightarrow> focus T h p (Nd t p r) C \<and> x = rb_left (h p)"
  by (auto simp: focus_def)

lemma focus_FR:
  "focus T h x t (FR l p # C) \<longleftrightarrow> focus T h p (Nd l p t) C \<and> x = rb_right (h p)"
  by (auto simp: focus_def)

lemma focus_addr: "focus T h x (Nd l a r) C \<Longrightarrow> a = x"
  by (simp add: focus_def)

lemma focus_parent:
  "focus T h x (Nd l a r) C \<Longrightarrow> rb_parent (h x) = hole_par (rb_root T) C"
  by (auto simp: focus_def)

text \<open>The whole tree, seen from the root sentinel, and any subtree of it.\<close>

lemma focus_plug: "focus T h x t C \<Longrightarrow> focus T h (rb_left (h (rb_root T))) (plug C t) []"
proof (induction C t arbitrary: x rule: plug.induct)
  case (1 t)
  then show ?case by (auto simp: focus_def)
next
  case (2 p r C t)
  then show ?case by (auto simp: focus_FL)
next
  case (3 l p C t)
  then show ?case by (auto simp: focus_FR)
qed

lemma focus_into: "focus T h x (plug C t) [] \<Longrightarrow> \<exists>y. focus T h y t C"
proof (induction C t rule: plug.induct)
  case (1 t)
  then show ?case by auto
next
  case (2 p r C t)
  then obtain y where "focus T h y (Nd t p r) C" by auto
  then show ?case using focus_addr by (fastforce simp: focus_FL)
next
  case (3 l p C t)
  then obtain y where "focus T h y (Nd l p t) C" by auto
  then show ?case using focus_addr by (fastforce simp: focus_FR)
qed

section \<open>Rotations\<close>

lemma LeftRotate_unchanged [rb_fields]:
  "rb_red (LeftRotate T h x a) = rb_red (h a)"
  "rb_key (LeftRotate T h x a) = rb_key (h a)"
  "payload (LeftRotate T h x a) = payload (h a)"
  by (auto simp: LeftRotate_def Let_def rb_fields)

lemma RightRotate_unchanged [rb_fields]:
  "rb_red (RightRotate T h x a) = rb_red (h a)"
  "rb_key (RightRotate T h x a) = rb_key (h a)"
  "payload (RightRotate T h x a) = payload (h a)"
  by (auto simp: RightRotate_def Let_def rb_fields)

lemma LeftRotate_links:
  assumes "y = rb_right (h x)" "p = rb_parent (h x)" "b = rb_left (h y)"
    and "x \<noteq> y" "p \<noteq> x" "p \<noteq> y" "b \<noteq> x" "b \<noteq> y"
  shows "rb_left (LeftRotate T h x a) =
           (if a = y then x else if a = p \<and> rb_left (h p) = x then y else rb_left (h a))"
    and "rb_right (LeftRotate T h x a) =
           (if a = x then b else if a = p \<and> rb_left (h p) \<noteq> x then y else rb_right (h a))"
    and "rb_parent (LeftRotate T h x a) =
           (if a = x then y else if a = y then p
            else if a = b \<and> b \<noteq> rb_nil T then x else rb_parent (h a))"
  using assms by (auto simp: LeftRotate_def Let_def rb_fields)

lemma RightRotate_links:
  assumes "x = rb_left (h y)" "p = rb_parent (h y)" "b = rb_right (h x)"
    and "x \<noteq> y" "p \<noteq> x" "p \<noteq> y" "b \<noteq> x" "b \<noteq> y"
  shows "rb_right (RightRotate T h y a) =
           (if a = x then y else if a = p \<and> rb_left (h p) \<noteq> y then x else rb_right (h a))"
    and "rb_left (RightRotate T h y a) =
           (if a = y then b else if a = p \<and> rb_left (h p) = y then x else rb_left (h a))"
    and "rb_parent (RightRotate T h y a) =
           (if a = y then x else if a = x then p
            else if a = b \<and> b \<noteq> rb_nil T then y else rb_parent (h a))"
  using assms by (auto simp: RightRotate_def Let_def rb_fields)

lemma hole_par_mem: "hole_par rt C \<in> insert rt (set (ctx_addrs C))"
  by (cases "(rt, C)" rule: hole_par.cases) auto

lemma hole_par_root: "ctx_at nl rt h x C \<Longrightarrow> rt \<notin> set (ctx_addrs C) \<Longrightarrow> hole_par rt C = rt \<Longrightarrow> rb_left (h rt) = x"
  by (cases "(rt, C)" rule: hole_par.cases) auto

lemma tree_at_root: "tree_at nl h par x t \<Longrightarrow> x = nl \<or> x \<in> set (addrs t)"
  by (cases t) auto

lemma LeftRotate_focus:
  assumes "focus T h x (Nd a x (Nd b y d)) C"
  shows "focus T (LeftRotate T h x) y (Nd (Nd a x b) y d) C"
proof -
  define p where "p = hole_par (rb_root T) C"
  define z where "z = rb_left (h y)"
  note F = assms [unfolded focus_def]
  have y: "rb_right (h x) = y" and px: "rb_parent (h x) = p" and py: "rb_parent (h y) = x"
    using F by (auto simp: p_def)
  have pm: "p \<in> insert (rb_root T) (set (ctx_addrs C))"
    unfolding p_def by (rule hole_par_mem)
  have ne: "x \<noteq> y" "p \<noteq> x" "p \<noteq> y" using F pm by auto
  have "tree_at (rb_nil T) h y z b" using F by (auto simp: z_def)
  then have z: "z = rb_nil T \<or> z \<in> set (addrs b)" by (rule tree_at_root)
  have zne: "z \<noteq> x" "z \<noteq> y" "z \<noteq> p" using F pm z by auto
  note L = LeftRotate_links [OF y [symmetric] px [symmetric] z_def ne zne(1,2), where T = T]
  let ?h = "LeftRotate T h x"
  have A: "tree_at (rb_nil T) ?h x (rb_left (?h x)) a"
  proof (subst tree_at_cong [where h = h])
    show "same_links (set (addrs a)) h ?h"
      using F pm z by (auto simp: same_links_def L)
    show "tree_at (rb_nil T) h x (rb_left (?h x)) a" using F ne by (auto simp: L)
  qed
  have D: "tree_at (rb_nil T) ?h y (rb_right (?h y)) d"
  proof (subst tree_at_cong [where h = h])
    show "same_links (set (addrs d)) h ?h"
      using F pm z by (auto simp: same_links_def L)
    show "tree_at (rb_nil T) h y (rb_right (?h y)) d" using F ne by (auto simp: L)
  qed
  have B: "tree_at (rb_nil T) ?h x (rb_right (?h x)) b"
  proof (rule tree_at_reparent [where h = h and par = y])
    show "tree_at (rb_nil T) h y (rb_right (?h x)) b" using F ne by (auto simp: L z_def)
    show "distinct (addrs b)" using F by auto
  qed (use F pm ne zne in \<open>auto simp: L\<close>)
  have Cx: "ctx_at (rb_nil T) (rb_root T) ?h y C"
  proof (rule ctx_at_retarget [where h = h and x = x])
    show "same_links (insert (rb_root T) (set (ctx_addrs C)) - {hole_par (rb_root T) C}) h ?h"
      using F ne zne z by (auto simp: same_links_def L p_def [symmetric])
  qed (use F pm ne zne z in \<open>auto simp: L p_def [symmetric]\<close>)
  have "p = rb_root T \<Longrightarrow> rb_left (h p) = x" using F by (auto simp: p_def dest: hole_par_root)
  then have rt: "rb_right (?h (rb_root T)) = rb_nil T" using F by (auto simp: L)
  show ?thesis
    unfolding focus_def using F A B D Cx ne zne rt by (auto simp: L p_def [symmetric])
qed

lemma RightRotate_focus:
  assumes "focus T h y (Nd (Nd a x b) y d) C"
  shows "focus T (RightRotate T h y) x (Nd a x (Nd b y d)) C"
proof -
  define p where "p = hole_par (rb_root T) C"
  define z where "z = rb_right (h x)"
  note F = assms [unfolded focus_def]
  have x: "rb_left (h y) = x" and py: "rb_parent (h y) = p" and px: "rb_parent (h x) = y"
    using F by (auto simp: p_def)
  have pm: "p \<in> insert (rb_root T) (set (ctx_addrs C))"
    unfolding p_def by (rule hole_par_mem)
  have ne: "x \<noteq> y" "p \<noteq> x" "p \<noteq> y" using F pm by auto
  have "tree_at (rb_nil T) h x z b" using F by (auto simp: z_def)
  then have z: "z = rb_nil T \<or> z \<in> set (addrs b)" by (rule tree_at_root)
  have zne: "z \<noteq> x" "z \<noteq> y" "z \<noteq> p" using F pm z by auto
  note L = RightRotate_links [OF x [symmetric] py [symmetric] z_def ne zne(1,2), where T = T]
  let ?h = "RightRotate T h y"
  have A: "tree_at (rb_nil T) ?h x (rb_left (?h x)) a"
  proof (subst tree_at_cong [where h = h])
    show "same_links (set (addrs a)) h ?h"
      using F pm z by (auto simp: same_links_def L)
    show "tree_at (rb_nil T) h x (rb_left (?h x)) a" using F ne by (auto simp: L)
  qed
  have D: "tree_at (rb_nil T) ?h y (rb_right (?h y)) d"
  proof (subst tree_at_cong [where h = h])
    show "same_links (set (addrs d)) h ?h"
      using F pm z by (auto simp: same_links_def L)
    show "tree_at (rb_nil T) h y (rb_right (?h y)) d" using F ne by (auto simp: L)
  qed
  have B: "tree_at (rb_nil T) ?h y (rb_left (?h y)) b"
  proof (rule tree_at_reparent [where h = h and par = x])
    show "tree_at (rb_nil T) h x (rb_left (?h y)) b" using F ne by (auto simp: L z_def)
    show "distinct (addrs b)" using F by auto
  qed (use F pm ne zne in \<open>auto simp: L\<close>)
  have Cx: "ctx_at (rb_nil T) (rb_root T) ?h x C"
  proof (rule ctx_at_retarget [where h = h and x = y])
    show "same_links (insert (rb_root T) (set (ctx_addrs C)) - {hole_par (rb_root T) C}) h ?h"
      using F ne zne z by (auto simp: same_links_def L p_def [symmetric])
  qed (use F pm ne zne z in \<open>auto simp: L p_def [symmetric]\<close>)
  have "p = rb_root T \<Longrightarrow> rb_left (h p) = y" using F by (auto simp: p_def dest: hole_par_root)
  then have rt: "rb_right (?h (rb_root T)) = rb_nil T" using F by (auto simp: L)
  show ?thesis
    unfolding focus_def using F A B D Cx ne zne rt by (auto simp: L p_def [symmetric])
qed

end
