(* ===== verification/RbtColour.thy ===== *)
theory RbtColour
  imports RbtShape
begin

text \<open>
  The red-black invariants over the address trees of \<open>RbtShape\<close> (the colour is a
  function of the address, read from the heap) and the proof that the fix-up loop of
  \<open>RBTreeInsert\<close> returns and restores them.
\<close>

section \<open>Colour invariants\<close>

definition redf :: "rb_heap \<Rightarrow> ptr \<Rightarrow> bool" where
  "redf h a = rb_red (h a)"

fun rootred :: "(ptr \<Rightarrow> bool) \<Rightarrow> ptree \<Rightarrow> bool" where
  "rootred c Lf = False"
| "rootred c (Nd l a r) = c a"

fun bh :: "(ptr \<Rightarrow> bool) \<Rightarrow> ptree \<Rightarrow> nat" where
  "bh c Lf = 0"
| "bh c (Nd l a r) = (if c a then bh c l else Suc (bh c l))"

fun invh :: "(ptr \<Rightarrow> bool) \<Rightarrow> ptree \<Rightarrow> bool" where
  "invh c Lf = True"
| "invh c (Nd l a r) = (bh c l = bh c r \<and> invh c l \<and> invh c r)"

fun invc :: "(ptr \<Rightarrow> bool) \<Rightarrow> ptree \<Rightarrow> bool" where
  "invc c Lf = True"
| "invc c (Nd l a r) = ((c a \<longrightarrow> \<not> rootred c l \<and> \<not> rootred c r) \<and> invc c l \<and> invc c r)"

fun hole_red :: "(ptr \<Rightarrow> bool) \<Rightarrow> frame list \<Rightarrow> bool" where
  "hole_red c [] = False"
| "hole_red c (FL p r # C) = c p"
| "hole_red c (FR l p # C) = c p"

text \<open>The surroundings are red-black around a hole of black height \<open>n\<close>.\<close>

fun cinv :: "(ptr \<Rightarrow> bool) \<Rightarrow> nat \<Rightarrow> frame list \<Rightarrow> bool" where
  "cinv c n [] = True"
| "cinv c n (FL p s # C) = (invc c s \<and> invh c s \<and> bh c s = n \<and>
     (c p \<longrightarrow> \<not> rootred c s \<and> \<not> hole_red c C \<and> C \<noteq> []) \<and> cinv c (if c p then n else Suc n) C)"
| "cinv c n (FR s p # C) = (invc c s \<and> invh c s \<and> bh c s = n \<and>
     (c p \<longrightarrow> \<not> rootred c s \<and> \<not> hole_red c C \<and> C \<noteq> []) \<and> cinv c (if c p then n else Suc n) C)"

lemma colour_cong:
  assumes "\<forall>a\<in>set (addrs t). c a = c' a"
  shows "rootred c t = rootred c' t" "bh c t = bh c' t" "invh c t = invh c' t" "invc c t = invc c' t"
proof -
  have r: "rootred c t = rootred c' t" if "\<forall>a\<in>set (addrs t). c a = c' a" for t
    using that by (cases t) auto
  have b: "bh c t = bh c' t" if "\<forall>a\<in>set (addrs t). c a = c' a" for t
    using that by (induction t) auto
  show "rootred c t = rootred c' t" "bh c t = bh c' t" using r b assms by auto
  show "invh c t = invh c' t" using assms
  proof (induction t)
    case (Nd l a r)
    then show ?case using b [of l] b [of r] by auto
  qed simp
  show "invc c t = invc c' t" using assms
  proof (induction t)
    case (Nd l a t2)
    then show ?case using r [of l] r [of t2] by auto
  qed simp
qed

lemma hole_red_cong: "\<forall>a\<in>set (ctx_addrs C). c a = c' a \<Longrightarrow> hole_red c C = hole_red c' C"
  by (cases "(c, C)" rule: hole_red.cases) auto

lemma cinv_cong: "\<forall>a\<in>set (ctx_addrs C). c a = c' a \<Longrightarrow> cinv c n C = cinv c' n C"
proof (induction c n C rule: cinv.induct)
  case (2 c n p s C)
  then have "\<forall>a\<in>set (addrs s). c a = c' a" "\<forall>a\<in>set (ctx_addrs C). c a = c' a" "c p = c' p" by auto
  with 2(1) show ?case by (simp add: colour_cong [of s c c'] hole_red_cong [of C c c'])
next
  case (3 c n s p C)
  then have "\<forall>a\<in>set (addrs s). c a = c' a" "\<forall>a\<in>set (ctx_addrs C). c a = c' a" "c p = c' p" by auto
  with 3(1) show ?case by (simp add: colour_cong [of s c c'] hole_red_cong [of C c c'])
qed simp

lemma plug_colour:
  assumes "cinv c (bh c t) C" "invc c t" "invh c t" "hole_red c C \<longrightarrow> \<not> rootred c t"
  shows "invc c (plug C t) \<and> invh c (plug C t)"
  using assms
proof (induction C t rule: plug.induct)
  case (2 p r C t)
  show ?case unfolding plug.simps using 2(2-) by (intro 2(1)) (auto split: if_splits)
next
  case (3 l p C t)
  show ?case unfolding plug.simps using 3(2-) by (intro 3(1)) (auto split: if_splits)
qed simp

text \<open>The path from the root to a hole, in a tree that satisfies the invariants.\<close>

lemma plug_cinv:
  assumes "invc c (plug C t)" "invh c (plug C t)" "\<not> rootred c (plug C t)"
  shows "cinv c (bh c t) C \<and> invc c t \<and> invh c t \<and> (hole_red c C \<or> C = [] \<longrightarrow> \<not> rootred c t)"
  using assms
proof (induction C t rule: plug.induct)
  case (2 p r C t)
  then show ?case by (fastforce split: if_splits)
next
  case (3 l p C t)
  then show ?case by (fastforce split: if_splits)
qed simp

lemma tree_at_red:
  "tree_at nl h par x t \<Longrightarrow> \<not> rb_red (h nl) \<Longrightarrow> rb_red (h x) = rootred (redf h) t"
  by (cases t) (auto simp: redf_def)

lemma hole_par_red:
  "\<not> rb_red (h rt) \<Longrightarrow> rb_red (h (hole_par rt C)) = hole_red (redf h) C"
  by (cases "(rt, C)" rule: hole_par.cases) (auto simp: redf_def)

lemma hole_red_frames:
  assumes "hole_red c C" "cinv c n C"
  obtains p s g u C' where "C = FL p s # FL g u # C'"
  | p s g u C' where "C = FR s p # FL g u # C'"
  | p s g u C' where "C = FL p s # FR u g # C'"
  | p s g u C' where "C = FR s p # FR u g # C'"
  using assms
  by (cases "(c, C)" rule: hole_red.cases; simp) (metis frame.exhaust list.exhaust)+

end
