(* ===== verification/RbtInsert.thy ===== *)
theory RbtInsert
  imports RbtColour
begin

text \<open>
  Insertion: the fix-up loop of \<open>RBTreeInsert\<close> returns and restores the red-black
  invariants, in every case of parent, uncle and side.
\<close>

section \<open>Reading the surroundings\<close>

lemma focus_hole_parent:
  "focus T h x (Nd l a r) C \<Longrightarrow> rb_parent (h x) = hole_par (rb_root T) C"
  by (auto simp: focus_def)

lemma focus_FLD: "focus T h x t (FL p r # C) \<Longrightarrow> focus T h p (Nd t p r) C"
  by (simp add: focus_FL)

lemma focus_FRD: "focus T h x t (FR l p # C) \<Longrightarrow> focus T h p (Nd l p t) C"
  by (simp add: focus_FR)

lemma focus_links:
  "focus T h x (Nd l a r) (FL p s # C) \<Longrightarrow> rb_parent (h x) = p \<and> rb_left (h p) = x"
  "focus T h x (Nd l a r) (FR s p # C) \<Longrightarrow> rb_parent (h x) = p \<and> rb_right (h p) = x"
  by (simp_all add: focus_def)

lemma focus_left_ne:
  "focus T h x (Nd l a r) (FR u g # C) \<Longrightarrow> rb_left (h g) \<noteq> x"
  by (cases u) (simp_all add: focus_def, metis)

lemma focus_right_ne:
  "focus T h x (Nd l a r) (FL g u # C) \<Longrightarrow> rb_right (h g) \<noteq> x"
  by (cases u) (simp_all add: focus_def, metis)

lemma redf_set_red [simp]: "redf (set_red h p b) = (redf h)(p := b)"
  by (rule ext) (simp add: redf_def rb_fields)

lemma redf_rotate [simp]: "redf (LeftRotate T h p) = redf h" "redf (RightRotate T h p) = redf h"
  by (auto simp: redf_def rb_fields)

lemma focus_FLI: "focus T h p (Nd (Nd l x r) p s) C \<Longrightarrow> focus T h x (Nd l x r) (FL p s # C)"
  by (auto simp: focus_FL focus_def)

lemma focus_FRI: "focus T h p (Nd s p (Nd l x r)) C \<Longrightarrow> focus T h x (Nd l x r) (FR s p # C)"
  by (auto simp: focus_FR focus_def)

lemma rb_red_redf: "rb_red (h a) = redf h a"
  by (simp add: redf_def)

section \<open>One pass of the loop\<close>

text \<open>Red uncle: recolour, and the violation moves to the grandparent.\<close>

lemma focus_sibling:
  "focus T h x t (FL g (Nd ul y ur) # C) \<Longrightarrow> rb_right (h g) = y"
  "focus T h x t (FR (Nd ul y ur) g # C) \<Longrightarrow> rb_left (h g) = y"
  by (simp_all add: focus_def)

lemma insert_fix_step_recolour:
  assumes "focus T h x (Nd l a r) (F # G # C)" "F = FL p s \<or> F = FR s p"
    and "G = FL g u \<or> G = FR u g" "u = Nd ul y ur" "rb_red (h y)"
  shows "insert_fix_step T h x = (set_red (set_red (set_red h p False) y False) g True, g)"
proof -
  obtain l' r' where f: "focus T h p (Nd l' p r') (G # C)" and px: "rb_parent (h x) = p"
    using assms(1,2) focus_FLD focus_FRD focus_links by metis
  show ?thesis using assms(3)
  proof
    assume G: "G = FL g u"
    then show ?thesis
      using focus_links(1) [OF f [unfolded G]] focus_sibling(1) [OF f [unfolded G assms(4)]] px assms(5)
      by (simp add: insert_fix_step_def Let_def)
  next
    assume G: "G = FR u g"
    then show ?thesis
      using focus_links(2) [OF f [unfolded G]] focus_sibling(2) [OF f [unfolded G assms(4)]] px assms(5)
        focus_left_ne [OF f [unfolded G]]
      by (simp add: insert_fix_step_def Let_def)
  qed
qed

text \<open>Black uncle, node on the outer side: two colour writes and one rotation.\<close>

lemma outer_rotate_right:
  assumes "focus T h x (Nd l a r) (FL p s # FL g u # C)"
  shows "focus T (recolour_right T h x) p (Nd (Nd l a r) p (Nd s g u)) C \<and>
    redf (recolour_right T h x) = (redf h)(p := False, g := True) \<and>
    rb_parent (recolour_right T h x x) = p"
proof -
  have px: "rb_parent (h x) = p" and pg: "rb_parent (h p) = g"
    using focus_links(1) [OF assms(1)] focus_links(1) [OF focus_FLD [OF assms(1)]] by simp_all
  define h3 where h3: "h3 = set_red (set_red h p False) g True"
  have h4: "recolour_right T h x = RightRotate T h3 g"
    using px pg by (simp add: recolour_right_def Let_def rb_fields h3)
  have "focus T h3 g (Nd (Nd (Nd l a r) p s) g u) C"
    unfolding h3 focus_set_red by (rule focus_FLD, rule focus_FLD, rule assms(1))
  then have f: "focus T (recolour_right T h x) p (Nd (Nd l a r) p (Nd s g u)) C"
    unfolding h4 by (rule RightRotate_focus)
  then have "rb_parent (recolour_right T h x x) = p"
    using focus_addr [OF assms(1)] by (simp add: focus_def)
  with f show ?thesis by (simp add: h4 h3)
qed

lemma outer_rotate_left:
  assumes "focus T h x (Nd l a r) (FR s p # FR u g # C)"
  shows "focus T (recolour_left T h x) p (Nd (Nd u g s) p (Nd l a r)) C \<and>
    redf (recolour_left T h x) = (redf h)(p := False, g := True) \<and>
    rb_parent (recolour_left T h x x) = p"
proof -
  have px: "rb_parent (h x) = p" and pg: "rb_parent (h p) = g"
    using focus_links(2) [OF assms(1)] focus_links(2) [OF focus_FRD [OF assms(1)]] by simp_all
  define h3 where h3: "h3 = set_red (set_red h p False) g True"
  have h4: "recolour_left T h x = LeftRotate T h3 g"
    using px pg by (simp add: recolour_left_def Let_def rb_fields h3)
  have "focus T h3 g (Nd u g (Nd s p (Nd l a r))) C"
    unfolding h3 focus_set_red by (rule focus_FRD, rule focus_FRD, rule assms(1))
  then have f: "focus T (recolour_left T h x) p (Nd (Nd u g s) p (Nd l a r)) C"
    unfolding h4 by (rule LeftRotate_focus)
  then have "rb_parent (recolour_left T h x x) = p"
    using focus_addr [OF assms(1)] by (simp add: focus_def)
  with f show ?thesis by (simp add: h4 h3)
qed

text \<open>Black uncle, four positions of the node.\<close>

lemma insert_fix_step_LL:
  assumes "focus T h x (Nd l a r) (FL p s # FL g u # C)" "\<not> rb_red (h (rb_right (h g)))"
  shows "focus T (fst (insert_fix_step T h x)) p (Nd (Nd l a r) p (Nd s g u)) C \<and>
    redf (fst (insert_fix_step T h x)) = (redf h)(p := False, g := True) \<and>
    rb_parent (fst (insert_fix_step T h x) (snd (insert_fix_step T h x))) = p"
proof -
  have "rb_parent (h x) = p" "rb_parent (h p) = g" "rb_left (h g) = p"
    using focus_links(1) [OF assms(1)] focus_links(1) [OF focus_FLD [OF assms(1)]] by simp_all
  moreover have "rb_right (h p) \<noteq> x" using assms(1) by (rule focus_right_ne)
  ultimately have e: "insert_fix_step T h x = (recolour_right T h x, x)"
    using assms(2) by (simp add: insert_fix_step_def Let_def)
  from outer_rotate_right [OF assms(1)] show ?thesis
    unfolding e fst_conv snd_conv redf_rotate .
qed

lemma insert_fix_step_LR:
  assumes "focus T h x (Nd l a r) (FR s p # FL g u # C)" "\<not> rb_red (h (rb_right (h g)))"
  shows "focus T (fst (insert_fix_step T h x)) x (Nd (Nd s p l) x (Nd r g u)) C \<and>
    redf (fst (insert_fix_step T h x)) = (redf h)(x := False, g := True) \<and>
    rb_parent (fst (insert_fix_step T h x) (snd (insert_fix_step T h x))) = x"
proof -
  have "rb_parent (h x) = p" "rb_parent (h p) = g" "rb_left (h g) = p" "rb_right (h p) = x"
    using focus_links(2) [OF assms(1)] focus_links(1) [OF focus_FRD [OF assms(1)]] by simp_all
  then have e: "insert_fix_step T h x = (recolour_right T (LeftRotate T h p) p, p)"
    using assms(2) by (simp add: insert_fix_step_def Let_def)
  have ax: "a = x" using assms(1) by (rule focus_addr)
  have "focus T h p (Nd s p (Nd l x r)) (FL g u # C)"
    using focus_FRD [OF assms(1)] unfolding ax .
  then have "focus T (LeftRotate T h p) x (Nd (Nd s p l) x r) (FL g u # C)" by (rule LeftRotate_focus)
  then have "focus T (LeftRotate T h p) p (Nd s p l) (FL x r # FL g u # C)"
    by (rule focus_FLI)
  from outer_rotate_right [OF this] show ?thesis
    unfolding e fst_conv snd_conv redf_rotate .
qed

lemma insert_fix_step_RR:
  assumes "focus T h x (Nd l a r) (FR s p # FR u g # C)" "\<not> rb_red (h (rb_left (h g)))"
  shows "focus T (fst (insert_fix_step T h x)) p (Nd (Nd u g s) p (Nd l a r)) C \<and>
    redf (fst (insert_fix_step T h x)) = (redf h)(p := False, g := True) \<and>
    rb_parent (fst (insert_fix_step T h x) (snd (insert_fix_step T h x))) = p"
proof -
  have f: "focus T h p (Nd s p (Nd l a r)) (FR u g # C)"
    using assms(1) by (rule focus_FRD)
  have "rb_parent (h x) = p" "rb_parent (h p) = g"
    using focus_links(2) [OF assms(1)] focus_links(2) [OF focus_FRD [OF assms(1)]] by simp_all
  moreover have "rb_left (h g) \<noteq> p" using f by (rule focus_left_ne)
  moreover have "rb_left (h p) \<noteq> x" using assms(1) by (rule focus_left_ne)
  ultimately have e: "insert_fix_step T h x = (recolour_left T h x, x)"
    using assms(2) by (simp add: insert_fix_step_def Let_def)
  from outer_rotate_left [OF assms(1)] show ?thesis
    unfolding e fst_conv snd_conv redf_rotate .
qed

lemma insert_fix_step_RL:
  assumes "focus T h x (Nd l a r) (FL p s # FR u g # C)" "\<not> rb_red (h (rb_left (h g)))"
  shows "focus T (fst (insert_fix_step T h x)) x (Nd (Nd u g l) x (Nd r p s)) C \<and>
    redf (fst (insert_fix_step T h x)) = (redf h)(x := False, g := True) \<and>
    rb_parent (fst (insert_fix_step T h x) (snd (insert_fix_step T h x))) = x"
proof -
  have f: "focus T h p (Nd (Nd l a r) p s) (FR u g # C)"
    using assms(1) by (rule focus_FLD)
  have "rb_parent (h x) = p" "rb_parent (h p) = g" "rb_left (h p) = x"
    using focus_links(1) [OF assms(1)] focus_links(2) [OF focus_FLD [OF assms(1)]] by simp_all
  moreover have "rb_left (h g) \<noteq> p" using f by (rule focus_left_ne)
  ultimately have e: "insert_fix_step T h x = (recolour_left T (RightRotate T h p) p, p)"
    using assms(2) by (simp add: insert_fix_step_def Let_def)
  have ax: "a = x" using assms(1) by (rule focus_addr)
  have "focus T h p (Nd (Nd l x r) p s) (FR u g # C)" using f unfolding ax .
  then have "focus T (RightRotate T h p) x (Nd l x (Nd r p s)) (FR u g # C)" by (rule RightRotate_focus)
  then have "focus T (RightRotate T h p) p (Nd r p s) (FR l x # FR u g # C)"
    by (rule focus_FRI)
  from outer_rotate_left [OF this] show ?thesis
    unfolding e fst_conv snd_conv redf_rotate .
qed

lemma recolour_payload [rb_fields]:
  "payload (recolour_right T h x a) = payload (h a)"
  "payload (recolour_left T h x a) = payload (h a)"
  by (simp_all add: recolour_right_def recolour_left_def Let_def rb_fields)

lemma insert_fix_step_payload:
  "payload (fst (insert_fix_step T h x) a) = payload (h a)"
  by (simp add: insert_fix_step_def Let_def rb_fields split: prod.splits if_splits)

section \<open>The loop\<close>

definition sentinels_black :: "RBT_tree \<Rightarrow> rb_heap \<Rightarrow> bool" where
  "sentinels_black T h \<longleftrightarrow> \<not> rb_red (h (rb_nil T)) \<and> \<not> rb_red (h (rb_root T))"

text \<open>What the loop owes: it returns, with the same nodes in order and the colours right.\<close>

definition fixes_up :: "RBT_tree \<Rightarrow> rb_heap \<Rightarrow> ptr \<Rightarrow> ptree \<Rightarrow> frame list \<Rightarrow> bool" where
  "fixes_up T h x t C \<longleftrightarrow> (\<exists>h' t'. insert_fixup T h x = Some h' \<and>
     focus T h' (rb_left (h' (rb_root T))) t' [] \<and> addrs t' = addrs (plug C t) \<and>
     invc (redf h') t' \<and> invh (redf h') t' \<and> sentinels_black T h' \<and>
     (\<forall>a. payload (h' a) = payload (h a)))"

lemma insert_fixup_done:
  assumes "focus T h p t C" "sentinels_black T h" "\<not> rb_red (h (rb_parent (h x)))"
    and "cinv (redf h) (bh (redf h) t) C" "invc (redf h) t" "invh (redf h) t"
    and "hole_red (redf h) C \<longrightarrow> \<not> rootred (redf h) t"
  shows "fixes_up T h x t C"
proof -
  have "insert_fixup T h x = Some h" using assms(3) by (subst insert_fixup.simps) simp
  then show ?thesis
    unfolding fixes_up_def using focus_plug [OF assms(1)] plug_colour [OF assms(4-7)] assms(2) by auto
qed

text \<open>One pass, then the rest.\<close>

lemma fixes_up_step:
  assumes "rb_red (h (rb_parent (h x)))"
    and "fixes_up T (fst (insert_fix_step T h x)) (snd (insert_fix_step T h x)) t' C'"
    and "addrs (plug C' t') = addrs (plug C t)"
  shows "fixes_up T h x t C"
  using assms unfolding fixes_up_def
  by (subst insert_fixup.simps) (auto simp: insert_fix_step_payload)

text \<open>The black-uncle cases end the loop: the parent of the node is then black.\<close>

lemma fixes_up_rotated:
  assumes "rb_red (h (rb_parent (h x)))"
    and "focus T (fst (insert_fix_step T h x)) p (Nd l p r) C \<and>
         redf (fst (insert_fix_step T h x)) = (redf h)(p := False, g := True) \<and>
         rb_parent (fst (insert_fix_step T h x) (snd (insert_fix_step T h x))) = p"
    and "g \<noteq> p" "g \<in> set (addrs (Nd l p r))" "sentinels_black T h"
    and "cinv (redf h) (Suc (bh ((redf h)(p := False, g := True)) l)) C"
    and "invc ((redf h)(p := False, g := True)) (Nd l p r)" "invh ((redf h)(p := False, g := True)) (Nd l p r)"
    and "addrs (plug C (Nd l p r)) = addrs (plug C0 t0)"
  shows "fixes_up T h x t0 C0"
proof (rule fixes_up_step [where C' = C and t' = "Nd l p r" and C = C0 and t = t0 and x = x and h = h, OF assms(1) _ assms(9)])
  let ?s = "insert_fix_step T h x"
  have f: "focus T (fst ?s) p (Nd l p r) C" and c: "redf (fst ?s) = (redf h)(p := False, g := True)"
    and q: "rb_parent (fst ?s (snd ?s)) = p"
    using assms(2) by auto
  have out: "p \<notin> set (ctx_addrs C)" "g \<notin> set (ctx_addrs C)"
    and sen: "p \<noteq> rb_nil T" "g \<noteq> rb_nil T" "p \<noteq> rb_root T" "g \<noteq> rb_root T"
    using f assms(4) unfolding focus_def by auto
  show "fixes_up T (fst ?s) (snd ?s) (Nd l p r) C"
  proof (rule insert_fixup_done [OF f])
    show "sentinels_black T (fst ?s)" using assms(5) sen
      unfolding sentinels_black_def rb_red_redf c by simp
    show "\<not> rb_red (fst ?s (rb_parent (fst ?s (snd ?s))))"
      using assms(3) unfolding q rb_red_redf c by simp
    have "cinv ((redf h)(p := False, g := True)) n C = cinv (redf h) n C" for n
      by (rule cinv_cong) (use out in auto)
    then show "cinv (redf (fst ?s)) (bh (redf (fst ?s)) (Nd l p r)) C"
      using assms(3,6) by (simp add: c)
    show "invc (redf (fst ?s)) (Nd l p r)" "invh (redf (fst ?s)) (Nd l p r)"
      using assms(7,8) by (simp_all only: c)
    show "hole_red (redf (fst ?s)) C \<longrightarrow> \<not> rootred (redf (fst ?s)) (Nd l p r)"
      using assms(3) by (simp add: c)
  qed
qed

lemma recolour_two:
  assumes "p \<notin> set (addrs t)" "g \<notin> set (addrs t)"
  shows "rootred (c(p := a, g := b)) t = rootred c t" "bh (c(p := a, g := b)) t = bh c t"
    "invh (c(p := a, g := b)) t = invh c t" "invc (c(p := a, g := b)) t = invc c t"
  by (rule colour_cong; use assms in auto)+

text \<open>
  The loop invariant: the node is red, its subtree and the surroundings are red-black,
  and only the parent may be red too.
\<close>

definition loop_inv :: "RBT_tree \<Rightarrow> rb_heap \<Rightarrow> ptr \<Rightarrow> ptree \<Rightarrow> frame list \<Rightarrow> bool" where
  "loop_inv T h x t C \<longleftrightarrow> focus T h x t C \<and> sentinels_black T h \<and> t \<noteq> Lf \<and> rootred (redf h) t \<and>
     invc (redf h) t \<and> invh (redf h) t \<and> cinv (redf h) (bh (redf h) t) C"

lemma loop_invD:
  assumes "loop_inv T h x t C"
  obtains l r where "t = Nd l x r" "focus T h x (Nd l x r) C" "redf h x"
    "\<not> rootred (redf h) l" "\<not> rootred (redf h) r" "invc (redf h) l" "invc (redf h) r"
    "invh (redf h) l" "invh (redf h) r" "bh (redf h) l = bh (redf h) r"
    "cinv (redf h) (bh (redf h) l) C" "rb_parent (h x) = hole_par (rb_root T) C"
proof (cases t)
  case Lf
  with assms show ?thesis by (simp add: loop_inv_def)
next
  case (Nd l a r)
  with assms have "focus T h x (Nd l a r) C" by (simp add: loop_inv_def)
  from focus_addr [OF this] focus_hole_parent [OF this] assms Nd that show ?thesis
    by (auto simp: loop_inv_def)
qed

lemma focus_sibling_red:
  "focus T h x t (FL g u # C) \<Longrightarrow> sentinels_black T h \<Longrightarrow> rb_red (h (rb_right (h g))) = rootred (redf h) u"
  "focus T h x t (FR u g # C) \<Longrightarrow> sentinels_black T h \<Longrightarrow> rb_red (h (rb_left (h g))) = rootred (redf h) u"
  using tree_at_red [of "rb_nil T" h g _ u] by (simp_all add: focus_def sentinels_black_def)

lemma focus_distinct: "focus T h x t C \<Longrightarrow> distinct (addrs t @ ctx_addrs C)"
  by (simp add: focus_def)

lemma black_uncle_LL:
  assumes "loop_inv T h x t (FL p s # FL g u # C)" "redf h p" "\<not> rootred (redf h) u"
  shows "fixes_up T h x t (FL p s # FL g u # C)"
proof -
  from assms(1) obtain l r where t: "t = Nd l x r" and f: "focus T h x (Nd l x r) (FL p s # FL g u # C)"
    and i: "redf h x" "\<not> rootred (redf h) l" "\<not> rootred (redf h) r" "invc (redf h) l" "invc (redf h) r"
    "invh (redf h) l" "invh (redf h) r" "bh (redf h) l = bh (redf h) r"
    "cinv (redf h) (bh (redf h) l) (FL p s # FL g u # C)" "rb_parent (h x) = p"
    by (elim loop_invD) auto
  have sb: "sentinels_black T h" using assms(1) by (simp add: loop_inv_def)
  have d: "distinct (addrs l @ x # addrs r @ p # addrs s @ g # addrs u)"
    using focus_distinct [OF f] by auto
  have st: "\<not> rb_red (h (rb_right (h g)))"
    using focus_sibling_red(1) [OF focus_FLD [OF f] sb] assms(3) by simp
  have ad: "addrs (plug C (Nd (Nd l x r) p (Nd s g u))) = addrs (plug (FL p s # FL g u # C) (Nd l x r))"
    unfolding plug.simps by (rule plug_addrs_cong) simp
  show ?thesis unfolding t
    by (rule fixes_up_rotated [OF _ insert_fix_step_LL [OF f st]])
      (use i d ad sb assms(2,3) in \<open>simp_all add: recolour_two rb_red_redf split: if_splits\<close>)
qed

lemma black_uncle_LR:
  assumes "loop_inv T h x t (FR s p # FL g u # C)" "redf h p" "\<not> rootred (redf h) u"
  shows "fixes_up T h x t (FR s p # FL g u # C)"
proof -
  from assms(1) obtain l r where t: "t = Nd l x r" and f: "focus T h x (Nd l x r) (FR s p # FL g u # C)"
    and i: "redf h x" "\<not> rootred (redf h) l" "\<not> rootred (redf h) r" "invc (redf h) l" "invc (redf h) r"
    "invh (redf h) l" "invh (redf h) r" "bh (redf h) l = bh (redf h) r"
    "cinv (redf h) (bh (redf h) l) (FR s p # FL g u # C)" "rb_parent (h x) = p"
    by (elim loop_invD) auto
  have sb: "sentinels_black T h" using assms(1) by (simp add: loop_inv_def)
  have d: "distinct (addrs l @ x # addrs r @ p # addrs s @ g # addrs u)"
    using focus_distinct [OF f] by auto
  have st: "\<not> rb_red (h (rb_right (h g)))"
    using focus_sibling_red(1) [OF focus_FRD [OF f] sb] assms(3) by simp
  have ad: "addrs (plug C (Nd (Nd s p l) x (Nd r g u))) = addrs (plug (FR s p # FL g u # C) (Nd l x r))"
    unfolding plug.simps by (rule plug_addrs_cong) simp
  show ?thesis unfolding t
    by (rule fixes_up_rotated [OF _ insert_fix_step_LR [OF f st]])
      (use i d ad sb assms(2,3) in \<open>simp_all add: recolour_two rb_red_redf split: if_splits\<close>)
qed

lemma black_uncle_RR:
  assumes "loop_inv T h x t (FR s p # FR u g # C)" "redf h p" "\<not> rootred (redf h) u"
  shows "fixes_up T h x t (FR s p # FR u g # C)"
proof -
  from assms(1) obtain l r where t: "t = Nd l x r" and f: "focus T h x (Nd l x r) (FR s p # FR u g # C)"
    and i: "redf h x" "\<not> rootred (redf h) l" "\<not> rootred (redf h) r" "invc (redf h) l" "invc (redf h) r"
    "invh (redf h) l" "invh (redf h) r" "bh (redf h) l = bh (redf h) r"
    "cinv (redf h) (bh (redf h) l) (FR s p # FR u g # C)" "rb_parent (h x) = p"
    by (elim loop_invD) auto
  have sb: "sentinels_black T h" using assms(1) by (simp add: loop_inv_def)
  have d: "distinct (addrs l @ x # addrs r @ p # addrs s @ g # addrs u)"
    using focus_distinct [OF f] by auto
  have st: "\<not> rb_red (h (rb_left (h g)))"
    using focus_sibling_red(2) [OF focus_FRD [OF f] sb] assms(3) by simp
  have ad: "addrs (plug C (Nd (Nd u g s) p (Nd l x r))) = addrs (plug (FR s p # FR u g # C) (Nd l x r))"
    unfolding plug.simps by (rule plug_addrs_cong) simp
  show ?thesis unfolding t
    by (rule fixes_up_rotated [OF _ insert_fix_step_RR [OF f st]])
      (use i d ad sb assms(2,3) in \<open>simp_all add: recolour_two rb_red_redf split: if_splits\<close>)
qed

lemma black_uncle_RL:
  assumes "loop_inv T h x t (FL p s # FR u g # C)" "redf h p" "\<not> rootred (redf h) u"
  shows "fixes_up T h x t (FL p s # FR u g # C)"
proof -
  from assms(1) obtain l r where t: "t = Nd l x r" and f: "focus T h x (Nd l x r) (FL p s # FR u g # C)"
    and i: "redf h x" "\<not> rootred (redf h) l" "\<not> rootred (redf h) r" "invc (redf h) l" "invc (redf h) r"
    "invh (redf h) l" "invh (redf h) r" "bh (redf h) l = bh (redf h) r"
    "cinv (redf h) (bh (redf h) l) (FL p s # FR u g # C)" "rb_parent (h x) = p"
    by (elim loop_invD) auto
  have sb: "sentinels_black T h" using assms(1) by (simp add: loop_inv_def)
  have d: "distinct (addrs l @ x # addrs r @ p # addrs s @ g # addrs u)"
    using focus_distinct [OF f] by auto
  have st: "\<not> rb_red (h (rb_left (h g)))"
    using focus_sibling_red(2) [OF focus_FLD [OF f] sb] assms(3) by simp
  have ad: "addrs (plug C (Nd (Nd u g l) x (Nd r p s))) = addrs (plug (FL p s # FR u g # C) (Nd l x r))"
    unfolding plug.simps by (rule plug_addrs_cong) simp
  show ?thesis unfolding t
    by (rule fixes_up_rotated [OF _ insert_fix_step_RL [OF f st]])
      (use i d ad sb assms(2,3) in \<open>simp_all add: recolour_two rb_red_redf split: if_splits\<close>)
qed

lemma focus_sentinels:
  "focus T h x t C \<Longrightarrow> rb_nil T \<notin> set (addrs t @ ctx_addrs C) \<and> rb_root T \<notin> set (addrs t @ ctx_addrs C)"
  by (simp add: focus_def)

lemma focus_up2:
  "focus T h x t (F # G # C) \<Longrightarrow> F = FL p s \<or> F = FR s p \<Longrightarrow> G = FL g u \<or> G = FR u g \<Longrightarrow>
   focus T h g (plug [F, G] t) C"
  by (elim disjE) (auto dest!: focus_FLD focus_FRD)

text \<open>Red uncle: the invariant holds again two levels up.\<close>

lemma red_uncle:
  assumes inv: "loop_inv T h x t (F # G # C)" and F: "F = FL p s \<or> F = FR s p"
    and G: "G = FL g u \<or> G = FR u g" and red: "redf h p" "rootred (redf h) u"
  shows "loop_inv T (fst (insert_fix_step T h x)) (snd (insert_fix_step T h x)) (plug [F, G] t) C"
proof -
  from inv obtain l r where t: "t = Nd l x r" and f: "focus T h x (Nd l x r) (F # G # C)"
    and i: "redf h x" "\<not> rootred (redf h) l" "\<not> rootred (redf h) r" "invc (redf h) l" "invc (redf h) r"
    "invh (redf h) l" "invh (redf h) r" "bh (redf h) l = bh (redf h) r"
    "cinv (redf h) (bh (redf h) l) (F # G # C)"
    by (elim loop_invD) auto
  obtain ul y ur where u: "u = Nd ul y ur" using red(2) by (cases u) auto
  have "rb_red (h y)" using red(2) u by (simp add: redf_def)
  from insert_fix_step_recolour [OF f F G u this]
  have st: "insert_fix_step T h x = (set_red (set_red (set_red h p False) y False) g True, g)" .
  let ?c = "(redf h)(p := False, y := False, g := True)"
  have "mset (addrs t @ ctx_addrs (F # G # C)) =
      mset (addrs l @ x # addrs r @ p # addrs s @ g # addrs u @ ctx_addrs C)"
    using F G t by (elim disjE) simp_all
  then have da: "distinct (addrs l @ x # addrs r @ p # addrs s @ g # addrs u @ ctx_addrs C)"
    using focus_distinct [OF f] t mset_eq_imp_distinct_iff by metis
  then have d: "distinct (addrs l @ x # addrs r @ p # addrs s @ g # addrs u)"
    and o: "p \<notin> set (ctx_addrs C)" "y \<notin> set (ctx_addrs C)" "g \<notin> set (ctx_addrs C)"
    unfolding u by (simp_all add: Int_Un_distrib)
  have n: "rb_nil T \<notin> {p, y, g}" "rb_root T \<notin> {p, y, g}"
    using focus_sentinels [OF f] F G u by auto
  have k: "rootred ?c v = rootred (redf h) v \<and> bh ?c v = bh (redf h) v \<and>
      invh ?c v = invh (redf h) v \<and> invc ?c v = invc (redf h) v" if "v \<in> {l, r, s, ul, ur}" for v
    using that d u by (intro conjI colour_cong) auto
  have k': "rootred ?c l = rootred (redf h) l" "bh ?c l = bh (redf h) l" "invh ?c l = invh (redf h) l"
    "invc ?c l = invc (redf h) l" "rootred ?c r = rootred (redf h) r" "bh ?c r = bh (redf h) r"
    "invh ?c r = invh (redf h) r" "invc ?c r = invc (redf h) r"
    "rootred ?c s = rootred (redf h) s" "bh ?c s = bh (redf h) s" "invh ?c s = invh (redf h) s"
    "invc ?c s = invc (redf h) s" "bh ?c ul = bh (redf h) ul" "invh ?c ul = invh (redf h) ul"
    "invc ?c ul = invc (redf h) ul" "bh ?c ur = bh (redf h) ur"
    "invh ?c ur = invh (redf h) ur" "invc ?c ur = invc (redf h) ur"
    using k by blast+
  have col: "?c x" "\<not> ?c p" "\<not> ?c y" "?c g" using i(1) d u by auto
  have q: "invc (redf h) s" "invh (redf h) s" "bh (redf h) s = bh (redf h) r" "\<not> rootred (redf h) s"
    "invc (redf h) ul" "invc (redf h) ur" "invh (redf h) ul" "invh (redf h) ur"
    "bh (redf h) ul = bh (redf h) r" "bh (redf h) ur = bh (redf h) r"
    "cinv (redf h) (Suc (bh (redf h) r)) C"
    using i(8,9) F G red u by (elim disjE; simp split: if_splits)+
  have cC: "cinv ?c m C = cinv (redf h) m C" for m
    by (rule cinv_cong) (use o in auto)
  have sb: "sentinels_black T h" using inv by (simp add: loop_inv_def)
  have "focus T h g (plug [F, G] t) C"
    unfolding t by (rule focus_up2 [OF f F G])
  moreover have "cinv ?c (bh ?c (plug [F, G] t)) C" "invc ?c (plug [F, G] t)" "invh ?c (plug [F, G] t)"
    "rootred ?c (plug [F, G] t)" "plug [F, G] t \<noteq> Lf"
    using F G by (elim disjE; simp add: cC t u i(2-8) q k' col del: fun_upd_apply)+
  ultimately show ?thesis
    using sb n unfolding loop_inv_def st fst_conv snd_conv redf_set_red focus_set_red
    by (auto simp: sentinels_black_def rb_fields)
qed

theorem insert_fixup_ok:
  "loop_inv T h x t C \<Longrightarrow> fixes_up T h x t C"
proof (induction "length C" arbitrary: h x t C rule: less_induct)
  case less
  have f: "focus T h x t C" and sb: "sentinels_black T h"
    and inv: "cinv (redf h) (bh (redf h) t) C" "invc (redf h) t" "invh (redf h) t"
    using less.prems by (simp_all add: loop_inv_def)
  have par: "rb_parent (h x) = hole_par (rb_root T) C"
    using less.prems by (rule loop_invD)
  have pr: "rb_red (h (rb_parent (h x))) = hole_red (redf h) C"
    using hole_par_red [of h "rb_root T" C] par sb by (simp add: sentinels_black_def)
  show ?case
  proof (cases "hole_red (redf h) C")
    case False
    with pr show ?thesis by (intro insert_fixup_done [OF f sb _ inv]) auto
  next
    case True
    have rest: ?thesis if "C = F # G # C'" "F = FL p s \<or> F = FR s p" "G = FL g u \<or> G = FR u g" "redf h p"
      "rootred (redf h) u" for F G C' p s g u
    proof (rule fixes_up_step)
      have "loop_inv T (fst (insert_fix_step T h x)) (snd (insert_fix_step T h x)) (plug [F, G] t) C'"
        using red_uncle [OF _ that(2-5)] less.prems that(1) by simp
      then show "fixes_up T (fst (insert_fix_step T h x)) (snd (insert_fix_step T h x)) (plug [F, G] t) C'"
        by (intro less.hyps) (simp add: that(1))
      show "addrs (plug C' (plug [F, G] t)) = addrs (plug C t)"
        using that(1-3) by (elim disjE) simp_all
      show "rb_red (h (rb_parent (h x)))" using pr True by simp
    qed
    from True inv(1) show ?thesis
    proof (rule hole_red_frames)
      fix p s g u C' assume C: "C = FL p s # FL g u # C'"
      show ?thesis using rest [OF C] True C less.prems black_uncle_LL by (cases "rootred (redf h) u") auto
    next
      fix p s g u C' assume C: "C = FR s p # FL g u # C'"
      show ?thesis using rest [OF C] True C less.prems black_uncle_LR by (cases "rootred (redf h) u") auto
    next
      fix p s g u C' assume C: "C = FL p s # FR u g # C'"
      show ?thesis using rest [OF C] True C less.prems black_uncle_RL by (cases "rootred (redf h) u") auto
    next
      fix p s g u C' assume C: "C = FR s p # FR u g # C'"
      show ?thesis using rest [OF C] True C less.prems black_uncle_RR by (cases "rootred (redf h) u") auto
    qed
  qed
qed

end
