(* ===== verification/RbtIndex.thy ===== *)
theory RbtIndex
  imports RbtInsert
begin

text \<open>
  The client index as a whole: search-tree order, insertion, lookup, neighbours and
  the height bound, for the trees the server builds with \<open>IntComp\<close>.
\<close>

section \<open>Well-formed index\<close>

definition keyf :: "rb_heap \<Rightarrow> ptr \<Rightarrow> u32" where
  "keyf h a = rb_key (h a)"

definition rbt_ok :: "RBT_tree \<Rightarrow> rb_heap \<Rightarrow> ptree \<Rightarrow> bool" where
  "rbt_ok T h t \<longleftrightarrow> focus T h (rb_left (h (rb_root T))) t [] \<and> sentinels_black T h \<and>
     invc (redf h) t \<and> invh (redf h) t \<and> \<not> rootred (redf h) t \<and>
     sorted (map (keyf h) (addrs t)) \<and> Compare T = IntComp"

lemma IntComp_cases:
  "IntComp a b = 1 \<longleftrightarrow> b < a" "IntComp a b = 0 \<longleftrightarrow> a = b" "IntComp a b = -1 \<longleftrightarrow> a < b"
  by (auto simp: IntComp_def)

text \<open>\<open>RBTreeCreate\<close> makes the empty index.\<close>

lemma RBTreeCreate_ok:
  assumes "RBTreeCreate h nl rt IntComp = (h', T)" "rt \<noteq> nl"
  shows "rbt_ok T h' Lf" "rb_nil T = nl" "rb_root T = rt"
  using assms
  by (auto simp: RBTreeCreate_def Let_def rbt_ok_def focus_def sentinels_black_def)

section \<open>In-order position of a hole\<close>

fun left_of :: "frame list \<Rightarrow> ptr list" where
  "left_of [] = []"
| "left_of (FL p r # C) = left_of C"
| "left_of (FR l p # C) = left_of C @ addrs l @ [p]"

fun right_of :: "frame list \<Rightarrow> ptr list" where
  "right_of [] = []"
| "right_of (FL p r # C) = p # addrs r @ right_of C"
| "right_of (FR l p # C) = right_of C"

lemma addrs_Nil [simp]: "addrs t = [] \<longleftrightarrow> t = Lf"
  by (cases t) auto

lemma addrs_plug_split: "addrs (plug C t) = left_of C @ addrs t @ right_of C"
  by (induction C t rule: plug.induct) auto

definition gap_at :: "rb_heap \<Rightarrow> u32 \<Rightarrow> frame list \<Rightarrow> bool" where
  "gap_at h k C \<longleftrightarrow> (\<forall>a\<in>set (left_of C). keyf h a \<le> k) \<and> (\<forall>a\<in>set (right_of C). k < keyf h a)"

definition dir_ok :: "rb_heap \<Rightarrow> u32 \<Rightarrow> frame list \<Rightarrow> bool" where
  "dir_ok h k C = (case C of [] \<Rightarrow> True | FL p r # _ \<Rightarrow> k < keyf h p | FR l p # _ \<Rightarrow> keyf h p \<le> k)"

lemma insert_pos_ok:
  assumes "focus T h x t C" "sorted (map (keyf h) (addrs t))" "Compare T = IntComp"
    and "gap_at h k C" "dir_ok h k C"
  shows "\<exists>C'. insert_pos T h k (hole_par (rb_root T) C) x = Some (hole_par (rb_root T) C') \<and>
    focus T h (rb_nil T) Lf C' \<and> plug C' Lf = plug C t \<and> gap_at h k C' \<and> dir_ok h k C'"
  using assms
proof (induction t arbitrary: x C)
  case Lf
  then have "x = rb_nil T" by (simp add: focus_def)
  with Lf show ?case by (intro exI [of _ C]) (auto simp: insert_pos.simps)
next
  case (Nd l a r)
  have ax: "a = x" using Nd.prems(1) by (rule focus_addr)
  have xn: "x \<noteq> rb_nil T" using Nd.prems(1) by (auto simp: focus_def)
  show ?case
  proof (cases "k < keyf h x")
    case True
    let ?C = "FL x r # C"
    have "focus T h (rb_left (h x)) l ?C" using Nd.prems(1) ax by (auto simp: focus_def)
    moreover have "gap_at h k ?C"
      using Nd.prems(2,4) True ax by (fastforce simp: gap_at_def sorted_append)
    ultimately obtain C' where C': "insert_pos T h k (hole_par (rb_root T) ?C) (rb_left (h x)) = Some (hole_par (rb_root T) C')"
      "focus T h (rb_nil T) Lf C'" "plug C' Lf = plug ?C l" "gap_at h k C'" "dir_ok h k C'"
      using Nd.IH(1) [of "rb_left (h x)" ?C] Nd.prems(2,3) True by (auto simp: sorted_append dir_ok_def)
    then show ?thesis using True xn ax Nd.prems(3)
      by (intro exI [of _ C']) (subst insert_pos.simps, simp add: IntComp_cases keyf_def)
  next
    case False
    let ?C = "FR l x # C"
    have "focus T h (rb_right (h x)) r ?C" using Nd.prems(1) ax by (auto simp: focus_def)
    moreover have "gap_at h k ?C"
      using Nd.prems(2,4) False ax by (fastforce simp: gap_at_def sorted_append)
    ultimately obtain C' where C': "insert_pos T h k (hole_par (rb_root T) ?C) (rb_right (h x)) = Some (hole_par (rb_root T) C')"
      "focus T h (rb_nil T) Lf C'" "plug C' Lf = plug ?C r" "gap_at h k C'" "dir_ok h k C'"
      using Nd.IH(2) [of "rb_right (h x)" ?C] Nd.prems(2,3) False
      by (auto simp: sorted_append dir_ok_def not_less)
    then show ?thesis using False xn ax Nd.prems(3)
      by (intro exI [of _ C']) (subst insert_pos.simps, simp add: IntComp_cases keyf_def)
  qed
qed

section \<open>Hanging the new node\<close>

lemma ctx_at_hang:
  assumes "ctx_at nl rt h nl C" "distinct (ctx_addrs C)" "rt \<notin> set (ctx_addrs C)" "rt \<noteq> nl"
    and "z \<notin> insert rt (set (ctx_addrs C))"
    and "h' = (case C of FR l p # _ \<Rightarrow> set_right (set_parent h z (hole_par rt C)) (hole_par rt C) z
               | _ \<Rightarrow> set_left (set_parent h z (hole_par rt C)) (hole_par rt C) z)"
  shows "ctx_at nl rt h' z C"
proof (cases C)
  case Nil
  with assms show ?thesis by (auto simp: rb_fields)
next
  case (Cons f C')
  show ?thesis
  proof (cases f)
    case (FL p r)
    have h': "h' = set_left (set_parent h z p) p z" using assms(6) Cons FL by simp
    have "same_links (set (addrs r)) h h'" "same_links (insert rt (set (ctx_addrs C'))) h h'"
      using assms(2,3,5) Cons FL by (auto simp: same_links_def h' rb_fields)
    with assms(1,5) Cons FL show ?thesis by (simp add: tree_at_cong ctx_at_cong) (simp add: h' rb_fields)
  next
    case (FR l p)
    have h': "h' = set_right (set_parent h z p) p z" using assms(6) Cons FR by simp
    have "same_links (set (addrs l)) h h'" "same_links (insert rt (set (ctx_addrs C'))) h h'"
      using assms(2,3,5) Cons FR by (auto simp: same_links_def h' rb_fields)
    with assms(1,5) Cons FR show ?thesis by (simp add: tree_at_cong ctx_at_cong) (simp add: h' rb_fields)
  qed
qed

lemma TreeInsertHelp_ok:
  assumes ok: "rbt_ok T h t" and z: "z \<notin> set (addrs t)" "z \<noteq> rb_nil T" "z \<noteq> rb_root T"
  obtains C h' where "TreeInsertHelp T h z = Some h'" "focus T h' z (Nd Lf z Lf) C"
    "plug C Lf = t" "gap_at h (keyf h z) C" "redf h' = redf h" "\<forall>a. payload (h' a) = payload (h a)"
proof -
  define h1 where "h1 = set_right (set_left h z (rb_nil T)) z (rb_nil T)"
  have k1: "keyf h1 = keyf h" by (rule ext) (simp add: keyf_def h1_def rb_fields)
  have kk: "gap_at h1 = gap_at h" "dir_ok h1 = dir_ok h"
    by (intro ext, simp only: gap_at_def dir_ok_def k1)+
  have f: "focus T h (rb_left (h (rb_root T))) t []" using ok by (simp add: rbt_ok_def)
  then have f1: "focus T h1 (rb_left (h1 (rb_root T))) t []"
    using z by (subst focus_cong [where h = h]) (auto simp: same_links_def h1_def rb_fields)
  have "\<exists>C. insert_pos T h1 (keyf h1 z) (hole_par (rb_root T) []) (rb_left (h1 (rb_root T))) = Some (hole_par (rb_root T) C) \<and>
    focus T h1 (rb_nil T) Lf C \<and> plug C Lf = plug [] t \<and> gap_at h1 (keyf h1 z) C \<and> dir_ok h1 (keyf h1 z) C"
    by (rule insert_pos_ok [OF f1]) (use ok in \<open>auto simp: rbt_ok_def k1 gap_at_def dir_ok_def\<close>)
  then obtain C where C: "insert_pos T h1 (keyf h z) (rb_root T) (rb_left (h1 (rb_root T))) = Some (hole_par (rb_root T) C)"
    "focus T h1 (rb_nil T) Lf C" "plug C Lf = t" "gap_at h (keyf h z) C" "dir_ok h (keyf h z) C"
    by (auto simp: k1 kk)
  define y where "y = hole_par (rb_root T) C"
  define h2 where "h2 = set_parent h1 z y"
  define h3 where "h3 = (case C of FR l p # _ \<Rightarrow> set_right h2 y z | _ \<Rightarrow> set_left h2 y z)"
  have yr: "y = rb_root T \<longleftrightarrow> C = []"
    using C(2) by (cases "(rb_root T, C)" rule: hole_par.cases) (auto simp: y_def focus_def)
  have out: "z \<notin> insert (rb_root T) (set (ctx_addrs C))"
    using z C(3) set_plug [of C Lf] by auto
  have key: "rb_key (h2 a) = keyf h a" for a by (simp add: h2_def h1_def rb_fields keyf_def)
  have key1: "rb_key (h1 z) = keyf h z" using k1 by (metis keyf_def)
  have cmp: "Compare T = IntComp" using ok by (simp add: rbt_ok_def)
  have "TreeInsertHelp T h z = Some (if y = rb_root T \<or> keyf h z < keyf h y then set_left h2 y z else set_right h2 y z)"
    unfolding TreeInsertHelp_def Let_def h1_def [symmetric] key1 C(1) [folded y_def] option.case
      h2_def [symmetric] key cmp IntComp_cases ..
  also have "\<dots> = Some h3"
    using C(5) yr unfolding h3_def dir_ok_def y_def by (auto split: list.splits frame.splits)
  finally have r: "TreeInsertHelp T h z = Some h3" .
  have F: "ctx_at (rb_nil T) (rb_root T) h1 (rb_nil T) C" "distinct (ctx_addrs C)"
    "rb_root T \<notin> set (ctx_addrs C)" "rb_root T \<noteq> rb_nil T" "rb_nil T \<notin> set (ctx_addrs C)"
    "rb_right (h1 (rb_root T)) = rb_nil T"
    using C(2) by (auto simp: focus_def)
  have "ctx_at (rb_nil T) (rb_root T) h3 z C"
    by (rule ctx_at_hang [OF F(1-4) out]) (simp only: h3_def h2_def y_def)
  moreover have "rb_left (h3 z) = rb_nil T" "rb_right (h3 z) = rb_nil T" "rb_parent (h3 z) = y"
    using out hole_par_mem [of "rb_root T" C]
    by (auto simp: h3_def h2_def h1_def y_def rb_fields split: list.splits frame.splits)
  moreover have "rb_right (h3 (rb_root T)) = rb_nil T"
    using F(3,6) out by (auto simp: h3_def h2_def y_def rb_fields split: list.splits frame.splits)
  ultimately have "focus T h3 z (Nd Lf z Lf) C"
    using F out z by (auto simp: focus_def y_def)
  moreover have "redf h3 = redf h"
    by (auto simp: redf_def h3_def h2_def h1_def rb_fields split: list.splits frame.splits)
  moreover have "\<forall>a. payload (h3 a) = payload (h a)"
    by (auto simp: h3_def h2_def h1_def rb_fields split: list.splits frame.splits)
  ultimately show ?thesis using that r C(3,4) by blast
qed

section \<open>Insertion\<close>

lemma keyf_payload: "\<forall>a. payload (h' a) = payload (h a) \<Longrightarrow> keyf h' = keyf h"
  by (rule ext) (simp add: keyf_def payload_def)

lemma blacken_root:
  assumes "focus T h x t []" "sentinels_black T h" "invc (redf h) t" "invh (redf h) t" "t \<noteq> Lf"
  shows "focus T (set_red h x False) x t [] \<and> sentinels_black T (set_red h x False) \<and>
    invc (redf (set_red h x False)) t \<and> invh (redf (set_red h x False)) t \<and>
    \<not> rootred (redf (set_red h x False)) t"
proof -
  from assms(5) obtain l a r where t: "t = Nd l a r" by (cases t) auto
  with assms(1) have a: "a = x" and d: "x \<notin> set (addrs l)" "x \<notin> set (addrs r)"
    by (auto simp: focus_def)
  let ?c = "(redf h)(x := False)"
  have "rootred ?c l = rootred (redf h) l" "bh ?c l = bh (redf h) l" "invh ?c l = invh (redf h) l"
    "invc ?c l = invc (redf h) l"
    by (rule colour_cong; use d in auto)+
  moreover have "rootred ?c r = rootred (redf h) r" "bh ?c r = bh (redf h) r" "invh ?c r = invh (redf h) r"
    "invc ?c r = invc (redf h) r"
    by (rule colour_cong; use d in auto)+
  ultimately show ?thesis
    using assms t a by (simp add: sentinels_black_def rb_fields)
qed

theorem RBTreeInsert_link_ok:
  assumes ok: "rbt_ok T h t" and z: "z \<notin> set (addrs t)" "z \<noteq> rb_nil T" "z \<noteq> rb_root T"
  shows "\<exists>h' t' ls rs. RBTreeInsert_link T h z = Some h' \<and> rbt_ok T h' t' \<and>
    addrs t = ls @ rs \<and> addrs t' = ls @ z # rs \<and>
    (\<forall>a\<in>set ls. keyf h a \<le> keyf h z) \<and> (\<forall>a\<in>set rs. keyf h z < keyf h a) \<and>
    (\<forall>a. payload (h' a) = payload (h a))"
proof -
  from TreeInsertHelp_ok [OF ok z] obtain C h1 where
    h1: "TreeInsertHelp T h z = Some h1" and f1: "focus T h1 z (Nd Lf z Lf) C" and pl: "plug C Lf = t"
    and gap: "gap_at h (keyf h z) C" and r1: "redf h1 = redf h"
    and p1: "\<forall>a. payload (h1 a) = payload (h a)" by metis
  let ?h1 = "set_red h1 z True" and ?c = "(redf h)(z := True)"
  have zC: "z \<notin> set (ctx_addrs C)" using focus_distinct [OF f1] by auto
  have "cinv (redf h) (bh (redf h) Lf) C"
    using plug_cinv [of "redf h" C Lf] ok pl by (simp add: rbt_ok_def)
  moreover have "cinv ?c 0 C = cinv (redf h) 0 C"
    by (rule cinv_cong) (use zC in auto)
  ultimately have "loop_inv T ?h1 z (Nd Lf z Lf) C"
    using f1 ok z unfolding loop_inv_def
    by (simp add: r1 rbt_ok_def sentinels_black_def rb_red_redf)
  from insert_fixup_ok [OF this] obtain h2 t' where h2: "insert_fixup T ?h1 z = Some h2"
    "focus T h2 (rb_left (h2 (rb_root T))) t' []" "addrs t' = addrs (plug C (Nd Lf z Lf))"
    "invc (redf h2) t'" "invh (redf h2) t'" "sentinels_black T h2"
    "\<forall>a. payload (h2 a) = payload (h1 a)"
    by (auto simp: fixes_up_def rb_fields)
  let ?h' = "set_red h2 (rb_left (h2 (rb_root T))) False"
  have at: "addrs t' = left_of C @ z # right_of C" using h2(3) by (simp add: addrs_plug_split)
  have a: "addrs t = left_of C @ right_of C" using pl addrs_plug_split [of C Lf] by simp
  have "t' \<noteq> Lf" using at by auto
  note B = blacken_root [OF h2(2,6,4,5) this]
  have pay: "\<forall>a. payload (?h' a) = payload (h a)" using h2(7) p1 by (simp add: rb_fields)
  have "sorted (map (keyf h) (addrs t'))"
    using ok gap by (auto simp: rbt_ok_def a at gap_at_def sorted_append intro: less_imp_le order_trans)
  then have "rbt_ok T ?h' t'"
    using B ok keyf_payload [OF pay] by (simp add: rbt_ok_def rb_fields)
  moreover have "RBTreeInsert_link T h z = Some ?h'"
    by (simp add: RBTreeInsert_link_def h1 h2(1))
  ultimately show ?thesis
    using a at gap pay unfolding gap_at_def by blast
qed

section \<open>Lookup\<close>

lemma find_from_ok:
  assumes "focus T h x t C" "sorted (map (keyf h) (addrs t))" "Compare T = IntComp"
  shows "\<exists>y. find_from T h q x = Some y \<and>
    (if q \<in> keyf h ` set (addrs t) then y \<in> set (addrs t) \<and> keyf h y = q else y = MY_NULL)"
  using assms
proof (induction t arbitrary: x C)
  case Lf
  then show ?case by (subst find_from.simps) (simp add: focus_def)
next
  case (Nd l a r)
  have ax: "a = x" using Nd.prems(1) by (rule focus_addr)
  have xn: "x \<noteq> rb_nil T" using Nd.prems(1) by (auto simp: focus_def)
  have fl: "focus T h (rb_left (h x)) l (FL x r # C)" and fr: "focus T h (rb_right (h x)) r (FR l x # C)"
    using Nd.prems(1) ax by (auto simp: focus_def)
  have sl: "sorted (map (keyf h) (addrs l))" and sr: "sorted (map (keyf h) (addrs r))"
    and ol: "\<forall>b\<in>set (addrs l). keyf h b \<le> keyf h x" and or: "\<forall>b\<in>set (addrs r). keyf h x \<le> keyf h b"
    using Nd.prems(2) ax by (auto simp: sorted_append)
  consider "keyf h x = q" | "q < keyf h x" | "keyf h x < q" by fastforce
  then show ?case
  proof cases
    case 1
    then show ?thesis using xn ax Nd.prems(3)
      by (subst find_from.simps) (simp add: IntComp_cases keyf_def)
  next
    case 2
    have "find_from T h q x = find_from T h q (rb_left (h x))"
      using 2 xn Nd.prems(3) by (subst find_from.simps) (auto simp: IntComp_cases keyf_def)
    moreover have "q \<notin> keyf h ` set (addrs r)" using 2 or by auto
    moreover obtain y where "find_from T h q (rb_left (h x)) = Some y"
      "if q \<in> keyf h ` set (addrs l) then y \<in> set (addrs l) \<and> keyf h y = q else y = MY_NULL"
      using Nd.IH(1) [OF fl sl Nd.prems(3)] by blast
    ultimately show ?thesis using 2 ax by (intro exI [of _ y]) (auto split: if_splits)
  next
    case 3
    have "find_from T h q x = find_from T h q (rb_right (h x))"
      using 3 xn Nd.prems(3) by (subst find_from.simps) (auto simp: IntComp_cases keyf_def)
    moreover have "q \<notin> keyf h ` set (addrs l)" using 3 ol by auto
    moreover obtain y where "find_from T h q (rb_right (h x)) = Some y"
      "if q \<in> keyf h ` set (addrs r) then y \<in> set (addrs r) \<and> keyf h y = q else y = MY_NULL"
      using Nd.IH(2) [OF fr sr Nd.prems(3)] by blast
    ultimately show ?thesis using 3 ax by (intro exI [of _ y]) (auto split: if_splits)
  qed
qed

lemma RBFindNodeByID_ok:
  assumes "rbt_ok T h t"
  shows "\<exists>y. RBFindNodeByID T h q = Some y \<and>
    (if q \<in> keyf h ` set (addrs t) then y \<in> set (addrs t) \<and> keyf h y = q else y = MY_NULL)"
  using assms find_from_ok [of T h "rb_left (h (rb_root T))" t "[]" q]
  by (simp add: rbt_ok_def RBFindNodeByID_def)

section \<open>Neighbours\<close>

lemma member_plug: "x \<in> set (addrs t) \<Longrightarrow> \<exists>C l r. t = plug C (Nd l x r)"
proof -
  have "x \<in> set (addrs t) \<Longrightarrow> \<exists>D l r. plug C t = plug (D @ C) (Nd l x r)" for C
  proof (induction t arbitrary: C)
    case (Nd l a r)
    show ?case
    proof (cases "x = a")
      case True
      then show ?thesis by (intro exI [of _ "[]"]) auto
    next
      case False
      with Nd.prems consider "x \<in> set (addrs l)" | "x \<in> set (addrs r)" by auto
      then show ?thesis
      proof cases
        case 1
        from Nd.IH(1) [OF 1, of "FL a r # C"] obtain D l' r'
          where "plug C (Nd l a r) = plug ((D @ [FL a r]) @ C) (Nd l' x r')" by auto
        then show ?thesis by blast
      next
        case 2
        from Nd.IH(2) [OF 2, of "FR l a # C"] obtain D l' r'
          where "plug C (Nd l a r) = plug ((D @ [FR l a]) @ C) (Nd l' x r')" by auto
        then show ?thesis by blast
      qed
    qed
  qed simp
  from this [of "[]"] show "x \<in> set (addrs t) \<Longrightarrow> \<exists>C l r. t = plug C (Nd l x r)" by simp
qed

lemma focus_child:
  "focus T h x (Nd l a r) C \<Longrightarrow> focus T h (rb_left (h x)) l (FL x r # C)"
  "focus T h x (Nd l a r) C \<Longrightarrow> focus T h (rb_right (h x)) r (FR l x # C)"
  using focus_addr [of T h x l a r C] by (auto simp: focus_FL focus_FR)

lemma focus_nil: "focus T h x t C \<Longrightarrow> x = rb_nil T \<longleftrightarrow> t = Lf"
  by (cases t) (auto simp: focus_def)

lemma leftmost_ok: "focus T h x t C \<Longrightarrow> t \<noteq> Lf \<Longrightarrow> leftmost T h x = Some (hd (addrs t))"
proof (induction t arbitrary: x C)
  case (Nd l a r)
  have ax: "a = x" using Nd.prems(1) by (rule focus_addr)
  note fl = focus_child(1) [OF Nd.prems(1)]
  show ?case using Nd.IH(1) [OF fl] focus_nil [OF fl] ax
    by (subst leftmost.simps) (auto simp: hd_append)
qed simp

lemma rightmost_ok: "focus T h x t C \<Longrightarrow> t \<noteq> Lf \<Longrightarrow> rightmost T h x = Some (last (addrs t))"
proof (induction t arbitrary: x C)
  case (Nd l a r)
  have ax: "a = x" using Nd.prems(1) by (rule focus_addr)
  note fr = focus_child(2) [OF Nd.prems(1)]
  show ?case using Nd.IH(2) [OF fr] focus_nil [OF fr] ax
    by (subst rightmost.simps) (auto simp: last_append)
qed simp

lemma climb_right_ok:
  "focus T h x (Nd l a r) C \<Longrightarrow> climb_right h x (hole_par (rb_root T) C) = Some (hd (right_of C @ [rb_root T]))"
proof (induction C arbitrary: x l a r)
  case Nil
  then show ?case by (subst climb_right.simps) (auto simp: focus_def)
next
  case (Cons f C)
  show ?case
  proof (cases f)
    case (FL p s)
    then show ?thesis using focus_right_ne Cons.prems by (subst climb_right.simps) fastforce
  next
    case (FR s p)
    have "focus T h p (Nd s p (Nd l a r)) C" using Cons.prems FR by (simp add: focus_FRD)
    from Cons.IH [OF this] focus_hole_parent [OF this] focus_links(2) [OF Cons.prems [unfolded FR]] FR
    show ?thesis by (subst climb_right.simps) simp
  qed
qed

lemma climb_left_ok:
  "focus T h x (Nd l a r) C \<Longrightarrow> climb_left T h x (hole_par (rb_root T) C) = Some (last (rb_nil T # left_of C))"
proof (induction C arbitrary: x l a r)
  case Nil
  then show ?case by (subst climb_left.simps) (auto simp: focus_def)
next
  case (Cons f C)
  show ?case
  proof (cases f)
    case (FL p s)
    have f: "focus T h p (Nd (Nd l a r) p s) C" using Cons.prems FL by (simp add: focus_FLD)
    have "p \<noteq> rb_root T" using f by (auto simp: focus_def)
    with Cons.IH [OF f] focus_hole_parent [OF f] focus_links(1) [OF Cons.prems [unfolded FL]] FL
    show ?thesis by (subst climb_left.simps) simp
  next
    case (FR s p)
    then show ?thesis using focus_left_ne [OF Cons.prems [unfolded FR]]
      by (subst climb_left.simps) auto
  qed
qed

lemma neighbours_focus:
  assumes f: "focus T h x (Nd l x r) C"
  shows "TreeSuccessor T h x = Some (hd (addrs r @ right_of C @ [rb_nil T]))"
    and "TreePredecessor T h x = Some (last (rb_nil T # left_of C @ addrs l))"
proof -
  have rt: "rb_root T \<notin> set (right_of C)"
    using focus_sentinels [OF f] addrs_plug_split [of C Lf] set_plug [of C Lf] by auto
  have par: "rb_parent (h x) = hole_par (rb_root T) C" using f by (rule focus_hole_parent)
  show "TreeSuccessor T h x = Some (hd (addrs r @ right_of C @ [rb_nil T]))"
  proof (cases "r = Lf")
    case True
    then show ?thesis
      using focus_nil [OF focus_child(2) [OF f]] climb_right_ok [OF f] rt par
      by (cases "right_of C") (auto simp: TreeSuccessor_def)
  next
    case False
    then show ?thesis
      using focus_nil [OF focus_child(2) [OF f]] leftmost_ok [OF focus_child(2) [OF f] False]
      by (simp add: TreeSuccessor_def hd_append)
  qed
  show "TreePredecessor T h x = Some (last (rb_nil T # left_of C @ addrs l))"
  proof (cases "l = Lf")
    case True
    then show ?thesis
      using focus_nil [OF focus_child(1) [OF f]] climb_left_ok [OF f] par
      by (simp add: TreePredecessor_def)
  next
    case False
    then show ?thesis
      using focus_nil [OF focus_child(1) [OF f]] rightmost_ok [OF focus_child(1) [OF f] False]
      by (simp add: TreePredecessor_def last_append)
  qed
qed

section \<open>Height\<close>

fun ht :: "ptree \<Rightarrow> nat" where
  "ht Lf = 0"
| "ht (Nd l a r) = Suc (max (ht l) (ht r))"

lemma bh_size: "invh c t \<Longrightarrow> 2 ^ bh c t \<le> Suc (length (addrs t))"
proof (induction t)
  case (Nd l a r)
  then show ?case by auto
qed simp

lemma ht_bh: "invc c t \<Longrightarrow> invh c t \<Longrightarrow> ht t \<le> 2 * bh c t + (if rootred c t then 1 else 0)"
proof (induction t)
  case (Nd l a r)
  then show ?case by (auto split: if_splits)
qed simp

text \<open>The search loop cut off after \<open>k\<close> passes.\<close>

fun find_within :: "nat \<Rightarrow> RBT_tree \<Rightarrow> rb_heap \<Rightarrow> u32 \<Rightarrow> ptr \<Rightarrow> ptr option" where
  "find_within 0 T h q x = (if x = rb_nil T then Some MY_NULL else None)"
| "find_within (Suc k) T h q x =
     (if x = rb_nil T then Some MY_NULL
      else if Compare T (rb_key (h x)) q = 0 then Some x
      else find_within k T h q (if Compare T (rb_key (h x)) q = 1 then rb_left (h x) else rb_right (h x)))"

lemma find_within_ok:
  "focus T h x t C \<Longrightarrow> ht t \<le> k \<Longrightarrow> find_within k T h q x = find_from T h q x \<and> find_from T h q x \<noteq> None"
proof (induction t arbitrary: x C k)
  case Lf
  then show ?case using focus_nil [OF Lf(1)] by (cases k; subst (2) find_from.simps; subst find_from.simps) simp_all
next
  case (Nd l a r)
  then obtain k' where k: "k = Suc k'" "ht l \<le> k'" "ht r \<le> k'" by (cases k) auto
  have n: "x \<noteq> rb_nil T" using focus_nil [OF Nd.prems(1)] by simp
  show ?case
    using Nd.IH(1) [OF focus_child(1) [OF Nd.prems(1)] k(2)] Nd.IH(2) [OF focus_child(2) [OF Nd.prems(1)] k(3)] n
    by (subst (2) find_from.simps; subst find_from.simps) (simp add: k(1))
qed

lemma rbt_ok_height:
  assumes "rbt_ok T h t"
  shows "2 ^ (ht t div 2) \<le> Suc (length (addrs t))"
proof -
  have "ht t div 2 \<le> bh (redf h) t" using ht_bh [of "redf h" t] assms by (simp add: rbt_ok_def)
  then have "(2::nat) ^ (ht t div 2) \<le> 2 ^ bh (redf h) t" by (intro power_increasing) auto
  also have "\<dots> \<le> Suc (length (addrs t))" using assms by (intro bh_size) (simp add: rbt_ok_def)
  finally show ?thesis .
qed

section \<open>Destruction\<close>

fun postorder :: "ptree \<Rightarrow> ptr list" where
  "postorder Lf = []"
| "postorder (Nd l a r) = postorder l @ postorder r @ [a]"

lemma mset_postorder: "mset (postorder t) = mset (addrs t)"
  by (induction t) auto

lemma TreeDestHelper_ok: "focus T h x t C \<Longrightarrow> TreeDestHelper T h x = Some (postorder t)"
proof (induction t arbitrary: x C)
  case Lf
  then show ?case using focus_nil [OF Lf] by (subst TreeDestHelper.simps) simp
next
  case (Nd l a r)
  then show ?case
    using focus_nil [OF Nd.prems] focus_addr [OF Nd.prems] Nd.IH(1) [OF focus_child(1) [OF Nd.prems]]
      Nd.IH(2) [OF focus_child(2) [OF Nd.prems]]
    by (subst TreeDestHelper.simps) simp
qed

section \<open>The interface of the index\<close>

text \<open>
  What the server relies on: a lookup finds the node of a key or returns null, and an
  insertion of an unused node under a new key returns and extends the map.
\<close>

locale client_index =
  fixes wf :: "'s \<Rightarrow> (u32 \<Rightarrow> ptr option) \<Rightarrow> bool"
    and usable :: "'s \<Rightarrow> ptr \<Rightarrow> bool"
    and key :: "'s \<Rightarrow> ptr \<Rightarrow> u32"
    and find :: "'s \<Rightarrow> u32 \<Rightarrow> ptr option"
    and insert :: "'s \<Rightarrow> ptr \<Rightarrow> 's option"
  assumes find_ok: "wf s m \<Longrightarrow> find s k = Some (case m k of None \<Rightarrow> MY_NULL | Some a \<Rightarrow> a)"
    and insert_ok: "\<lbrakk>wf s m; usable s a; a \<notin> ran m; m (key s a) = None\<rbrakk> \<Longrightarrow>
      \<exists>s'. insert s a = Some s' \<and> wf s' (m(key s a \<mapsto> a)) \<and>
           (\<forall>b. key s' b = key s b \<and> usable s' b = usable s b)"
begin

fun insert_all :: "'s \<Rightarrow> ptr list \<Rightarrow> 's option" where
  "insert_all s [] = Some s"
| "insert_all s (a # as) = Option.bind (insert s a) (\<lambda>s'. insert_all s' as)"

lemma insert_all_ok:
  assumes "wf s m" "distinct as" "distinct (map (key s) as)" "\<forall>a\<in>set as. usable s a \<and> a \<notin> ran m"
    and "\<forall>a\<in>set as. m (key s a) = None"
  shows "\<exists>s'. insert_all s as = Some s' \<and> wf s' (m ++ map_of (map (\<lambda>a. (key s a, a)) as))"
  using assms
proof (induction as arbitrary: s m)
  case Nil
  then show ?case by simp
next
  case (Cons a as)
  then obtain s1 where s1: "insert s a = Some s1" "wf s1 (m(key s a \<mapsto> a))"
    and k: "\<And>b. key s1 b = key s b" "\<And>b. usable s1 b = usable s b"
    using insert_ok [of s m a] by auto
  have r: "\<exists>s'. insert_all s1 as = Some s' \<and>
      wf s' (m(key s a \<mapsto> a) ++ map_of (map (\<lambda>a. (key s1 a, a)) as))"
  proof (rule Cons.IH [OF s1(2)])
    have ke: "key s1 = key s" by (rule ext) (rule k(1))
    show "distinct as" "distinct (map (key s1) as)" using Cons.prems(2,3) by (auto simp: ke)
    have "m (key s a) = None" using Cons.prems(5) by simp
    then have "ran (m(key s a \<mapsto> a)) = Set.insert a (ran m)" by (rule ran_map_upd)
    then show "\<forall>b\<in>set as. usable s1 b \<and> b \<notin> ran (m(key s a \<mapsto> a))"
      using Cons.prems(2,4) k(2) by auto
    show "\<forall>b\<in>set as. (m(key s a \<mapsto> a)) (key s1 b) = None"
      using Cons.prems(3,5) by (auto simp: k(1)) (metis image_eqI)
  qed
  have "map_of (map (\<lambda>a. (key s a, a)) as) (key s a) = None"
    using Cons.prems(3) by (auto simp: map_of_eq_None_iff image_image)
  then have e: "m(key s a \<mapsto> a) ++ map_of (map (\<lambda>a. (key s1 a, a)) as) =
      m ++ map_of (map (\<lambda>a. (key s a, a)) (a # as))"
    by (auto simp: k(1) fun_eq_iff map_add_def split: option.splits)
  show ?case using r unfolding e by (simp only: insert_all.simps s1(1) bind.bind_lunit)
qed

lemma find_after_insert_all:
  assumes "wf s Map.empty" "distinct as" "distinct (map (key s) as)" "\<forall>a\<in>set as. usable s a"
  shows "\<exists>s'. insert_all s as = Some s' \<and>
    (\<forall>a\<in>set as. find s' (key s a) = Some a) \<and>
    (\<forall>k. k \<notin> key s ` set as \<longrightarrow> find s' k = Some MY_NULL)"
proof -
  obtain s' where s': "insert_all s as = Some s'"
    "wf s' (map_of (map (\<lambda>a. (key s a, a)) as))"
    using insert_all_ok [OF assms(1,2,3)] assms(4) by auto
  have "map_of (map (\<lambda>a. (key s a, a)) as) (key s a) = Some a" if "a \<in> set as" for a
    using that assms(3) by (intro map_of_is_SomeI) (auto simp: comp_def)
  moreover have "map_of (map (\<lambda>a. (key s a, a)) as) k = None" if "k \<notin> key s ` set as" for k
    using that by (auto simp: map_of_eq_None_iff)
  ultimately show ?thesis using s'(1) find_ok [OF s'(2)] by auto
qed

end

text \<open>The heap of \<open>rbt.c\<close> provides it.\<close>

definition idx_wf :: "RBT_tree \<times> rb_heap \<Rightarrow> (u32 \<Rightarrow> ptr option) \<Rightarrow> bool" where
  "idx_wf s m \<longleftrightarrow> (\<exists>t. rbt_ok (fst s) (snd s) t \<and> MY_NULL \<notin> set (addrs t) \<and>
     (\<forall>k a. m k = Some a \<longleftrightarrow> a \<in> set (addrs t) \<and> keyf (snd s) a = k))"

definition idx_usable :: "RBT_tree \<times> rb_heap \<Rightarrow> ptr \<Rightarrow> bool" where
  "idx_usable s a \<longleftrightarrow> a \<noteq> MY_NULL \<and> a \<noteq> rb_nil (fst s) \<and> a \<noteq> rb_root (fst s)"

definition idx_key :: "RBT_tree \<times> rb_heap \<Rightarrow> ptr \<Rightarrow> u32" where
  "idx_key s a = keyf (snd s) a"

definition idx_find :: "RBT_tree \<times> rb_heap \<Rightarrow> u32 \<Rightarrow> ptr option" where
  "idx_find s k = RBFindNodeByID (fst s) (snd s) k"

definition idx_insert :: "RBT_tree \<times> rb_heap \<Rightarrow> ptr \<Rightarrow> (RBT_tree \<times> rb_heap) option" where
  "idx_insert s a = map_option (Pair (fst s)) (RBTreeInsert_link (fst s) (snd s) a)"

interpretation rbi: client_index idx_wf idx_usable idx_key idx_find idx_insert
proof
  fix s m k assume "idx_wf s m"
  then obtain t where t: "rbt_ok (fst s) (snd s) t"
    and m: "\<And>k a. m k = Some a \<longleftrightarrow> a \<in> set (addrs t) \<and> keyf (snd s) a = k"
    unfolding idx_wf_def by blast
  obtain y where y: "idx_find s k = Some y"
    "if k \<in> keyf (snd s) ` set (addrs t) then y \<in> set (addrs t) \<and> keyf (snd s) y = k else y = MY_NULL"
    using RBFindNodeByID_ok [OF t, of k] unfolding idx_find_def by blast
  show "idx_find s k = Some (case m k of None \<Rightarrow> MY_NULL | Some a \<Rightarrow> a)"
  proof (cases "k \<in> keyf (snd s) ` set (addrs t)")
    case True
    with y(2) have "m k = Some y" by (simp add: m)
    with y(1) show ?thesis by simp
  next
    case False
    then have "m k \<noteq> Some a" for a unfolding m by blast
    then have "m k = None" by (cases "m k") auto
    with False y show ?thesis by simp
  qed
next
  fix s m a
  assume "idx_wf s m" and u: "idx_usable s a" and am: "a \<notin> ran m" and km: "m (idx_key s a) = None"
  then obtain t where t: "rbt_ok (fst s) (snd s) t" "MY_NULL \<notin> set (addrs t)"
    and m: "\<And>k a. m k = Some a \<longleftrightarrow> a \<in> set (addrs t) \<and> keyf (snd s) a = k"
    unfolding idx_wf_def by blast
  have at: "a \<notin> set (addrs t)" using am m by (auto simp: ran_def)
  have un: "a \<noteq> rb_nil (fst s)" "a \<noteq> rb_root (fst s)" "a \<noteq> MY_NULL"
    using u by (auto simp: idx_usable_def)
  from RBTreeInsert_link_ok [OF t(1) at un(1,2)] obtain h' t' ls rs where
    h': "RBTreeInsert_link (fst s) (snd s) a = Some h'" "rbt_ok (fst s) h' t'" "addrs t = ls @ rs"
    "addrs t' = ls @ a # rs" "\<forall>b. payload (h' b) = payload (snd s b)" by blast
  have k: "keyf h' = keyf (snd s)" by (rule keyf_payload [OF h'(5)])
  have st: "set (addrs t') = Set.insert a (set (addrs t))" by (simp add: h'(3,4))
  have kn: "keyf (snd s) b \<noteq> keyf (snd s) a" if "b \<in> set (addrs t)" for b
    using that km m [of "keyf (snd s) a" b] by (auto simp: idx_key_def)
  have "(m(idx_key s a \<mapsto> a)) q = Some b \<longleftrightarrow> b \<in> set (addrs t') \<and> keyf h' b = q" for q b
    using kn [of b] at by (auto simp: st k m idx_key_def)
  then have "idx_wf (fst s, h') (m(idx_key s a \<mapsto> a))"
    using h'(2) t(2) un(3) st unfolding idx_wf_def by auto
  then show "\<exists>s'. idx_insert s a = Some s' \<and> idx_wf s' (m(idx_key s a \<mapsto> a)) \<and>
      (\<forall>b. idx_key s' b = idx_key s b \<and> idx_usable s' b = idx_usable s b)"
    using h'(1) by (simp add: idx_insert_def idx_key_def idx_usable_def k)
qed

section \<open>Results\<close>

lemma rb_fill_node_ok:
  assumes "rbt_ok T h t" "z \<notin> set (addrs t)" "z \<noteq> rb_nil T" "z \<noteq> rb_root T"
    and "rb_fill_node h z key c_addr port status grp_ptr capability = Inr h1"
  shows "rbt_ok T h1 t" "keyf h1 z = key" "\<forall>a. a \<noteq> z \<longrightarrow> payload (h1 a) = payload (h a)"
proof -
  have l: "rb_left (h1 a) = rb_left (h a)" "rb_right (h1 a) = rb_right (h a)"
    "rb_parent (h1 a) = rb_parent (h a)" "rb_red (h1 a) = rb_red (h a)" for a
    by (cases "a = z"; use assms(5) in \<open>auto simp: rb_fill_node_def bindE_eq_Inr\<close>)+
  have k: "keyf h1 a = keyf h a" if "a \<noteq> z" for a
    using assms(5) that by (auto simp: rb_fill_node_def bindE_eq_Inr keyf_def)
  have km: "map (keyf h1) (addrs t) = map (keyf h) (addrs t)"
    by (rule map_cong [OF refl], rule k) (use assms(2) in auto)
  have r: "redf h1 = redf h" by (rule ext) (simp add: redf_def l)
  have "focus T h1 (rb_left (h1 (rb_root T))) t [] = focus T h (rb_left (h1 (rb_root T))) t []"
    by (rule focus_cong) (simp add: same_links_def l)
  then show "rbt_ok T h1 t"
    using assms(1) by (simp add: rbt_ok_def sentinels_black_def l r km)
  show "keyf h1 z = key" "\<forall>a. a \<noteq> z \<longrightarrow> payload (h1 a) = payload (h a)"
    using assms(5) by (auto simp: rb_fill_node_def bindE_eq_Inr keyf_def payload_def)
qed

text \<open>A blank node, for the concrete instances below.\<close>

definition blank_node :: RBT_node where
  "blank_node = \<lparr>rb_key = 0, rb_client_addr = \<lparr>sa_family = 0, sa_data = replicate 14 0\<rparr>, rb_port = 0,
     rb_grp_list = [], rb_av_status = RB_FREE, rb_is_moderator = False, rb_red = False,
     rb_left = 0, rb_right = 0, rb_parent = 0, rb_capability = 0\<rparr>"

definition blank_index :: "rb_heap \<times> RBT_tree" where
  "blank_index = RBTreeCreate (\<lambda>_. blank_node) 1 2 IntComp"

lemma blank_index_ok: "rbt_ok (snd blank_index) (fst blank_index) Lf"
  "rb_nil (snd blank_index) = 1" "rb_root (snd blank_index) = 2"
  using RBTreeCreate_ok [of "\<lambda>_. blank_node" 1 2 "fst blank_index" "snd blank_index"]
  by (simp_all add: blank_index_def)

definition keyed_index :: "rb_heap \<times> RBT_tree" where
  "keyed_index = RBTreeCreate (\<lambda>a. blank_node\<lparr>rb_key := of_nat (10 - a)\<rparr>) 1 2 IntComp"

text \<open>
  C4: \<open>RBTreeInsert\<close> returns, for any red-black index and any unused node: the tree is
  again a red-black search tree over the old nodes and the new one, which stands in key
  order after the nodes of equal key; its fields hold the arguments and no other node's
  fields (links and colours apart) change.
\<close>

theorem RBTreeInsert_correct:
  assumes "rbt_ok T h t" "z \<notin> set (addrs t)" "z \<noteq> rb_nil T" "z \<noteq> rb_root T"
    and "strcpy_bytes (sa_data (rb_client_addr (h z))) (sa_data c_addr) = Inr d"
  shows "\<exists>h' t' ls rs. RBTreeInsert T h z key c_addr port status grp_ptr capability = Inr (Some h') \<and>
    rbt_ok T h' t' \<and> addrs t = ls @ rs \<and> addrs t' = ls @ z # rs \<and>
    (\<forall>a\<in>set ls. keyf h a \<le> key) \<and> (\<forall>a\<in>set rs. key < keyf h a) \<and>
    payload (h' z) = (key, \<lparr>sa_family = sa_family c_addr, sa_data = d\<rparr>, port, [grp_ptr], status, False, capability) \<and>
    (\<forall>a. a \<noteq> z \<longrightarrow> payload (h' a) = payload (h a))"
proof -
  obtain h1 where h1: "rb_fill_node h z key c_addr port status grp_ptr capability = Inr h1"
    using assms(5) by (simp add: rb_fill_node_def)
  note F = rb_fill_node_ok [OF assms(1-4) h1]
  obtain h' t' ls rs where r: "RBTreeInsert_link T h1 z = Some h'" "rbt_ok T h' t'"
    "addrs t = ls @ rs" "addrs t' = ls @ z # rs" "\<forall>a\<in>set ls. keyf h1 a \<le> key"
    "\<forall>a\<in>set rs. key < keyf h1 a" "\<forall>a. payload (h' a) = payload (h1 a)"
    using RBTreeInsert_link_ok [OF F(1) assms(2-4)] F(2) by metis
  have k: "keyf h1 a = keyf h a" if "a \<in> set (addrs t)" for a
  proof -
    have "a \<noteq> z" using that assms(2) by auto
    then show ?thesis using F(3) by (auto simp: payload_def keyf_def)
  qed
  have z: "payload (h1 z) = (key, \<lparr>sa_family = sa_family c_addr, sa_data = d\<rparr>, port, [grp_ptr], status, False, capability)"
    using h1 assms(5) by (auto simp: rb_fill_node_def payload_def)
  have "(\<forall>a\<in>set ls. keyf h a \<le> key) \<and> (\<forall>a\<in>set rs. key < keyf h a)"
    using r(5,6) k r(3) by auto
  then show ?thesis
    using r(1-4,7) z F(3) by (intro exI [of _ h'] exI [of _ t'] exI [of _ ls] exI [of _ rs])
      (simp add: RBTreeInsert_def h1)
qed

theorem RBTreeInsert_correct_witness:
  "\<exists>h'. RBTreeInsert (snd blank_index) (fst blank_index) 3 7 \<lparr>sa_family = 2, sa_data = replicate 14 0\<rparr> 9 RB_FREE 5 4
      = Inr (Some h') \<and> payload (h' 3) = (7, \<lparr>sa_family = 2, sa_data = replicate 14 0\<rparr>, 9, [5], RB_FREE, False, 4)"
proof -
  have "strcpy_bytes (sa_data (rb_client_addr (fst blank_index 3)))
      (sa_data \<lparr>sa_family = 2, sa_data = replicate 14 0\<rparr>) = Inr (replicate 14 0)"
    by (simp add: blank_index_def RBTreeCreate_def Let_def blank_node_def numeral_eq_Suc)
  from RBTreeInsert_correct [OF blank_index_ok(1) _ _ _ this, of 7 9 RB_FREE 5 4]
  show ?thesis by (auto simp: blank_index_ok)
qed

fun insert_nodes :: "RBT_tree \<Rightarrow> rb_heap \<Rightarrow> ptr list \<Rightarrow> rb_heap option" where
  "insert_nodes T h [] = Some h"
| "insert_nodes T h (a # as) = Option.bind (RBTreeInsert_link T h a) (\<lambda>h'. insert_nodes T h' as)"

lemma insert_nodes_all: "rbi.insert_all (T, h) as = map_option (Pair T) (insert_nodes T h as)"
  by (induction as arbitrary: h) (auto simp: idx_insert_def split: option.splits bind_splits)

lemma insert_nodes_found:
  assumes "rbt_ok T h Lf" "distinct as" "distinct (map (keyf h) as)"
    and "\<forall>a\<in>set as. a \<noteq> MY_NULL \<and> a \<noteq> rb_nil T \<and> a \<noteq> rb_root T"
  shows "\<exists>h'. insert_nodes T h as = Some h' \<and>
    (\<forall>a\<in>set as. RBFindNodeByID T h' (keyf h a) = Some a) \<and>
    (\<forall>k. k \<notin> keyf h ` set as \<longrightarrow> RBFindNodeByID T h' k = Some MY_NULL)"
proof -
  have "idx_wf (T, h) Map.empty" using assms(1) by (auto simp: idx_wf_def intro!: exI [of _ Lf])
  moreover have "idx_key (T, h) = keyf h" by (rule ext) (simp add: idx_key_def)
  moreover have "\<forall>a\<in>set as. idx_usable (T, h) a" using assms(4) by (simp add: idx_usable_def)
  ultimately have "\<exists>s'. rbi.insert_all (T, h) as = Some s' \<and>
    (\<forall>a\<in>set as. idx_find s' (keyf h a) = Some a) \<and>
    (\<forall>k. k \<notin> keyf h ` set as \<longrightarrow> idx_find s' k = Some MY_NULL)"
    using rbi.find_after_insert_all [of "(T, h)" as] assms(2,3) by simp
  then show ?thesis by (auto simp: insert_nodes_all idx_find_def)
qed

text \<open>
  Building the index from \<open>RBTreeCreate\<close> with nodes of distinct keys always
  returns, and \<open>RBFindNodeByID\<close> then returns, for every key, the node of that key, and
  the null pointer for a key that was not inserted.
\<close>

theorem RBFindNodeByID_after_inserts:
  assumes "RBTreeCreate h nl rt IntComp = (h0, T)" "rt \<noteq> nl"
    and "distinct as" "distinct (map (\<lambda>a. rb_key (h0 a)) as)" "\<forall>a\<in>set as. a \<noteq> MY_NULL \<and> a \<noteq> nl \<and> a \<noteq> rt"
  shows "\<exists>h'. insert_nodes T h0 as = Some h' \<and>
    (\<forall>a\<in>set as. RBFindNodeByID T h' (rb_key (h0 a)) = Some a) \<and>
    (\<forall>k. k \<notin> (\<lambda>a. rb_key (h0 a)) ` set as \<longrightarrow> RBFindNodeByID T h' k = Some MY_NULL)"
proof -
  have "keyf h0 = (\<lambda>a. rb_key (h0 a))" by (rule ext) (simp add: keyf_def)
  then show ?thesis
    using insert_nodes_found [of T h0 as] RBTreeCreate_ok [OF assms(1,2)] assms(3-5) by simp
qed

theorem RBFindNodeByID_after_inserts_witness:
  "\<exists>h'. insert_nodes (snd keyed_index) (fst keyed_index) [3, 4, 5, 6] = Some h' \<and>
     RBFindNodeByID (snd keyed_index) h' 6 = Some 4 \<and> RBFindNodeByID (snd keyed_index) h' 9 = Some 0"
proof -
  have k: "rb_key (fst keyed_index 3) = 7" "rb_key (fst keyed_index 4) = 6"
    "rb_key (fst keyed_index 5) = 5" "rb_key (fst keyed_index 6) = 4"
    by (simp_all add: keyed_index_def RBTreeCreate_def Let_def)
  have "RBTreeCreate (\<lambda>a. blank_node\<lparr>rb_key := of_nat (10 - a)\<rparr>) 1 2 IntComp = (fst keyed_index, snd keyed_index)"
    by (simp add: keyed_index_def)
  from RBFindNodeByID_after_inserts [OF this, of "[3, 4, 5, 6]"] show ?thesis by (auto simp: k)
qed

text \<open>
  C7: \<open>TreeSuccessor\<close> and \<open>TreePredecessor\<close> return the next and the previous node in
  key order, and both always return.  At the ends they return the sentinel \<open>nil\<close> of the
  index, not the null pointer that their comments name; a sentinel that was allocated is not null.
\<close>

theorem tree_neighbours:
  assumes "rbt_ok T h t" "addrs t = ls @ x # rs" "rb_nil T \<noteq> MY_NULL"
  shows "TreeSuccessor T h x = Some (hd (rs @ [rb_nil T])) \<and>
    TreePredecessor T h x = Some (last (rb_nil T # ls)) \<and>
    (rs = [] \<longrightarrow> TreeSuccessor T h x \<noteq> Some MY_NULL) \<and> (ls = [] \<longrightarrow> TreePredecessor T h x \<noteq> Some MY_NULL)"
proof -
  have "x \<in> set (addrs t)" using assms(2) by simp
  then obtain C l r where t: "t = plug C (Nd l x r)" using member_plug by blast
  obtain y where f: "focus T h y (Nd l x r) C"
    using assms(1) focus_into unfolding rbt_ok_def t by blast
  have y: "y = x" using focus_addr [OF f] by simp
  have a: "ls @ x # rs = (left_of C @ addrs l) @ x # (addrs r @ right_of C)"
    using assms(2) by (simp add: t addrs_plug_split)
  have "distinct (addrs t)" using assms(1) by (simp add: rbt_ok_def focus_def)
  then have "x \<notin> set ls" "x \<notin> set rs" using assms(2) by auto
  with a have "ls = left_of C @ addrs l" "rs = addrs r @ right_of C"
    by (metis (no_types, lifting) append_Cons_eq_iff)+
  then have n: "TreeSuccessor T h x = Some (hd (rs @ [rb_nil T]))" "TreePredecessor T h x = Some (last (rb_nil T # ls))"
    using neighbours_focus [OF f [unfolded y]] by simp_all
  then show ?thesis using assms(3) by auto
qed

theorem tree_neighbours_witness:
  "\<exists>h'. RBTreeInsert_link (snd keyed_index) (fst keyed_index) 3 = Some h' \<and>
     TreeSuccessor (snd keyed_index) h' 3 = Some 1 \<and> TreePredecessor (snd keyed_index) h' 3 = Some 1"
proof -
  have k: "RBTreeCreate (\<lambda>a. blank_node\<lparr>rb_key := of_nat (10 - a)\<rparr>) 1 2 IntComp = (fst keyed_index, snd keyed_index)"
    by (simp add: keyed_index_def)
  note ok = RBTreeCreate_ok [OF k, simplified]
  obtain h' t' ls rs where r: "RBTreeInsert_link (snd keyed_index) (fst keyed_index) 3 = Some h'"
    "rbt_ok (snd keyed_index) h' t'" "[] = ls @ rs" "addrs t' = ls @ 3 # rs"
    using RBTreeInsert_link_ok [OF ok(1), of 3] ok(2,3) by auto
  then show ?thesis using tree_neighbours [OF r(2), of "[]" 3 "[]"] ok(2) by auto
qed

text \<open>
  C6: the tree stays balanced: in an index of \<open>n\<close> clients a lookup returns within \<open>k\<close>
  passes of its loop, with \<open>2 ^ (k div 2) \<le> n + 1\<close>.
\<close>

theorem lookup_cost:
  assumes "rbt_ok T h t"
  shows "\<exists>k y. 2 ^ (k div 2) \<le> Suc (length (addrs t)) \<and>
    find_within k T h q (rb_left (h (rb_root T))) = Some y \<and> RBFindNodeByID T h q = Some y"
  using rbt_ok_height [OF assms] find_within_ok [of T h "rb_left (h (rb_root T))" t "[]" "ht t" q] assms
  unfolding rbt_ok_def RBFindNodeByID_def by fastforce

theorem lookup_cost_witness:
  "\<exists>k y. 2 ^ (k div 2) \<le> Suc (length (addrs Lf)) \<and>
    find_within k (snd blank_index) (fst blank_index) 5 (rb_left (fst blank_index (rb_root (snd blank_index)))) = Some y \<and>
    RBFindNodeByID (snd blank_index) (fst blank_index) 5 = Some y"
  by (rule lookup_cost [OF blank_index_ok(1)])

text \<open>
  C8: \<open>RBTreeDestroy\<close> returns after freeing every node exactly once, each one after its
  two children, and the two sentinels last.
\<close>

theorem RBTreeDestroy_frees_once:
  assumes "rbt_ok T h t"
  shows "RBTreeDestroy T h = Some (postorder t @ [rb_root T, rb_nil T]) \<and>
    distinct (postorder t @ [rb_root T, rb_nil T]) \<and> set (postorder t) = set (addrs t)"
proof -
  have f: "focus T h (rb_left (h (rb_root T))) t []" using assms by (simp add: rbt_ok_def)
  have s: "set (postorder t) = set (addrs t)" using mset_postorder by (metis set_mset_mset)
  have "distinct (postorder t)"
    using f mset_eq_imp_distinct_iff [OF mset_postorder [of t]] by (simp add: focus_def)
  then show ?thesis
    using TreeDestHelper_ok [OF f] f s by (auto simp: RBTreeDestroy_def focus_def)
qed

theorem RBTreeDestroy_frees_once_witness:
  "RBTreeDestroy (snd blank_index) (fst blank_index) = Some [2, 1]"
  using RBTreeDestroy_frees_once [OF blank_index_ok(1)] by (simp add: blank_index_ok)

text \<open>
  The address \<open>RBTreeInsert\<close> stores is the argument's only up to its first zero byte:
  with \<open>strcpy\<close> on the binary \<open>sa_data\<close>, a port below 256 or an address with a zero byte
  leaves the rest of the array as the allocator left it.
\<close>

theorem RBTreeInsert_address_cut:
  assumes "rbt_ok T h t" "z \<notin> set (addrs t)" "z \<noteq> rb_nil T" "z \<noteq> rb_root T"
    and "sa_data c_addr = xs @ 0 # ys" "0 \<notin> set xs"
    and "length (sa_data (rb_client_addr (h z))) = length (sa_data c_addr)"
  shows "\<exists>h'. RBTreeInsert T h z key c_addr port status grp_ptr capability = Inr (Some h') \<and>
    sa_data (rb_client_addr (h' z)) = xs @ 0 # drop (Suc (length xs)) (sa_data (rb_client_addr (h z)))"
proof -
  have d: "strcpy_bytes (sa_data (rb_client_addr (h z))) (sa_data c_addr) =
      Inr (xs @ 0 # drop (Suc (length xs)) (sa_data (rb_client_addr (h z))))"
    unfolding assms(5) by (rule strcpy_bytes_prefix [OF assms(6), of _ ys]) (use assms(5,7) in simp_all)
  then obtain h1 where h1: "rb_fill_node h z key c_addr port status grp_ptr capability = Inr h1"
    "sa_data (rb_client_addr (h1 z)) = xs @ 0 # drop (Suc (length xs)) (sa_data (rb_client_addr (h z)))"
    by (simp add: rb_fill_node_def)
  obtain h' where "RBTreeInsert_link T h1 z = Some h'" "payload (h' z) = payload (h1 z)"
    using RBTreeInsert_link_ok [OF rb_fill_node_ok(1) [OF assms(1-4) h1(1)] assms(2-4)] by blast
  then show ?thesis using h1 by (auto simp: RBTreeInsert_def payload_def)
qed

theorem RBTreeInsert_address_cut_witness:
  "\<exists>h'. RBTreeInsert (snd blank_index) (fst blank_index) 3 7
      \<lparr>sa_family = 2, sa_data = [80] @ 0 # replicate 12 9\<rparr> 9 RB_FREE 5 4 = Inr (Some h') \<and>
     sa_data (rb_client_addr (h' 3)) = [80] @ 0 # replicate 12 0"
proof -
  have b: "sa_data (rb_client_addr (fst blank_index 3)) = replicate 14 0"
    by (simp add: blank_index_def RBTreeCreate_def Let_def blank_node_def)
  let ?a = "\<lparr>sa_family = 2, sa_data = [80] @ 0 # replicate 12 9\<rparr> :: sockaddr"
  have "length (sa_data (rb_client_addr (fst blank_index 3))) = length (sa_data ?a)" by (simp add: b)
  from RBTreeInsert_address_cut [OF blank_index_ok(1) _ _ _ _ _ this, of "[80]" "replicate 12 9" 7 9 RB_FREE 5 4]
  show ?thesis unfolding b by (simp add: blank_index_ok(2,3))
qed

end
