(* ===== verification/RbtFixup.thy ===== *)
theory RbtFixup
  imports RbtIndex
begin

text \<open>
  Deletion: the loop of \<open>RBDeleteFixUp\<close> returns and makes up for a missing black node in
  every case of side, brother and nephews.
\<close>

section \<open>A missing black node\<close>

text \<open>The children are well coloured, whatever the colour of the node.\<close>

fun invc2 :: "(ptr \<Rightarrow> bool) \<Rightarrow> ptree \<Rightarrow> bool" where
  "invc2 c Lf = True"
| "invc2 c (Nd l a r) = (invc c l \<and> invc c r)"

lemma invc2I: "invc c t \<Longrightarrow> invc2 c t"
  by (cases t) simp_all

lemma invc2D: "invc2 c t \<Longrightarrow> \<not> rootred c t \<Longrightarrow> invc c t"
  by (cases t) simp_all

text \<open>
  The loop invariant: the surroundings lack one black node at \<open>x\<close>; \<open>root\<close>, read before
  the loop, is still the top of the tree unless \<open>x\<close> is red and the loop about to end.
\<close>

definition deficit :: "RBT_tree \<Rightarrow> ptr \<Rightarrow> rb_heap \<Rightarrow> ptr \<Rightarrow> ptree \<Rightarrow> frame list \<Rightarrow> bool" where
  "deficit T root h x t C \<longleftrightarrow> focus T h x t C \<and> rb_parent (h x) = hole_par (rb_root T) C \<and> sentinels_black T h \<and>
     invc2 (redf h) t \<and> invh (redf h) t \<and> cinv (redf h) (Suc (bh (redf h) t)) C \<and>
     (rootred (redf h) t \<or> root = rb_left (h (rb_root T)))"

definition settles :: "RBT_tree \<Rightarrow> ptr \<Rightarrow> rb_heap \<Rightarrow> ptr \<Rightarrow> ptree \<Rightarrow> frame list \<Rightarrow> bool" where
  "settles T root h x t C \<longleftrightarrow> (\<exists>h' t'. delete_fix_loop T root h x = Some h' \<and>
     focus T h' (rb_left (h' (rb_root T))) t' [] \<and> addrs t' = addrs (plug C t) \<and> invc (redf h') t' \<and>
     invh (redf h') t' \<and> \<not> rootred (redf h') t' \<and> sentinels_black T h' \<and> (\<forall>a. payload (h' a) = payload (h a)))"

lemma focus_out: "focus T h x t C \<Longrightarrow> x \<notin> set (ctx_addrs C)"
  using tree_at_root [of "rb_nil T" h "hole_par (rb_root T) C" x t] by (auto simp: focus_def)

lemma focus_top_in:
  assumes "focus T h x t C" "C \<noteq> []"
  shows "rb_left (h (rb_root T)) \<in> set (ctx_addrs C)"
proof -
  have "\<exists>l a r. plug C t = Nd l a r \<and> a \<in> set (ctx_addrs C)" if "C \<noteq> []" for C t
    using that
  proof (induction C t rule: plug.induct)
    case (2 p r C t)
    then show ?case by (cases "C = []") auto
  next
    case (3 l p C t)
    then show ?case by (cases "C = []") auto
  qed simp
  then obtain l a r where p: "plug C t = Nd l a r" "a \<in> set (ctx_addrs C)" using assms(2) by blast
  have "a = rb_left (h (rb_root T))" using focus_plug [OF assms(1)] p(1) by (simp add: focus_addr)
  then show ?thesis using p(2) by simp
qed

lemma focus_top:
  assumes "focus T h x t C"
  shows "x = rb_left (h (rb_root T)) \<longleftrightarrow> C = []"
  using focus_top_in [OF assms] focus_out [OF assms] assms by (cases "C = []") (auto simp: focus_def)

lemma plug_black: "cinv c n C \<Longrightarrow> (C = [] \<Longrightarrow> \<not> rootred c t) \<Longrightarrow> \<not> rootred c (plug C t)"
proof (induction C t arbitrary: n rule: plug.induct)
  case (2 p r C t)
  then show ?case by (auto split: if_splits)
next
  case (3 l p C t)
  then show ?case by (auto split: if_splits)
qed simp

lemma focus_red: "focus T h x t C \<Longrightarrow> sentinels_black T h \<Longrightarrow> rb_red (h x) = rootred (redf h) t"
  using tree_at_red [of "rb_nil T" h "hole_par (rb_root T) C" x t] by (simp add: focus_def sentinels_black_def)

text \<open>The end of the loop: the node is blackened.\<close>

lemma settle_done:
  assumes "deficit T root h x t C" "rootred (redf h) t \<or> root = x"
  shows "settles T root h x t C"
proof -
  note D = assms(1) [unfolded deficit_def]
  have f: "focus T h x t C" and sb: "sentinels_black T h" using D by simp_all
  let ?h = "set_red h x False" and ?c = "(redf h)(x := False)"
  have loop: "delete_fix_loop T root h x = Some ?h"
    using assms(2) focus_red [OF f sb] by (subst delete_fix_loop.simps) auto
  have red: "C \<noteq> [] \<Longrightarrow> rootred (redf h) t" using assms(2) D focus_top [OF f] by auto
  have out: "x \<notin> set (ctx_addrs C)" by (rule focus_out [OF f])
  have t: "invc ?c t \<and> invh ?c t \<and> \<not> rootred ?c t \<and> (rootred (redf h) t \<longrightarrow> bh ?c t = Suc (bh (redf h) t))"
  proof (cases t)
    case (Nd l a r)
    then have a: "a = x" using f by (simp add: focus_addr)
    have d: "x \<notin> set (addrs l)" "x \<notin> set (addrs r)" using focus_distinct [OF f] Nd a by auto
    have "rootred ?c l = rootred (redf h) l" "bh ?c l = bh (redf h) l" "invh ?c l = invh (redf h) l"
      "invc ?c l = invc (redf h) l"
      by (rule colour_cong; use d in auto)+
    moreover have "rootred ?c r = rootred (redf h) r" "bh ?c r = bh (redf h) r" "invh ?c r = invh (redf h) r"
      "invc ?c r = invc (redf h) r"
      by (rule colour_cong; use d in auto)+
    ultimately show ?thesis using D Nd a by simp
  qed simp
  have "cinv ?c n C = cinv (redf h) n C" for n by (rule cinv_cong) (use out in auto)
  then have c: "cinv ?c (bh ?c t) C" using D t red by (cases C) auto
  have "invc ?c (plug C t) \<and> invh ?c (plug C t)" by (rule plug_colour [OF c]) (use t in simp_all)
  moreover have "\<not> rootred ?c (plug C t)" by (rule plug_black [OF c]) (use t in simp)
  moreover have "focus T ?h (rb_left (?h (rb_root T))) (plug C t) []"
    by (rule focus_plug [where x = x]) (use f in simp)
  ultimately show ?thesis
    unfolding settles_def using loop sb by (auto simp: sentinels_black_def rb_fields)
qed


section \<open>The end of the loop by a rotation\<close>

text \<open>
  A pass for a left child, and the mirror image for a right child: a red brother is rotated
  up; two black nephews end the pass; a red inner nephew is rotated out; and last the
  brother takes the colour of the parent, the parent and the outer nephew turn black, and
  the parent is rotated down to \<open>x\<close>.
\<close>

definition raise_left :: "RBT_tree \<Rightarrow> rb_heap \<Rightarrow> ptr \<Rightarrow> ptr \<Rightarrow> rb_heap \<times> ptr" where
  "raise_left T h w x =
     (if rb_red (h w)
      then let h' = set_red (set_red h w False) (rb_parent (h x)) True;
               h'' = LeftRotate T h' (rb_parent (h' x))
           in (h'', rb_right (h'' (rb_parent (h'' x))))
      else (h, w))"

definition turn_left :: "RBT_tree \<Rightarrow> rb_heap \<Rightarrow> ptr \<Rightarrow> ptr \<Rightarrow> rb_heap \<times> ptr" where
  "turn_left T h w x =
     (if \<not> rb_red (h (rb_right (h w)))
      then let h' = set_red (set_red h (rb_left (h w)) False) w True;
               h'' = RightRotate T h' w
           in (h'', rb_right (h'' (rb_parent (h'' x))))
      else (h, w))"

definition close_left :: "RBT_tree \<Rightarrow> rb_heap \<Rightarrow> ptr \<Rightarrow> ptr \<Rightarrow> rb_heap" where
  "close_left T h w x =
     (let h3 = set_red h w (rb_red (h (rb_parent (h x))));
          h4 = set_red h3 (rb_parent (h3 x)) False;
          h5 = set_red h4 (rb_right (h4 w)) False
      in LeftRotate T h5 (rb_parent (h5 x)))"

definition rest_left :: "RBT_tree \<Rightarrow> ptr \<Rightarrow> rb_heap \<Rightarrow> ptr \<Rightarrow> ptr \<Rightarrow> rb_heap \<times> ptr" where
  "rest_left T root h w x =
     (if \<not> rb_red (h (rb_right (h w))) \<and> \<not> rb_red (h (rb_left (h w)))
      then (set_red h w True, rb_parent (h x))
      else (close_left T (fst (turn_left T h w x)) (snd (turn_left T h w x)) x, root))"

definition raise_right :: "RBT_tree \<Rightarrow> rb_heap \<Rightarrow> ptr \<Rightarrow> ptr \<Rightarrow> rb_heap \<times> ptr" where
  "raise_right T h w x =
     (if rb_red (h w)
      then let h' = set_red (set_red h w False) (rb_parent (h x)) True;
               h'' = RightRotate T h' (rb_parent (h' x))
           in (h'', rb_left (h'' (rb_parent (h'' x))))
      else (h, w))"

definition turn_right :: "RBT_tree \<Rightarrow> rb_heap \<Rightarrow> ptr \<Rightarrow> ptr \<Rightarrow> rb_heap \<times> ptr" where
  "turn_right T h w x =
     (if \<not> rb_red (h (rb_left (h w)))
      then let h' = set_red (set_red h (rb_right (h w)) False) w True;
               h'' = LeftRotate T h' w
           in (h'', rb_left (h'' (rb_parent (h'' x))))
      else (h, w))"

definition close_right :: "RBT_tree \<Rightarrow> rb_heap \<Rightarrow> ptr \<Rightarrow> ptr \<Rightarrow> rb_heap" where
  "close_right T h w x =
     (let h3 = set_red h w (rb_red (h (rb_parent (h x))));
          h4 = set_red h3 (rb_parent (h3 x)) False;
          h5 = set_red h4 (rb_left (h4 w)) False
      in RightRotate T h5 (rb_parent (h5 x)))"

definition rest_right :: "RBT_tree \<Rightarrow> ptr \<Rightarrow> rb_heap \<Rightarrow> ptr \<Rightarrow> ptr \<Rightarrow> rb_heap \<times> ptr" where
  "rest_right T root h w x =
     (if \<not> rb_red (h (rb_right (h w))) \<and> \<not> rb_red (h (rb_left (h w)))
      then (set_red h w True, rb_parent (h x))
      else (close_right T (fst (turn_right T h w x)) (snd (turn_right T h w x)) x, root))"

lemma delete_fix_step_left:
  assumes "x = rb_left (h (rb_parent (h x)))"
  shows "delete_fix_step T root h x =
    (let s = raise_left T h (rb_right (h (rb_parent (h x)))) x in rest_left T root (fst s) (snd s) x)"
  unfolding delete_fix_step_def if_P [OF assms] raise_left_def rest_left_def turn_left_def close_left_def
  by (simp only: Let_def case_prod_beta)

lemma delete_fix_step_right:
  assumes "x \<noteq> rb_left (h (rb_parent (h x)))"
  shows "delete_fix_step T root h x =
    (let s = raise_right T h (rb_left (h (rb_parent (h x)))) x in rest_right T root (fst s) (snd s) x)"
  unfolding delete_fix_step_def if_not_P [OF assms] raise_right_def rest_right_def turn_right_def close_right_def
  by (simp only: Let_def case_prod_beta)

lemma delete_pass_payload [rb_fields]:
  "payload (fst (raise_left T h w x) a) = payload (h a)" "payload (fst (turn_left T h w x) a) = payload (h a)"
  "payload (close_left T h w x a) = payload (h a)"
  "payload (fst (raise_right T h w x) a) = payload (h a)" "payload (fst (turn_right T h w x) a) = payload (h a)"
  "payload (close_right T h w x a) = payload (h a)"
  by (simp_all add: raise_left_def turn_left_def close_left_def raise_right_def turn_right_def close_right_def Let_def rb_fields)

lemma delete_fix_step_payload [rb_fields]:
  "payload (fst (delete_fix_step T root h x) a) = payload (h a)"
proof -
  have "payload (fst (rest_left T root h' w x) a) = payload (h' a)"
    "payload (fst (rest_right T root h' w x) a) = payload (h' a)" for h' w
    by (simp_all add: rest_left_def rest_right_def rb_fields)
  then show ?thesis
    by (cases "x = rb_left (h (rb_parent (h x)))")
      (simp_all add: delete_fix_step_left delete_fix_step_right Let_def rb_fields)
qed

lemma settle_step:
  assumes "\<not> rb_red (h x)" "root \<noteq> x"
    and "settles T root (fst (delete_fix_step T root h x)) (snd (delete_fix_step T root h x)) t' C'"
    and "addrs (plug C' t') = addrs (plug C t)"
  shows "settles T root h x t C"
  using assms unfolding settles_def
  by (subst delete_fix_loop.simps) (auto simp: rb_fields)

text \<open>A pass that ends with \<open>x = root\<close> leaves a balanced tree.\<close>

definition closed :: "RBT_tree \<Rightarrow> ptr \<Rightarrow> rb_heap \<times> ptr \<Rightarrow> frame list \<Rightarrow> ptr list \<Rightarrow> bool" where
  "closed T root s C ns \<longleftrightarrow> snd s = root \<and> \<not> redf (fst s) root \<and> sentinels_black T (fst s) \<and>
     (\<exists>q t. focus T (fst s) q t C \<and> addrs t = ns \<and> cinv (redf (fst s)) (bh (redf (fst s)) t) C \<and>
       invc (redf (fst s)) t \<and> invh (redf (fst s)) t \<and> (hole_red (redf (fst s)) C \<or> C = [] \<longrightarrow> \<not> rootred (redf (fst s)) t))"

lemma closed_settles:
  assumes "closed T root s C ns" "addrs t' = ns"
  shows "settles T root (fst s) (snd s) t' C"
proof -
  obtain q t where s: "snd s = root" "\<not> redf (fst s) root" "sentinels_black T (fst s)" "focus T (fst s) q t C"
    "addrs t = ns" "cinv (redf (fst s)) (bh (redf (fst s)) t) C" "invc (redf (fst s)) t" "invh (redf (fst s)) t"
    "hole_red (redf (fst s)) C \<or> C = [] \<longrightarrow> \<not> rootred (redf (fst s)) t"
    using assms(1) unfolding closed_def by blast
  have "set_red (fst s) root False = fst s"
    using s(2) by (simp add: set_red_def redf_def fun_upd_idem_iff)
  then have "delete_fix_loop T root (fst s) (snd s) = Some (fst s)"
    unfolding s(1) by (subst delete_fix_loop.simps) simp
  moreover have "invc (redf (fst s)) (plug C t) \<and> invh (redf (fst s)) (plug C t)"
    by (rule plug_colour [OF s(6-8)]) (use s(9) in simp)
  moreover have "\<not> rootred (redf (fst s)) (plug C t)" by (rule plug_black [OF s(6)]) (use s(9) in simp)
  moreover have "addrs (plug C t) = addrs (plug C t')" by (rule plug_addrs_cong) (simp add: s(5) assms(2))
  ultimately show ?thesis unfolding settles_def using focus_plug [OF s(4)] s(3) by blast
qed

text \<open>What a pass leaves: a closed tree, or the deficit one level up.\<close>

definition passes :: "RBT_tree \<Rightarrow> ptr \<Rightarrow> rb_heap \<times> ptr \<Rightarrow> frame list \<Rightarrow> ptr list \<Rightarrow> bool \<Rightarrow> bool" where
  "passes T root s C ns red \<longleftrightarrow> closed T root s C ns \<or>
     (\<exists>t. addrs t = ns \<and> deficit T root (fst s) (snd s) t C \<and> (red \<longrightarrow> rootred (redf (fst s)) t))"

lemma recolour_three:
  assumes "p \<notin> set (addrs t)" "g \<notin> set (addrs t)" "v \<notin> set (addrs t)"
  shows "rootred (c(p := a, g := b, v := d)) t = rootred c t" "bh (c(p := a, g := b, v := d)) t = bh c t"
    "invh (c(p := a, g := b, v := d)) t = invh c t" "invc (c(p := a, g := b, v := d)) t = invc c t"
  by (rule colour_cong; use assms in auto)+

section \<open>One pass for a left child\<close>

lemma focus_same: "focus T h x t C \<Longrightarrow> focus T h' x' t C' \<Longrightarrow> x' = x"
  by (cases t) (auto simp: focus_def)

lemma rotate_nil_parent:
  "rb_nil T \<noteq> x \<Longrightarrow> rb_nil T \<noteq> rb_right (h x) \<Longrightarrow> rb_parent (LeftRotate T h x (rb_nil T)) = rb_parent (h (rb_nil T))"
  "rb_nil T \<noteq> y \<Longrightarrow> rb_nil T \<noteq> rb_left (h y) \<Longrightarrow> rb_parent (RightRotate T h y (rb_nil T)) = rb_parent (h (rb_nil T))"
  by (auto simp: LeftRotate_def RightRotate_def Let_def rb_fields)

text \<open>The node \<open>x\<close>, which may be the sentinel, keeps its parent in the rotations around it.\<close>

lemma hole_kept:
  assumes "focus T h x t C" "rb_parent (h x) = p" "focus T h' x' t C'" "hole_par (rb_root T) C' = p"
    "rb_parent (h' (rb_nil T)) = rb_parent (h (rb_nil T))"
  shows "x' = x \<and> rb_parent (h' x) = p"
  using assms focus_same [OF assms(1,3)] by (cases t) (auto simp: focus_def)

lemma focus_nephews:
  assumes "focus T h x t (FL p (Nd l w r) # C) \<or> focus T h x t (FR (Nd l w r) p # C)" "sentinels_black T h"
  shows "rb_red (h (rb_right (h w))) = rootred (redf h) r" "rb_red (h (rb_left (h w))) = rootred (redf h) l"
  using assms tree_at_red [of "rb_nil T" h w "rb_right (h w)" r] tree_at_red [of "rb_nil T" h w "rb_left (h w)" l]
  by (auto simp: focus_def sentinels_black_def)

lemma close_left_ok:
  assumes f: "focus T h x t (FL p (Nd sl w (Nd e v d)) # C)" and par: "rb_parent (h x) = p"
    and sb: "sentinels_black T h" and t: "\<not> rootred (redf h) t" "invc (redf h) t" "invh (redf h) t"
    and cc: "invc (redf h) sl" "invc (redf h) e" "invc (redf h) d"
    and hh: "invh (redf h) sl" "invh (redf h) e" "invh (redf h) d"
    and b: "bh (redf h) sl = bh (redf h) t" "bh (redf h) e = bh (redf h) t" "bh (redf h) d = bh (redf h) t"
    and ci: "cinv (redf h) (if redf h p then Suc (bh (redf h) t) else Suc (Suc (bh (redf h) t))) C"
      "redf h p \<longrightarrow> \<not> hole_red (redf h) C \<and> C \<noteq> []"
    and r: "root \<in> insert p (set (ctx_addrs C))" "root = p \<or> \<not> redf h root"
  shows "closed T root (close_left T h w x, root) C (addrs (Nd (Nd t p sl) w (Nd e v d)))"
proof -
  have da: "distinct (addrs t @ p # addrs sl @ w # addrs e @ v # addrs d @ ctx_addrs C)"
    using focus_distinct [OF f] by auto
  have n: "rb_nil T \<notin> {p, w, v}" "rb_root T \<notin> {p, w, v}"
    using focus_sentinels [OF f] by auto
  define c where "c = (redf h)(w := redf h p, p := False, v := False)"
  define h5 where "h5 = set_red (set_red (set_red h w (redf h p)) p False) v False"
  have wv: "rb_right (h w) = v" using f by (auto simp: focus_def)
  have e: "close_left T h w x = LeftRotate T h5 p"
    by (simp add: close_left_def Let_def rb_fields par wv h5_def redf_def)
  have "focus T h5 p (Nd t p (Nd sl w (Nd e v d))) C"
    unfolding h5_def focus_set_red by (rule focus_FLD [OF f])
  then have g: "focus T (close_left T h w x) w (Nd (Nd t p sl) w (Nd e v d)) C"
    unfolding e by (rule LeftRotate_focus)
  have rf: "redf (close_left T h w x) = c" by (simp add: e h5_def c_def)
  have "w \<notin> set (addrs u) \<and> p \<notin> set (addrs u) \<and> v \<notin> set (addrs u)" if "u \<in> {t, sl, e, d}" for u
    using that da by auto
  then have k: "rootred c u = rootred (redf h) u" "bh c u = bh (redf h) u" "invh c u = invh (redf h) u"
    "invc c u = invc (redf h) u" if "u \<in> {t, sl, e, d}" for u
    unfolding c_def using that recolour_three [of w u p v] by blast+
  have "\<forall>a\<in>set (ctx_addrs C). c a = redf h a" using da by (auto simp: c_def)
  note cC = cinv_cong [OF this] hole_red_cong [OF this]
  have col: "c w = redf h p" "\<not> c p" "\<not> c v" using da by (auto simp: c_def)
  let ?t = "Nd (Nd t p sl) w (Nd e v d)"
  have i: "invh c ?t" "invc c ?t" using col t cc hh b by (simp_all add: k)
  have bt: "bh c ?t = (if redf h p then Suc (bh (redf h) t) else Suc (Suc (bh (redf h) t)))"
    using col b by (simp add: k)
  have hr: "hole_red c C \<or> C = [] \<longrightarrow> \<not> rootred c ?t" using ci(2) col cC(2) by auto
  have ci': "cinv c (bh c ?t) C" using ci(1) by (simp only: bt cC(1))
  have "sentinels_black T (close_left T h w x)"
    using sb n unfolding sentinels_black_def rb_red_redf rf by (auto simp: c_def)
  moreover have "root \<noteq> w" "root \<noteq> v" using r(1) da by auto
  then have "\<not> c root" using r(2) by (auto simp: c_def)
  ultimately show ?thesis
    unfolding closed_def fst_conv snd_conv rf using g i hr ci'
    by (intro conjI exI [of _ w] exI [of _ ?t]) (rule refl | assumption)+
qed

lemma turn_left_ok:
  assumes f: "focus T h x t (FL p (Nd sl w sr) # C)" and par: "rb_parent (h x) = p"
    and sb: "sentinels_black T h" and w: "\<not> redf h w" and t: "\<not> rootred (redf h) t" "invc (redf h) t" "invh (redf h) t"
    and i: "invc (redf h) sl" "invc (redf h) sr" "invh (redf h) sl" "invh (redf h) sr"
      "bh (redf h) sl = bh (redf h) t" "bh (redf h) sr = bh (redf h) t" "rootred (redf h) sl \<or> rootred (redf h) sr"
    and ci: "cinv (redf h) (if redf h p then Suc (bh (redf h) t) else Suc (Suc (bh (redf h) t))) C"
      "redf h p \<longrightarrow> \<not> hole_red (redf h) C \<and> C \<noteq> []"
    and r: "root \<in> insert p (set (ctx_addrs C))" "root = p \<or> \<not> redf h root"
  shows "closed T root (close_left T (fst (turn_left T h w x)) (snd (turn_left T h w x)) x, root) C
    (addrs (Nd t p (Nd sl w sr)))"
proof (cases "rootred (redf h) sr")
  case True
  then obtain e v d where sr: "sr = Nd e v d" by (cases sr) auto
  have "turn_left T h w x = (h, w)" using focus_nephews [OF disjI1 [OF f] sb] True by (simp add: turn_left_def)
  then show ?thesis
    using close_left_ok [OF f [unfolded sr] par sb t, of root] i ci r True sr by simp
next
  case False
  then obtain a v b where sl: "sl = Nd a v b" and v: "redf h v" using i(7) by (cases sl) auto
  have da: "distinct (addrs t @ p # addrs a @ v # addrs b @ w # addrs sr @ ctx_addrs C)"
    using focus_distinct [OF f] sl by auto
  have n: "rb_nil T \<notin> {p, w, v}" "rb_root T \<notin> {p, w, v}"
    using focus_sentinels [OF f] sl by auto
  define h1 where "h1 = set_red (set_red h v False) w True"
  define c where "c = (redf h)(v := False, w := True)"
  let ?h = "RightRotate T h1 w"
  have wv: "rb_left (h w) = v" using f sl by (auto simp: focus_def)
  have "focus T h1 p (Nd t p (Nd (Nd a v b) w sr)) C"
    unfolding h1_def focus_set_red using focus_FLD [OF f] sl by simp
  then have "focus T h1 w (Nd (Nd a v b) w sr) (FR t p # C)" by (rule focus_FRI)
  then have "focus T ?h v (Nd a v (Nd b w sr)) (FR t p # C)" by (rule RightRotate_focus)
  then have "focus T ?h p (Nd t p (Nd a v (Nd b w sr))) C" by (rule focus_FRD)
  then have g: "focus T ?h (rb_left (?h p)) t (FL p (Nd a v (Nd b w sr)) # C)" by (rule focus_child)
  have "rb_parent (?h (rb_nil T)) = rb_parent (h (rb_nil T))"
    using n wv by (subst rotate_nil_parent) (auto simp: h1_def rb_fields)
  then have x: "rb_left (?h p) = x" "rb_parent (?h x) = p" using hole_kept [OF f par g] by simp_all
  note g = g [unfolded x]
  have tl: "turn_left T h w x = (?h, v)"
    using focus_nephews [OF disjI1 [OF f] sb] False focus_sibling(1) [OF g] x(2)
    by (simp add: turn_left_def Let_def wv h1_def)
  have rf: "redf h1 = c" by (simp add: h1_def c_def)
  have "v \<notin> set (addrs u) \<and> w \<notin> set (addrs u)" if "u \<in> {t, a, b, sr}" for u using that da by auto
  then have k: "rootred c u = rootred (redf h) u" "bh c u = bh (redf h) u" "invh c u = invh (redf h) u"
    "invc c u = invc (redf h) u" if "u \<in> {t, a, b, sr}" for u
    unfolding c_def using that recolour_two [of v u w] by blast+
  have "\<forall>y\<in>set (ctx_addrs C). c y = redf h y" using da by (auto simp: c_def)
  note cC = cinv_cong [OF this] hole_red_cong [OF this]
  have sb': "sentinels_black T ?h" using sb n unfolding sentinels_black_def rb_red_redf redf_rotate rf by (auto simp: c_def)
  have col: "c p = redf h p" "\<not> c v" "root = p \<or> \<not> c root" "c w" using da r by (auto simp: c_def)
  have sub: "invc (redf h) a" "invc (redf h) b" "invh (redf h) a" "invh (redf h) b"
    "bh (redf h) a = bh (redf h) t" "bh (redf h) b = bh (redf h) t" "\<not> rootred (redf h) b"
    using i sl v by simp_all
  have "closed T root (close_left T ?h v x, root) C (addrs (Nd (Nd t p a) v (Nd b w sr)))"
    by (rule close_left_ok [OF g x(2) sb'])
      (use t i sub ci r(1) col False in \<open>auto simp: rf k cC\<close>)
  then show ?thesis by (simp add: tl sl)
qed

lemma rest_left_ok:
  assumes f: "focus T h x t (FL p (Nd sl w sr) # C)" and par: "rb_parent (h x) = p"
    and sb: "sentinels_black T h" and w: "\<not> redf h w" and t: "\<not> rootred (redf h) t" "invc (redf h) t" "invh (redf h) t"
    and ci: "cinv (redf h) (Suc (bh (redf h) t)) (FL p (Nd sl w sr) # C)"
    and r: "redf h p \<or> root = rb_left (h (rb_root T))" "root \<in> insert p (set (ctx_addrs C))" "root = p \<or> \<not> redf h root"
  shows "passes T root (rest_left T root h w x) C (addrs (Nd t p (Nd sl w sr))) (redf h p)"
proof (cases "rootred (redf h) sl \<or> rootred (redf h) sr")
  case True
  then have "rest_left T root h w x =
      (close_left T (fst (turn_left T h w x)) (snd (turn_left T h w x)) x, root)"
    using focus_nephews [OF disjI1 [OF f] sb] by (auto simp: rest_left_def)
  moreover have "closed T root (close_left T (fst (turn_left T h w x)) (snd (turn_left T h w x)) x, root) C
      (addrs (Nd t p (Nd sl w sr)))"
    by (rule turn_left_ok [OF f par sb w t]) (use ci w True r(2,3) in \<open>auto split: if_splits\<close>)
  ultimately show ?thesis by (simp add: passes_def)
next
  case False
  then have e: "rest_left T root h w x = (set_red h w True, p)"
    using focus_nephews [OF disjI1 [OF f] sb] by (simp add: rest_left_def par)
  have da: "distinct (addrs t @ p # addrs sl @ w # addrs sr @ ctx_addrs C)"
    using focus_distinct [OF f] by auto
  have n: "rb_nil T \<noteq> w" "rb_root T \<noteq> w" using focus_sentinels [OF f] by auto
  define c where "c = (redf h)(w := True)"
  have k: "rootred c u = rootred (redf h) u" "bh c u = bh (redf h) u" "invh c u = invh (redf h) u"
    "invc c u = invc (redf h) u" if "u \<in> {t, sl, sr}" for u
    by (rule colour_cong; use that da in \<open>auto simp: c_def\<close>)+
  have "\<forall>y\<in>set (ctx_addrs C). c y = redf h y" using da by (auto simp: c_def)
  note cC = cinv_cong [OF this] hole_red_cong [OF this]
  have col: "c p = redf h p" "c w" using da by (auto simp: c_def)
  have fp: "focus T h p (Nd t p (Nd sl w sr)) C" by (rule focus_FLD [OF f])
  have rt: "rb_left (set_red h w True (rb_root T)) = rb_left (h (rb_root T))" by (simp add: rb_fields)
  have "deficit T root (set_red h w True) p (Nd t p (Nd sl w sr)) C"
    unfolding deficit_def redf_set_red c_def [symmetric] focus_set_red rt
  proof (intro conjI)
    show "rb_parent (set_red h w True p) = hole_par (rb_root T) C"
      using focus_hole_parent [OF fp] by (simp add: rb_fields)
    show "sentinels_black T (set_red h w True)" using sb n by (simp add: sentinels_black_def rb_fields)
    show "invc2 c (Nd t p (Nd sl w sr))" "invh c (Nd t p (Nd sl w sr))"
      "cinv c (Suc (bh c (Nd t p (Nd sl w sr)))) C"
      using t ci False w col by (auto simp: k cC split: if_splits)
    show "rootred c (Nd t p (Nd sl w sr)) \<or> root = rb_left (h (rb_root T))" using r(1) col by simp
  qed (rule fp)
  then show ?thesis
    unfolding passes_def e fst_conv snd_conv redf_set_red c_def [symmetric]
    using col by (intro disjI2 exI [of _ "Nd t p (Nd sl w sr)"]) simp
qed

text \<open>A red brother is rotated up; the parent is then red.\<close>

lemma raise_left_ok:
  assumes f: "focus T h x t (FL p (Nd sl w sr) # C)" and par: "rb_parent (h x) = p"
    and sb: "sentinels_black T h" and w: "redf h w" and t: "\<not> rootred (redf h) t" "invc (redf h) t" "invh (redf h) t"
    and ci: "cinv (redf h) (Suc (bh (redf h) t)) (FL p (Nd sl w sr) # C)"
    and r: "root = rb_left (h (rb_root T))" "\<not> redf h root" "root \<in> insert p (set (ctx_addrs C))"
  obtains a v b h' where "sl = Nd a v b" "raise_left T h w x = (h', v)" "focus T h' x t (FL p sl # FL w sr # C)"
    "passes T root (rest_left T root h' v x) (FL w sr # C) (addrs (Nd t p sl)) True"
proof -
  have wp: "\<not> redf h p" "\<not> rootred (redf h) sl" "\<not> rootred (redf h) sr" using ci w by auto
  have "bh (redf h) sl = Suc (bh (redf h) t)" using ci w by simp
  then obtain a v b where sl: "sl = Nd a v b" by (cases sl) auto
  have da: "distinct (addrs t @ p # addrs sl @ w # addrs sr @ ctx_addrs C)"
    using focus_distinct [OF f] by auto
  have n: "rb_nil T \<notin> {p, w}" "rb_root T \<notin> {p, w}" using focus_sentinels [OF f] by auto
  define h1 where "h1 = set_red (set_red h w False) p True"
  let ?h = "LeftRotate T h1 p"
  define c where "c = (redf h)(w := False, p := True)"
  have rf: "redf h1 = c" by (simp add: h1_def c_def)
  have pw: "rb_right (h p) = w" using f by (auto simp: focus_def)
  have "focus T h1 p (Nd t p (Nd sl w sr)) C" unfolding h1_def focus_set_red by (rule focus_FLD [OF f])
  then have "focus T ?h w (Nd (Nd t p sl) w sr) C" by (rule LeftRotate_focus)
  then have "focus T ?h p (Nd t p sl) (FL w sr # C)" by (rule focus_FLI)
  then have g: "focus T ?h (rb_left (?h p)) t (FL p sl # FL w sr # C)" by (rule focus_child)
  have "rb_parent (?h (rb_nil T)) = rb_parent (h (rb_nil T))"
    using n pw by (subst rotate_nil_parent) (auto simp: h1_def rb_fields)
  then have x: "rb_left (?h p) = x" "rb_parent (?h x) = p" using hole_kept [OF f par g] by simp_all
  note g = g [unfolded x]
  have rl: "raise_left T h w x = (?h, v)"
    using w focus_sibling(1) [OF g [unfolded sl]] x(2)
    by (simp add: raise_left_def Let_def h1_def par rb_red_redf rb_fields)
  have "w \<notin> set (addrs u) \<and> p \<notin> set (addrs u)" if "u \<in> {t, sl, sr, a, b}" for u using that da sl by auto
  then have k: "rootred c u = rootred (redf h) u" "bh c u = bh (redf h) u" "invh c u = invh (redf h) u"
    "invc c u = invc (redf h) u" if "u \<in> {t, sl, sr, a, b}" for u
    unfolding c_def using that recolour_two [of w u p] by blast+
  have "\<forall>y\<in>set (ctx_addrs C). c y = redf h y" using da by (auto simp: c_def)
  note cC = cinv_cong [OF this] hole_red_cong [OF this]
  have sb': "sentinels_black T ?h" using sb n unfolding sentinels_black_def rb_red_redf redf_rotate rf by (auto simp: c_def)
  have col: "c p" "\<not> c w" "c v = redf h v" "root = p \<or> \<not> c root" using da sl r(2) by (auto simp: c_def)
  have v: "\<not> redf h v" using wp(2) sl by simp
  have "cinv c (Suc (bh c t)) (FL p sl # FL w sr # C)"
    using ci w wp col cC(1) k [of t] k [of sl] k [of sr] by auto
  then have "passes T root (rest_left T root ?h v x) (FL w sr # C) (addrs (Nd t p (Nd a v b))) (redf ?h p)"
    by (intro rest_left_ok [OF g [unfolded sl] x(2) sb']) (use v col t r(3) k sl in \<open>auto simp: rf\<close>)
  then show ?thesis using that [OF sl rl g] col(1) by (simp add: sl rf)
qed

section \<open>One pass for a right child\<close>

lemma close_right_ok:
  assumes f: "focus T h x t (FR (Nd (Nd d v e) w sl) p # C)" and par: "rb_parent (h x) = p"
    and sb: "sentinels_black T h" and t: "\<not> rootred (redf h) t" "invc (redf h) t" "invh (redf h) t"
    and cc: "invc (redf h) sl" "invc (redf h) e" "invc (redf h) d"
    and hh: "invh (redf h) sl" "invh (redf h) e" "invh (redf h) d"
    and b: "bh (redf h) sl = bh (redf h) t" "bh (redf h) e = bh (redf h) t" "bh (redf h) d = bh (redf h) t"
    and ci: "cinv (redf h) (if redf h p then Suc (bh (redf h) t) else Suc (Suc (bh (redf h) t))) C"
      "redf h p \<longrightarrow> \<not> hole_red (redf h) C \<and> C \<noteq> []"
    and r: "root \<in> insert p (set (ctx_addrs C))" "root = p \<or> \<not> redf h root"
  shows "closed T root (close_right T h w x, root) C (addrs (Nd (Nd d v e) w (Nd sl p t)))"
proof -
  have da: "distinct (addrs t @ p # addrs sl @ w # addrs e @ v # addrs d @ ctx_addrs C)"
    using focus_distinct [OF f] by auto
  have n: "rb_nil T \<notin> {p, w, v}" "rb_root T \<notin> {p, w, v}"
    using focus_sentinels [OF f] by auto
  define c where "c = (redf h)(w := redf h p, p := False, v := False)"
  define h5 where "h5 = set_red (set_red (set_red h w (redf h p)) p False) v False"
  have wv: "rb_left (h w) = v" using f by (auto simp: focus_def)
  have e: "close_right T h w x = RightRotate T h5 p"
    by (simp add: close_right_def Let_def rb_fields par wv h5_def redf_def)
  have "focus T h5 p (Nd (Nd (Nd d v e) w sl) p t) C"
    unfolding h5_def focus_set_red by (rule focus_FRD [OF f])
  then have g: "focus T (close_right T h w x) w (Nd (Nd d v e) w (Nd sl p t)) C"
    unfolding e by (rule RightRotate_focus)
  have rf: "redf (close_right T h w x) = c" by (simp add: e h5_def c_def)
  have "w \<notin> set (addrs u) \<and> p \<notin> set (addrs u) \<and> v \<notin> set (addrs u)" if "u \<in> {t, sl, e, d}" for u
    using that da by auto
  then have k: "rootred c u = rootred (redf h) u" "bh c u = bh (redf h) u" "invh c u = invh (redf h) u"
    "invc c u = invc (redf h) u" if "u \<in> {t, sl, e, d}" for u
    unfolding c_def using that recolour_three [of w u p v] by blast+
  have "\<forall>a\<in>set (ctx_addrs C). c a = redf h a" using da by (auto simp: c_def)
  note cC = cinv_cong [OF this] hole_red_cong [OF this]
  have col: "c w = redf h p" "\<not> c p" "\<not> c v" using da by (auto simp: c_def)
  let ?t = "Nd (Nd d v e) w (Nd sl p t)"
  have i: "invh c ?t" "invc c ?t" using col t cc hh b by (simp_all add: k)
  have bt: "bh c ?t = (if redf h p then Suc (bh (redf h) t) else Suc (Suc (bh (redf h) t)))"
    using col b by (simp add: k)
  have hr: "hole_red c C \<or> C = [] \<longrightarrow> \<not> rootred c ?t" using ci(2) col cC(2) by auto
  have ci': "cinv c (bh c ?t) C" using ci(1) by (simp only: bt cC(1))
  have "sentinels_black T (close_right T h w x)"
    using sb n unfolding sentinels_black_def rb_red_redf rf by (auto simp: c_def)
  moreover have "root \<noteq> w" "root \<noteq> v" using r(1) da by auto
  then have "\<not> c root" using r(2) by (auto simp: c_def)
  ultimately show ?thesis
    unfolding closed_def fst_conv snd_conv rf using g i hr ci'
    by (intro conjI exI [of _ w] exI [of _ ?t]) (rule refl | assumption)+
qed

lemma turn_right_ok:
  assumes f: "focus T h x t (FR (Nd sr w sl) p # C)" and par: "rb_parent (h x) = p"
    and sb: "sentinels_black T h" and w: "\<not> redf h w" and t: "\<not> rootred (redf h) t" "invc (redf h) t" "invh (redf h) t"
    and i: "invc (redf h) sl" "invc (redf h) sr" "invh (redf h) sl" "invh (redf h) sr"
      "bh (redf h) sl = bh (redf h) t" "bh (redf h) sr = bh (redf h) t" "rootred (redf h) sl \<or> rootred (redf h) sr"
    and ci: "cinv (redf h) (if redf h p then Suc (bh (redf h) t) else Suc (Suc (bh (redf h) t))) C"
      "redf h p \<longrightarrow> \<not> hole_red (redf h) C \<and> C \<noteq> []"
    and r: "root \<in> insert p (set (ctx_addrs C))" "root = p \<or> \<not> redf h root"
  shows "closed T root (close_right T (fst (turn_right T h w x)) (snd (turn_right T h w x)) x, root) C
    (addrs (Nd (Nd sr w sl) p t))"
proof (cases "rootred (redf h) sr")
  case True
  then obtain e v d where sr: "sr = Nd d v e" by (cases sr) auto
  have "turn_right T h w x = (h, w)" using focus_nephews [OF disjI2 [OF f] sb] True by (simp add: turn_right_def)
  then show ?thesis
    using close_right_ok [OF f [unfolded sr] par sb t, of root] i ci r True sr by simp
next
  case False
  then obtain a v b where sl: "sl = Nd b v a" and v: "redf h v" using i(7) by (cases sl) auto
  have da: "distinct (addrs t @ p # addrs a @ v # addrs b @ w # addrs sr @ ctx_addrs C)"
    using focus_distinct [OF f] sl by auto
  have n: "rb_nil T \<notin> {p, w, v}" "rb_root T \<notin> {p, w, v}"
    using focus_sentinels [OF f] sl by auto
  define h1 where "h1 = set_red (set_red h v False) w True"
  define c where "c = (redf h)(v := False, w := True)"
  let ?h = "LeftRotate T h1 w"
  have wv: "rb_right (h w) = v" using f sl by (auto simp: focus_def)
  have "focus T h1 p (Nd (Nd sr w (Nd b v a)) p t) C"
    unfolding h1_def focus_set_red using focus_FRD [OF f] sl by simp
  then have "focus T h1 w (Nd sr w (Nd b v a)) (FL p t # C)" by (rule focus_FLI)
  then have "focus T ?h v (Nd (Nd sr w b) v a) (FL p t # C)" by (rule LeftRotate_focus)
  then have "focus T ?h p (Nd (Nd (Nd sr w b) v a) p t) C" by (rule focus_FLD)
  then have g: "focus T ?h (rb_right (?h p)) t (FR (Nd (Nd sr w b) v a) p # C)" by (rule focus_child)
  have "rb_parent (?h (rb_nil T)) = rb_parent (h (rb_nil T))"
    using n wv by (subst rotate_nil_parent) (auto simp: h1_def rb_fields)
  then have x: "rb_right (?h p) = x" "rb_parent (?h x) = p" using hole_kept [OF f par g] by simp_all
  note g = g [unfolded x]
  have tl: "turn_right T h w x = (?h, v)"
    using focus_nephews [OF disjI2 [OF f] sb] False focus_sibling(2) [OF g] x(2)
    by (simp add: turn_right_def Let_def wv h1_def)
  have rf: "redf h1 = c" by (simp add: h1_def c_def)
  have "v \<notin> set (addrs u) \<and> w \<notin> set (addrs u)" if "u \<in> {t, a, b, sr}" for u using that da by auto
  then have k: "rootred c u = rootred (redf h) u" "bh c u = bh (redf h) u" "invh c u = invh (redf h) u"
    "invc c u = invc (redf h) u" if "u \<in> {t, a, b, sr}" for u
    unfolding c_def using that recolour_two [of v u w] by blast+
  have "\<forall>y\<in>set (ctx_addrs C). c y = redf h y" using da by (auto simp: c_def)
  note cC = cinv_cong [OF this] hole_red_cong [OF this]
  have sb': "sentinels_black T ?h" using sb n unfolding sentinels_black_def rb_red_redf redf_rotate rf by (auto simp: c_def)
  have col: "c p = redf h p" "\<not> c v" "root = p \<or> \<not> c root" "c w" using da r by (auto simp: c_def)
  have sub: "invc (redf h) a" "invc (redf h) b" "invh (redf h) a" "invh (redf h) b"
    "bh (redf h) a = bh (redf h) t" "bh (redf h) b = bh (redf h) t" "\<not> rootred (redf h) b"
    using i sl v by simp_all
  have "closed T root (close_right T ?h v x, root) C (addrs (Nd (Nd sr w b) v (Nd a p t)))"
    by (rule close_right_ok [OF g x(2) sb'])
      (use t i sub ci r(1) col False in \<open>auto simp: rf k cC\<close>)
  then show ?thesis by (simp add: tl sl)
qed

lemma rest_right_ok:
  assumes f: "focus T h x t (FR (Nd sr w sl) p # C)" and par: "rb_parent (h x) = p"
    and sb: "sentinels_black T h" and w: "\<not> redf h w" and t: "\<not> rootred (redf h) t" "invc (redf h) t" "invh (redf h) t"
    and ci: "cinv (redf h) (Suc (bh (redf h) t)) (FR (Nd sr w sl) p # C)"
    and r: "redf h p \<or> root = rb_left (h (rb_root T))" "root \<in> insert p (set (ctx_addrs C))" "root = p \<or> \<not> redf h root"
  shows "passes T root (rest_right T root h w x) C (addrs (Nd (Nd sr w sl) p t)) (redf h p)"
proof (cases "rootred (redf h) sl \<or> rootred (redf h) sr")
  case True
  then have "rest_right T root h w x =
      (close_right T (fst (turn_right T h w x)) (snd (turn_right T h w x)) x, root)"
    using focus_nephews [OF disjI2 [OF f] sb] by (auto simp: rest_right_def)
  moreover have "closed T root (close_right T (fst (turn_right T h w x)) (snd (turn_right T h w x)) x, root) C
      (addrs (Nd (Nd sr w sl) p t))"
    by (rule turn_right_ok [OF f par sb w t]) (use ci w True r(2,3) in \<open>auto split: if_splits\<close>)
  ultimately show ?thesis by (simp add: passes_def)
next
  case False
  then have e: "rest_right T root h w x = (set_red h w True, p)"
    using focus_nephews [OF disjI2 [OF f] sb] by (simp add: rest_right_def par)
  have da: "distinct (addrs t @ p # addrs sl @ w # addrs sr @ ctx_addrs C)"
    using focus_distinct [OF f] by auto
  have n: "rb_nil T \<noteq> w" "rb_root T \<noteq> w" using focus_sentinels [OF f] by auto
  define c where "c = (redf h)(w := True)"
  have k: "rootred c u = rootred (redf h) u" "bh c u = bh (redf h) u" "invh c u = invh (redf h) u"
    "invc c u = invc (redf h) u" if "u \<in> {t, sl, sr}" for u
    by (rule colour_cong; use that da in \<open>auto simp: c_def\<close>)+
  have "\<forall>y\<in>set (ctx_addrs C). c y = redf h y" using da by (auto simp: c_def)
  note cC = cinv_cong [OF this] hole_red_cong [OF this]
  have col: "c p = redf h p" "c w" using da by (auto simp: c_def)
  have fp: "focus T h p (Nd (Nd sr w sl) p t) C" by (rule focus_FRD [OF f])
  have rt: "rb_left (set_red h w True (rb_root T)) = rb_left (h (rb_root T))" by (simp add: rb_fields)
  have "deficit T root (set_red h w True) p (Nd (Nd sr w sl) p t) C"
    unfolding deficit_def redf_set_red c_def [symmetric] focus_set_red rt
  proof (intro conjI)
    show "rb_parent (set_red h w True p) = hole_par (rb_root T) C"
      using focus_hole_parent [OF fp] by (simp add: rb_fields)
    show "sentinels_black T (set_red h w True)" using sb n by (simp add: sentinels_black_def rb_fields)
    show "invc2 c (Nd (Nd sr w sl) p t)" "invh c (Nd (Nd sr w sl) p t)"
      "cinv c (Suc (bh c (Nd (Nd sr w sl) p t))) C"
      using t ci False w col by (auto simp: k cC split: if_splits)
    show "rootred c (Nd (Nd sr w sl) p t) \<or> root = rb_left (h (rb_root T))" using r(1) col by simp
  qed (rule fp)
  then show ?thesis
    unfolding passes_def e fst_conv snd_conv redf_set_red c_def [symmetric]
    using col by (intro disjI2 exI [of _ "Nd (Nd sr w sl) p t"]) simp
qed

text \<open>A red brother is rotated up; the parent is then red.\<close>

lemma raise_right_ok:
  assumes f: "focus T h x t (FR (Nd sr w sl) p # C)" and par: "rb_parent (h x) = p"
    and sb: "sentinels_black T h" and w: "redf h w" and t: "\<not> rootred (redf h) t" "invc (redf h) t" "invh (redf h) t"
    and ci: "cinv (redf h) (Suc (bh (redf h) t)) (FR (Nd sr w sl) p # C)"
    and r: "root = rb_left (h (rb_root T))" "\<not> redf h root" "root \<in> insert p (set (ctx_addrs C))"
  obtains a v b h' where "sl = Nd b v a" "raise_right T h w x = (h', v)" "focus T h' x t (FR sl p # FR sr w # C)"
    "passes T root (rest_right T root h' v x) (FR sr w # C) (addrs (Nd sl p t)) True"
proof -
  have wp: "\<not> redf h p" "\<not> rootred (redf h) sl" "\<not> rootred (redf h) sr" using ci w by auto
  have "bh (redf h) sl = Suc (bh (redf h) t)" using ci w by simp
  then obtain a v b where sl: "sl = Nd b v a" by (cases sl) auto
  have da: "distinct (addrs t @ p # addrs sl @ w # addrs sr @ ctx_addrs C)"
    using focus_distinct [OF f] by auto
  have n: "rb_nil T \<notin> {p, w}" "rb_root T \<notin> {p, w}" using focus_sentinels [OF f] by auto
  define h1 where "h1 = set_red (set_red h w False) p True"
  let ?h = "RightRotate T h1 p"
  define c where "c = (redf h)(w := False, p := True)"
  have rf: "redf h1 = c" by (simp add: h1_def c_def)
  have pw: "rb_left (h p) = w" using f by (auto simp: focus_def)
  have "focus T h1 p (Nd (Nd sr w sl) p t) C" unfolding h1_def focus_set_red by (rule focus_FRD [OF f])
  then have "focus T ?h w (Nd sr w (Nd sl p t)) C" by (rule RightRotate_focus)
  then have "focus T ?h p (Nd sl p t) (FR sr w # C)" by (rule focus_FRI)
  then have g: "focus T ?h (rb_right (?h p)) t (FR sl p # FR sr w # C)" by (rule focus_child)
  have "rb_parent (?h (rb_nil T)) = rb_parent (h (rb_nil T))"
    using n pw by (subst rotate_nil_parent) (auto simp: h1_def rb_fields)
  then have x: "rb_right (?h p) = x" "rb_parent (?h x) = p" using hole_kept [OF f par g] by simp_all
  note g = g [unfolded x]
  have rl: "raise_right T h w x = (?h, v)"
    using w focus_sibling(2) [OF g [unfolded sl]] x(2)
    by (simp add: raise_right_def Let_def h1_def par rb_red_redf rb_fields)
  have "w \<notin> set (addrs u) \<and> p \<notin> set (addrs u)" if "u \<in> {t, sl, sr, a, b}" for u using that da sl by auto
  then have k: "rootred c u = rootred (redf h) u" "bh c u = bh (redf h) u" "invh c u = invh (redf h) u"
    "invc c u = invc (redf h) u" if "u \<in> {t, sl, sr, a, b}" for u
    unfolding c_def using that recolour_two [of w u p] by blast+
  have "\<forall>y\<in>set (ctx_addrs C). c y = redf h y" using da by (auto simp: c_def)
  note cC = cinv_cong [OF this] hole_red_cong [OF this]
  have sb': "sentinels_black T ?h" using sb n unfolding sentinels_black_def rb_red_redf redf_rotate rf by (auto simp: c_def)
  have col: "c p" "\<not> c w" "c v = redf h v" "root = p \<or> \<not> c root" using da sl r(2) by (auto simp: c_def)
  have v: "\<not> redf h v" using wp(2) sl by simp
  have "cinv c (Suc (bh c t)) (FR sl p # FR sr w # C)"
    using ci w wp col cC(1) k [of t] k [of sl] k [of sr] by auto
  then have "passes T root (rest_right T root ?h v x) (FR sr w # C) (addrs (Nd (Nd b v a) p t)) (redf ?h p)"
    by (intro rest_right_ok [OF g [unfolded sl] x(2) sb']) (use v col t r(3) k sl in \<open>auto simp: rf\<close>)
  then show ?thesis using that [OF sl rl g] col(1) by (simp add: sl rf)
qed

section \<open>The loop\<close>

lemma top_black:
  assumes "focus T h x t C" "sentinels_black T h" "cinv (redf h) n C" "C = [] \<Longrightarrow> \<not> rootred (redf h) t"
  shows "\<not> redf h (rb_left (h (rb_root T)))"
  using focus_red [OF focus_plug [OF assms(1)] assms(2)] plug_black [OF assms(3,4)] by (simp add: redf_def)

lemma top_above: "focus T h p (Nd l a r) C \<Longrightarrow> rb_left (h (rb_root T)) \<in> insert p (set (ctx_addrs C))"
  using focus_top_in [of T h p "Nd l a r" C] focus_top [of T h p "Nd l a r" C] by (cases "C = []") auto

lemma passes_settles:
  assumes "passes T root s C ns red" "\<And>t. deficit T root (fst s) (snd s) t C \<Longrightarrow> \<not> red \<Longrightarrow> settles T root (fst s) (snd s) t C"
  shows "\<exists>t. addrs t = ns \<and> settles T root (fst s) (snd s) t C"
  using assms(1) unfolding passes_def
proof
  assume c: "closed T root s C ns"
  then obtain t where "addrs t = ns" unfolding closed_def by blast
  then show ?thesis using closed_settles [OF c] by blast
next
  assume "\<exists>t. addrs t = ns \<and> deficit T root (fst s) (snd s) t C \<and> (red \<longrightarrow> rootred (redf (fst s)) t)"
  then obtain t where t: "addrs t = ns" "deficit T root (fst s) (snd s) t C" "red \<longrightarrow> rootred (redf (fst s)) t" by blast
  then have "settles T root (fst s) (snd s) t C" using settle_done assms(2) by (cases red) blast+
  then show ?thesis using t(1) by blast
qed

lemma left_child_settles:
  assumes D: "deficit T root h x t (FL p s # C)" and nt: "\<not> rootred (redf h) t" and rx: "root \<noteq> x"
    and IH: "\<And>h' x' t'. deficit T root h' x' t' C \<Longrightarrow> settles T root h' x' t' C"
  shows "settles T root h x t (FL p s # C)"
proof -
  note d = D [unfolded deficit_def]
  have f: "focus T h x t (FL p s # C)" and par: "rb_parent (h x) = p" and sb: "sentinels_black T h"
    and i: "invc (redf h) t" "invh (redf h) t" "cinv (redf h) (Suc (bh (redf h) t)) (FL p s # C)"
    and root: "root = rb_left (h (rb_root T))"
    using d nt by (auto dest: invc2D)
  have nr: "\<not> rb_red (h x)" using focus_red [OF f sb] nt by simp
  obtain sl w sr where s: "s = Nd sl w sr" using i(3) by (cases s) auto
  note f' = f [unfolded s] and i' = i(3) [unfolded s]
  have black: "\<not> redf h root" using top_black [OF f sb i(3)] root by simp
  have rin: "root \<in> insert p (set (ctx_addrs C))" using top_above [OF focus_FLD [OF f]] root by simp
  have xl: "x = rb_left (h (rb_parent (h x)))" using f par by (simp add: focus_FL)
  have pw: "rb_right (h p) = w" by (rule focus_sibling(1) [OF f'])
  note step = delete_fix_step_left [of x h T root, OF xl, unfolded Let_def par pw]
  show ?thesis
  proof (cases "redf h w")
    case False
    then have "raise_left T h w x = (h, w)" by (simp add: raise_left_def rb_red_redf)
    then have st: "delete_fix_step T root h x = rest_left T root h w x" by (simp add: step)
    have "passes T root (delete_fix_step T root h x) C (addrs (Nd t p s)) (redf h p)"
      unfolding st s using rest_left_ok [OF f' par sb False nt i(1,2) i'] root rin black by blast
    from passes_settles [OF this IH] obtain t' where "addrs t' = addrs (Nd t p s)"
      "settles T root (fst (delete_fix_step T root h x)) (snd (delete_fix_step T root h x)) t' C" by blast
    then show ?thesis using settle_step [of h x root T, OF nr rx] plug_addrs_cong [of t' "Nd t p s" C] by simp
  next
    case True
    obtain a v b h' where r: "raise_left T h w x = (h', v)"
        "passes T root (rest_left T root h' v x) (FL w sr # C) (addrs (Nd t p sl)) True"
      by (rule raise_left_ok [OF f' par sb True nt i(1,2) i' root black rin])
    have st: "delete_fix_step T root h x = rest_left T root h' v x" by (simp add: step r(1))
    have "\<exists>t'. addrs t' = addrs (Nd t p sl) \<and>
        settles T root (fst (delete_fix_step T root h x)) (snd (delete_fix_step T root h x)) t' (FL w sr # C)"
      unfolding st by (rule passes_settles [OF r(2)]) simp
    then obtain t' where t': "addrs t' = addrs (Nd t p sl)"
      "settles T root (fst (delete_fix_step T root h x)) (snd (delete_fix_step T root h x)) t' (FL w sr # C)" by blast
    have "addrs (plug C (Nd t' w sr)) = addrs (plug C (Nd t p (Nd sl w sr)))"
      by (rule plug_addrs_cong) (simp add: t'(1))
    then show ?thesis using settle_step [of h x root T, OF nr rx t'(2)] s by simp
  qed
qed

lemma right_child_settles:
  assumes D: "deficit T root h x t (FR s p # C)" and nt: "\<not> rootred (redf h) t" and rx: "root \<noteq> x"
    and IH: "\<And>h' x' t'. deficit T root h' x' t' C \<Longrightarrow> settles T root h' x' t' C"
  shows "settles T root h x t (FR s p # C)"
proof -
  note d = D [unfolded deficit_def]
  have f: "focus T h x t (FR s p # C)" and par: "rb_parent (h x) = p" and sb: "sentinels_black T h"
    and i: "invc (redf h) t" "invh (redf h) t" "cinv (redf h) (Suc (bh (redf h) t)) (FR s p # C)"
    and root: "root = rb_left (h (rb_root T))"
    using d nt by (auto dest: invc2D)
  have nr: "\<not> rb_red (h x)" using focus_red [OF f sb] nt by simp
  obtain sl w sr where s: "s = Nd sr w sl" using i(3) by (cases s) auto
  note f' = f [unfolded s] and i' = i(3) [unfolded s]
  have black: "\<not> redf h root" using top_black [OF f sb i(3)] root by simp
  have rin: "root \<in> insert p (set (ctx_addrs C))" using top_above [OF focus_FRD [OF f]] root by simp
  have "w \<noteq> x" using focus_out [OF f] s by auto
  have pw: "rb_left (h p) = w" by (rule focus_sibling(2) [OF f'])
  have xl: "x \<noteq> rb_left (h (rb_parent (h x)))" using pw par \<open>w \<noteq> x\<close> by simp
  note step = delete_fix_step_right [of x h T root, OF xl, unfolded Let_def par pw]
  show ?thesis
  proof (cases "redf h w")
    case False
    then have "raise_right T h w x = (h, w)" by (simp add: raise_right_def rb_red_redf)
    then have st: "delete_fix_step T root h x = rest_right T root h w x" by (simp add: step)
    have "passes T root (delete_fix_step T root h x) C (addrs (Nd s p t)) (redf h p)"
      unfolding st s using rest_right_ok [OF f' par sb False nt i(1,2) i'] root rin black by blast
    from passes_settles [OF this IH] obtain t' where "addrs t' = addrs (Nd s p t)"
      "settles T root (fst (delete_fix_step T root h x)) (snd (delete_fix_step T root h x)) t' C" by blast
    then show ?thesis using settle_step [of h x root T, OF nr rx] plug_addrs_cong [of t' "Nd s p t" C] by simp
  next
    case True
    obtain a v b h' where r: "raise_right T h w x = (h', v)"
        "passes T root (rest_right T root h' v x) (FR sr w # C) (addrs (Nd sl p t)) True"
      by (rule raise_right_ok [OF f' par sb True nt i(1,2) i' root black rin])
    have st: "delete_fix_step T root h x = rest_right T root h' v x" by (simp add: step r(1))
    have "\<exists>t'. addrs t' = addrs (Nd sl p t) \<and>
        settles T root (fst (delete_fix_step T root h x)) (snd (delete_fix_step T root h x)) t' (FR sr w # C)"
      unfolding st by (rule passes_settles [OF r(2)]) simp
    then obtain t' where t': "addrs t' = addrs (Nd sl p t)"
      "settles T root (fst (delete_fix_step T root h x)) (snd (delete_fix_step T root h x)) t' (FR sr w # C)" by blast
    have "addrs (plug C (Nd sr w t')) = addrs (plug C (Nd (Nd sr w sl) p t))"
      by (rule plug_addrs_cong) (simp add: t'(1))
    then show ?thesis using settle_step [of h x root T, OF nr rx t'(2)] s by simp
  qed
qed

theorem delete_fix_loop_ok: "deficit T root h x t C \<Longrightarrow> settles T root h x t C"
proof (induction "length C" arbitrary: h x t C rule: less_induct)
  case less
  show ?case
  proof (cases "rootred (redf h) t \<or> root = x")
    case True
    with less.prems show ?thesis by (rule settle_done)
  next
    case False
    then have "C \<noteq> []" using less.prems focus_top by (fastforce simp: deficit_def)
    then obtain F C' where C: "C = F # C'" by (cases C) auto
    show ?thesis
    proof (cases F)
      case (FL p s)
      show ?thesis
        using less.prems False unfolding C FL by (intro left_child_settles less.hyps) (auto simp: C)
    next
      case (FR s p)
      show ?thesis
        using less.prems False unfolding C FR by (intro right_child_settles less.hyps) (auto simp: C)
    qed
  qed
qed

end
