(* ===== verification/RbtDelete.thy ===== *)
theory RbtDelete
  imports RbtFixup
begin

text \<open>
  \<open>RBDelete\<close> takes exactly its node out of the index, and the index that the server uses
  refines a finite map under insertion, deletion and lookup.
\<close>

section \<open>Unlinking a node\<close>

text \<open>The writes of \<open>RBDelete\<close> before the fix-up: \<open>x\<close>, the only child of \<open>y\<close>, takes its place.\<close>

definition only_child :: "RBT_tree \<Rightarrow> rb_heap \<Rightarrow> ptr \<Rightarrow> ptr" where
  "only_child T h y = (if rb_left (h y) = rb_nil T then rb_right (h y) else rb_left (h y))"

definition unlink :: "RBT_tree \<Rightarrow> rb_heap \<Rightarrow> ptr \<Rightarrow> rb_heap" where
  "unlink T h y =
     (let x = only_child T h y;
          h1 = set_parent h x (rb_parent (h y))
      in if rb_root T = rb_parent (h1 x) then set_left h1 (rb_root T) x
         else if y = rb_left (h1 (rb_parent (h1 y)))
              then set_left h1 (rb_parent (h1 y)) x
              else set_right h1 (rb_parent (h1 y)) x)"

text \<open>The writes after it: \<open>y\<close> takes the place of \<open>z\<close>.\<close>

definition take_place :: "rb_heap \<Rightarrow> ptr \<Rightarrow> ptr \<Rightarrow> rb_heap" where
  "take_place h z y =
     (let h4 = h(y := (h y)\<lparr>rb_left := rb_left (h z), rb_right := rb_right (h z),
                            rb_parent := rb_parent (h z), rb_red := rb_red (h z)\<rparr>);
          h5 = set_parent h4 (rb_right (h4 z)) y;
          h6 = set_parent h5 (rb_left (h5 z)) y
      in if z = rb_left (h6 (rb_parent (h6 z)))
         then set_left h6 (rb_parent (h6 z)) y
         else set_right h6 (rb_parent (h6 z)) y)"

lemma case_bind_if:
  "(case b of None \<Rightarrow> None | Some h3 \<Rightarrow> if c then Some (p h3) else Some h3) = Option.bind b (\<lambda>h3. Some (if c then p h3 else h3))"
  by (cases b) simp_all

lemma RBDelete_parts:
  "RBDelete T h z =
     Option.bind (if rb_left (h z) = rb_nil T \<or> rb_right (h z) = rb_nil T then Some z else TreeSuccessor T h z) (\<lambda>y.
     Option.bind (if \<not> rb_red (unlink T h y y) then RBDeleteFixUp T (unlink T h y) (only_child T h y) else Some (unlink T h y)) (\<lambda>h3.
     Some (if y \<noteq> z then take_place h3 z y else h3)))"
  (is "_ = Option.bind ?A ?k")
proof (cases ?A)
  case None
  then show ?thesis by (simp only: RBDelete_def option.case bind.bind_lzero)
next
  case (Some y)
  let ?B = "if \<not> rb_red (unlink T h y y) then RBDeleteFixUp T (unlink T h y) (only_child T h y) else Some (unlink T h y)"
  have "RBDelete T h z = (case ?B of None \<Rightarrow> None | Some h3 \<Rightarrow> if y \<noteq> z then Some (take_place h3 z y) else Some h3)"
    unfolding RBDelete_def Some option.case unlink_def only_child_def take_place_def Let_def ..
  also have "\<dots> = Option.bind ?B (\<lambda>h3. Some (if y \<noteq> z then take_place h3 z y else h3))"
    by (rule case_bind_if)
  finally show ?thesis unfolding Some bind.bind_lunit .
qed

lemma unlink_unchanged [rb_fields]:
  "rb_red (unlink T h y a) = rb_red (h a)" "payload (unlink T h y a) = payload (h a)"
  by (simp_all add: unlink_def Let_def rb_fields)

lemma unlink_ok:
  assumes f: "focus T h y (Nd l y r) C" and u: "l = Lf \<and> u = r \<or> r = Lf \<and> u = l"
  shows "focus T (unlink T h y) (only_child T h y) u C \<and>
    rb_parent (unlink T h y (only_child T h y)) = hole_par (rb_root T) C"
proof -
  define x where "x = only_child T h y"
  define P where "P = hole_par (rb_root T) C"
  note F = f [unfolded focus_def]
  have par: "rb_parent (h y) = P" using focus_hole_parent [OF f] by (simp add: P_def)
  have xu: "tree_at (rb_nil T) h y x u"
    using u F by (auto simp: x_def only_child_def split: if_splits)
  have x: "x = rb_nil T \<or> x \<in> set (addrs u)" using tree_at_root [OF xu] .
  have au: "set (addrs u) \<subseteq> set (addrs (Nd l y r))" "distinct (addrs u)" "y \<notin> set (addrs u)" using u F by auto
  have Pm: "P \<in> insert (rb_root T) (set (ctx_addrs C))" unfolding P_def by (rule hole_par_mem)
  have ne: "x \<noteq> y" "x \<noteq> P" "y \<noteq> P" "P \<notin> set (addrs u)" "x \<notin> set (ctx_addrs C)" "x \<noteq> rb_root T"
    using x au F Pm by auto
  have top: "P = rb_root T \<Longrightarrow> rb_left (h P) = y" using F by (auto simp: P_def dest: hole_par_root)
  let ?h1 = "set_parent h x P"
  have e: "unlink T h y = (if rb_left (h P) = y then set_left ?h1 P x else set_right ?h1 P x)"
    using ne par top by (auto simp: unlink_def x_def [symmetric] Let_def rb_fields)
  have px: "rb_parent (unlink T h y x) = P" using ne by (simp add: e rb_fields)
  have "tree_at (rb_nil T) (unlink T h y) P x u"
    by (rule tree_at_reparent [OF xu au(2)]) (use ne px in \<open>auto simp: e rb_fields\<close>)
  moreover have "ctx_at (rb_nil T) (rb_root T) (unlink T h y) x C"
  proof (rule ctx_at_retarget [where h = h and x = y])
    show "same_links (insert (rb_root T) (set (ctx_addrs C)) - {hole_par (rb_root T) C}) h (unlink T h y)"
      using ne by (auto simp: same_links_def e P_def [symmetric] rb_fields)
  qed (use F ne in \<open>auto simp: e P_def [symmetric] rb_fields\<close>)
  moreover have "rb_right (unlink T h y (rb_root T)) = rb_nil T" using F top by (auto simp: e rb_fields)
  ultimately have "focus T (unlink T h y) x u C"
    using F au unfolding focus_def P_def [symmetric] by auto
  then show ?thesis using px by (simp add: x_def P_def)
qed

section \<open>Taking the place of a node\<close>

lemma take_place_ok:
  assumes f: "focus T h z (Nd l z r) C" and y: "y \<notin> set (addrs (Nd l z r))" "y \<notin> set (ctx_addrs C)" "y \<noteq> rb_nil T" "y \<noteq> rb_root T"
  shows "focus T (take_place h z y) y (Nd l y r) C \<and> (\<forall>a. a \<noteq> y \<longrightarrow> rb_red (take_place h z y a) = rb_red (h a)) \<and>
    rb_red (take_place h z y y) = rb_red (h z) \<and> (\<forall>a. payload (take_place h z y a) = payload (h a))"
proof -
  define P where "P = hole_par (rb_root T) C"
  define lc where "lc = rb_left (h z)"
  define rc where "rc = rb_right (h z)"
  note F = f [unfolded focus_def]
  have par: "rb_parent (h z) = P" using focus_hole_parent [OF f] by (simp add: P_def)
  have t: "tree_at (rb_nil T) h z lc l" "tree_at (rb_nil T) h z rc r" using F by (auto simp: lc_def rc_def)
  have m: "lc = rb_nil T \<or> lc \<in> set (addrs l)" "rc = rb_nil T \<or> rc \<in> set (addrs r)"
    using tree_at_root [OF t(1)] tree_at_root [OF t(2)] by simp_all
  have Pm: "P \<in> insert (rb_root T) (set (ctx_addrs C))" unfolding P_def by (rule hole_par_mem)
  have ne: "z \<noteq> y" "P \<noteq> y" "P \<noteq> z" "lc \<noteq> z" "rc \<noteq> z" "lc \<noteq> y" "rc \<noteq> y" "P \<notin> {lc, rc}"
    "P \<notin> set (addrs l)" "P \<notin> set (addrs r)" using m F y Pm by auto
  have top: "P = rb_root T \<Longrightarrow> rb_left (h P) = z" using F by (auto simp: P_def dest: hole_par_root)
  define h4 where "h4 = h(y := (h y)\<lparr>rb_left := lc, rb_right := rc, rb_parent := P, rb_red := rb_red (h z)\<rparr>)"
  have h4: "rb_left (h4 a) = (if a = y then lc else rb_left (h a))" "rb_right (h4 a) = (if a = y then rc else rb_right (h a))"
    "rb_parent (h4 a) = (if a = y then P else rb_parent (h a))" "rb_red (h4 a) = (if a = y then rb_red (h z) else rb_red (h a))"
    "payload (h4 a) = payload (h a)" for a
    by (simp_all add: h4_def payload_def)
  let ?h6 = "set_parent (set_parent h4 rc y) lc y" and ?h = "take_place h z y"
  have e: "?h = (if rb_left (h P) = z then set_left ?h6 P y else set_right ?h6 P y)"
    using ne par by (simp add: take_place_def Let_def lc_def [symmetric] rc_def [symmetric] h4_def [symmetric] h4 rb_fields)
  have L: "tree_at (rb_nil T) ?h y lc l"
    by (rule tree_at_reparent [OF t(1)]) (use F ne m y in \<open>auto simp: e h4 rb_fields\<close>)
  have R: "tree_at (rb_nil T) ?h y rc r"
    by (rule tree_at_reparent [OF t(2)]) (use F ne m y in \<open>auto simp: e h4 rb_fields\<close>)
  have "ctx_at (rb_nil T) (rb_root T) ?h y C"
  proof (rule ctx_at_retarget [where h = h and x = z])
    show "same_links (insert (rb_root T) (set (ctx_addrs C)) - {hole_par (rb_root T) C}) h ?h"
      using F m y by (auto simp: same_links_def e P_def [symmetric] h4 rb_fields)
  qed (use F ne m y in \<open>auto simp: e P_def [symmetric] h4 rb_fields\<close>)
  moreover have "rb_left (?h y) = lc" "rb_right (?h y) = rc" "rb_parent (?h y) = P"
    using ne by (auto simp: e h4 rb_fields)
  moreover have "rb_right (?h (rb_root T)) = rb_nil T" using F top y by (auto simp: e h4 rb_fields)
  ultimately have "focus T ?h y (Nd l y r) C"
    using F L R y unfolding focus_def P_def [symmetric] by auto
  then show ?thesis by (auto simp: e h4 rb_fields)
qed

section \<open>Deletion\<close>

text \<open>A red-black tree without regard to keys.\<close>

definition balanced :: "RBT_tree \<Rightarrow> rb_heap \<Rightarrow> ptree \<Rightarrow> bool" where
  "balanced T h t \<longleftrightarrow> focus T h (rb_left (h (rb_root T))) t [] \<and> sentinels_black T h \<and>
     invc (redf h) t \<and> invh (redf h) t \<and> \<not> rootred (redf h) t"

lemma rbt_ok_balanced: "rbt_ok T h t \<longleftrightarrow> balanced T h t \<and> sorted (map (keyf h) (addrs t)) \<and> Compare T = IntComp"
  by (auto simp: rbt_ok_def balanced_def)

text \<open>The node with at most one child is taken out and the balance restored.\<close>

lemma splice_ok:
  assumes b: "balanced T h (plug C (Nd l y r))" and f: "focus T h y (Nd l y r) C" and u: "l = Lf \<and> u = r \<or> r = Lf \<and> u = l"
  obtains h3 t3 where "(if \<not> rb_red (unlink T h y y) then RBDeleteFixUp T (unlink T h y) (only_child T h y) else Some (unlink T h y)) = Some h3"
    "balanced T h3 t3" "addrs t3 = left_of C @ addrs u @ right_of C" "\<forall>a. payload (h3 a) = payload (h a)"
proof -
  let ?h = "unlink T h y" and ?x = "only_child T h y"
  have g: "focus T ?h ?x u C" "rb_parent (?h ?x) = hole_par (rb_root T) C" using unlink_ok [OF f u] by simp_all
  have rf: "redf ?h = redf h" by (rule ext) (simp add: redf_def rb_fields)
  have sb: "sentinels_black T ?h" using b by (simp add: balanced_def sentinels_black_def rb_fields)
  have i: "cinv (redf h) (bh (redf h) (Nd l y r)) C" "invc (redf h) (Nd l y r)" "invh (redf h) (Nd l y r)"
      "hole_red (redf h) C \<or> C = [] \<longrightarrow> \<not> redf h y"
    using plug_cinv [of "redf h" C "Nd l y r"] b by (auto simp: balanced_def)
  have iu: "invc (redf h) u" "invh (redf h) u" "bh (redf h) u = bh (redf h) l" "redf h y \<longrightarrow> \<not> rootred (redf h) u"
    using i(2,3) u by auto
  have au: "addrs (plug C u) = left_of C @ addrs u @ right_of C" by (rule addrs_plug_split)
  show ?thesis
  proof (cases "redf h y")
    case True
    have c: "cinv (redf h) (bh (redf h) u) C" using i(1) iu(3) True by simp
    have "invc (redf h) (plug C u) \<and> invh (redf h) (plug C u)"
      by (rule plug_colour [OF c iu(1,2)]) (use iu(4) True in simp)
    moreover have "\<not> rootred (redf h) (plug C u)" by (rule plug_black [OF c]) (use i(4) True in simp)
    ultimately have "balanced T ?h (plug C u)" using focus_plug [OF g(1)] sb by (simp add: balanced_def rf)
    then show ?thesis using that [of ?h "plug C u"] True au by (simp add: rb_red_redf rf rb_fields)
  next
    case False
    have "deficit T (rb_left (?h (rb_root T))) ?h ?x u C"
      using g sb iu i(1) False by (simp add: deficit_def rf invc2I)
    from delete_fix_loop_ok [OF this] obtain h3 t3 where
      "RBDeleteFixUp T ?h ?x = Some h3" "balanced T h3 t3" "addrs t3 = addrs (plug C u)" "\<forall>a. payload (h3 a) = payload (?h a)"
      unfolding settles_def balanced_def RBDeleteFixUp_def by blast
    then show ?thesis using that [of h3 t3] False au by (simp add: rb_red_redf rf rb_fields)
  qed
qed

lemma replaced_balanced:
  assumes b: "balanced T h (plug C (Nd l z r))" and f: "focus T h z (Nd l z r) C"
    and y: "y \<notin> set (addrs (plug C (Nd l z r)))" "y \<noteq> rb_nil T" "y \<noteq> rb_root T"
  shows "balanced T (take_place h z y) (plug C (Nd l y r)) \<and> (\<forall>a. payload (take_place h z y a) = payload (h a))"
proof -
  have yo: "y \<notin> set (addrs (Nd l z r))" "y \<notin> set (ctx_addrs C)" using y(1) by (auto simp: set_plug)
  note P = take_place_ok [OF f yo y(2,3)]
  let ?c = "redf (take_place h z y)"
  have col: "?c a = redf h a" if "a \<noteq> y" for a using P that by (simp add: redf_def)
  have cy: "?c y = redf h z" using P by (simp add: redf_def)
  have i: "cinv (redf h) (bh (redf h) (Nd l z r)) C" "invc (redf h) (Nd l z r)" "invh (redf h) (Nd l z r)"
      "hole_red (redf h) C \<or> C = [] \<longrightarrow> \<not> rootred (redf h) (Nd l z r)"
    using plug_cinv [of "redf h" C "Nd l z r"] b by (auto simp: balanced_def)
  have "\<forall>a\<in>set (addrs v). ?c a = redf h a" if "v \<in> {l, r}" for v using that yo by (auto intro!: col)
  note k = this [THEN colour_cong(1)] this [THEN colour_cong(2)] this [THEN colour_cong(3)] this [THEN colour_cong(4)]
  have "\<forall>a\<in>set (ctx_addrs C). ?c a = redf h a" using yo by (auto intro!: col)
  note kC = cinv_cong [OF this] hole_red_cong [OF this]
  have t: "bh ?c (Nd l y r) = bh (redf h) (Nd l z r)" "invc ?c (Nd l y r)" "invh ?c (Nd l y r)"
      "hole_red ?c C \<or> C = [] \<longrightarrow> \<not> rootred ?c (Nd l y r)"
    using i(2-4) by (simp_all add: k cy kC)
  have c: "cinv ?c (bh ?c (Nd l y r)) C" using i(1) by (simp only: t(1) kC)
  have "invc ?c (plug C (Nd l y r)) \<and> invh ?c (plug C (Nd l y r))" by (rule plug_colour [OF c t(2,3)]) (use t(4) in simp)
  moreover have "\<not> rootred ?c (plug C (Nd l y r))" by (rule plug_black [OF c]) (use t(4) in simp)
  moreover have "sentinels_black T (take_place h z y)"
    using b y(2,3) col [of "rb_nil T"] col [of "rb_root T"] by (auto simp: balanced_def sentinels_black_def redf_def)
  moreover have "focus T (take_place h z y) (rb_left (take_place h z y (rb_root T))) (plug C (Nd l y r)) []"
    using focus_plug P by blast
  ultimately show ?thesis using P by (simp add: balanced_def)
qed

text \<open>The successor of a node with two children has no left child.\<close>

lemma leftmost_plug: "r \<noteq> Lf \<Longrightarrow> \<exists>D d. \<forall>C. plug C r = plug (D @ C) (Nd Lf (hd (addrs r)) d)"
proof (induction r)
  case (Nd l a r)
  show ?case
  proof (cases "l = Lf")
    case True
    then show ?thesis by (intro exI [of _ "[]"] exI [of _ r]) simp
  next
    case False
    then obtain D d where D: "\<forall>C. plug C l = plug (D @ C) (Nd Lf (hd (addrs l)) d)" using Nd.IH(1) by blast
    have "plug C (Nd l a r) = plug ((D @ [FL a r]) @ C) (Nd Lf (hd (addrs (Nd l a r))) d)" for C
      using D [rule_format, of "FL a r # C"] False by (simp add: hd_append)
    then show ?thesis by blast
  qed
qed simp

lemma split_at: "ls @ z # rs = ls' @ z # rs' \<Longrightarrow> distinct (ls @ z # rs) \<Longrightarrow> ls = ls' \<and> rs = rs'"
proof -
  assume e: "ls @ z # rs = ls' @ z # rs'" and d: "distinct (ls @ z # rs)"
  then have "distinct (ls' @ z # rs')" by simp
  with d have "z \<notin> set ls" "z \<notin> set rs" "z \<notin> set ls'" "z \<notin> set rs'" by auto
  with e show ?thesis by (metis append_Cons_eq_iff)
qed

text \<open>A node with two children: its successor is spliced out and takes its place.\<close>

lemma RBDelete_two:
  assumes b: "balanced T h t" and t: "t = plug C (Nd l z r)" and f: "focus T h z (Nd l z r) C" and ne: "l \<noteq> Lf" "r \<noteq> Lf"
  obtains h' t' where "RBDelete T h z = Some h'" "balanced T h' t'" "addrs t' = left_of C @ addrs l @ addrs r @ right_of C"
    "\<forall>a. payload (h' a) = payload (h a)"
proof -
  define y where "y = hd (addrs r)"
  have kids: "rb_left (h z) \<noteq> rb_nil T" "rb_right (h z) \<noteq> rb_nil T"
    using focus_nil [OF focus_child(1) [OF f]] focus_nil [OF focus_child(2) [OF f]] ne by simp_all
  have suc: "TreeSuccessor T h z = Some y" using neighbours_focus(1) [OF f] ne(2) by (simp add: y_def hd_append)
  obtain D d where t2: "t = plug (D @ FR l z # C) (Nd Lf y d)"
    using leftmost_plug [OF ne(2)] t unfolding y_def by (metis plug.simps(3))
  define E where "E = D @ FR l z # C"
  note t2 = t2 [folded E_def]
  obtain q where "focus T h q (Nd Lf y d) E" using b focus_into unfolding balanced_def t2 by blast
  then have fy: "focus T h y (Nd Lf y d) E" using focus_addr by metis
  have dist: "distinct (addrs t)" using b by (simp add: balanced_def focus_def)
  obtain rs where rs: "addrs r = y # rs" using ne(2) by (cases "addrs r") (auto simp: y_def)
  have at: "addrs t = (left_of C @ addrs l @ [z]) @ y # (rs @ right_of C)"
    "addrs t = left_of E @ y # (addrs d @ right_of E)"
    using addrs_plug_split [of C "Nd l z r"] addrs_plug_split [of E "Nd Lf y d"] rs by (simp_all add: t [symmetric] t2 [symmetric])
  have E: "left_of E = left_of C @ addrs l @ [z]" "addrs d @ right_of E = rs @ right_of C"
    using split_at [of "left_of E" y "addrs d @ right_of E" "left_of C @ addrs l @ [z]" "rs @ right_of C"] dist at by simp_all
  obtain h3 t3 where h3: "(if \<not> rb_red (unlink T h y y) then RBDeleteFixUp T (unlink T h y) (only_child T h y) else Some (unlink T h y)) = Some h3"
    "balanced T h3 t3" "addrs t3 = left_of E @ addrs d @ right_of E" "\<forall>a. payload (h3 a) = payload (h a)"
    by (rule splice_ok [OF b [unfolded t2] fy, of d]) simp
  have a3: "addrs t3 = (left_of C @ addrs l) @ z # (rs @ right_of C)" using h3(3) E by simp
  then have "z \<in> set (addrs t3)" by simp
  then obtain C3 l3 r3 where t3: "t3 = plug C3 (Nd l3 z r3)" using member_plug by blast
  obtain q3 where "focus T h3 q3 (Nd l3 z r3) C3" using h3(2) focus_into unfolding balanced_def t3 by blast
  then have f3: "focus T h3 z (Nd l3 z r3) C3" using focus_addr by metis
  have "distinct (addrs t3)" "addrs t3 = (left_of C3 @ addrs l3) @ z # (addrs r3 @ right_of C3)"
    using h3(2) addrs_plug_split [of C3 "Nd l3 z r3"] by (simp_all add: balanced_def focus_def t3 [symmetric])
  then have s3: "left_of C3 @ addrs l3 = left_of C @ addrs l" "addrs r3 @ right_of C3 = rs @ right_of C"
    using split_at [of "left_of C3 @ addrs l3" z "addrs r3 @ right_of C3" "left_of C @ addrs l" "rs @ right_of C"] a3 by simp_all
  have y: "y \<notin> set (addrs t3)" "y \<noteq> z" using dist at(1) a3 by auto
  have ys: "y \<noteq> rb_nil T" "y \<noteq> rb_root T" using focus_sentinels [OF fy] by auto
  note R = replaced_balanced [OF h3(2) [unfolded t3] f3 y(1) [unfolded t3] ys]
  have "RBDelete T h z = Some (take_place h3 z y)"
    by (simp only: RBDelete_parts kids suc h3(1) bind.bind_lunit y(2) if_False if_True not_False_eq_True disj_not1 simp_thms)
  moreover have "addrs (plug C3 (Nd l3 y r3)) = left_of C @ addrs l @ addrs r @ right_of C"
    using addrs_plug_split [of C3 "Nd l3 y r3"] s3 rs by (metis append.assoc append_Cons addrs.simps(2))
  ultimately show ?thesis using that R h3(4) by metis
qed

theorem RBDelete_ok:
  assumes ok: "rbt_ok T h t" and z: "z \<in> set (addrs t)"
  shows "\<exists>h' t' ls rs. RBDelete T h z = Some h' \<and> rbt_ok T h' t' \<and> addrs t = ls @ z # rs \<and> addrs t' = ls @ rs \<and>
    (\<forall>a. payload (h' a) = payload (h a))"
proof -
  have b: "balanced T h t" using ok by (simp add: rbt_ok_balanced)
  obtain C l r where t: "t = plug C (Nd l z r)" using member_plug z by blast
  obtain q where "focus T h q (Nd l z r) C" using b focus_into unfolding balanced_def t by blast
  then have f: "focus T h z (Nd l z r) C" using focus_addr by metis
  have at: "addrs t = (left_of C @ addrs l) @ z # (addrs r @ right_of C)" using addrs_plug_split [of C "Nd l z r"] t by simp
  have "\<exists>h' t'. RBDelete T h z = Some h' \<and> balanced T h' t' \<and> addrs t' = left_of C @ addrs l @ addrs r @ right_of C \<and>
    (\<forall>a. payload (h' a) = payload (h a))"
  proof (cases "l = Lf \<or> r = Lf")
    case True
    then have y: "rb_left (h z) = rb_nil T \<or> rb_right (h z) = rb_nil T"
      using focus_nil [OF focus_child(1) [OF f]] focus_nil [OF focus_child(2) [OF f]] by auto
    define u where "u = (if l = Lf then r else l)"
    have u: "l = Lf \<and> u = r \<or> r = Lf \<and> u = l" "addrs u = addrs l @ addrs r" using True by (auto simp: u_def)
    obtain h3 t3 where h3: "(if \<not> rb_red (unlink T h z z) then RBDeleteFixUp T (unlink T h z) (only_child T h z) else Some (unlink T h z)) = Some h3"
      "balanced T h3 t3" "addrs t3 = left_of C @ addrs u @ right_of C" "\<forall>a. payload (h3 a) = payload (h a)"
      by (rule splice_ok [OF b [unfolded t] f u(1)])
    have "RBDelete T h z = Some h3" by (simp only: RBDelete_parts if_P [OF y] bind.bind_lunit h3(1) simp_thms if_False)
    then show ?thesis using h3(2-4) u(2) by auto
  next
    case False
    then show ?thesis using RBDelete_two [OF b t f] by blast
  qed
  then obtain h' t' where h': "RBDelete T h z = Some h'" "balanced T h' t'"
    "addrs t' = left_of C @ addrs l @ addrs r @ right_of C" "\<forall>a. payload (h' a) = payload (h a)" by blast
  have "sorted (map (keyf h') (addrs t'))"
    using ok at h'(3) keyf_payload [OF h'(4)] by (simp add: rbt_ok_def sorted_append)
  then have "rbt_ok T h' t'" using h'(2) ok by (simp add: rbt_ok_balanced)
  then show ?thesis using h'(1,3,4) at
    by (intro exI [of _ h'] exI [of _ t'] exI [of _ "left_of C @ addrs l"] exI [of _ "addrs r @ right_of C"]) simp
qed

section \<open>The interface with deletion\<close>

text \<open>
  A client leaves the index again: removing the node of a key returns and deletes the key
  from the map.
\<close>

datatype index_op = Put ptr | Drop ptr

locale removable_index = client_index +
  fixes remove :: "'a \<Rightarrow> ptr \<Rightarrow> 'a option"
  assumes remove_ok: "\<lbrakk>wf s m; m (key s a) = Some a\<rbrakk> \<Longrightarrow>
      \<exists>s'. remove s a = Some s' \<and> wf s' (m(key s a := None)) \<and>
           (\<forall>b. key s' b = key s b \<and> usable s' b = usable s b)"
begin

fun run :: "'a \<Rightarrow> index_op list \<Rightarrow> 'a option" where
  "run s [] = Some s"
| "run s (Put a # os) = Option.bind (insert s a) (\<lambda>s'. run s' os)"
| "run s (Drop a # os) = Option.bind (remove s a) (\<lambda>s'. run s' os)"

end

text \<open>The same operations on a map, and when they make sense.\<close>

fun map_run :: "(ptr \<Rightarrow> u32) \<Rightarrow> (u32 \<rightharpoonup> ptr) \<Rightarrow> index_op list \<Rightarrow> (u32 \<rightharpoonup> ptr)" where
  "map_run k m [] = m"
| "map_run k m (Put a # os) = map_run k (m(k a \<mapsto> a)) os"
| "map_run k m (Drop a # os) = map_run k (m(k a := None)) os"

fun ops_ok :: "(ptr \<Rightarrow> bool) \<Rightarrow> (ptr \<Rightarrow> u32) \<Rightarrow> (u32 \<rightharpoonup> ptr) \<Rightarrow> index_op list \<Rightarrow> bool" where
  "ops_ok u k m [] = True"
| "ops_ok u k m (Put a # os) = (u a \<and> a \<notin> ran m \<and> m (k a) = None \<and> ops_ok u k (m(k a \<mapsto> a)) os)"
| "ops_ok u k m (Drop a # os) = (m (k a) = Some a \<and> ops_ok u k (m(k a := None)) os)"

context removable_index begin

lemma run_ok:
  "wf s m \<Longrightarrow> ops_ok (usable s) (key s) m os \<Longrightarrow> \<exists>s'. run s os = Some s' \<and> wf s' (map_run (key s) m os)"
proof (induction os arbitrary: s m)
  case Nil
  then show ?case by simp
next
  case (Cons ob os)
  have rest: "\<exists>s'. run s1 os = Some s' \<and> wf s' (map_run (key s) m1 os)"
    if "wf s1 m1" "\<forall>b. key s1 b = key s b \<and> usable s1 b = usable s b" "ops_ok (usable s) (key s) m1 os" for s1 m1
  proof -
    have "key s1 = key s" "usable s1 = usable s" using that(2) by auto
    then show ?thesis using Cons.IH [OF that(1)] that(3) by simp
  qed
  show ?case
  proof (cases ob)
    case (Put a)
    then obtain s1 where "insert s a = Some s1" "wf s1 (m(key s a \<mapsto> a))" "\<forall>b. key s1 b = key s b \<and> usable s1 b = usable s b"
      using insert_ok [of s m a] Cons.prems by auto
    then show ?thesis using rest Put Cons.prems(2) by simp
  next
    case (Drop a)
    then obtain s1 where "remove s a = Some s1" "wf s1 (m(key s a := None))" "\<forall>b. key s1 b = key s b \<and> usable s1 b = usable s b"
      using remove_ok [of s m a] Cons.prems by auto
    then show ?thesis using rest Drop Cons.prems(2) by simp
  qed
qed

lemma find_after_run:
  "wf s m \<Longrightarrow> ops_ok (usable s) (key s) m os \<Longrightarrow>
   \<exists>s'. run s os = Some s' \<and> (\<forall>k. find s' k = Some (case map_run (key s) m os k of None \<Rightarrow> MY_NULL | Some a \<Rightarrow> a))"
  using run_ok find_ok by metis

end

definition idx_remove :: "RBT_tree \<times> rb_heap \<Rightarrow> ptr \<Rightarrow> (RBT_tree \<times> rb_heap) option" where
  "idx_remove s a = map_option (Pair (fst s)) (RBDelete (fst s) (snd s) a)"

interpretation rbd: removable_index idx_wf idx_usable idx_key idx_find idx_insert idx_remove
proof
  fix s m a assume "idx_wf s m" and am: "m (idx_key s a) = Some a"
  then obtain t where t: "rbt_ok (fst s) (snd s) t" "MY_NULL \<notin> set (addrs t)"
    and m: "\<And>k a. m k = Some a \<longleftrightarrow> a \<in> set (addrs t) \<and> keyf (snd s) a = k"
    unfolding idx_wf_def by blast
  have "a \<in> set (addrs t)" using am m by blast
  from RBDelete_ok [OF t(1) this] obtain h' t' ls rs where
    h': "RBDelete (fst s) (snd s) a = Some h'" "rbt_ok (fst s) h' t'" "addrs t = ls @ a # rs" "addrs t' = ls @ rs"
    "\<forall>b. payload (h' b) = payload (snd s b)" by blast
  have k: "keyf h' = keyf (snd s)" by (rule keyf_payload [OF h'(5)])
  have "distinct (addrs t)" using t(1) by (simp add: rbt_ok_def focus_def)
  then have st: "set (addrs t') = set (addrs t) - {a}" using h'(3,4) by auto
  have ku: "b = a" if "b \<in> set (addrs t)" "keyf (snd s) b = keyf (snd s) a" for b
    using that m [of "keyf (snd s) a" b] am by (simp add: idx_key_def)
  have "(m(idx_key s a := None)) q = Some b \<longleftrightarrow> b \<in> set (addrs t') \<and> keyf h' b = q" for q b
    using ku [of b] by (auto simp: st k m idx_key_def)
  then have "idx_wf (fst s, h') (m(idx_key s a := None))"
    using h'(2) t(2) st unfolding idx_wf_def by auto
  then show "\<exists>s'. idx_remove s a = Some s' \<and> idx_wf s' (m(idx_key s a := None)) \<and>
      (\<forall>b. idx_key s' b = idx_key s b \<and> idx_usable s' b = idx_usable s b)"
    using h'(1) by (simp add: idx_remove_def idx_key_def idx_usable_def k)
qed

section \<open>Results\<close>

text \<open>
  C5: \<open>RBDelete\<close> returns, for any red-black index and any node of it: the tree is again a
  red-black search tree, over the other nodes in the same order, and no node's fields other
  than its links and colour change.
\<close>

theorem RBDelete_correct:
  assumes "rbt_ok T h t" "addrs t = ls @ z # rs"
  shows "\<exists>h' t'. RBDelete T h z = Some h' \<and> rbt_ok T h' t' \<and> addrs t' = ls @ rs \<and> (\<forall>a. payload (h' a) = payload (h a))"
proof -
  have "z \<in> set (addrs t)" using assms(2) by simp
  from RBDelete_ok [OF assms(1) this] obtain h' t' ls' rs' where
    h': "RBDelete T h z = Some h'" "rbt_ok T h' t'" "addrs t = ls' @ z # rs'" "addrs t' = ls' @ rs'"
    "\<forall>a. payload (h' a) = payload (h a)" by blast
  have "distinct (addrs t)" using assms(1) by (simp add: rbt_ok_def focus_def)
  then have "ls' = ls" "rs' = rs" using split_at h'(3) assms(2) by metis+
  then show ?thesis using h' by blast
qed

lemma RBDelete_correct_witness:
  "\<exists>h1 h2 t2. RBTreeInsert_link (snd keyed_index) (fst keyed_index) 3 = Some h1 \<and>
     RBDelete (snd keyed_index) h1 3 = Some h2 \<and> rbt_ok (snd keyed_index) h2 t2 \<and> addrs t2 = []"
proof -
  have k: "RBTreeCreate (\<lambda>a. blank_node\<lparr>rb_key := of_nat (10 - a)\<rparr>) 1 2 IntComp = (fst keyed_index, snd keyed_index)"
    by (simp add: keyed_index_def)
  note ok = RBTreeCreate_ok [OF k, simplified]
  obtain h' t' ls rs where r: "RBTreeInsert_link (snd keyed_index) (fst keyed_index) 3 = Some h'"
    "rbt_ok (snd keyed_index) h' t'" "[] = ls @ rs" "addrs t' = ls @ 3 # rs"
    using RBTreeInsert_link_ok [OF ok(1), of 3] ok(2,3) by auto
  then show ?thesis using RBDelete_correct [OF r(2), of "[]" 3 "[]"] by auto
qed

text \<open>The operations of the server on its index, one after the other.\<close>

fun index_run :: "RBT_tree \<Rightarrow> rb_heap \<Rightarrow> index_op list \<Rightarrow> rb_heap option" where
  "index_run T h [] = Some h"
| "index_run T h (Put a # os) = Option.bind (RBTreeInsert_link T h a) (\<lambda>h'. index_run T h' os)"
| "index_run T h (Drop a # os) = Option.bind (RBDelete T h a) (\<lambda>h'. index_run T h' os)"

lemma idx_insert_pair: "idx_insert (T, h) a = map_option (Pair T) (RBTreeInsert_link T h a)"
  by (simp add: idx_insert_def)

lemma idx_remove_pair: "idx_remove (T, h) a = map_option (Pair T) (RBDelete T h a)"
  by (simp add: idx_remove_def)

lemma index_run_all: "rbd.run (T, h) os = map_option (Pair T) (index_run T h os)"
proof (induction os arbitrary: h)
  case (Cons ob os)
  then show ?case
    by (cases ob) (auto simp: idx_insert_pair idx_remove_pair split: option.splits bind_splits)
qed simp

text \<open>
  C3: the index the server keeps its clients in is a finite map: any sequence of insertions
  of unused nodes under new keys and of deletions of nodes it holds returns, and lookups
  then answer as the map would, with the null pointer for the keys that are not there.
\<close>

theorem index_refines_map:
  assumes "RBTreeCreate h nl rt IntComp = (h0, T)" "rt \<noteq> nl"
    and "ops_ok (\<lambda>a. a \<noteq> MY_NULL \<and> a \<noteq> nl \<and> a \<noteq> rt) (\<lambda>a. rb_key (h0 a)) Map.empty os"
  shows "\<exists>h'. index_run T h0 os = Some h' \<and>
    (\<forall>k. RBFindNodeByID T h' k = Some (case map_run (\<lambda>a. rb_key (h0 a)) Map.empty os k of None \<Rightarrow> MY_NULL | Some a \<Rightarrow> a))"
proof -
  note C = RBTreeCreate_ok [OF assms(1,2)]
  have "idx_wf (T, h0) Map.empty" using C(1) by (auto simp: idx_wf_def intro!: exI [of _ Lf])
  moreover have "idx_key (T, h0) = (\<lambda>a. rb_key (h0 a))" by (rule ext) (simp add: idx_key_def keyf_def)
  moreover have "idx_usable (T, h0) = (\<lambda>a. a \<noteq> MY_NULL \<and> a \<noteq> nl \<and> a \<noteq> rt)" by (rule ext) (simp add: idx_usable_def C)
  ultimately have "\<exists>s'. rbd.run (T, h0) os = Some s' \<and>
    (\<forall>k. idx_find s' k = Some (case map_run (\<lambda>a. rb_key (h0 a)) Map.empty os k of None \<Rightarrow> MY_NULL | Some a \<Rightarrow> a))"
    using rbd.find_after_run [of "(T, h0)" Map.empty os] assms(3) by simp
  then show ?thesis by (auto simp: index_run_all idx_find_def)
qed

lemma index_refines_map_witness:
  "\<exists>h'. index_run (snd keyed_index) (fst keyed_index) [Put 3, Put 4, Put 5, Drop 4, Put 6, Drop 3, Put 4] = Some h' \<and>
     RBFindNodeByID (snd keyed_index) h' 6 = Some 4 \<and> RBFindNodeByID (snd keyed_index) h' 7 = Some 0"
proof -
  have k: "rb_key (fst keyed_index 3) = 7" "rb_key (fst keyed_index 4) = 6"
    "rb_key (fst keyed_index 5) = 5" "rb_key (fst keyed_index 6) = 4"
    by (simp_all add: keyed_index_def RBTreeCreate_def Let_def)
  have "RBTreeCreate (\<lambda>a. blank_node\<lparr>rb_key := of_nat (10 - a)\<rparr>) 1 2 IntComp = (fst keyed_index, snd keyed_index)"
    by (simp add: keyed_index_def)
  note R = index_refines_map [OF this, of "[Put 3, Put 4, Put 5, Drop 4, Put 6, Drop 3, Put 4]"]
  have "ops_ok (\<lambda>a. a \<noteq> MY_NULL \<and> a \<noteq> 1 \<and> a \<noteq> 2) (\<lambda>a. rb_key (fst keyed_index a)) Map.empty
      [Put 3, Put 4, Put 5, Drop 4, Put 6, Drop 3, Put 4]"
    by (auto simp: k ran_def)
  then obtain h' where "index_run (snd keyed_index) (fst keyed_index) [Put 3, Put 4, Put 5, Drop 4, Put 6, Drop 3, Put 4] = Some h'"
    "\<forall>q. RBFindNodeByID (snd keyed_index) h' q = Some (case map_run (\<lambda>a. rb_key (fst keyed_index a)) Map.empty
        [Put 3, Put 4, Put 5, Drop 4, Put 6, Drop 3, Put 4] q of None \<Rightarrow> MY_NULL | Some a \<Rightarrow> a)"
    using R by auto
  then show ?thesis by (intro exI [of _ h']) (simp del: index_run.simps add: k)
qed

end
