(* ===== verification/Xdr.thy ===== *)
theory Xdr
  imports CPrelude
begin

text \<open>
  The XDR memory streams of the C library's \<open>rpc/xdr.h\<close>, as far as the message codec
  uses them.  One routine serves both directions: it runs on a stream that is being
  encoded (\<open>x_buf\<close> is the output so far) or decoded (\<open>x_buf\<close> is the input left), and
  returns whether it succeeded, the stream and the value.  \<open>x_room\<close> is the space left
  for output, \<open>None\<close> for the counting stream of \<open>xdr_sizeof\<close>.
\<close>

datatype xdr_op = XDR_ENCODE | XDR_DECODE

record xdrs =
  x_op :: xdr_op
  x_buf :: "u8 list"
  x_room :: "nat option"

type_synonym 'm xproc = "xdrs \<Rightarrow> 'm \<Rightarrow> (bool \<times> xdrs \<times> 'm) result"

abbreviation enc :: "u8 list \<Rightarrow> nat option \<Rightarrow> xdrs" where
  "enc out room \<equiv> \<lparr>x_op = XDR_ENCODE, x_buf = out, x_room = room\<rparr>"

abbreviation dec :: "u8 list \<Rightarrow> xdrs" where
  "dec bs \<equiv> \<lparr>x_op = XDR_DECODE, x_buf = bs, x_room = None\<rparr>"

section \<open>Raw bytes\<close>

definition has_room :: "xdrs \<Rightarrow> nat \<Rightarrow> bool" where
  "has_room x n = (case x_room x of None \<Rightarrow> True | Some r \<Rightarrow> n \<le> r)"

definition put_bytes :: "xdrs \<Rightarrow> u8 list \<Rightarrow> bool \<times> xdrs" where
  "put_bytes x bs =
     (if has_room x (length bs)
      then (True, x\<lparr>x_buf := x_buf x @ bs, x_room := map_option (\<lambda>r. r - length bs) (x_room x)\<rparr>)
      else (False, x))"

definition get_bytes :: "xdrs \<Rightarrow> nat \<Rightarrow> u8 list option \<times> xdrs" where
  "get_bytes x n =
     (if n \<le> length (x_buf x) then (Some (take n (x_buf x)), x\<lparr>x_buf := drop n (x_buf x)\<rparr>) else (None, x))"

text \<open>Big-endian 32-bit units.\<close>

definition u32_bytes :: "u32 \<Rightarrow> u8 list" where
  "u32_bytes w = [ucast (drop_bit 24 w), ucast (drop_bit 16 w), ucast (drop_bit 8 w), ucast w]"

definition bytes_u32 :: "u8 list \<Rightarrow> u32" where
  "bytes_u32 bs = (case bs of [a, b, c, d] \<Rightarrow>
     push_bit 24 (ucast a) + push_bit 16 (ucast b) + push_bit 8 (ucast c) + ucast d | _ \<Rightarrow> 0)"

definition xdr_u_int :: "u32 xproc" where
  "xdr_u_int x w =
     (case x_op x of
        XDR_ENCODE \<Rightarrow> (let (b, x') = put_bytes x (u32_bytes w) in Inr (b, x', w))
      | XDR_DECODE \<Rightarrow> (case get_bytes x 4 of (None, x') \<Rightarrow> Inr (False, x', w)
                      | (Some bs, x') \<Rightarrow> Inr (True, x', bytes_u32 bs)))"

text \<open>Signed and enumeration values are carried as the same 32-bit unit.\<close>

abbreviation xdr_int :: "u32 xproc" where "xdr_int \<equiv> xdr_u_int"
abbreviation xdr_enum :: "u32 xproc" where "xdr_enum \<equiv> xdr_u_int"

text \<open>A C \<open>short\<close> travels sign-extended, an \<open>unsigned short\<close> zero-extended.\<close>

definition xdr_short :: "u16 xproc" where
  "xdr_short x w = bindE (xdr_u_int x (scast w)) (\<lambda>(b, x', v). Inr (b, x', if b \<and> x_op x = XDR_DECODE then ucast v else w))"

definition xdr_u_short :: "u16 xproc" where
  "xdr_u_short x w = bindE (xdr_u_int x (ucast w)) (\<lambda>(b, x', v). Inr (b, x', if b \<and> x_op x = XDR_DECODE then ucast v else w))"

text \<open>A 64-bit \<open>unsigned long\<close> travels as 32 bits; a larger value cannot be encoded.\<close>

definition xdr_u_long :: "u64 xproc" where
  "xdr_u_long x w =
     (if x_op x = XDR_ENCODE \<and> ucast (ucast w :: u32) \<noteq> w then Inr (False, x, w)
      else bindE (xdr_u_int x (ucast w)) (\<lambda>(b, x', v). Inr (b, x', if b \<and> x_op x = XDR_DECODE then ucast v else w)))"

section \<open>Strings and arrays\<close>

definition pad :: "nat \<Rightarrow> nat" where
  "pad n = (4 - n mod 4) mod 4"

definition char_u8 :: "char \<Rightarrow> u8" where
  "char_u8 c = word_of_nat (of_char c)"

definition u8_char :: "u8 \<Rightarrow> char" where
  "u8_char b = char_of (unat b)"

text \<open>The C string in a buffer ends at the first NUL.\<close>

definition cstr_of :: "u8 list \<Rightarrow> string" where
  "cstr_of bs = map u8_char (takeWhile (\<lambda>b. b \<noteq> 0) bs)"

text \<open>
  \<open>xdr_string\<close>: \<open>None\<close> is the null pointer, which cannot be encoded and which decoding
  replaces by a fresh buffer; decoding into a given buffer needs its room.
\<close>

definition xdr_string :: "nat \<Rightarrow> string option xproc" where
  "xdr_string maxsize x s =
     (case x_op x of
        XDR_ENCODE \<Rightarrow>
          (case s of
             None \<Rightarrow> Inr (False, x, s)
           | Some t \<Rightarrow>
               (let (b, x1) = put_bytes x (u32_bytes (of_nat (length t)))
                in if \<not> b \<or> length t > maxsize then Inr (False, x1, s)
                   else let (b2, x2) = put_bytes x1 (map char_u8 t)
                        in if \<not> b2 then Inr (False, x2, s)
                           else let (b3, x3) = put_bytes x2 (replicate (pad (length t)) 0)
                                in Inr (b3, x3, s)))
      | XDR_DECODE \<Rightarrow>
          (case get_bytes x 4 of
             (None, x1) \<Rightarrow> Inr (False, x1, s)
           | (Some lb, x1) \<Rightarrow>
               (let n = unat (bytes_u32 lb)
                in if n > maxsize then Inr (False, x1, s)
                   else if \<exists>t. s = Some t \<and> length t < n then Inl OutOfBounds
                   else case get_bytes x1 n of
                          (None, x2) \<Rightarrow> Inr (False, x2, Some [])
                        | (Some bs, x2) \<Rightarrow>
                            (case get_bytes x2 (pad n) of
                               (None, x3) \<Rightarrow> Inr (False, x3, Some (cstr_of bs))
                             | (Some _, x3) \<Rightarrow> Inr (True, x3, Some (cstr_of bs))))))"

text \<open>
  The element loops of \<open>xdr_array\<close>.  Encoding reads \<open>c\<close> elements of the array, which must
  be there; decoding fills a fresh array.
\<close>

fun enc_elems :: "'e xproc \<Rightarrow> xdrs \<Rightarrow> nat \<Rightarrow> 'e list \<Rightarrow> (bool \<times> xdrs) result" where
  "enc_elems p x 0 es = Inr (True, x)"
| "enc_elems p x (Suc c) [] = Inl OutOfBounds"
| "enc_elems p x (Suc c) (e # es) =
     bindE (p x e) (\<lambda>(b, x', _). if b then enc_elems p x' c es else Inr (False, x'))"

fun dec_elems :: "'e xproc \<Rightarrow> 'e \<Rightarrow> xdrs \<Rightarrow> nat \<Rightarrow> (bool \<times> xdrs \<times> 'e list) result" where
  "dec_elems p z x 0 = Inr (True, x, [])"
| "dec_elems p z x (Suc c) =
     bindE (p x z) (\<lambda>(b, x', e).
       if b then bindE (dec_elems p z x' c) (\<lambda>(b', x'', es). Inr (b', x'', e # es))
       else Inr (False, x', e # replicate c z))"

text \<open>
  \<open>xdr_array\<close> on a count and an array (\<open>[]\<close> for the null pointer); \<open>z\<close> is the zeroed
  element that \<open>calloc\<close> gives.
\<close>

definition xdr_array :: "nat \<Rightarrow> 'e xproc \<Rightarrow> 'e \<Rightarrow> (u32 \<times> 'e list) xproc" where
  "xdr_array maxsize p z x ca =
     bindE (xdr_u_int x (fst ca)) (\<lambda>(b, x1, c).
       if \<not> b then Inr (False, x1, (c, snd ca))
       else if unat c > maxsize then Inr (False, x1, (c, snd ca))
       else case x_op x of
              XDR_ENCODE \<Rightarrow> bindE (enc_elems p x1 (unat c) (snd ca)) (\<lambda>(b', x2). Inr (b', x2, (c, snd ca)))
            | XDR_DECODE \<Rightarrow> bindE (dec_elems p z x1 (unat c)) (\<lambda>(b', x2, es). Inr (b', x2, (c, es))))"

section \<open>Composition\<close>

text \<open>A routine run on a field of a structure.\<close>

definition xfield :: "('m \<Rightarrow> 'f) \<Rightarrow> ('f \<Rightarrow> 'm \<Rightarrow> 'm) \<Rightarrow> 'f xproc \<Rightarrow> 'm xproc" where
  "xfield get put p x m = bindE (p x (get m)) (\<lambda>(b, x', v). Inr (b, x', put v m))"

text \<open>
  \<open>xall\<close>: every routine runs and the results are conjoined at the end (the calls whose
  results are stored first).  \<open>xand\<close>: a chain of \<open>&&\<close>, which stops at the first failure.
\<close>

fun xall :: "'m xproc list \<Rightarrow> 'm xproc" where
  "xall [] x m = Inr (True, x, m)"
| "xall (p # ps) x m =
     bindE (p x m) (\<lambda>(b, x', m'). bindE (xall ps x' m') (\<lambda>(b', x'', m''). Inr (b \<and> b', x'', m'')))"

fun xand :: "'m xproc list \<Rightarrow> 'm xproc" where
  "xand [] x m = Inr (True, x, m)"
| "xand (p # ps) x m = bindE (p x m) (\<lambda>(b, x', m'). if b then xand ps x' m' else Inr (False, x', m'))"

section \<open>Wire format and round trips of the primitives\<close>

lemma bytes_u32_bytes [simp]: "bytes_u32 (u32_bytes w) = w"
proof -
  have d: "push_bit 24 (ucast a :: u32) + push_bit 16 (ucast b) + push_bit 8 (ucast c) + ucast d =
    or (or (or (push_bit 24 (ucast a)) (push_bit 16 (ucast b))) (push_bit 8 (ucast c))) (ucast d)" for a b c d :: u8
  proof -
    have 1: "and (push_bit 24 (ucast a :: u32)) (push_bit 16 (ucast b)) = 0"
      by (rule bit_word_eqI) (auto simp: bit_simps dest: bit_imp_le_length)
    have 2: "and (or (push_bit 24 (ucast a :: u32)) (push_bit 16 (ucast b))) (push_bit 8 (ucast c)) = 0"
      by (rule bit_word_eqI) (auto simp: bit_simps dest: bit_imp_le_length)
    have 3: "and (or (or (push_bit 24 (ucast a :: u32)) (push_bit 16 (ucast b))) (push_bit 8 (ucast c))) (ucast d) = 0"
      by (rule bit_word_eqI) (auto simp: bit_simps dest: bit_imp_le_length)
    show ?thesis using 1 2 3 by (simp add: disjunctive_add_eq_or)
  qed
  show ?thesis
    unfolding bytes_u32_def u32_bytes_def list.case d
  proof (rule bit_word_eqI)
    fix n assume "n < LENGTH(32)"
    then have n: "n < 32" by simp
    consider "n < 8" | "8 \<le> n \<and> n < 16" | "16 \<le> n \<and> n < 24" | "24 \<le> n" by linarith
    then show "bit (or (or (or (push_bit 24 (ucast (ucast (drop_bit 24 w) :: u8)) :: u32) (push_bit 16 (ucast (ucast (drop_bit 16 w) :: u8))))
        (push_bit 8 (ucast (ucast (drop_bit 8 w) :: u8)))) (ucast (ucast w :: u8))) n = bit w n"
      using n by cases (auto simp: bit_simps)
  qed
qed

lemma u32_bytes_length [simp]: "length (u32_bytes w) = 4"
  by (simp add: u32_bytes_def)

text \<open>
  \<open>writes p m bs\<close>: encoding \<open>m\<close> appends \<open>bs\<close>.  \<open>reads p m0 bs m\<close>: decoding
  \<open>bs\<close> into \<open>m0\<close> consumes exactly \<open>bs\<close> and gives \<open>m\<close>.
\<close>

named_theorems xdr_rt "round trips of the XDR routines"

definition writes :: "'m xproc \<Rightarrow> 'm \<Rightarrow> u8 list \<Rightarrow> bool" where
  "writes p m bs \<longleftrightarrow> (\<forall>out room. (\<forall>r. room = Some r \<longrightarrow> length bs \<le> r) \<longrightarrow>
     p (enc out room) m = Inr (True, enc (out @ bs) (map_option (\<lambda>r. r - length bs) room), m))"

definition reads :: "'m xproc \<Rightarrow> 'm \<Rightarrow> u8 list \<Rightarrow> 'm \<Rightarrow> bool" where
  "reads p m0 bs m \<longleftrightarrow> (\<forall>rest. p (dec (bs @ rest)) m0 = Inr (True, dec rest, m))"

definition str_bytes :: "string \<Rightarrow> u8 list" where
  "str_bytes t = u32_bytes (of_nat (length t)) @ map char_u8 t @ replicate (pad (length t)) 0"

definition arr_bytes :: "('e \<Rightarrow> u8 list) \<Rightarrow> 'e list \<Rightarrow> u8 list" where
  "arr_bytes f es = u32_bytes (of_nat (length es)) @ concat (map f es)"

lemma put_bytes_ok [simp]:
  "(\<forall>r. room = Some r \<longrightarrow> length bs \<le> r) \<Longrightarrow>
   put_bytes (enc out room) bs = (True, enc (out @ bs) (map_option (\<lambda>r. r - length bs) room))"
  by (cases room) (auto simp: put_bytes_def has_room_def)

lemma get_bytes_ok [simp]: "length bs = n \<Longrightarrow> get_bytes (dec (bs @ rest)) n = (Some bs, dec rest)"
  by (auto simp: get_bytes_def)

lemma writes_u_int [xdr_rt]: "writes xdr_u_int w (u32_bytes w)"
  by (simp add: writes_def xdr_u_int_def)

lemma reads_u_int [xdr_rt]: "reads xdr_u_int w0 (u32_bytes w) w"
  by (simp add: reads_def xdr_u_int_def)

lemma ucast_scast_u16 [simp]: "ucast (scast (w :: u16) :: u32) = w"
  by (rule bit_word_eqI) (auto simp: bit_simps)

lemma ucast_ucast_u16 [simp]: "ucast (ucast (w :: u16) :: u32) = w"
  by (rule bit_word_eqI) (auto simp: bit_simps)

lemma writes_short [xdr_rt]: "writes xdr_short w (u32_bytes (scast w))"
  using writes_u_int [of "scast w"] by (simp add: writes_def xdr_short_def)

lemma reads_short [xdr_rt]: "reads xdr_short w0 (u32_bytes (scast w)) w"
  using reads_u_int [of "scast w0" "scast w"] by (simp add: reads_def xdr_short_def)

lemma writes_u_short [xdr_rt]: "writes xdr_u_short w (u32_bytes (ucast w))"
  using writes_u_int [of "ucast w"] by (simp add: writes_def xdr_u_short_def)

lemma reads_u_short [xdr_rt]: "reads xdr_u_short w0 (u32_bytes (ucast w)) w"
  using reads_u_int [of "ucast w0" "ucast w"] by (simp add: reads_def xdr_u_short_def)

lemma writes_u_long [xdr_rt]: "ucast (ucast w :: u32) = w \<Longrightarrow> writes xdr_u_long w (u32_bytes (ucast w))"
  using writes_u_int [of "ucast w"] by (simp add: writes_def xdr_u_long_def)

lemma reads_u_long [xdr_rt]: "ucast (ucast w :: u32) = w \<Longrightarrow> reads xdr_u_long w0 (u32_bytes (ucast w)) w"
  using reads_u_int [of "ucast w0" "ucast w"] by (simp add: reads_def xdr_u_long_def)

lemma u8_char_u8 [simp]: "u8_char (char_u8 c) = c"
proof -
  have "of_char c < (256 :: nat)" by simp
  then have "unat (word_of_nat (of_char c) :: u8) = of_char c" by (simp add: unat_of_nat)
  then show ?thesis by (simp add: u8_char_def char_u8_def)
qed

lemma char_u8_nonzero: "c \<noteq> CHR 0x00 \<Longrightarrow> char_u8 c \<noteq> 0"
proof
  assume c: "c \<noteq> CHR 0x00" and z: "char_u8 c = 0"
  have "u8_char 0 = CHR 0x00" by (simp add: u8_char_def char_of_def)
  then show False using z c u8_char_u8 [of c] by simp
qed

lemma cstr_of_chars: "CHR 0x00 \<notin> set t \<Longrightarrow> cstr_of (map char_u8 t) = t"
proof (induction t)
  case Nil
  show ?case by (simp add: cstr_of_def)
next
  case (Cons c t)
  have "char_u8 c \<noteq> 0" by (rule char_u8_nonzero) (use Cons.prems in auto)
  moreover have "cstr_of (map char_u8 t) = t" by (rule Cons.IH) (use Cons.prems in auto)
  ultimately show ?case unfolding cstr_of_def list.map takeWhile.simps by simp
qed

lemma room_split:
  assumes "\<forall>r. room = Some r \<longrightarrow> length (as @ bs) \<le> r"
  shows "\<forall>r. room = Some r \<longrightarrow> length as \<le> r"
    "\<forall>r. map_option (\<lambda>r. r - length as) room = Some r \<longrightarrow> length bs \<le> r"
    "map_option (\<lambda>r. r - length bs) (map_option (\<lambda>r. r - length as) room) =
     map_option (\<lambda>r. r - length (as @ bs)) room"
  using assms by (cases room; auto)+

lemma writes_string:
  assumes "length t \<le> maxsize"
  shows "writes (xdr_string maxsize) (Some t) (str_bytes t)"
  unfolding writes_def
proof (intro allI impI)
  fix out room assume r: "\<forall>r. room = Some r \<longrightarrow> length (str_bytes t) \<le> r"
  note r1 = room_split [OF r [unfolded str_bytes_def]]
  note r2 = room_split [OF r1(2)]
  show "xdr_string maxsize (enc out room) (Some t) =
    Inr (True, enc (out @ str_bytes t) (map_option (\<lambda>r. r - length (str_bytes t)) room), Some t)"
    unfolding xdr_string_def
    using assms put_bytes_ok [OF r1(1)] put_bytes_ok [OF r2(1)] put_bytes_ok [OF r2(2)] r1(3) r2(3)
    by (simp add: Let_def str_bytes_def)
qed

lemma reads_string:
  assumes "length t \<le> maxsize" "length t < 2 ^ 32" "CHR 0x00 \<notin> set t"
  shows "reads (xdr_string maxsize) None (str_bytes t) (Some t)"
proof -
  have "unat (word_of_nat (length t) :: u32) = length t" using assms(2) by (simp add: unat_of_nat)
  moreover have "cstr_of (map char_u8 t) = t" by (rule cstr_of_chars [OF assms(3)])
  ultimately show ?thesis using assms(1)
    by (simp add: reads_def xdr_string_def str_bytes_def Let_def)
qed

lemma enc_elems_ok:
  assumes "\<forall>e\<in>set es. writes p e (f e)" "\<forall>r. room = Some r \<longrightarrow> length (concat (map f es)) \<le> r"
  shows "enc_elems p (enc out room) (length es) es =
    Inr (True, enc (out @ concat (map f es)) (map_option (\<lambda>r. r - length (concat (map f es))) room))"
  using assms
proof (induction es arbitrary: out room)
  case Nil
  then show ?case by (cases room) auto
next
  case (Cons e es)
  note r = room_split [OF Cons.prems(2) [unfolded list.map concat.simps]]
  have "p (enc out room) e = Inr (True, enc (out @ f e) (map_option (\<lambda>r. r - length (f e)) room), e)"
    using Cons.prems(1) r(1) by (simp add: writes_def)
  then show ?case using Cons.IH [OF _ r(2)] Cons.prems(1) r(3) by simp
qed

lemma dec_elems_ok:
  assumes "\<forall>e\<in>set es. reads p z (f e) e"
  shows "dec_elems p z (dec (concat (map f es) @ rest)) (length es) = Inr (True, dec rest, es)"
  using assms
proof (induction es)
  case (Cons e es)
  then have "p (dec (f e @ concat (map f es) @ rest)) z = Inr (True, dec (concat (map f es) @ rest), e)"
    by (simp add: reads_def)
  with Cons show ?case by simp
qed simp

lemma writes_array:
  assumes "\<forall>e\<in>set es. writes p e (f e)" "length es \<le> maxsize" "length es < 2 ^ 32"
  shows "writes (xdr_array maxsize p z) (of_nat (length es), es) (arr_bytes f es)"
  unfolding writes_def
proof (intro allI impI)
  fix out room assume r: "\<forall>r. room = Some r \<longrightarrow> length (arr_bytes f es) \<le> r"
  note r1 = room_split [OF r [unfolded arr_bytes_def]]
  have u: "unat (word_of_nat (length es) :: u32) = length es" using assms(3) by (simp add: unat_of_nat)
  show "xdr_array maxsize p z (enc out room) (of_nat (length es), es) =
    Inr (True, enc (out @ arr_bytes f es) (map_option (\<lambda>r. r - length (arr_bytes f es)) room), (of_nat (length es), es))"
    using writes_u_int [of "of_nat (length es)", unfolded writes_def] r1(1) enc_elems_ok [OF assms(1) r1(2)] r1(3) assms(2) u
    by (simp add: xdr_array_def arr_bytes_def)
qed

lemma reads_array:
  assumes "\<forall>e\<in>set es. reads p z (f e) e" "length es \<le> maxsize" "length es < 2 ^ 32"
  shows "reads (xdr_array maxsize p z) ca (arr_bytes f es) (of_nat (length es), es)"
proof -
  have u: "unat (word_of_nat (length es) :: u32) = length es" using assms(3) by (simp add: unat_of_nat)
  show ?thesis
    using reads_u_int [of "fst ca" "of_nat (length es)"] dec_elems_ok [OF assms(1)] assms(2) u
    by (simp add: reads_def xdr_array_def arr_bytes_def)
qed

lemma writes_field [xdr_rt]:
  "writes p (get m) bs \<Longrightarrow> put (get m) m = m \<Longrightarrow> writes (xfield get put p) m bs"
  by (simp add: writes_def xfield_def)

lemma reads_field [xdr_rt]:
  "reads p (get m0) bs v \<Longrightarrow> reads (xfield get put p) m0 bs (put v m0)"
  by (simp add: reads_def xfield_def)

lemma writes_Nil [xdr_rt]: "writes (xall []) m (concat [])" "writes (xand []) m (concat [])"
  by (simp_all add: writes_def option.map_ident)

lemma reads_Nil [xdr_rt]: "reads (xall []) m (concat []) m" "reads (xand []) m (concat []) m"
  by (simp_all add: reads_def)

lemma writes_Cons [xdr_rt]:
  assumes "writes p m b1"
  shows "writes (xall ps) m (concat bs) \<Longrightarrow> writes (xall (p # ps)) m (concat (b1 # bs))"
    "writes (xand ps) m (concat bs) \<Longrightarrow> writes (xand (p # ps)) m (concat (b1 # bs))"
proof -
  have "writes q m b2 \<Longrightarrow> bindE (p (enc out room) m) (\<lambda>(b, x, m). bindE (q x m) (\<lambda>(b', x, m). Inr (b \<and> b', x, m))) =
    Inr (True, enc (out @ b1 @ b2) (map_option (\<lambda>r. r - length (b1 @ b2)) room), m)"
    if r: "\<forall>r. room = Some r \<longrightarrow> length (b1 @ b2) \<le> r" for q out room b2
    using assms room_split [OF r] by (simp add: writes_def)
  then show "writes (xall ps) m (concat bs) \<Longrightarrow> writes (xall (p # ps)) m (concat (b1 # bs))"
    unfolding writes_def [of "xall (p # ps)"] xall.simps concat.simps by blast
  have "writes q m b2 \<Longrightarrow> bindE (p (enc out room) m) (\<lambda>(b, x, m). if b then q x m else Inr (False, x, m)) =
    Inr (True, enc (out @ b1 @ b2) (map_option (\<lambda>r. r - length (b1 @ b2)) room), m)"
    if r: "\<forall>r. room = Some r \<longrightarrow> length (b1 @ b2) \<le> r" for q out room b2
    using assms room_split [OF r] by (simp add: writes_def)
  then show "writes (xand ps) m (concat bs) \<Longrightarrow> writes (xand (p # ps)) m (concat (b1 # bs))"
    unfolding writes_def [of "xand (p # ps)"] xand.simps concat.simps by blast
qed

lemma reads_Cons [xdr_rt]:
  assumes "reads p m0 b1 m1"
  shows "reads (xall ps) m1 (concat bs) m2 \<Longrightarrow> reads (xall (p # ps)) m0 (concat (b1 # bs)) m2"
    "reads (xand ps) m1 (concat bs) m2 \<Longrightarrow> reads (xand (p # ps)) m0 (concat (b1 # bs)) m2"
  using assms by (simp_all add: reads_def)

declare xall.simps [simp del] xand.simps [simp del]

lemma reads_eq: "reads p m0 bs m' \<Longrightarrow> m' = m \<Longrightarrow> reads p m0 bs m"
  by simp

text \<open>The same with the shape of a stored field.\<close>

definition str_ok :: "nat \<Rightarrow> string option \<Rightarrow> bool" where
  "str_ok maxsize s = (case s of None \<Rightarrow> False | Some t \<Rightarrow> length t \<le> maxsize \<and> CHR 0x00 \<notin> set t)"

definition ostr_bytes :: "string option \<Rightarrow> u8 list" where
  "ostr_bytes s = (case s of None \<Rightarrow> [] | Some t \<Rightarrow> str_bytes t)"

lemma writes_ostr [xdr_rt]: "str_ok maxsize s \<Longrightarrow> writes (xdr_string maxsize) s (ostr_bytes s)"
  using writes_string by (auto simp: str_ok_def ostr_bytes_def split: option.splits)

lemma reads_ostr [xdr_rt]:
  "str_ok maxsize s \<Longrightarrow> maxsize < 2 ^ 32 \<Longrightarrow> s0 = None \<Longrightarrow> reads (xdr_string maxsize) s0 (ostr_bytes s) s"
  using reads_string [of _ maxsize] by (auto simp: str_ok_def ostr_bytes_def split: option.splits)

definition arr_ok :: "nat \<Rightarrow> ('e \<Rightarrow> bool) \<Rightarrow> u32 \<Rightarrow> 'e list \<Rightarrow> bool" where
  "arr_ok maxsize ok c es \<longleftrightarrow> c = of_nat (length es) \<and> length es \<le> maxsize \<and> (\<forall>e\<in>set es. ok e)"

lemma writes_arr [xdr_rt]:
  "arr_ok maxsize ok c es \<Longrightarrow> maxsize < 2 ^ 32 \<Longrightarrow> (\<And>e. ok e \<Longrightarrow> writes p e (f e)) \<Longrightarrow>
   writes (xdr_array maxsize p z) (c, es) (arr_bytes f es)"
  using writes_array [of es p f maxsize z] by (simp add: arr_ok_def)

lemma reads_arr [xdr_rt]:
  "arr_ok maxsize ok c es \<Longrightarrow> maxsize < 2 ^ 32 \<Longrightarrow> (\<And>e. ok e \<Longrightarrow> reads p z (f e) e) \<Longrightarrow>
   reads (xdr_array maxsize p z) ca (arr_bytes f es) (c, es)"
  using reads_array [of es p z f maxsize ca] by (simp add: arr_ok_def)

end
