(* ===== verification/CommTypes.thy ===== *)
theory CommTypes
  imports Xdr NetAddr
begin

text \<open>
  \<open>src/include/comm_primitives.h\<close>: the message structures that servers, clients and
  moderators exchange, and the constructors of \<open>comm_primitives.c\<close> that fill them.
  A \<open>char *\<close> is a string or \<open>None\<close> for null, a pointer to an array its elements
  (\<open>[]\<close> for null); the counts stay separate fields, as in the code.
\<close>

abbreviation max_groups :: nat where "max_groups \<equiv> 1000"
abbreviation max_client_in_group :: nat where "max_client_in_group \<equiv> 255"
abbreviation max_gname_len :: nat where "max_gname_len \<equiv> 25"
abbreviation max_name_len :: nat where "max_name_len \<equiv> 150"
abbreviation MAXMSGSIZE :: nat where "MAXMSGSIZE \<equiv> 100000"

text \<open>The message identifiers.\<close>

abbreviation join_request :: u32 where "join_request \<equiv> 32"
abbreviation join_response :: u32 where "join_response \<equiv> 33"
abbreviation echo_req :: u32 where "echo_req \<equiv> 36"
abbreviation echo_response :: u32 where "echo_response \<equiv> 37"
abbreviation leave_request :: u32 where "leave_request \<equiv> 38"
abbreviation leave_response :: u32 where "leave_response \<equiv> 39"
abbreviation moderator_notify_req :: u32 where "moderator_notify_req \<equiv> 40"
abbreviation moderator_notify_rsp :: u32 where "moderator_notify_rsp \<equiv> 41"
abbreviation perform_task_req :: u32 where "perform_task_req \<equiv> 42"
abbreviation task_response :: u32 where "task_response \<equiv> 43"
abbreviation moderator_update_req :: u32 where "moderator_update_req \<equiv> 44"
abbreviation checkpoint_req :: u32 where "checkpoint_req \<equiv> 45"
abbreviation new_server_notify :: u32 where "new_server_notify \<equiv> 46"
abbreviation unknown_msg :: u32 where "unknown_msg \<equiv> 47"

type_synonym string_t = "string option"

record l_saddr_in_t =
  ls_sin_family :: u16
  ls_sin_port :: u16
  ls_s_addr :: u64
  ls_group_name :: string_t
  ls_cause :: u32
  ls_grp_port :: u32

record echo_req_t =
  eq_group_name :: string_t
  eq_num_clients :: u32
  eq_client_ids :: "u32 list"

record echo_rsp_t =
  er_status :: u32
  er_group_name :: string_t

record join_req_t =
  jq_num_groups :: u32
  jq_group_ids :: "string_t list"
  jq_capability :: u32

record join_rsp_t =
  jr_num_groups :: u32
  jr_group_ips :: "l_saddr_in_t list"

record checkpoint_req_t =
  cp_chkpoint_type :: u32
  cp_num_groups :: u32
  cp_group_ips :: "l_saddr_in_t list"
  cp_capability :: u32

record leave_req_t =
  lq_num_groups :: u32
  lq_group_ids :: "string_t list"

record leave_rsp_t =
  lr_num_groups :: u32
  lr_group_ids :: "string_t list"
  lr_cause :: u32

record moderator_notify_req_t =
  nq_moderator_id :: u32
  nq_moderator_port :: u32
  nq_num_of_clients_in_grp :: u32
  nq_group_name :: string_t

record moderator_notify_rsp_t =
  nr_group_name :: string_t
  nr_moderator_id :: u32
  nr_client_id_count :: u32
  nr_client_ids :: "u32 list"

record moderator_update_req_t =
  mu_moderator_id :: u32
  mu_moderator_port :: u32
  mu_group_name :: string_t
  mu_client_id_count :: u32
  mu_client_ids :: "u32 list"
  mu_expected_task_responses :: u32

record perform_task_req_t =
  pt_group_name :: string_t
  pt_task_id :: u32
  pt_client_id_count :: u32
  pt_client_ids :: "u32 list"
  pt_task_filename :: "string_t list"
  pt_task_folder_path :: string_t
  pt_task_type :: u32
  pt_task_reassigned :: u32

record task_rsp_t =
  tr_group_name :: string_t
  tr_task_id :: u32
  tr_type :: u32
  tr_num_clients :: u32
  tr_client_ids :: "u32 list"
  tr_result :: "string_t list"
  tr_final_resp :: string_t

record new_server_notify_t =
  ns_new_server_id :: u32

text \<open>The union \<open>idv\<close>: the member last written.\<close>

datatype idv_t =
    Join_req join_req_t
  | Join_rsp join_rsp_t
  | Echo_req echo_req_t
  | Echo_resp echo_rsp_t
  | Leave_req leave_req_t
  | Leave_rsp leave_rsp_t
  | Moderator_notify_req moderator_notify_req_t
  | Moderator_notify_rsp moderator_notify_rsp_t
  | Moderator_update_req moderator_update_req_t
  | Task_rsp task_rsp_t
  | Perform_task_req perform_task_req_t
  | Checkpoint_req checkpoint_req_t
  | New_server_notify new_server_notify_t

record comm_struct_t =
  msg_id :: u32
  idv :: idv_t

record pdu_t =
  peer_addr :: sockaddr
  pdu_msg :: comm_struct_t

section \<open>Filling a message\<close>

text \<open>
  \<open>strcpy\<close> of a group name into a buffer of \<open>max_gname_len\<close> characters, the terminator
  included.  The loops read \<open>num_groups\<close> names from the array of names.
\<close>

definition copy_gname :: "string \<Rightarrow> string_t result" where
  "copy_gname s = (if length s < max_gname_len then Inr (Some s) else Inl OutOfBounds)"

fun copy_gnames :: "string list \<Rightarrow> nat \<Rightarrow> string_t list result" where
  "copy_gnames gs 0 = Inr []"
| "copy_gnames [] (Suc n) = Inl OutOfBounds"
| "copy_gnames (g # gs) (Suc n) =
     bindE (copy_gname g) (\<lambda>s. bindE (copy_gnames gs n) (\<lambda>ss. Inr (s # ss)))"

definition populate_join_req :: "string list \<Rightarrow> nat \<Rightarrow> u32 \<Rightarrow> comm_struct_t result" where
  "populate_join_req grnames num_groups capability =
     bindE (copy_gnames grnames num_groups) (\<lambda>ids.
     Inr \<lparr>msg_id = join_request,
          idv = Join_req \<lparr>jq_num_groups = of_nat num_groups, jq_group_ids = ids, jq_capability = capability\<rparr>\<rparr>)"

text \<open>These two leave the identifier to their caller.\<close>

definition populate_leave_req :: "comm_struct_t \<Rightarrow> string list \<Rightarrow> nat \<Rightarrow> comm_struct_t result" where
  "populate_leave_req m grnames num_groups =
     bindE (copy_gnames grnames num_groups) (\<lambda>ids.
     Inr (m\<lparr>idv := Leave_req \<lparr>lq_num_groups = of_nat num_groups, lq_group_ids = ids\<rparr>\<rparr>))"

definition populate_leave_rsp :: "comm_struct_t \<Rightarrow> string list \<Rightarrow> u32 \<Rightarrow> nat \<Rightarrow> comm_struct_t result" where
  "populate_leave_rsp m grnames cause num_groups =
     bindE (copy_gnames grnames num_groups) (\<lambda>ids.
     Inr (m\<lparr>idv := Leave_rsp \<lparr>lr_num_groups = of_nat num_groups, lr_group_ids = ids, lr_cause = cause\<rparr>\<rparr>))"

text \<open>
  \<open>update_task_rsp\<close> appends one client's result at index \<open>num_clients\<close> of arrays that
  the callers allocated; the array lengths are their capacities (the callers size the
  array of 4-byte identifiers with the 8-byte size of a pointer).
\<close>

definition update_task_rsp :: "task_rsp_t \<Rightarrow> string \<Rightarrow> u32 \<Rightarrow> task_rsp_t result" where
  "update_task_rsp m file_path client_id =
     (let n = unat (tr_num_clients m)
      in bindE (upd_at (tr_result m) n (Some file_path)) (\<lambda>res.
         bindE (upd_at (tr_client_ids m) n client_id) (\<lambda>ids.
         Inr (m\<lparr>tr_result := res, tr_client_ids := ids, tr_num_clients := tr_num_clients m + 1\<rparr>))))"

definition populate_task_rsp :: "u32 \<Rightarrow> string \<Rightarrow> u32 \<Rightarrow> string \<Rightarrow> u32 \<Rightarrow> comm_struct_t result" where
  "populate_task_rsp task_id group_name r_type file_path client_id =
     bindE (update_task_rsp
       \<lparr>tr_group_name = Some group_name, tr_task_id = task_id, tr_type = r_type, tr_num_clients = 0,
        tr_client_ids = [0, 0], tr_result = [None], tr_final_resp = Some ''''\<rparr> file_path client_id) (\<lambda>t.
     Inr \<lparr>msg_id = task_response, idv = Task_rsp t\<rparr>)"

text \<open>The moderator's response has room for \<open>num_clients\<close> results (an 8-bit count).\<close>

definition populate_moderator_task_rsp :: "u8 \<Rightarrow> task_rsp_t \<Rightarrow> u32 \<Rightarrow> comm_struct_t result" where
  "populate_moderator_task_rsp num_clients resp client_id =
     bindE (nonnull (tr_group_name resp)) (\<lambda>g.
     bindE (at (tr_result resp) 0) (\<lambda>r0.
     bindE (nonnull r0) (\<lambda>path.
     bindE (update_task_rsp
       \<lparr>tr_group_name = Some g, tr_task_id = tr_task_id resp, tr_type = tr_type resp, tr_num_clients = 0,
        tr_client_ids = replicate (2 * unat num_clients) 0, tr_result = replicate (unat num_clients) None,
        tr_final_resp = Some ''''\<rparr> path client_id) (\<lambda>t.
     Inr \<lparr>msg_id = task_response, idv = Task_rsp t\<rparr>))))"

end
