(* ===== verification/CommCodec.thy ===== *)
theory CommCodec
  imports CommTypes
begin

text \<open>
  \<open>src/src/comm_primitives.c\<close>: the XDR routine of every message, the dispatch
  \<open>process_comm_struct\<close>, and \<open>write_record\<close> / \<open>read_record\<close>.  Each routine lists the
  calls of the code in their order; \<open>xall\<close> where the code stores every result and
  conjoins them, \<open>xand\<close> where it chains the calls with \<open>&&\<close>.
\<close>

section \<open>Message routines\<close>

abbreviation on_decode :: "xdrs \<Rightarrow> ('m \<Rightarrow> 'm) \<Rightarrow> 'm \<Rightarrow> 'm" where
  "on_decode x f m \<equiv> (if x_op x = XDR_DECODE then f m else m)"

definition xdr_gname_string :: "string_t xproc" where
  "xdr_gname_string x m = xdr_string max_gname_len x (on_decode x (\<lambda>_. None) m)"

definition xdr_name_string :: "string_t xproc" where
  "xdr_name_string x m = xdr_string max_name_len x (on_decode x (\<lambda>_. None) m)"

definition zero_saddr :: l_saddr_in_t where
  "zero_saddr = \<lparr>ls_sin_family = 0, ls_sin_port = 0, ls_s_addr = 0, ls_group_name = None, ls_cause = 0, ls_grp_port = 0\<rparr>"

definition process_moderator_update_req :: "moderator_update_req_t xproc" where
  "process_moderator_update_req x m =
     xall [xfield mu_moderator_id (\<lambda>v. mu_moderator_id_update (\<lambda>_. v)) xdr_u_int,
           xfield mu_moderator_port (\<lambda>v. mu_moderator_port_update (\<lambda>_. v)) xdr_u_int,
           xfield mu_client_id_count (\<lambda>v. mu_client_id_count_update (\<lambda>_. v)) xdr_u_int,
           xfield mu_group_name (\<lambda>v. mu_group_name_update (\<lambda>_. v)) (xdr_string max_gname_len),
           xfield (\<lambda>m. (mu_client_id_count m, mu_client_ids m))
                  (\<lambda>(c, a) m. m\<lparr>mu_client_id_count := c, mu_client_ids := a\<rparr>)
                  (xdr_array max_client_in_group xdr_u_int 0),
           xfield mu_expected_task_responses (\<lambda>v. mu_expected_task_responses_update (\<lambda>_. v)) xdr_int]
       x (on_decode x (\<lambda>m. m\<lparr>mu_group_name := None, mu_client_ids := []\<rparr>) m)"

definition process_moderator_notify_req :: "moderator_notify_req_t xproc" where
  "process_moderator_notify_req x m =
     xall [xfield nq_moderator_id (\<lambda>v. nq_moderator_id_update (\<lambda>_. v)) xdr_u_int,
           xfield nq_moderator_port (\<lambda>v. nq_moderator_port_update (\<lambda>_. v)) xdr_u_int,
           xfield nq_num_of_clients_in_grp (\<lambda>v. nq_num_of_clients_in_grp_update (\<lambda>_. v)) xdr_int,
           xfield nq_group_name (\<lambda>v. nq_group_name_update (\<lambda>_. v)) (xdr_string max_gname_len)]
       x (on_decode x (\<lambda>m. m\<lparr>nq_group_name := None\<rparr>) m)"

definition process_moderator_notify_rsp :: "moderator_notify_rsp_t xproc" where
  "process_moderator_notify_rsp x m =
     xall [xfield nr_group_name (\<lambda>v. nr_group_name_update (\<lambda>_. v)) (xdr_string max_gname_len),
           xfield nr_moderator_id (\<lambda>v. nr_moderator_id_update (\<lambda>_. v)) xdr_u_int,
           xfield nr_client_id_count (\<lambda>v. nr_client_id_count_update (\<lambda>_. v)) xdr_u_int,
           xfield (\<lambda>m. (nr_client_id_count m, nr_client_ids m))
                  (\<lambda>(c, a) m. m\<lparr>nr_client_id_count := c, nr_client_ids := a\<rparr>)
                  (xdr_array max_client_in_group xdr_u_int 0)]
       x (on_decode x (\<lambda>m. m\<lparr>nr_group_name := None, nr_client_ids := []\<rparr>) m)"

definition xdr_echo_req :: "echo_req_t xproc" where
  "xdr_echo_req x m =
     xall [xfield eq_group_name (\<lambda>v. eq_group_name_update (\<lambda>_. v)) (xdr_string max_gname_len),
           xfield eq_num_clients (\<lambda>v. eq_num_clients_update (\<lambda>_. v)) xdr_u_int,
           xfield (\<lambda>m. (eq_num_clients m, eq_client_ids m))
                  (\<lambda>(c, a) m. m\<lparr>eq_num_clients := c, eq_client_ids := a\<rparr>)
                  (xdr_array max_client_in_group xdr_u_int 0)]
       x (on_decode x (\<lambda>m. m\<lparr>eq_group_name := None, eq_client_ids := []\<rparr>) m)"

definition xdr_echo_resp :: "echo_rsp_t xproc" where
  "xdr_echo_resp x m =
     xall [xfield er_status (\<lambda>v. er_status_update (\<lambda>_. v)) xdr_u_int,
           xfield er_group_name (\<lambda>v. er_group_name_update (\<lambda>_. v)) (xdr_string max_gname_len)]
       x (on_decode x (\<lambda>m. m\<lparr>er_status := 0, er_group_name := None\<rparr>) m)"

definition process_join_req :: "join_req_t xproc" where
  "process_join_req x m =
     xand [xfield jq_num_groups (\<lambda>v. jq_num_groups_update (\<lambda>_. v)) xdr_u_int,
           xfield (\<lambda>m. (jq_num_groups m, jq_group_ids m))
                  (\<lambda>(c, a) m. m\<lparr>jq_num_groups := c, jq_group_ids := a\<rparr>)
                  (xdr_array max_groups xdr_gname_string None),
           xfield jq_capability (\<lambda>v. jq_capability_update (\<lambda>_. v)) xdr_u_int]
       x (on_decode x (\<lambda>m. m\<lparr>jq_group_ids := []\<rparr>) m)"

definition process_leave_req :: "leave_req_t xproc" where
  "process_leave_req x m =
     xand [xfield lq_num_groups (\<lambda>v. lq_num_groups_update (\<lambda>_. v)) xdr_u_int,
           xfield (\<lambda>m. (lq_num_groups m, lq_group_ids m))
                  (\<lambda>(c, a) m. m\<lparr>lq_num_groups := c, lq_group_ids := a\<rparr>)
                  (xdr_array max_groups xdr_gname_string None)]
       x (on_decode x (\<lambda>m. m\<lparr>lq_group_ids := []\<rparr>) m)"

definition process_leave_resp :: "leave_rsp_t xproc" where
  "process_leave_resp x m =
     xall [xfield lr_num_groups (\<lambda>v. lr_num_groups_update (\<lambda>_. v)) xdr_u_int,
           xfield (\<lambda>m. (lr_num_groups m, lr_group_ids m))
                  (\<lambda>(c, a) m. m\<lparr>lr_num_groups := c, lr_group_ids := a\<rparr>)
                  (xdr_array max_groups xdr_gname_string None),
           xfield lr_cause (\<lambda>v. lr_cause_update (\<lambda>_. v)) xdr_u_int]
       x (on_decode x (\<lambda>m. m\<lparr>lr_group_ids := [], lr_cause := 0\<rparr>) m)"

definition xdr_l_saddr_in :: "l_saddr_in_t xproc" where
  "xdr_l_saddr_in x m =
     xall [xfield ls_sin_family (\<lambda>v. ls_sin_family_update (\<lambda>_. v)) xdr_short,
           xfield ls_sin_port (\<lambda>v. ls_sin_port_update (\<lambda>_. v)) xdr_u_short,
           xfield ls_s_addr (\<lambda>v. ls_s_addr_update (\<lambda>_. v)) xdr_u_long,
           xfield ls_group_name (\<lambda>v. ls_group_name_update (\<lambda>_. v)) (xdr_string max_gname_len),
           xfield ls_cause (\<lambda>v. ls_cause_update (\<lambda>_. v)) xdr_u_int,
           xfield ls_grp_port (\<lambda>v. ls_grp_port_update (\<lambda>_. v)) xdr_u_int]
       x (on_decode x (\<lambda>m. m\<lparr>ls_group_name := None\<rparr>) m)"

definition process_checkpoint_req :: "checkpoint_req_t xproc" where
  "process_checkpoint_req x m =
     xall [xfield cp_chkpoint_type (\<lambda>v. cp_chkpoint_type_update (\<lambda>_. v)) xdr_u_int,
           xfield cp_capability (\<lambda>v. cp_capability_update (\<lambda>_. v)) xdr_u_int,
           xfield (\<lambda>m. (cp_num_groups m, cp_group_ips m))
                  (\<lambda>(c, a) m. m\<lparr>cp_num_groups := c, cp_group_ips := a\<rparr>)
                  (xdr_array max_groups xdr_l_saddr_in zero_saddr)]
       x (on_decode x (\<lambda>m. m\<lparr>cp_group_ips := []\<rparr>) m)"

definition process_join_resp :: "join_rsp_t xproc" where
  "process_join_resp x m =
     xall [xfield jr_num_groups (\<lambda>v. jr_num_groups_update (\<lambda>_. v)) xdr_u_int,
           xfield (\<lambda>m. (jr_num_groups m, jr_group_ips m))
                  (\<lambda>(c, a) m. m\<lparr>jr_num_groups := c, jr_group_ips := a\<rparr>)
                  (xdr_array max_groups xdr_l_saddr_in zero_saddr)]
       x (on_decode x (\<lambda>m. m\<lparr>jr_group_ips := []\<rparr>) m)"

text \<open>The file names are processed first and their result is tested late in the chain.\<close>

definition process_perform_task_req :: "perform_task_req_t xproc" where
  "process_perform_task_req x m =
     bindE (xfield (\<lambda>m. (pt_client_id_count m, pt_task_filename m))
              (\<lambda>(c, a) m. m\<lparr>pt_client_id_count := c, pt_task_filename := a\<rparr>)
              (xdr_array max_client_in_group xdr_name_string None) x
              (on_decode x (\<lambda>m. m\<lparr>pt_group_name := None, pt_client_ids := [],
                                  pt_task_filename := [], pt_task_folder_path := None\<rparr>) m)) (\<lambda>(a, x1, m1).
     xand [xfield pt_client_id_count (\<lambda>v. pt_client_id_count_update (\<lambda>_. v)) xdr_u_int,
           xfield pt_task_id (\<lambda>v. pt_task_id_update (\<lambda>_. v)) xdr_u_int,
           xfield pt_group_name (\<lambda>v. pt_group_name_update (\<lambda>_. v)) (xdr_string max_gname_len),
           xfield pt_task_folder_path (\<lambda>v. pt_task_folder_path_update (\<lambda>_. v)) (xdr_string max_name_len),
           xfield (\<lambda>m. (pt_client_id_count m, pt_client_ids m))
                  (\<lambda>(c, a) m. m\<lparr>pt_client_id_count := c, pt_client_ids := a\<rparr>)
                  (xdr_array max_client_in_group xdr_u_int 0),
           (\<lambda>x m. Inr (a, x, m)),
           xfield pt_task_type (\<lambda>v. pt_task_type_update (\<lambda>_. v)) xdr_int,
           xfield pt_task_reassigned (\<lambda>v. pt_task_reassigned_update (\<lambda>_. v)) xdr_int]
       x1 m1)"

definition process_task_resp :: "task_rsp_t xproc" where
  "process_task_resp x m =
     xall [xfield tr_group_name (\<lambda>v. tr_group_name_update (\<lambda>_. v)) (xdr_string max_gname_len),
           xfield tr_final_resp (\<lambda>v. tr_final_resp_update (\<lambda>_. v)) (xdr_string max_gname_len),
           xfield tr_task_id (\<lambda>v. tr_task_id_update (\<lambda>_. v)) xdr_u_int,
           xfield tr_type (\<lambda>v. tr_type_update (\<lambda>_. v)) xdr_enum,
           xfield tr_num_clients (\<lambda>v. tr_num_clients_update (\<lambda>_. v)) xdr_u_int,
           xfield (\<lambda>m. (tr_num_clients m, tr_client_ids m))
                  (\<lambda>(c, a) m. m\<lparr>tr_num_clients := c, tr_client_ids := a\<rparr>)
                  (xdr_array max_client_in_group xdr_u_int 0),
           xfield (\<lambda>m. (tr_num_clients m, tr_result m))
                  (\<lambda>(c, a) m. m\<lparr>tr_num_clients := c, tr_result := a\<rparr>)
                  (xdr_array max_client_in_group xdr_name_string None)]
       x (on_decode x (\<lambda>m. m\<lparr>tr_group_name := None, tr_client_ids := [], tr_result := [], tr_final_resp := None\<rparr>) m)"

definition process_new_server_notify :: "new_server_notify_t xproc" where
  "process_new_server_notify x m =
     xfield ns_new_server_id (\<lambda>v. ns_new_server_id_update (\<lambda>_. v)) xdr_u_int x m"

section \<open>Dispatch\<close>

text \<open>
  One arm of the union: encoding reads the member of the message identifier; decoding
  starts from whatever the memory of the union holds (\<open>blank\<close> when it held another
  member).
\<close>

definition uarm :: "(idv_t \<Rightarrow> 'm option) \<Rightarrow> ('m \<Rightarrow> idv_t) \<Rightarrow> 'm \<Rightarrow> 'm xproc \<Rightarrow> idv_t xproc" where
  "uarm sel mk blank p x u =
     (case sel u of
        Some m \<Rightarrow> bindE (p x m) (\<lambda>(b, x', m'). Inr (b, x', mk m'))
      | None \<Rightarrow> if x_op x = XDR_ENCODE then Inl WrongMember
                else bindE (p x blank) (\<lambda>(b, x', m'). Inr (b, x', mk m')))"

definition comm_discrim :: "u32 \<Rightarrow> idv_t xproc option" where
  "comm_discrim i =
    (if i = join_request then Some (uarm (\<lambda>u. case u of Join_req m \<Rightarrow> Some m | _ \<Rightarrow> None) Join_req
        \<lparr>jq_num_groups = 0, jq_group_ids = [], jq_capability = 0\<rparr> process_join_req)
     else if i = join_response then Some (uarm (\<lambda>u. case u of Join_rsp m \<Rightarrow> Some m | _ \<Rightarrow> None) Join_rsp
        \<lparr>jr_num_groups = 0, jr_group_ips = []\<rparr> process_join_resp)
     else if i = echo_req then Some (uarm (\<lambda>u. case u of Echo_req m \<Rightarrow> Some m | _ \<Rightarrow> None) Echo_req
        \<lparr>eq_group_name = None, eq_num_clients = 0, eq_client_ids = []\<rparr> xdr_echo_req)
     else if i = echo_response then Some (uarm (\<lambda>u. case u of Echo_resp m \<Rightarrow> Some m | _ \<Rightarrow> None) Echo_resp
        \<lparr>er_status = 0, er_group_name = None\<rparr> xdr_echo_resp)
     else if i = leave_request then Some (uarm (\<lambda>u. case u of Leave_req m \<Rightarrow> Some m | _ \<Rightarrow> None) Leave_req
        \<lparr>lq_num_groups = 0, lq_group_ids = []\<rparr> process_leave_req)
     else if i = leave_response then Some (uarm (\<lambda>u. case u of Leave_rsp m \<Rightarrow> Some m | _ \<Rightarrow> None) Leave_rsp
        \<lparr>lr_num_groups = 0, lr_group_ids = [], lr_cause = 0\<rparr> process_leave_resp)
     else if i = moderator_notify_req then Some (uarm (\<lambda>u. case u of Moderator_notify_req m \<Rightarrow> Some m | _ \<Rightarrow> None) Moderator_notify_req
        \<lparr>nq_moderator_id = 0, nq_moderator_port = 0, nq_num_of_clients_in_grp = 0, nq_group_name = None\<rparr> process_moderator_notify_req)
     else if i = moderator_notify_rsp then Some (uarm (\<lambda>u. case u of Moderator_notify_rsp m \<Rightarrow> Some m | _ \<Rightarrow> None) Moderator_notify_rsp
        \<lparr>nr_group_name = None, nr_moderator_id = 0, nr_client_id_count = 0, nr_client_ids = []\<rparr> process_moderator_notify_rsp)
     else if i = moderator_update_req then Some (uarm (\<lambda>u. case u of Moderator_update_req m \<Rightarrow> Some m | _ \<Rightarrow> None) Moderator_update_req
        \<lparr>mu_moderator_id = 0, mu_moderator_port = 0, mu_group_name = None, mu_client_id_count = 0, mu_client_ids = [],
         mu_expected_task_responses = 0\<rparr> process_moderator_update_req)
     else if i = perform_task_req then Some (uarm (\<lambda>u. case u of Perform_task_req m \<Rightarrow> Some m | _ \<Rightarrow> None) Perform_task_req
        \<lparr>pt_group_name = None, pt_task_id = 0, pt_client_id_count = 0, pt_client_ids = [], pt_task_filename = [],
         pt_task_folder_path = None, pt_task_type = 0, pt_task_reassigned = 0\<rparr> process_perform_task_req)
     else if i = task_response then Some (uarm (\<lambda>u. case u of Task_rsp m \<Rightarrow> Some m | _ \<Rightarrow> None) Task_rsp
        \<lparr>tr_group_name = None, tr_task_id = 0, tr_type = 0, tr_num_clients = 0, tr_client_ids = [], tr_result = [],
         tr_final_resp = None\<rparr> process_task_resp)
     else if i = checkpoint_req then Some (uarm (\<lambda>u. case u of Checkpoint_req m \<Rightarrow> Some m | _ \<Rightarrow> None) Checkpoint_req
        \<lparr>cp_chkpoint_type = 0, cp_num_groups = 0, cp_group_ips = [], cp_capability = 0\<rparr> process_checkpoint_req)
     else if i = new_server_notify then Some (uarm (\<lambda>u. case u of New_server_notify m \<Rightarrow> Some m | _ \<Rightarrow> None) New_server_notify
        \<lparr>ns_new_server_id = 0\<rparr> process_new_server_notify)
     else None)"

text \<open>\<open>xdr_union\<close> without a default arm processes the discriminant again.\<close>

definition xdr_union :: "(u32 \<Rightarrow> idv_t xproc option) \<Rightarrow> comm_struct_t xproc" where
  "xdr_union choices x m =
     bindE (xdr_enum x (msg_id m)) (\<lambda>(b, x1, i).
       let m1 = m\<lparr>msg_id := i\<rparr>
       in if \<not> b then Inr (False, x1, m1)
          else case choices i of
                 None \<Rightarrow> Inr (False, x1, m1)
               | Some p \<Rightarrow> bindE (p x1 (idv m1)) (\<lambda>(b', x2, u). Inr (b', x2, m1\<lparr>idv := u\<rparr>)))"

definition process_comm_struct :: "comm_struct_t xproc" where
  "process_comm_struct =
     xall [xfield msg_id (\<lambda>v. msg_id_update (\<lambda>_. v)) xdr_enum, xdr_union comm_discrim]"

section \<open>Records on the wire\<close>

text \<open>
  \<open>write_record\<close>: the datagram that is sent.  The size comes from a first pass with the
  counting stream (0 when that pass fails); the second pass writes into a buffer of
  \<open>MAXMSGSIZE\<close> bytes and its failure is only reported.
\<close>

definition xdr_sizeof :: "'m xproc \<Rightarrow> 'm \<Rightarrow> nat result" where
  "xdr_sizeof p m = bindE (p (enc [] None) m) (\<lambda>(b, x, _). Inr (if b then length (x_buf x) else 0))"

definition write_record :: "pdu_t \<Rightarrow> u8 list result" where
  "write_record pdu =
     bindE (xdr_sizeof process_comm_struct (pdu_msg pdu)) (\<lambda>msglen.
     if msglen > MAXMSGSIZE then Inl OutOfBounds
     else bindE (process_comm_struct (enc [] (Some msglen)) (pdu_msg pdu)) (\<lambda>(res, x, _).
          Inr (take msglen (x_buf x))))"

text \<open>
  \<open>read_record\<close> on a received datagram and its sender: the decoding result is not
  tested, the caller gets the identifier that the message holds afterwards.  The
  sender's address is copied with \<open>strcpy\<close>.
\<close>

definition read_record :: "u8 list \<Rightarrow> sockaddr \<Rightarrow> pdu_t \<Rightarrow> (u32 \<times> pdu_t) result" where
  "read_record msgbuf sin pdu =
     bindE (process_comm_struct (dec (take MAXMSGSIZE msgbuf)) ((pdu_msg pdu)\<lparr>msg_id := unknown_msg\<rparr>)) (\<lambda>(res, x, m).
     bindE (strcpy_bytes (sa_data (peer_addr pdu)) (sa_data sin)) (\<lambda>d.
     Inr (msg_id m, \<lparr>peer_addr = \<lparr>sa_family = sa_family sin, sa_data = d\<rparr>, pdu_msg = m\<rparr>)))"

end
