(* ===== verification/CommWire.thy ===== *)
theory CommWire
  imports CommCodec
begin

text \<open>
  The wire format of the messages, stated on its own (units of the external data
  representation, the fields in order), what a well-formed message is, and the proof
  that the routines of \<open>CommCodec\<close> write exactly that format and read it back.
\<close>

section \<open>Elements\<close>

lemma writes_gname [xdr_rt]: "str_ok max_gname_len s \<Longrightarrow> writes xdr_gname_string s (ostr_bytes s)"
  using writes_ostr [of max_gname_len s] by (simp add: writes_def xdr_gname_string_def)

lemma reads_gname [xdr_rt]: "str_ok max_gname_len s \<Longrightarrow> reads xdr_gname_string s0 (ostr_bytes s) s"
  using reads_ostr [of max_gname_len s None] by (simp add: reads_def xdr_gname_string_def)

lemma writes_name [xdr_rt]: "str_ok max_name_len s \<Longrightarrow> writes xdr_name_string s (ostr_bytes s)"
  using writes_ostr [of max_name_len s] by (simp add: writes_def xdr_name_string_def)

lemma reads_name [xdr_rt]: "str_ok max_name_len s \<Longrightarrow> reads xdr_name_string s0 (ostr_bytes s) s"
  using reads_ostr [of max_name_len s None] by (simp add: reads_def xdr_name_string_def)

abbreviation ids_ok :: "u32 \<Rightarrow> u32 list \<Rightarrow> bool" where
  "ids_ok \<equiv> arr_ok max_client_in_group (\<lambda>_. True)"

abbreviation gnames_ok :: "u32 \<Rightarrow> string_t list \<Rightarrow> bool" where
  "gnames_ok \<equiv> arr_ok max_groups (str_ok max_gname_len)"

abbreviation names_ok :: "u32 \<Rightarrow> string_t list \<Rightarrow> bool" where
  "names_ok \<equiv> arr_ok max_client_in_group (str_ok max_name_len)"

lemma writes_reset: "writes p m bs \<Longrightarrow> writes (\<lambda>x m. p x (on_decode x f m)) m bs"
  by (simp add: writes_def)

lemma reads_reset: "reads p (f m0) bs m \<Longrightarrow> reads (\<lambda>x m. p x (on_decode x f m)) m0 bs m"
  by (simp add: reads_def)

section \<open>Messages\<close>

definition saddr_ok :: "l_saddr_in_t \<Rightarrow> bool" where
  "saddr_ok m \<longleftrightarrow> ucast (ucast (ls_s_addr m) :: u32) = ls_s_addr m \<and> str_ok max_gname_len (ls_group_name m)"

definition saddr_wire :: "l_saddr_in_t \<Rightarrow> u8 list" where
  "saddr_wire m = concat [u32_bytes (scast (ls_sin_family m)), u32_bytes (ucast (ls_sin_port m)), u32_bytes (ucast (ls_s_addr m)), ostr_bytes (ls_group_name m), u32_bytes (ls_cause m), u32_bytes (ls_grp_port m)]"

lemma writes_saddr [xdr_rt]: "saddr_ok m \<Longrightarrow> writes xdr_l_saddr_in m (saddr_wire m)"
  unfolding xdr_l_saddr_in_def saddr_wire_def saddr_ok_def
  by (rule writes_reset, (elim conjE)?, (rule xdr_rt | assumption | simp)+)

lemma reads_saddr [xdr_rt]: "saddr_ok m \<Longrightarrow> reads xdr_l_saddr_in m0 (saddr_wire m) m"
  unfolding xdr_l_saddr_in_def saddr_wire_def saddr_ok_def
  by (rule reads_reset, rule reads_eq, (elim conjE)?, (rule xdr_rt | assumption | simp)+)

definition moderator_update_req_ok :: "moderator_update_req_t \<Rightarrow> bool" where
  "moderator_update_req_ok m \<longleftrightarrow> str_ok max_gname_len (mu_group_name m) \<and> ids_ok (mu_client_id_count m) (mu_client_ids m)"

definition moderator_update_req_wire :: "moderator_update_req_t \<Rightarrow> u8 list" where
  "moderator_update_req_wire m = concat [u32_bytes (mu_moderator_id m), u32_bytes (mu_moderator_port m), u32_bytes (mu_client_id_count m), ostr_bytes (mu_group_name m), arr_bytes u32_bytes (mu_client_ids m), u32_bytes (mu_expected_task_responses m)]"

lemma writes_moderator_update_req [xdr_rt]: "moderator_update_req_ok m \<Longrightarrow> writes process_moderator_update_req m (moderator_update_req_wire m)"
  unfolding process_moderator_update_req_def moderator_update_req_wire_def moderator_update_req_ok_def
  by (rule writes_reset, (elim conjE)?, (rule xdr_rt | assumption | simp)+)

lemma reads_moderator_update_req [xdr_rt]: "moderator_update_req_ok m \<Longrightarrow> reads process_moderator_update_req m0 (moderator_update_req_wire m) m"
  unfolding process_moderator_update_req_def moderator_update_req_wire_def moderator_update_req_ok_def
  by (rule reads_reset, rule reads_eq, (elim conjE)?, (rule xdr_rt | assumption | simp)+)

definition moderator_notify_req_ok :: "moderator_notify_req_t \<Rightarrow> bool" where
  "moderator_notify_req_ok m \<longleftrightarrow> str_ok max_gname_len (nq_group_name m)"

definition moderator_notify_req_wire :: "moderator_notify_req_t \<Rightarrow> u8 list" where
  "moderator_notify_req_wire m = concat [u32_bytes (nq_moderator_id m), u32_bytes (nq_moderator_port m), u32_bytes (nq_num_of_clients_in_grp m), ostr_bytes (nq_group_name m)]"

lemma writes_moderator_notify_req [xdr_rt]: "moderator_notify_req_ok m \<Longrightarrow> writes process_moderator_notify_req m (moderator_notify_req_wire m)"
  unfolding process_moderator_notify_req_def moderator_notify_req_wire_def moderator_notify_req_ok_def
  by (rule writes_reset, (elim conjE)?, (rule xdr_rt | assumption | simp)+)

lemma reads_moderator_notify_req [xdr_rt]: "moderator_notify_req_ok m \<Longrightarrow> reads process_moderator_notify_req m0 (moderator_notify_req_wire m) m"
  unfolding process_moderator_notify_req_def moderator_notify_req_wire_def moderator_notify_req_ok_def
  by (rule reads_reset, rule reads_eq, (elim conjE)?, (rule xdr_rt | assumption | simp)+)

definition moderator_notify_rsp_ok :: "moderator_notify_rsp_t \<Rightarrow> bool" where
  "moderator_notify_rsp_ok m \<longleftrightarrow> str_ok max_gname_len (nr_group_name m) \<and> ids_ok (nr_client_id_count m) (nr_client_ids m)"

definition moderator_notify_rsp_wire :: "moderator_notify_rsp_t \<Rightarrow> u8 list" where
  "moderator_notify_rsp_wire m = concat [ostr_bytes (nr_group_name m), u32_bytes (nr_moderator_id m), u32_bytes (nr_client_id_count m), arr_bytes u32_bytes (nr_client_ids m)]"

lemma writes_moderator_notify_rsp [xdr_rt]: "moderator_notify_rsp_ok m \<Longrightarrow> writes process_moderator_notify_rsp m (moderator_notify_rsp_wire m)"
  unfolding process_moderator_notify_rsp_def moderator_notify_rsp_wire_def moderator_notify_rsp_ok_def
  by (rule writes_reset, (elim conjE)?, (rule xdr_rt | assumption | simp)+)

lemma reads_moderator_notify_rsp [xdr_rt]: "moderator_notify_rsp_ok m \<Longrightarrow> reads process_moderator_notify_rsp m0 (moderator_notify_rsp_wire m) m"
  unfolding process_moderator_notify_rsp_def moderator_notify_rsp_wire_def moderator_notify_rsp_ok_def
  by (rule reads_reset, rule reads_eq, (elim conjE)?, (rule xdr_rt | assumption | simp)+)

definition echo_req_ok :: "echo_req_t \<Rightarrow> bool" where
  "echo_req_ok m \<longleftrightarrow> str_ok max_gname_len (eq_group_name m) \<and> ids_ok (eq_num_clients m) (eq_client_ids m)"

definition echo_req_wire :: "echo_req_t \<Rightarrow> u8 list" where
  "echo_req_wire m = concat [ostr_bytes (eq_group_name m), u32_bytes (eq_num_clients m), arr_bytes u32_bytes (eq_client_ids m)]"

lemma writes_echo_req [xdr_rt]: "echo_req_ok m \<Longrightarrow> writes xdr_echo_req m (echo_req_wire m)"
  unfolding xdr_echo_req_def echo_req_wire_def echo_req_ok_def
  by (rule writes_reset, (elim conjE)?, (rule xdr_rt | assumption | simp)+)

lemma reads_echo_req [xdr_rt]: "echo_req_ok m \<Longrightarrow> reads xdr_echo_req m0 (echo_req_wire m) m"
  unfolding xdr_echo_req_def echo_req_wire_def echo_req_ok_def
  by (rule reads_reset, rule reads_eq, (elim conjE)?, (rule xdr_rt | assumption | simp)+)

definition echo_rsp_ok :: "echo_rsp_t \<Rightarrow> bool" where
  "echo_rsp_ok m \<longleftrightarrow> str_ok max_gname_len (er_group_name m)"

definition echo_rsp_wire :: "echo_rsp_t \<Rightarrow> u8 list" where
  "echo_rsp_wire m = concat [u32_bytes (er_status m), ostr_bytes (er_group_name m)]"

lemma writes_echo_rsp [xdr_rt]: "echo_rsp_ok m \<Longrightarrow> writes xdr_echo_resp m (echo_rsp_wire m)"
  unfolding xdr_echo_resp_def echo_rsp_wire_def echo_rsp_ok_def
  by (rule writes_reset, (elim conjE)?, (rule xdr_rt | assumption | simp)+)

lemma reads_echo_rsp [xdr_rt]: "echo_rsp_ok m \<Longrightarrow> reads xdr_echo_resp m0 (echo_rsp_wire m) m"
  unfolding xdr_echo_resp_def echo_rsp_wire_def echo_rsp_ok_def
  by (rule reads_reset, rule reads_eq, (elim conjE)?, (rule xdr_rt | assumption | simp)+)

definition join_req_ok :: "join_req_t \<Rightarrow> bool" where
  "join_req_ok m \<longleftrightarrow> gnames_ok (jq_num_groups m) (jq_group_ids m)"

definition join_req_wire :: "join_req_t \<Rightarrow> u8 list" where
  "join_req_wire m = concat [u32_bytes (jq_num_groups m), arr_bytes ostr_bytes (jq_group_ids m), u32_bytes (jq_capability m)]"

lemma writes_join_req [xdr_rt]: "join_req_ok m \<Longrightarrow> writes process_join_req m (join_req_wire m)"
  unfolding process_join_req_def join_req_wire_def join_req_ok_def
  by (rule writes_reset, (elim conjE)?, (rule xdr_rt | assumption | simp)+)

lemma reads_join_req [xdr_rt]: "join_req_ok m \<Longrightarrow> reads process_join_req m0 (join_req_wire m) m"
  unfolding process_join_req_def join_req_wire_def join_req_ok_def
  by (rule reads_reset, rule reads_eq, (elim conjE)?, (rule xdr_rt | assumption | simp)+)

definition leave_req_ok :: "leave_req_t \<Rightarrow> bool" where
  "leave_req_ok m \<longleftrightarrow> gnames_ok (lq_num_groups m) (lq_group_ids m)"

definition leave_req_wire :: "leave_req_t \<Rightarrow> u8 list" where
  "leave_req_wire m = concat [u32_bytes (lq_num_groups m), arr_bytes ostr_bytes (lq_group_ids m)]"

lemma writes_leave_req [xdr_rt]: "leave_req_ok m \<Longrightarrow> writes process_leave_req m (leave_req_wire m)"
  unfolding process_leave_req_def leave_req_wire_def leave_req_ok_def
  by (rule writes_reset, (elim conjE)?, (rule xdr_rt | assumption | simp)+)

lemma reads_leave_req [xdr_rt]: "leave_req_ok m \<Longrightarrow> reads process_leave_req m0 (leave_req_wire m) m"
  unfolding process_leave_req_def leave_req_wire_def leave_req_ok_def
  by (rule reads_reset, rule reads_eq, (elim conjE)?, (rule xdr_rt | assumption | simp)+)

definition leave_rsp_ok :: "leave_rsp_t \<Rightarrow> bool" where
  "leave_rsp_ok m \<longleftrightarrow> gnames_ok (lr_num_groups m) (lr_group_ids m)"

definition leave_rsp_wire :: "leave_rsp_t \<Rightarrow> u8 list" where
  "leave_rsp_wire m = concat [u32_bytes (lr_num_groups m), arr_bytes ostr_bytes (lr_group_ids m), u32_bytes (lr_cause m)]"

lemma writes_leave_rsp [xdr_rt]: "leave_rsp_ok m \<Longrightarrow> writes process_leave_resp m (leave_rsp_wire m)"
  unfolding process_leave_resp_def leave_rsp_wire_def leave_rsp_ok_def
  by (rule writes_reset, (elim conjE)?, (rule xdr_rt | assumption | simp)+)

lemma reads_leave_rsp [xdr_rt]: "leave_rsp_ok m \<Longrightarrow> reads process_leave_resp m0 (leave_rsp_wire m) m"
  unfolding process_leave_resp_def leave_rsp_wire_def leave_rsp_ok_def
  by (rule reads_reset, rule reads_eq, (elim conjE)?, (rule xdr_rt | assumption | simp)+)

definition checkpoint_req_ok :: "checkpoint_req_t \<Rightarrow> bool" where
  "checkpoint_req_ok m \<longleftrightarrow> arr_ok max_groups saddr_ok (cp_num_groups m) (cp_group_ips m)"

definition checkpoint_req_wire :: "checkpoint_req_t \<Rightarrow> u8 list" where
  "checkpoint_req_wire m = concat [u32_bytes (cp_chkpoint_type m), u32_bytes (cp_capability m), arr_bytes saddr_wire (cp_group_ips m)]"

lemma writes_checkpoint_req [xdr_rt]: "checkpoint_req_ok m \<Longrightarrow> writes process_checkpoint_req m (checkpoint_req_wire m)"
  unfolding process_checkpoint_req_def checkpoint_req_wire_def checkpoint_req_ok_def
  by (rule writes_reset, (elim conjE)?, (rule xdr_rt | assumption | simp)+)

lemma reads_checkpoint_req [xdr_rt]: "checkpoint_req_ok m \<Longrightarrow> reads process_checkpoint_req m0 (checkpoint_req_wire m) m"
  unfolding process_checkpoint_req_def checkpoint_req_wire_def checkpoint_req_ok_def
  by (rule reads_reset, rule reads_eq, (elim conjE)?, (rule xdr_rt | assumption | simp)+)

definition join_rsp_ok :: "join_rsp_t \<Rightarrow> bool" where
  "join_rsp_ok m \<longleftrightarrow> arr_ok max_groups saddr_ok (jr_num_groups m) (jr_group_ips m)"

definition join_rsp_wire :: "join_rsp_t \<Rightarrow> u8 list" where
  "join_rsp_wire m = concat [u32_bytes (jr_num_groups m), arr_bytes saddr_wire (jr_group_ips m)]"

lemma writes_join_rsp [xdr_rt]: "join_rsp_ok m \<Longrightarrow> writes process_join_resp m (join_rsp_wire m)"
  unfolding process_join_resp_def join_rsp_wire_def join_rsp_ok_def
  by (rule writes_reset, (elim conjE)?, (rule xdr_rt | assumption | simp)+)

lemma reads_join_rsp [xdr_rt]: "join_rsp_ok m \<Longrightarrow> reads process_join_resp m0 (join_rsp_wire m) m"
  unfolding process_join_resp_def join_rsp_wire_def join_rsp_ok_def
  by (rule reads_reset, rule reads_eq, (elim conjE)?, (rule xdr_rt | assumption | simp)+)

definition task_rsp_ok :: "task_rsp_t \<Rightarrow> bool" where
  "task_rsp_ok m \<longleftrightarrow> str_ok max_gname_len (tr_group_name m) \<and> str_ok max_gname_len (tr_final_resp m) \<and>
     ids_ok (tr_num_clients m) (tr_client_ids m) \<and> names_ok (tr_num_clients m) (tr_result m)"

definition task_rsp_wire :: "task_rsp_t \<Rightarrow> u8 list" where
  "task_rsp_wire m = concat [ostr_bytes (tr_group_name m), ostr_bytes (tr_final_resp m), u32_bytes (tr_task_id m), u32_bytes (tr_type m), u32_bytes (tr_num_clients m), arr_bytes u32_bytes (tr_client_ids m), arr_bytes ostr_bytes (tr_result m)]"

lemma writes_task_rsp [xdr_rt]: "task_rsp_ok m \<Longrightarrow> writes process_task_resp m (task_rsp_wire m)"
  unfolding process_task_resp_def task_rsp_wire_def task_rsp_ok_def
  by (rule writes_reset, (elim conjE)?, (rule xdr_rt | assumption | simp)+)

lemma reads_task_rsp [xdr_rt]: "task_rsp_ok m \<Longrightarrow> reads process_task_resp m0 (task_rsp_wire m) m"
  unfolding process_task_resp_def task_rsp_wire_def task_rsp_ok_def
  by (rule reads_reset, rule reads_eq, (elim conjE)?, (rule xdr_rt | assumption | simp)+)

definition new_server_notify_wire :: "new_server_notify_t \<Rightarrow> u8 list" where
  "new_server_notify_wire m = u32_bytes (ns_new_server_id m)"

lemma writes_new_server_notify [xdr_rt]: "writes process_new_server_notify m (new_server_notify_wire m)"
  unfolding process_new_server_notify_def new_server_notify_wire_def by (rule xdr_rt | simp)+

lemma reads_new_server_notify [xdr_rt]: "reads process_new_server_notify m0 (new_server_notify_wire m) m"
  unfolding process_new_server_notify_def new_server_notify_wire_def
  by (rule reads_eq, (rule xdr_rt | simp)+)

text \<open>The task request, whose first result is tested inside a later chain.\<close>

lemma writes_then:
  assumes "writes p m b1" "writes (q True) m b2"
  shows "writes (\<lambda>x m. bindE (p x m) (\<lambda>(a, x1, m1). q a x1 m1)) m (b1 @ b2)"
  unfolding writes_def
proof (intro allI impI)
  fix out room assume r: "\<forall>r. room = Some r \<longrightarrow> length (b1 @ b2) \<le> r"
  show "bindE (p (enc out room) m) (\<lambda>(a, x1, m1). q a x1 m1) =
      Inr (True, enc (out @ b1 @ b2) (map_option (\<lambda>r. r - length (b1 @ b2)) room), m)"
    using assms room_split [OF r] by (simp add: writes_def)
qed

lemma reads_then:
  assumes "reads p m0 b1 m1" "reads (q True) m1 b2 m2"
  shows "reads (\<lambda>x m. bindE (p x m) (\<lambda>(a, x1, m1). q a x1 m1)) m0 (b1 @ b2) m2"
  using assms by (simp add: reads_def)

lemma writes_test [xdr_rt]: "writes (\<lambda>x m. Inr (True, x, m)) m []"
  by (simp add: writes_def option.map_ident)

lemma reads_test [xdr_rt]: "reads (\<lambda>x m. Inr (True, x, m)) m [] m"
  by (simp add: reads_def)

definition perform_task_req_ok :: "perform_task_req_t \<Rightarrow> bool" where
  "perform_task_req_ok m \<longleftrightarrow> str_ok max_gname_len (pt_group_name m) \<and> str_ok max_name_len (pt_task_folder_path m) \<and>
     ids_ok (pt_client_id_count m) (pt_client_ids m) \<and> names_ok (pt_client_id_count m) (pt_task_filename m)"

definition perform_task_req_wire :: "perform_task_req_t \<Rightarrow> u8 list" where
  "perform_task_req_wire m = arr_bytes ostr_bytes (pt_task_filename m) @
     concat [u32_bytes (pt_client_id_count m), u32_bytes (pt_task_id m), ostr_bytes (pt_group_name m),
             ostr_bytes (pt_task_folder_path m), arr_bytes u32_bytes (pt_client_ids m), [],
             u32_bytes (pt_task_type m), u32_bytes (pt_task_reassigned m)]"

lemma writes_perform_task_req [xdr_rt]:
  "perform_task_req_ok m \<Longrightarrow> writes process_perform_task_req m (perform_task_req_wire m)"
  unfolding process_perform_task_req_def perform_task_req_wire_def perform_task_req_ok_def
  by (elim conjE, rule writes_then [OF writes_reset], (rule xdr_rt | assumption | simp)+)

lemma reads_perform_task_req [xdr_rt]:
  "perform_task_req_ok m \<Longrightarrow> reads process_perform_task_req m0 (perform_task_req_wire m) m"
  unfolding process_perform_task_req_def perform_task_req_wire_def perform_task_req_ok_def
  by (elim conjE, rule reads_eq, rule reads_then [OF reads_reset], (rule xdr_rt | assumption | simp)+)

section \<open>Whole messages\<close>

text \<open>The member that goes with each identifier, its well-formedness and its bytes.\<close>

fun idv_id :: "idv_t \<Rightarrow> u32" where
  "idv_id (Join_req m) = join_request"
| "idv_id (Join_rsp m) = join_response"
| "idv_id (Echo_req m) = echo_req"
| "idv_id (Echo_resp m) = echo_response"
| "idv_id (Leave_req m) = leave_request"
| "idv_id (Leave_rsp m) = leave_response"
| "idv_id (Moderator_notify_req m) = moderator_notify_req"
| "idv_id (Moderator_notify_rsp m) = moderator_notify_rsp"
| "idv_id (Moderator_update_req m) = moderator_update_req"
| "idv_id (Task_rsp m) = task_response"
| "idv_id (Perform_task_req m) = perform_task_req"
| "idv_id (Checkpoint_req m) = checkpoint_req"
| "idv_id (New_server_notify m) = new_server_notify"

fun idv_ok :: "idv_t \<Rightarrow> bool" where
  "idv_ok (Join_req m) = join_req_ok m"
| "idv_ok (Join_rsp m) = join_rsp_ok m"
| "idv_ok (Echo_req m) = echo_req_ok m"
| "idv_ok (Echo_resp m) = echo_rsp_ok m"
| "idv_ok (Leave_req m) = leave_req_ok m"
| "idv_ok (Leave_rsp m) = leave_rsp_ok m"
| "idv_ok (Moderator_notify_req m) = moderator_notify_req_ok m"
| "idv_ok (Moderator_notify_rsp m) = moderator_notify_rsp_ok m"
| "idv_ok (Moderator_update_req m) = moderator_update_req_ok m"
| "idv_ok (Task_rsp m) = task_rsp_ok m"
| "idv_ok (Perform_task_req m) = perform_task_req_ok m"
| "idv_ok (Checkpoint_req m) = checkpoint_req_ok m"
| "idv_ok (New_server_notify m) = True"

fun idv_wire :: "idv_t \<Rightarrow> u8 list" where
  "idv_wire (Join_req m) = join_req_wire m"
| "idv_wire (Join_rsp m) = join_rsp_wire m"
| "idv_wire (Echo_req m) = echo_req_wire m"
| "idv_wire (Echo_resp m) = echo_rsp_wire m"
| "idv_wire (Leave_req m) = leave_req_wire m"
| "idv_wire (Leave_rsp m) = leave_rsp_wire m"
| "idv_wire (Moderator_notify_req m) = moderator_notify_req_wire m"
| "idv_wire (Moderator_notify_rsp m) = moderator_notify_rsp_wire m"
| "idv_wire (Moderator_update_req m) = moderator_update_req_wire m"
| "idv_wire (Task_rsp m) = task_rsp_wire m"
| "idv_wire (Perform_task_req m) = perform_task_req_wire m"
| "idv_wire (Checkpoint_req m) = checkpoint_req_wire m"
| "idv_wire (New_server_notify m) = new_server_notify_wire m"

definition msg_ok :: "comm_struct_t \<Rightarrow> bool" where
  "msg_ok m \<longleftrightarrow> msg_id m = idv_id (idv m) \<and> idv_ok (idv m)"

text \<open>The identifier travels twice: once for the structure, once for the union.\<close>

definition msg_wire :: "comm_struct_t \<Rightarrow> u8 list" where
  "msg_wire m = concat [u32_bytes (msg_id m), u32_bytes (msg_id m) @ idv_wire (idv m)]"

lemma writes_uarm [xdr_rt]:
  "sel u = Some m \<Longrightarrow> mk m = u \<Longrightarrow> writes p m bs \<Longrightarrow> writes (uarm sel mk blank p) u bs"
  by (simp add: writes_def uarm_def)

lemma reads_uarm [xdr_rt]:
  "(\<And>m0. reads p m0 bs m) \<Longrightarrow> reads (uarm sel mk blank p) u0 bs (mk m)"
  by (simp add: reads_def uarm_def split: option.splits)

lemma discrim_writes:
  "idv_ok u \<Longrightarrow> \<exists>p. comm_discrim (idv_id u) = Some p \<and> writes p u (idv_wire u)"
  by (cases u) (simp_all add: comm_discrim_def, (rule xdr_rt | assumption | simp)+)

lemma discrim_reads:
  "idv_ok u \<Longrightarrow> \<exists>p. comm_discrim (idv_id u) = Some p \<and> reads p u0 (idv_wire u) u"
  by (cases u) (simp_all add: comm_discrim_def, (rule xdr_rt | assumption | simp)+)

lemma writes_union [xdr_rt]:
  assumes "msg_ok m"
  shows "writes (xdr_union comm_discrim) m (u32_bytes (msg_id m) @ idv_wire (idv m))"
proof -
  obtain p where p: "comm_discrim (msg_id m) = Some p" "writes p (idv m) (idv_wire (idv m))"
    using discrim_writes [of "idv m"] assms by (auto simp: msg_ok_def)
  show ?thesis
    unfolding writes_def
  proof (intro allI impI)
    fix out room assume r: "\<forall>r. room = Some r \<longrightarrow> length (u32_bytes (msg_id m) @ idv_wire (idv m)) \<le> r"
    show "xdr_union comm_discrim (enc out room) m =
      Inr (True, enc (out @ u32_bytes (msg_id m) @ idv_wire (idv m))
        (map_option (\<lambda>r. r - length (u32_bytes (msg_id m) @ idv_wire (idv m))) room), m)"
      using writes_u_int [of "msg_id m"] p room_split [OF r] by (simp add: writes_def xdr_union_def Let_def)
  qed
qed

lemma reads_union [xdr_rt]:
  assumes "msg_ok m"
  shows "reads (xdr_union comm_discrim) m0 (u32_bytes (msg_id m) @ idv_wire (idv m)) m"
proof -
  obtain p where p: "comm_discrim (msg_id m) = Some p" "reads p (idv m0) (idv_wire (idv m)) (idv m)"
    using discrim_reads [of "idv m" "idv m0"] assms by (auto simp: msg_ok_def)
  show ?thesis
    using reads_u_int [of "msg_id m0" "msg_id m"] p by (simp add: reads_def xdr_union_def Let_def)
qed

lemma writes_comm_struct: "msg_ok m \<Longrightarrow> writes process_comm_struct m (msg_wire m)"
  unfolding process_comm_struct_def msg_wire_def by (rule xdr_rt | assumption | simp)+

lemma reads_comm_struct: "msg_ok m \<Longrightarrow> reads process_comm_struct m0 (msg_wire m) m"
  unfolding process_comm_struct_def msg_wire_def by (rule reads_eq, (rule xdr_rt | assumption | simp)+)

lemma sizeof_comm_struct: "msg_ok m \<Longrightarrow> xdr_sizeof process_comm_struct m = Inr (length (msg_wire m))"
  using writes_comm_struct [of m] by (simp add: writes_def xdr_sizeof_def)

end
