(* ===== verification/CommSafety.thy ===== *)
theory CommSafety
  imports CommWire
begin

text \<open>
  Decoding of arbitrary bytes: the routines never fault, and what they accept is within
  the bounds of the protocol.  \<open>dwp p Q m0\<close> says that decoding any input into \<open>m0\<close> with
  \<open>p\<close> ends in a result and a value that satisfy \<open>Q\<close>.
\<close>

named_theorems dwp_rules "decoding postconditions of the XDR routines"

definition dwp :: "'m xproc \<Rightarrow> (bool \<Rightarrow> 'm \<Rightarrow> bool) \<Rightarrow> 'm \<Rightarrow> bool" where
  "dwp p Q m0 \<longleftrightarrow> (\<forall>bs. \<exists>b bs' m. p (dec bs) m0 = Inr (b, dec bs', m) \<and> Q b m)"

lemma dwp_mono: "dwp p Q m0 \<Longrightarrow> (\<And>b m. Q b m \<Longrightarrow> R b m) \<Longrightarrow> dwp p R m0"
  unfolding dwp_def by blast

lemma get_bytes_dec: "\<exists>r bs'. get_bytes (dec bs) n = (r, dec bs')"
  by (simp add: get_bytes_def)

lemma dwp_u_int [dwp_rules]: "(\<And>b v. Q b v) \<Longrightarrow> dwp xdr_u_int Q w"
  by (auto simp: dwp_def xdr_u_int_def get_bytes_def)

lemma dwp_short [dwp_rules]: "(\<And>b v. Q b v) \<Longrightarrow> dwp xdr_short Q w"
  by (auto simp: dwp_def xdr_short_def xdr_u_int_def get_bytes_def)

lemma dwp_u_short [dwp_rules]: "(\<And>b v. Q b v) \<Longrightarrow> dwp xdr_u_short Q w"
  by (auto simp: dwp_def xdr_u_short_def xdr_u_int_def get_bytes_def)

lemma ucast_u32_u64: "ucast (ucast (ucast (w :: u32) :: u64) :: u32) = (ucast w :: u64)"
  by (rule bit_word_eqI) (auto simp: bit_simps dest: bit_imp_le_length)

lemma dwp_u_long [dwp_rules]:
  "(\<And>b v. (b \<Longrightarrow> ucast (ucast v :: u32) = v) \<Longrightarrow> Q b v) \<Longrightarrow> dwp xdr_u_long Q w"
  by (auto simp: dwp_def xdr_u_long_def xdr_u_int_def get_bytes_def ucast_u32_u64)

lemma cstr_of_bounds: "length (cstr_of bs) \<le> length bs" "CHR 0x00 \<notin> set (cstr_of bs)"
proof -
  show "length (cstr_of bs) \<le> length bs" by (simp add: cstr_of_def length_takeWhile_le)
  have "u8_char b \<noteq> CHR 0x00" if "b \<noteq> 0" for b
  proof
    assume "u8_char b = CHR 0x00"
    then have "of_char (u8_char b) = (0 :: nat)" by simp
    moreover have "unat b < 256" using unsigned_less [of b, where ?'a = nat] by simp
    ultimately have "unat b = 0" by (simp add: u8_char_def)
    then show False using that by (simp add: unat_eq_0)
  qed
  then show "CHR 0x00 \<notin> set (cstr_of bs)"
    by (auto simp: cstr_of_def dest!: set_takeWhileD) metis
qed

lemma dwp_string [dwp_rules]:
  assumes "s0 = None" "\<And>b v. (b \<Longrightarrow> str_ok n v) \<Longrightarrow> Q b v"
  shows "dwp (xdr_string n) Q s0"
  unfolding dwp_def
proof
  fix bs
  have s: "str_ok n (Some (cstr_of (take k bs')))" if "k \<le> n" for k bs'
    using cstr_of_bounds [of "take k bs'"] that by (auto simp: str_ok_def)
  show "\<exists>b bs' m. xdr_string n (dec bs) s0 = Inr (b, dec bs', m) \<and> Q b m"
    using assms s by (auto simp: xdr_string_def get_bytes_def Let_def not_less)
qed

lemma dwp_elems:
  assumes "dwp p (\<lambda>b v. b \<longrightarrow> P v) z"
  shows "\<exists>b bs' es. dec_elems p z (dec bs) c = Inr (b, dec bs', es) \<and> length es = c \<and> (b \<longrightarrow> (\<forall>e\<in>set es. P e))"
proof (induction c arbitrary: bs)
  case (Suc c)
  obtain b bs1 e where e: "p (dec bs) z = Inr (b, dec bs1, e)" "b \<longrightarrow> P e"
    using assms unfolding dwp_def by blast
  then show ?case using Suc.IH [of bs1] by (cases b) auto
qed auto

lemma dwp_array:
  assumes "\<And>b c es. (b \<Longrightarrow> arr_ok n P c es) \<Longrightarrow> Q b (c, es)" "dwp p (\<lambda>b v. b \<longrightarrow> P v) z"
  shows "dwp (xdr_array n p z) Q ca"
  unfolding dwp_def
proof
  fix bs
  obtain b bs1 c where c: "xdr_u_int (dec bs) (fst ca) = Inr (b, dec bs1, c)"
    using dwp_u_int [of "\<lambda>_ _. True" "fst ca"] unfolding dwp_def by blast
  obtain b' bs2 es where es: "dec_elems p z (dec bs1) (unat c) = Inr (b', dec bs2, es)" "length es = unat c"
    "b' \<longrightarrow> (\<forall>e\<in>set es. P e)"
    using dwp_elems [OF assms(2), of bs1 "unat c"] by blast
  show "\<exists>b bs' m. xdr_array n p z (dec bs) ca = Inr (b, dec bs', m) \<and> Q b m"
    using c es assms(1) by (auto simp: xdr_array_def arr_ok_def)
qed

lemma dwp_field [dwp_rules]:
  assumes "dwp p (\<lambda>b v. Q b (put v m0)) (get m0)"
  shows "dwp (xfield get put p) Q m0"
  unfolding dwp_def
proof
  fix bs
  obtain b bs1 v where "p (dec bs) (get m0) = Inr (b, dec bs1, v)" "Q b (put v m0)"
    using assms unfolding dwp_def by blast
  then show "\<exists>b bs' m. xfield get put p (dec bs) m0 = Inr (b, dec bs', m) \<and> Q b m"
    unfolding xfield_def by auto
qed

lemma dwp_xall_Nil [dwp_rules]: "Q True m0 \<Longrightarrow> dwp (xall []) Q m0"
  by (auto simp: dwp_def xall.simps)

lemma dwp_xand_Nil [dwp_rules]: "Q True m0 \<Longrightarrow> dwp (xand []) Q m0"
  by (auto simp: dwp_def xand.simps)

lemma dwp_xall_Cons [dwp_rules]:
  assumes "dwp p (\<lambda>b m. dwp (xall ps) (\<lambda>b'. Q (b \<and> b')) m) m0"
  shows "dwp (xall (p # ps)) Q m0"
  unfolding dwp_def
proof
  fix bs
  obtain b bs1 m1 where 1: "p (dec bs) m0 = Inr (b, dec bs1, m1)" "dwp (xall ps) (\<lambda>b'. Q (b \<and> b')) m1"
    using assms unfolding dwp_def by blast
  obtain b' bs2 m2 where "xall ps (dec bs1) m1 = Inr (b', dec bs2, m2)" "Q (b \<and> b') m2"
    using 1(2) unfolding dwp_def by blast
  with 1(1) show "\<exists>b bs' m. xall (p # ps) (dec bs) m0 = Inr (b, dec bs', m) \<and> Q b m"
    unfolding xall.simps by auto
qed

lemma dwp_xand_Cons [dwp_rules]:
  assumes "dwp p (\<lambda>b m. (b \<longrightarrow> dwp (xand ps) Q m) \<and> (\<not> b \<longrightarrow> Q False m)) m0"
  shows "dwp (xand (p # ps)) Q m0"
  unfolding dwp_def
proof
  fix bs
  obtain b bs1 m1 where "p (dec bs) m0 = Inr (b, dec bs1, m1)" "b \<longrightarrow> dwp (xand ps) Q m1" "\<not> b \<longrightarrow> Q False m1"
    using assms unfolding dwp_def by blast
  then show "\<exists>b bs' m. xand (p # ps) (dec bs) m0 = Inr (b, dec bs', m) \<and> Q b m"
    unfolding dwp_def xand.simps by (cases b) auto
qed

lemma dwp_reset: "dwp p Q (f m0) \<Longrightarrow> dwp (\<lambda>x m. p x (on_decode x f m)) Q m0"
  by (simp add: dwp_def)

lemma dwp_gname [dwp_rules]: "(\<And>b v. (b \<Longrightarrow> str_ok max_gname_len v) \<Longrightarrow> Q b v) \<Longrightarrow> dwp xdr_gname_string Q s"
  using dwp_string [OF refl, of max_gname_len Q] by (simp add: dwp_def xdr_gname_string_def)

lemma dwp_name [dwp_rules]: "(\<And>b v. (b \<Longrightarrow> str_ok max_name_len v) \<Longrightarrow> Q b v) \<Longrightarrow> dwp xdr_name_string Q s"
  using dwp_string [OF refl, of max_name_len Q] by (simp add: dwp_def xdr_name_string_def)

lemma dwp_ids [dwp_rules]:
  assumes "\<And>b c es. (b \<Longrightarrow> ids_ok c es) \<Longrightarrow> Q b (c, es)"
  shows "dwp (xdr_array max_client_in_group xdr_u_int 0) Q ca"
  using assms by (rule dwp_array) (rule dwp_rules | simp)+

lemma dwp_gnames [dwp_rules]:
  assumes "\<And>b c es. (b \<Longrightarrow> gnames_ok c es) \<Longrightarrow> Q b (c, es)"
  shows "dwp (xdr_array max_groups xdr_gname_string None) Q ca"
  using assms by (rule dwp_array) (rule dwp_rules | simp)+

lemma dwp_names [dwp_rules]:
  assumes "\<And>b c es. (b \<Longrightarrow> names_ok c es) \<Longrightarrow> Q b (c, es)"
  shows "dwp (xdr_array max_client_in_group xdr_name_string None) Q ca"
  using assms by (rule dwp_array) (rule dwp_rules | simp)+

section \<open>Messages\<close>

lemma dwp_saddr: "dwp xdr_l_saddr_in (\<lambda>b m. b \<longrightarrow> saddr_ok m) m0"
  unfolding xdr_l_saddr_in_def saddr_ok_def by (rule dwp_reset, (rule dwp_rules | simp)+)

lemma dwp_saddrs [dwp_rules]:
  assumes "\<And>b c es. (b \<Longrightarrow> arr_ok max_groups saddr_ok c es) \<Longrightarrow> Q b (c, es)"
  shows "dwp (xdr_array max_groups xdr_l_saddr_in zero_saddr) Q ca"
proof (rule dwp_array [where P = saddr_ok])
  show "dwp xdr_l_saddr_in (\<lambda>b v. b \<longrightarrow> saddr_ok v) zero_saddr" by (rule dwp_saddr)
  show "Q b (c, es)" if "b \<Longrightarrow> arr_ok max_groups saddr_ok c es" for b c es using that by (rule assms)
qed

lemma dwp_echo_req: "dwp xdr_echo_req (\<lambda>b m. b \<longrightarrow> echo_req_ok m) m0"
  unfolding xdr_echo_req_def echo_req_ok_def by (rule dwp_reset, (rule dwp_rules conjI impI | simp)+)

lemma dwp_echo_rsp: "dwp xdr_echo_resp (\<lambda>b m. b \<longrightarrow> echo_rsp_ok m) m0"
  unfolding xdr_echo_resp_def echo_rsp_ok_def by (rule dwp_reset, (rule dwp_rules conjI impI | simp)+)

lemma dwp_join_req: "dwp process_join_req (\<lambda>b m. b \<longrightarrow> join_req_ok m) m0"
  unfolding process_join_req_def join_req_ok_def by (rule dwp_reset, (rule dwp_rules conjI impI | simp)+)

lemma dwp_join_rsp: "dwp process_join_resp (\<lambda>b m. b \<longrightarrow> join_rsp_ok m) m0"
  unfolding process_join_resp_def join_rsp_ok_def by (rule dwp_reset, (rule dwp_rules conjI impI | simp)+)

lemma dwp_leave_req: "dwp process_leave_req (\<lambda>b m. b \<longrightarrow> leave_req_ok m) m0"
  unfolding process_leave_req_def leave_req_ok_def by (rule dwp_reset, (rule dwp_rules conjI impI | simp)+)

lemma dwp_leave_rsp: "dwp process_leave_resp (\<lambda>b m. b \<longrightarrow> leave_rsp_ok m) m0"
  unfolding process_leave_resp_def leave_rsp_ok_def by (rule dwp_reset, (rule dwp_rules conjI impI | simp)+)

lemma dwp_moderator_notify_req: "dwp process_moderator_notify_req (\<lambda>b m. b \<longrightarrow> moderator_notify_req_ok m) m0"
  unfolding process_moderator_notify_req_def moderator_notify_req_ok_def by (rule dwp_reset, (rule dwp_rules conjI impI | simp)+)

lemma dwp_moderator_notify_rsp: "dwp process_moderator_notify_rsp (\<lambda>b m. b \<longrightarrow> moderator_notify_rsp_ok m) m0"
  unfolding process_moderator_notify_rsp_def moderator_notify_rsp_ok_def by (rule dwp_reset, (rule dwp_rules conjI impI | simp)+)

lemma dwp_moderator_update_req: "dwp process_moderator_update_req (\<lambda>b m. b \<longrightarrow> moderator_update_req_ok m) m0"
  unfolding process_moderator_update_req_def moderator_update_req_ok_def by (rule dwp_reset, (rule dwp_rules conjI impI | simp)+)

lemma dwp_checkpoint_req: "dwp process_checkpoint_req (\<lambda>b m. b \<longrightarrow> checkpoint_req_ok m) m0"
  unfolding process_checkpoint_req_def checkpoint_req_ok_def by (rule dwp_reset, (rule dwp_rules conjI impI | simp)+)

text \<open>
  The two messages with two arrays share one count: the later array fixes it, so the
  earlier one may be shorter or longer.
\<close>

definition task_rsp_recv_ok :: "task_rsp_t \<Rightarrow> bool" where
  "task_rsp_recv_ok m \<longleftrightarrow> str_ok max_gname_len (tr_group_name m) \<and> str_ok max_gname_len (tr_final_resp m) \<and>
     length (tr_client_ids m) \<le> max_client_in_group \<and> names_ok (tr_num_clients m) (tr_result m)"

definition perform_task_req_recv_ok :: "perform_task_req_t \<Rightarrow> bool" where
  "perform_task_req_recv_ok m \<longleftrightarrow> str_ok max_gname_len (pt_group_name m) \<and> str_ok max_name_len (pt_task_folder_path m) \<and>
     ids_ok (pt_client_id_count m) (pt_client_ids m) \<and> length (pt_task_filename m) \<le> max_client_in_group \<and>
     (\<forall>f\<in>set (pt_task_filename m). str_ok max_name_len f)"

lemma dwp_task_rsp: "dwp process_task_resp (\<lambda>b m. b \<longrightarrow> task_rsp_recv_ok m) m0"
  unfolding process_task_resp_def task_rsp_recv_ok_def
  by (rule dwp_reset, (rule dwp_rules conjI impI | simp add: arr_ok_def)+)

lemma dwp_then:
  "dwp p (\<lambda>b m. dwp (q b) Q m) m0 \<Longrightarrow> dwp (\<lambda>x m. bindE (p x m) (\<lambda>(a, x1, m1). q a x1 m1)) Q m0"
  unfolding dwp_def
proof
  fix bs
  assume a: "\<forall>bs. \<exists>b bs' m. p (dec bs) m0 = Inr (b, dec bs', m) \<and> (\<forall>bs. \<exists>ba bs' ma. q b (dec bs) m = Inr (ba, dec bs', ma) \<and> Q ba ma)"
  then obtain b bs1 m1 where 1: "p (dec bs) m0 = Inr (b, dec bs1, m1)"
    "\<forall>bs. \<exists>ba bs' ma. q b (dec bs) m1 = Inr (ba, dec bs', ma) \<and> Q ba ma" by blast
  then show "\<exists>b bs' m. bindE (p (dec bs) m0) (\<lambda>(a, x1, m1). q a x1 m1) = Inr (b, dec bs', m) \<and> Q b m"
    by simp
qed

lemma dwp_test [dwp_rules]: "Q a m \<Longrightarrow> dwp (\<lambda>x m. Inr (a, x, m)) Q m"
  by (auto simp: dwp_def)

lemma dwp_perform_task_req: "dwp process_perform_task_req (\<lambda>b m. b \<longrightarrow> perform_task_req_recv_ok m) m0"
  unfolding process_perform_task_req_def perform_task_req_recv_ok_def
  by (rule dwp_then, rule dwp_reset, (rule dwp_rules conjI impI | simp add: arr_ok_def)+)

fun idv_recv_ok :: "idv_t \<Rightarrow> bool" where
  "idv_recv_ok (Task_rsp m) = task_rsp_recv_ok m"
| "idv_recv_ok (Perform_task_req m) = perform_task_req_recv_ok m"
| "idv_recv_ok u = idv_ok u"

definition msg_recv_ok :: "comm_struct_t \<Rightarrow> bool" where
  "msg_recv_ok m \<longleftrightarrow> msg_id m = idv_id (idv m) \<and> idv_recv_ok (idv m)"

lemma dwp_uarm:
  assumes "\<And>m. dwp p (\<lambda>b m. b \<longrightarrow> P (mk m)) m"
  shows "dwp (uarm sel mk blank p) (\<lambda>b u. b \<longrightarrow> P u) u0"
  unfolding dwp_def
proof
  fix bs
  define m0 where "m0 = (case sel u0 of Some m \<Rightarrow> m | None \<Rightarrow> blank)"
  obtain b bs1 m1 where "p (dec bs) m0 = Inr (b, dec bs1, m1)" "b \<longrightarrow> P (mk m1)"
    using assms [of m0] unfolding dwp_def by blast
  then show "\<exists>b bs' m. uarm sel mk blank p (dec bs) u0 = Inr (b, dec bs', m) \<and> (b \<longrightarrow> P m)"
    by (cases "sel u0") (auto simp: uarm_def m0_def)
qed

lemma dwp_new_server_notify: "dwp process_new_server_notify (\<lambda>b m. b \<longrightarrow> True) m0"
  unfolding process_new_server_notify_def by (rule dwp_rules | simp)+

lemma dwp_discrim:
  "comm_discrim i = Some p \<Longrightarrow> dwp p (\<lambda>b u. b \<longrightarrow> idv_id u = i \<and> idv_recv_ok u) u0"
  by (auto simp: comm_discrim_def dwp_echo_req dwp_echo_rsp dwp_join_req dwp_join_rsp dwp_leave_req dwp_leave_rsp
        dwp_moderator_notify_req dwp_moderator_notify_rsp dwp_moderator_update_req dwp_checkpoint_req
        dwp_task_rsp dwp_perform_task_req dwp_new_server_notify [simplified]
      split: if_split_asm intro!: dwp_uarm)

lemma dwp_comm_struct: "dwp process_comm_struct (\<lambda>b m. b \<longrightarrow> msg_recv_ok m) m0"
  unfolding process_comm_struct_def
proof (rule dwp_xall_Cons, rule dwp_field, rule dwp_u_int, rule dwp_xall_Cons)
  fix b v
  let ?m = "m0\<lparr>msg_id := v\<rparr>"
  have "dwp (xdr_union comm_discrim) (\<lambda>b m. b \<longrightarrow> msg_recv_ok m) ?m"
    unfolding dwp_def
  proof
    fix bs
    obtain b1 bs1 i where e: "xdr_u_int (dec bs) v = Inr (b1, dec bs1, i)"
      using dwp_u_int [of "\<lambda>_ _. True" v] unfolding dwp_def by blast
    show "\<exists>b bs' m. xdr_union comm_discrim (dec bs) ?m = Inr (b, dec bs', m) \<and> (b \<longrightarrow> msg_recv_ok m)"
    proof (cases "b1 \<and> comm_discrim i \<noteq> None")
      case False
      then show ?thesis using e by (auto simp: xdr_union_def Let_def)
    next
      case True
      then obtain p where p: "comm_discrim i = Some p" and b1: b1 by auto
      obtain b2 bs2 u where "p (dec bs1) (idv m0) = Inr (b2, dec bs2, u)" "b2 \<longrightarrow> idv_id u = i \<and> idv_recv_ok u"
        using dwp_discrim [OF p, of "idv m0"] unfolding dwp_def by blast
      then show ?thesis using e p b1 by (auto simp: xdr_union_def Let_def msg_recv_ok_def)
    qed
  qed
  then show "dwp (xdr_union comm_discrim) (\<lambda>b'. dwp (xall []) (\<lambda>b'' m. (b \<and> b' \<and> b'') \<longrightarrow> msg_recv_ok m)) ?m"
    by (rule dwp_mono) (auto intro: dwp_rules)
qed

section \<open>A well-formed message fits the buffer\<close>

lemma ostr_length: "str_ok n s \<Longrightarrow> length (ostr_bytes s) \<le> n + 8"
  by (auto simp: str_ok_def ostr_bytes_def str_bytes_def pad_def split: option.splits)

lemma concat_length: "(\<And>e. ok e \<Longrightarrow> length (f e) \<le> k) \<Longrightarrow> \<forall>e\<in>set es. ok e \<Longrightarrow> length (concat (map f es)) \<le> length es * k"
  by (induction es) (auto intro: add_le_mono)

lemma arr_length:
  assumes "arr_ok n ok c es" "\<And>e. ok e \<Longrightarrow> length (f e) \<le> k"
  shows "length (arr_bytes f es) \<le> 4 + n * k"
proof -
  have "length (concat (map f es)) \<le> length es * k"
    by (rule concat_length) (use assms in \<open>auto simp: arr_ok_def\<close>)
  also have "\<dots> \<le> n * k" using assms by (simp add: arr_ok_def)
  finally show ?thesis by (simp add: arr_bytes_def)
qed

lemma saddr_length: "saddr_ok m \<Longrightarrow> length (saddr_wire m) \<le> 53"
  using ostr_length [of max_gname_len "ls_group_name m"] by (simp add: saddr_ok_def saddr_wire_def)

lemma ids_length: "ids_ok c es \<Longrightarrow> length (arr_bytes u32_bytes es) \<le> 1024"
  using arr_length [of max_client_in_group "\<lambda>_. True" c es u32_bytes 4] by simp

lemma gnames_length: "gnames_ok c es \<Longrightarrow> length (arr_bytes ostr_bytes es) \<le> 33004"
  using arr_length [of max_groups "str_ok max_gname_len" c es ostr_bytes 33] ostr_length by force

lemma names_length: "names_ok c es \<Longrightarrow> length (arr_bytes ostr_bytes es) \<le> 40294"
  using arr_length [of max_client_in_group "str_ok max_name_len" c es ostr_bytes 158] ostr_length by force

lemma saddrs_length: "arr_ok max_groups saddr_ok c es \<Longrightarrow> length (arr_bytes saddr_wire es) \<le> 53004"
  using arr_length [of max_groups saddr_ok c es saddr_wire 53] saddr_length by force

lemma idv_length: "idv_ok u \<Longrightarrow> length (idv_wire u) \<le> 60000"
  by (cases u)
    (auto dest!: ostr_length ids_length gnames_length names_length saddrs_length
      simp: join_req_ok_def join_req_wire_def join_rsp_ok_def join_rsp_wire_def echo_req_ok_def echo_req_wire_def
        echo_rsp_ok_def echo_rsp_wire_def leave_req_ok_def leave_req_wire_def leave_rsp_ok_def leave_rsp_wire_def
        moderator_notify_req_ok_def moderator_notify_req_wire_def moderator_notify_rsp_ok_def
        moderator_notify_rsp_wire_def moderator_update_req_ok_def moderator_update_req_wire_def
        task_rsp_ok_def task_rsp_wire_def perform_task_req_ok_def perform_task_req_wire_def
        checkpoint_req_ok_def checkpoint_req_wire_def new_server_notify_wire_def)

lemma msg_length: "msg_ok m \<Longrightarrow> length (msg_wire m) \<le> MAXMSGSIZE"
  using idv_length [of "idv m"] by (simp add: msg_ok_def msg_wire_def)

section \<open>Results\<close>

text \<open>
  C11: every well-formed message survives the wire: \<open>process_comm_struct\<close> encodes it as
  \<open>msg_wire\<close> when the buffer has the room, and decoding those bytes, whatever follows
  them and whatever the structure held before, gives the message and leaves the rest.
\<close>

theorem comm_struct_roundtrip:
  assumes "msg_ok m" "length (msg_wire m) \<le> room"
  shows "process_comm_struct (enc out (Some room)) m =
      Inr (True, enc (out @ msg_wire m) (Some (room - length (msg_wire m))), m) \<and>
    process_comm_struct (dec (msg_wire m @ rest)) m0 = Inr (True, dec rest, m)"
  using writes_comm_struct [OF assms(1)] reads_comm_struct [OF assms(1), of m0] assms(2)
  by (simp add: writes_def reads_def)

theorem comm_struct_roundtrip_witness:
  "process_comm_struct (dec (msg_wire \<lparr>msg_id = echo_req, idv = Echo_req \<lparr>eq_group_name = Some ''G1'', eq_num_clients = 2, eq_client_ids = [7, 9]\<rparr>\<rparr> @ [1, 2]))
      \<lparr>msg_id = unknown_msg, idv = New_server_notify \<lparr>ns_new_server_id = 0\<rparr>\<rparr> =
    Inr (True, dec [1, 2], \<lparr>msg_id = echo_req, idv = Echo_req \<lparr>eq_group_name = Some ''G1'', eq_num_clients = 2, eq_client_ids = [7, 9]\<rparr>\<rparr>)"
  by (rule conjunct2 [OF comm_struct_roundtrip [OF _ order_refl]])
    (simp add: msg_ok_def echo_req_ok_def arr_ok_def str_ok_def)

lemma record_written:
  assumes "msg_ok (pdu_msg pdu)"
  shows "\<exists>buf. write_record pdu = Inr buf \<and> length buf \<le> MAXMSGSIZE \<and>
    (\<forall>m0. process_comm_struct (dec (take MAXMSGSIZE buf)) m0 = Inr (True, dec [], pdu_msg pdu))"
proof -
  let ?w = "msg_wire (pdu_msg pdu)"
  have "process_comm_struct (enc [] (Some (length ?w))) (pdu_msg pdu) = Inr (True, enc ?w (Some 0), pdu_msg pdu)"
    using writes_comm_struct [OF assms] by (simp add: writes_def)
  then have "write_record pdu = Inr ?w"
    using sizeof_comm_struct [OF assms] msg_length [OF assms] by (simp add: write_record_def)
  moreover have "process_comm_struct (dec ?w) m0 = Inr (True, dec [], pdu_msg pdu)" for m0
    using reads_comm_struct [OF assms, of m0] unfolding reads_def by (metis append_Nil2)
  ultimately show ?thesis using msg_length [OF assms] by simp
qed

lemma record_delivered:
  assumes "msg_ok (pdu_msg pdu)"
    and "strcpy_bytes (sa_data (peer_addr pdu0)) (sa_data sin) = Inr d"
  shows "\<exists>buf. write_record pdu = Inr buf \<and> length buf \<le> MAXMSGSIZE \<and>
    read_record buf sin pdu0 = Inr (msg_id (pdu_msg pdu),
      \<lparr>peer_addr = \<lparr>sa_family = sa_family sin, sa_data = d\<rparr>, pdu_msg = pdu_msg pdu\<rparr>)"
  using record_written [OF assms(1)] assms(2) by (auto simp: read_record_def)

text \<open>
  C12: a record sent by \<open>write_record\<close> is received by \<open>read_record\<close>: for every
  well-formed message the datagram fits the buffer, the receiver returns its identifier
  and holds the same message.  The address of the sender arrives only up to and including
  its first zero byte: behind it stay the bytes that the receiver's structure held before,
  and an address without a zero byte is read past its end.
\<close>

theorem record_roundtrip:
  assumes "msg_ok (pdu_msg pdu)" "length (sa_data sin) = 14" "length (sa_data (peer_addr pdu0)) = 14"
  shows "\<exists>buf. write_record pdu = Inr buf \<and> length buf \<le> MAXMSGSIZE \<and>
    read_record buf sin pdu0 =
      (if 0 \<in> set (sa_data sin)
       then Inr (msg_id (pdu_msg pdu),
         \<lparr>peer_addr = \<lparr>sa_family = sa_family sin, sa_data = copied (sa_data (peer_addr pdu0)) (sa_data sin)\<rparr>,
          pdu_msg = pdu_msg pdu\<rparr>)
       else Inl OutOfBounds)"
proof -
  obtain buf where buf: "write_record pdu = Inr buf" "length buf \<le> MAXMSGSIZE"
      "\<And>m0. process_comm_struct (dec (take MAXMSGSIZE buf)) m0 = Inr (True, dec [], pdu_msg pdu)"
    using record_written [OF assms(1)] by blast
  show ?thesis
    using buf assms(2,3) strcpy_bytes_no_zero [of "sa_data sin"]
    by (simp add: read_record_def strcpy_bytes_copied)
qed

text \<open>The address 10.0.0.5, port 3490, arrives as 10.0.7.7 in a structure full of sevens.\<close>

theorem record_roundtrip_witness:
  "\<exists>buf. write_record \<lparr>peer_addr = \<lparr>sa_family = 2, sa_data = replicate 14 0\<rparr>,
       pdu_msg = \<lparr>msg_id = new_server_notify, idv = New_server_notify \<lparr>ns_new_server_id = 5\<rparr>\<rparr>\<rparr> = Inr buf \<and>
     read_record buf \<lparr>sa_family = 2, sa_data = [13, 162, 10, 0, 0, 5] @ replicate 8 0\<rparr>
       \<lparr>peer_addr = \<lparr>sa_family = 2, sa_data = replicate 14 7\<rparr>,
        pdu_msg = \<lparr>msg_id = unknown_msg, idv = New_server_notify \<lparr>ns_new_server_id = 0\<rparr>\<rparr>\<rparr> =
     Inr (new_server_notify, \<lparr>peer_addr = \<lparr>sa_family = 2, sa_data = [13, 162, 10, 0] @ replicate 10 7\<rparr>,
        pdu_msg = \<lparr>msg_id = new_server_notify, idv = New_server_notify \<lparr>ns_new_server_id = 5\<rparr>\<rparr>\<rparr>)"
proof -
  have "copied (replicate 14 7) ([13, 162, 10, 0, 0, 5] @ replicate 8 0) = [13, 162, 10, 0] @ replicate 10 7"
    by (simp add: copied_def Let_def)
  then show ?thesis
    using record_roundtrip [of "\<lparr>peer_addr = \<lparr>sa_family = 2, sa_data = replicate 14 0\<rparr>,
       pdu_msg = \<lparr>msg_id = new_server_notify, idv = New_server_notify \<lparr>ns_new_server_id = 5\<rparr>\<rparr>\<rparr>"
       "\<lparr>sa_family = 2, sa_data = [13, 162, 10, 0, 0, 5] @ replicate 8 0\<rparr>"
       "\<lparr>peer_addr = \<lparr>sa_family = 2, sa_data = replicate 14 7\<rparr>,
        pdu_msg = \<lparr>msg_id = unknown_msg, idv = New_server_notify \<lparr>ns_new_server_id = 0\<rparr>\<rparr>\<rparr>"]
    by (auto simp: msg_ok_def)
qed

text \<open>
  C13: no datagram makes the decoder fault (it never reads outside its buffers), and what
  it accepts is within the protocol's bounds: the member matches the identifier, counts
  match their arrays, at most 1000 groups and 255 clients, names within their lengths;
  of the two messages with two arrays only the second array is sure to match the count.
\<close>

theorem decode_any_bytes:
  "\<exists>b rest m. process_comm_struct (dec bs) m0 = Inr (b, dec rest, m) \<and> (b \<longrightarrow> msg_recv_ok m)"
  using dwp_comm_struct unfolding dwp_def by blast

theorem decode_any_bytes_witness:
  "\<exists>b rest m. process_comm_struct (dec [0, 0, 0, 46, 0, 0]) \<lparr>msg_id = unknown_msg,
     idv = New_server_notify \<lparr>ns_new_server_id = 0\<rparr>\<rparr> = Inr (b, dec rest, m)"
  using decode_any_bytes by blast

lemma u32_bytes_get: "xdr_u_int (dec (u32_bytes i @ bs)) w = Inr (True, dec bs, i)"
  using reads_u_int [of w i] by (simp add: reads_def)

text \<open>
  A task response whose two arrays have different lengths is accepted: the count the
  receiver then uses is that of the results, whatever the number of client identifiers.
\<close>

theorem task_response_count_mismatch:
  assumes "str_ok max_gname_len g" "ids_ok (of_nat (length ids)) ids" "names_ok (of_nat (length rs)) rs"
  shows "process_comm_struct (dec (concat [u32_bytes task_response, u32_bytes task_response, ostr_bytes g,
       ostr_bytes (Some ''''), u32_bytes tid, u32_bytes ty, u32_bytes n, arr_bytes u32_bytes ids, arr_bytes ostr_bytes rs])) m0 =
    Inr (True, dec [], \<lparr>msg_id = task_response, idv = Task_rsp \<lparr>tr_group_name = g, tr_task_id = tid, tr_type = ty,
      tr_num_clients = of_nat (length rs), tr_client_ids = ids, tr_result = rs, tr_final_resp = Some ''''\<rparr>\<rparr>)"
proof -
  let ?t = "\<lparr>tr_group_name = g, tr_task_id = tid, tr_type = ty, tr_num_clients = of_nat (length rs),
    tr_client_ids = ids, tr_result = rs, tr_final_resp = Some ''''\<rparr>"
  have e: "str_ok max_gname_len (Some '''')" by (simp add: str_ok_def)
  have "reads process_task_resp t0 (concat [ostr_bytes g, ostr_bytes (Some ''''), u32_bytes tid, u32_bytes ty,
      u32_bytes n, arr_bytes u32_bytes ids, arr_bytes ostr_bytes rs]) ?t" for t0
    unfolding process_task_resp_def
    by (rule reads_reset, rule reads_eq, (rule xdr_rt assms e | simp)+)
  then have "reads (uarm (\<lambda>u. case u of Task_rsp m \<Rightarrow> Some m | _ \<Rightarrow> None) Task_rsp
        \<lparr>tr_group_name = None, tr_task_id = 0, tr_type = 0, tr_num_clients = 0, tr_client_ids = [], tr_result = [],
         tr_final_resp = None\<rparr> process_task_resp) u0 (concat [ostr_bytes g, ostr_bytes (Some ''''), u32_bytes tid, u32_bytes ty,
      u32_bytes n, arr_bytes u32_bytes ids, arr_bytes ostr_bytes rs]) (Task_rsp ?t)" for u0
    by (rule reads_uarm)
  from this [of "idv m0", unfolded reads_def, rule_format, of "[]"]
  show ?thesis
    by (simp add: process_comm_struct_def xall.simps xfield_def u32_bytes_get xdr_union_def comm_discrim_def Let_def)
qed

theorem task_response_count_mismatch_witness:
  "\<exists>buf. process_comm_struct (dec buf) \<lparr>msg_id = unknown_msg, idv = New_server_notify \<lparr>ns_new_server_id = 0\<rparr>\<rparr> =
    Inr (True, dec [], \<lparr>msg_id = task_response, idv = Task_rsp \<lparr>tr_group_name = Some ''G1'', tr_task_id = 1, tr_type = 3,
      tr_num_clients = 1, tr_client_ids = [], tr_result = [Some ''r''], tr_final_resp = Some ''''\<rparr>\<rparr>)"
proof -
  have "str_ok max_gname_len (Some ''G1'')" "ids_ok (of_nat (length [])) []" "names_ok (of_nat (length [Some ''r''])) [Some ''r'']"
    by (simp_all add: str_ok_def arr_ok_def)
  from task_response_count_mismatch [OF this, of 1 3 0] show ?thesis by (intro exI) simp
qed

text \<open>
  \<open>read_record\<close> does not report a failed decoding: a datagram that holds nothing but
  an identifier is returned under that identifier, with the union as it was before.
\<close>

theorem read_record_truncated:
  assumes "strcpy_bytes (sa_data (peer_addr pdu0)) (sa_data sin) = Inr d"
  shows "read_record (u32_bytes i) sin pdu0 = Inr (i, \<lparr>peer_addr = \<lparr>sa_family = sa_family sin, sa_data = d\<rparr>,
    pdu_msg = \<lparr>msg_id = i, idv = idv (pdu_msg pdu0)\<rparr>\<rparr>)"
proof -
  have "process_comm_struct (dec (u32_bytes i)) ((pdu_msg pdu0)\<lparr>msg_id := unknown_msg\<rparr>) =
      Inr (False, dec [], \<lparr>msg_id = i, idv = idv (pdu_msg pdu0)\<rparr>)"
    using u32_bytes_get [of i "[]"]
    by (simp add: process_comm_struct_def xall.simps xfield_def xdr_union_def xdr_u_int_def get_bytes_def Let_def)
  then show ?thesis using assms by (simp add: read_record_def)
qed

theorem read_record_truncated_witness:
  "read_record (u32_bytes 43) \<lparr>sa_family = 2, sa_data = 3 # replicate 13 0\<rparr>
     \<lparr>peer_addr = \<lparr>sa_family = 2, sa_data = replicate 14 0\<rparr>, pdu_msg = \<lparr>msg_id = 0, idv = New_server_notify \<lparr>ns_new_server_id = 0\<rparr>\<rparr>\<rparr> =
   Inr (43, \<lparr>peer_addr = \<lparr>sa_family = 2, sa_data = 3 # replicate 13 0\<rparr>,
     pdu_msg = \<lparr>msg_id = 43, idv = New_server_notify \<lparr>ns_new_server_id = 0\<rparr>\<rparr>\<rparr>)"
proof -
  have "strcpy_bytes (sa_data (peer_addr \<lparr>peer_addr = \<lparr>sa_family = 2, sa_data = replicate 14 0\<rparr>,
      pdu_msg = \<lparr>msg_id = 0, idv = New_server_notify \<lparr>ns_new_server_id = 0\<rparr>\<rparr>\<rparr>))
    (sa_data \<lparr>sa_family = 2, sa_data = 3 # replicate 13 0\<rparr>) = Inr (3 # replicate 13 0)"
    by (simp add: numeral_eq_Suc)
  from read_record_truncated [OF this, of 43] show ?thesis by simp
qed

end
