(* ===== verification/ServerDS.thy ===== *)
theory ServerDS
  imports CommTypes
begin

text \<open>
  The data structures of the server (\<open>src/include/server_DS.h\<close>) and the primitives it
  calls on them: the heap of group and client nodes, the kernel timers, the messages
  handed to \<open>write_record\<close>.  Lists of nodes (\<open>sn_list_t\<close>) are lists of addresses, head
  first, as proved of \<open>sn_ll.c\<close> in \<open>SnList\<close>; the client index is the map from keys to
  clients that \<open>RbtIndex\<close> proves of \<open>rbt.c\<close>.  Operations return the new state or a fault.
\<close>

datatype server_state =
    MODERATOR_SELECTION_PENDING | MODERATOR_SELECTED | GROUP_TASK_IN_PROGRESS
  | GROUP_TASK_COMPLETED | TASK_IN_PROGRESS_MOD_SEL_PEND | STATE_NONE | STATE_MAX

datatype server_event =
    ECHO_RSP_RCVD_EVENT | SEND_KEEPALIVE_EVENT | MOD_NOTIFY_RSP_RCVD_EVENT
  | MOD_TASK_RSP_RCVD_EVENT | ECHO_REQ_RCVD_EVENT | EVENT_NONE | EVENT_MAX

datatype svr_client_state = CLFREE | CLBUSY | CLALIVE | CLDEAD

datatype avail = RBFREE | RBBUSY

datatype timer_signal = MOD_SEL_TIMEOUT | MOD_RSP_TIMEOUT

abbreviation DEFAULT_TIMEOUT :: u8 where "DEFAULT_TIMEOUT \<equiv> 3"
abbreviation GROUP_REACHABLE :: u8 where "GROUP_REACHABLE \<equiv> 2"
abbreviation MAX_CLIENTS_TRIED_PER_ATTEMPT :: nat where "MAX_CLIENTS_TRIED_PER_ATTEMPT \<equiv> 3"
abbreviation MAX_ALLOWED_KA_MISSES :: u8 where "MAX_ALLOWED_KA_MISSES \<equiv> 5"

abbreviation ACCEPTED :: u32 where "ACCEPTED \<equiv> 10"
abbreviation REJECTED :: u32 where "REJECTED \<equiv> 11"
abbreviation UNKNOWN :: u32 where "UNKNOWN \<equiv> 12"
abbreviation ADD_CHECKPOINT :: u32 where "ADD_CHECKPOINT \<equiv> 67"
abbreviation DEL_CHECKPOINT :: u32 where "DEL_CHECKPOINT \<equiv> 68"

record mcast_client_node =
  client_id :: u32
  client_addr :: sockaddr
  cl_av_status :: svr_client_state

record task_distribution =
  working_clients :: u32
  task_filename :: "string list"
  file_count :: nat

text \<open>An entry of \<open>capability\<close> is \<open>None\<close> until it is set.\<close>

record mcast_task_set =
  distribution_map :: "task_distribution list own"
  ts_capability :: "u32 option list own"
  task_folder_path :: "string own"
  number_of_working_clients :: int
  num_of_responses_expected :: int

record dead_clients_t =
  dead_clients :: "u32 list own"
  dead_client_count :: int
  dead_clients_file :: "string list own"
  dead_file_count :: int

record server_metrics_t =
  start_time :: nat
  end_time :: nat

text \<open>The arguments of the thread that fetches result files from a moderator.\<close>

record thread_args =
  ta_file_count :: nat
  ta_task_filename :: "string list"
  source_folder :: string
  dest_folder :: string

text \<open>\<open>client_info\<close> is \<open>None\<close> while the group has no list of clients.\<close>

record mcast_group_node =
  group_name :: string
  grp_capability :: u32
  number_of_clients :: int
  grp_mcast_addr :: sockaddr_in
  group_port :: u32
  client_info :: "ptr list option"
  moderator_client :: "ptr option"
  timer_id :: nat
  heartbeat_remaining :: u8
  group_reachability_index :: u8
  fsm_state :: server_state
  task_type :: u32
  task_set_filename :: "string own"
  task_set_format :: u8
  task_set_details :: mcast_task_set
  dead_clients_info :: dead_clients_t
  is_metrics_valid :: bool
  server_metrics :: "server_metrics_t option"

text \<open>The payload of a node of the client index; its list points at group nodes.\<close>

record rb_client =
  rbc_capability :: u32
  rbc_grp_list :: "ptr list"
  rbc_av_status :: avail
  rbc_is_moderator :: bool

text \<open>A kernel timer: its signal and the group whose \<open>timer_id\<close> field it was created for.\<close>

record ktimer =
  kt_signal :: timer_signal
  kt_sival :: ptr
  kt_interval :: u8
  kt_recurring :: bool

text \<open>
  The state of the server process.  \<open>clock\<close> is what \<open>gettimeofday\<close> returns, \<open>stamp\<close>
  what \<open>strftime\<close> gives for the current time, \<open>files\<close> the file system; they are set by
  the environment.  \<open>outbox\<close> holds the messages handed to \<open>write_record\<close>, the latest
  last, with their destination, \<open>threads\<close> the fetching threads started.
\<close>

record server_info =
  groups :: "ptr \<rightharpoonup> mcast_group_node"
  clients :: "ptr \<rightharpoonup> mcast_client_node"
  next_ptr :: ptr
  server_list :: "ptr list"
  client_RBT :: "u32 \<rightharpoonup> rb_client"
  secondary_server :: sockaddr_in
  task_id :: u32
  is_stdby_available :: bool
  is_show_metrics :: bool
  timers :: "nat \<rightharpoonup> ktimer"
  next_timer :: nat
  clock :: nat
  stamp :: string
  files :: "string \<rightharpoonup> u8 list"
  outbox :: "(sockaddr \<times> comm_struct_t) list"
  threads :: "thread_args list"

section \<open>Access to the nodes\<close>

definition grp :: "server_info \<Rightarrow> ptr \<Rightarrow> mcast_group_node result" where
  "grp s p = deref (groups s) p"

definition cl :: "server_info \<Rightarrow> ptr \<Rightarrow> mcast_client_node result" where
  "cl s p = deref (clients s) p"

definition upd_grp :: "server_info \<Rightarrow> ptr \<Rightarrow> (mcast_group_node \<Rightarrow> mcast_group_node) \<Rightarrow> server_info result" where
  "upd_grp s p f = bindE (grp s p) (\<lambda>g. Inr (s\<lparr>groups := (groups s)(p \<mapsto> f g)\<rparr>))"

definition upd_cl :: "server_info \<Rightarrow> ptr \<Rightarrow> (mcast_client_node \<Rightarrow> mcast_client_node) \<Rightarrow> server_info result" where
  "upd_cl s p f = bindE (cl s p) (\<lambda>c. Inr (s\<lparr>clients := (clients s)(p \<mapsto> f c)\<rparr>))"

definition upd_rbt :: "server_info \<Rightarrow> u32 \<Rightarrow> (rb_client \<Rightarrow> rb_client) \<Rightarrow> server_info result" where
  "upd_rbt s k f = (case client_RBT s k of None \<Rightarrow> Inl NullDeref
     | Some r \<Rightarrow> Inr (s\<lparr>client_RBT := (client_RBT s)(k \<mapsto> f r)\<rparr>))"

text \<open>
  A pointer to an index node is the key it was found under.  A node leaves the index only
  when \<open>RBDelete\<close> frees it, so a read through the pointer finds the node while it is in
  the index and freed memory afterwards.
\<close>

definition rbt_node :: "server_info \<Rightarrow> u32 \<Rightarrow> rb_client result" where
  "rbt_node s k = (case client_RBT s k of None \<Rightarrow> Inl UseAfterFree | Some r \<Rightarrow> Inr r)"

lemma rbt_node_simps [simp]:
  "client_RBT s k = None \<Longrightarrow> rbt_node s k = Inl UseAfterFree" "client_RBT s k = Some r \<Longrightarrow> rbt_node s k = Inr r"
  by (simp_all add: rbt_node_def)

text \<open>\<open>write_record\<close> faults when the message cannot be encoded in its buffer's memory.\<close>

definition send :: "server_info \<Rightarrow> sockaddr \<Rightarrow> comm_struct_t \<Rightarrow> server_info" where
  "send s addr m = s\<lparr>outbox := outbox s @ [(addr, m)]\<rparr>"

section \<open>Kernel timers\<close>

definition timer_delete :: "server_info \<Rightarrow> nat \<Rightarrow> server_info" where
  "timer_delete s t = s\<lparr>timers := (timers s)(t := None)\<rparr>"

text \<open>
  \<open>start_oneshot_timer\<close> and \<open>start_recurring_timer\<close> (\<open>common.c\<close>) create the timer only
  when the field is 0: an existing timer is re-armed and keeps the signal it was
  created with.  Arming a timer that does not exist ends the process.  The identifiers handed
  out by \<open>timer_create\<close> are the numbers from \<open>next_timer\<close> on, which is positive when the
  server starts: like the code, the model takes a field 0 to mean that there is no timer.
\<close>

definition start_timer :: "server_info \<Rightarrow> ptr \<Rightarrow> u8 \<Rightarrow> timer_signal \<Rightarrow> bool \<Rightarrow> server_info result" where
  "start_timer s gp interval sigval recurring =
     bindE (grp s gp) (\<lambda>g.
     bindE (if timer_id g = 0
            then bindE (upd_grp (s\<lparr>timers := (timers s)(next_timer s \<mapsto>
                            \<lparr>kt_signal = sigval, kt_sival = gp, kt_interval = 0, kt_recurring = False\<rparr>),
                          next_timer := next_timer s + 1\<rparr>) gp (\<lambda>g. g\<lparr>timer_id := next_timer s\<rparr>))
                       (\<lambda>s1. Inr (s1, next_timer s))
            else Inr (s, timer_id g)) (\<lambda>(s1, t).
     case timers s1 t of
       None \<Rightarrow> Inl ProcExit
     | Some k \<Rightarrow> Inr (s1\<lparr>timers := (timers s1)(t \<mapsto> k\<lparr>kt_interval := interval, kt_recurring := recurring\<rparr>)\<rparr>)))"

definition start_oneshot_timer :: "server_info \<Rightarrow> ptr \<Rightarrow> u8 \<Rightarrow> timer_signal \<Rightarrow> server_info result" where
  "start_oneshot_timer s gp interval sigval = start_timer s gp interval sigval False"

definition start_recurring_timer :: "server_info \<Rightarrow> ptr \<Rightarrow> u8 \<Rightarrow> timer_signal \<Rightarrow> server_info result" where
  "start_recurring_timer s gp interval sigval = start_timer s gp interval sigval True"

section \<open>Echo requests\<close>

definition initialize_echo_request :: echo_req_t where
  "initialize_echo_request = \<lparr>eq_group_name = None, eq_num_clients = 0, eq_client_ids = []\<rparr>"

definition send_echo_request :: "server_info \<Rightarrow> sockaddr \<Rightarrow> string \<Rightarrow> server_info result" where
  "send_echo_request s addr grp_name =
     bindE (copy_gname grp_name) (\<lambda>g.
     Inr (send s addr \<lparr>msg_id = echo_req, idv = Echo_req (initialize_echo_request\<lparr>eq_group_name := g\<rparr>)\<rparr>))"

section \<open>Basic facts\<close>

named_theorems srv_simps "reading the server state"

lemma grp_Inr [simp]: "grp s p = Inr g \<longleftrightarrow> groups s p = Some g"
  by (simp add: grp_def)

lemma cl_Inr [simp]: "cl s p = Inr c \<longleftrightarrow> clients s p = Some c"
  by (simp add: cl_def)

lemma grp_Some [simp]: "groups s p = Some g \<Longrightarrow> grp s p = Inr g"
  by simp

lemma cl_Some [simp]: "clients s p = Some c \<Longrightarrow> cl s p = Inr c"
  by simp

lemma upd_grp_Some [simp]: "groups s p = Some g \<Longrightarrow> upd_grp s p f = Inr (s\<lparr>groups := (groups s)(p \<mapsto> f g)\<rparr>)"
  by (simp add: upd_grp_def)

lemma upd_cl_Some [simp]: "clients s p = Some c \<Longrightarrow> upd_cl s p f = Inr (s\<lparr>clients := (clients s)(p \<mapsto> f c)\<rparr>)"
  by (simp add: upd_cl_def)

lemma upd_rbt_Some [simp]: "client_RBT s k = Some r \<Longrightarrow> upd_rbt s k f = Inr (s\<lparr>client_RBT := (client_RBT s)(k \<mapsto> f r)\<rparr>)"
  by (simp add: upd_rbt_def)

lemma send_simps [simp]:
  "groups (send s a m) = groups s" "clients (send s a m) = clients s" "client_RBT (send s a m) = client_RBT s"
  "server_list (send s a m) = server_list s" "next_ptr (send s a m) = next_ptr s" "timers (send s a m) = timers s"
  "outbox (send s a m) = outbox s @ [(a, m)]" "is_stdby_available (send s a m) = is_stdby_available s"
  "task_id (send s a m) = task_id s" "secondary_server (send s a m) = secondary_server s"
  by (simp_all add: send_def)

end
