(* ===== verification/CommonHelpers.thy ===== *)
theory CommonHelpers
  imports ServerDS
begin

text \<open>
  The helpers of \<open>src/src/common.c\<close> both programs start with: the names of causes, the
  socket of the process, its timers and signals, the folders it makes, its capability.  What the operating system
  answers (\<open>getaddrinfo\<close>, \<open>socket\<close>, \<open>bind\<close>, \<open>fcntl\<close>, \<open>ioctl\<close>, \<open>stat\<close>, \<open>rand\<close>) is a parameter.
\<close>

section \<open>Causes\<close>

definition enum_to_str :: "u32 \<Rightarrow> string" where
  "enum_to_str cause = (if cause = ACCEPTED then ''ACCEPTED'' else if cause = REJECTED then ''REJECTED'' else ''UNKNOWN'')"

definition str_to_enum :: "string \<Rightarrow> u32" where
  "str_to_enum str = (if str = ''ACCEPTED'' then ACCEPTED else if str = ''REJECTED'' then REJECTED else UNKNOWN)"

text \<open>The name of a cause of the enumeration names that cause; any other value is unknown.\<close>

lemma str_to_enum_to_str: "str_to_enum (enum_to_str c) = (if c \<in> {ACCEPTED, REJECTED} then c else UNKNOWN)"
  by (auto simp: str_to_enum_def enum_to_str_def)

lemma enum_to_str_to_enum: "enum_to_str (str_to_enum str) = str \<longleftrightarrow> str \<in> {''ACCEPTED'', ''REJECTED'', ''UNKNOWN''}"
  by (auto simp: str_to_enum_def enum_to_str_def)

section \<open>The socket\<close>

abbreviation CLIENT_MODE :: int where
  "CLIENT_MODE \<equiv> 101"

abbreviation SERVER_MODE :: int where
  "SERVER_MODE \<equiv> 102"

definition IS_SERVER :: "int \<Rightarrow> int" where
  "IS_SERVER oper = (if SERVER_MODE = oper then 1 else 0)"

definition IS_CLIENT :: "int \<Rightarrow> int" where
  "IS_CLIENT oper = (if CLIENT_MODE = oper then 1 else 0)"

text \<open>The descriptors of the process: the open ones, and the addresses they are bound to.\<close>

record 'a descriptors =
  next_fd :: nat
  open_fds :: "nat set"
  bound :: "nat \<rightharpoonup> 'a"

text \<open>
  The loop over the addresses that \<open>getaddrinfo\<close> found: \<open>sock\<close> and \<open>bindable\<close> say for which
  of them \<open>socket\<close> and \<open>bind\<close> succeed.  A socket that cannot be bound stays open, and when
  no address is left the process ends.
\<close>

fun bind_loop :: "('a \<Rightarrow> bool) \<Rightarrow> ('a \<Rightarrow> bool) \<Rightarrow> int \<Rightarrow> 'a descriptors \<Rightarrow> 'a list \<Rightarrow> (int \<times> 'a descriptors) result" where
  "bind_loop sock bindable oper_mode d [] = Inl ProcExit"
| "bind_loop sock bindable oper_mode d (rp # rps) =
     (if \<not> sock rp then bind_loop sock bindable oper_mode d rps
      else let sfd = next_fd d; d1 = d\<lparr>next_fd := sfd + 1, open_fds := insert sfd (open_fds d)\<rparr>
        in if IS_SERVER oper_mode \<noteq> 0 \<or> IS_CLIENT oper_mode \<noteq> 0
           then if bindable rp then Inr (int sfd, d1\<lparr>bound := (bound d1)(sfd \<mapsto> rp)\<rparr>)
                else bind_loop sock bindable oper_mode d1 rps
           else Inr (int sfd, d1))"

definition create_and_bind :: "(string \<Rightarrow> string \<Rightarrow> 'a list option) \<Rightarrow> ('a \<Rightarrow> bool) \<Rightarrow> ('a \<Rightarrow> bool) \<Rightarrow> 'a descriptors \<Rightarrow>
    string \<Rightarrow> string \<Rightarrow> int \<Rightarrow> (int \<times> 'a descriptors) result" where
  "create_and_bind getaddrinfo sock bindable d machine_addr machine_port oper_mode =
     (case getaddrinfo machine_addr machine_port of
        None \<Rightarrow> Inr (- 1, d)
      | Some result \<Rightarrow> bind_loop sock bindable oper_mode d result)"

lemma bind_loop_first:
  assumes "oper_mode \<in> {SERVER_MODE, CLIENT_MODE}" "\<forall>rp\<in>set before. \<not> (sock rp \<and> bindable rp)" "sock rp" "bindable rp"
  shows "\<exists>n. n = next_fd d + length (filter sock before) \<and>
    bind_loop sock bindable oper_mode d (before @ rp # after) =
      Inr (int n, d\<lparr>next_fd := n + 1, open_fds := open_fds d \<union> {next_fd d..n}, bound := (bound d)(n \<mapsto> rp)\<rparr>)"
  using assms(2)
proof (induction before arbitrary: d)
  case Nil
  then show ?case using assms(1,3,4) by (auto simp: IS_SERVER_def IS_CLIENT_def Let_def fun_upd_def)
next
  case (Cons q qs)
  show ?case
  proof (cases "sock q")
    case True
    let ?d = "d\<lparr>next_fd := next_fd d + 1, open_fds := insert (next_fd d) (open_fds d)\<rparr>"
    have "\<exists>n. n = next_fd ?d + length (filter sock qs) \<and>
      bind_loop sock bindable oper_mode ?d (qs @ rp # after) =
        Inr (int n, ?d\<lparr>next_fd := n + 1, open_fds := open_fds ?d \<union> {next_fd ?d..n}, bound := (bound ?d)(n \<mapsto> rp)\<rparr>)"
      by (rule Cons.IH) (use Cons.prems in simp)
    moreover have "insert (next_fd d) (open_fds d) \<union> {next_fd d + 1..n} = open_fds d \<union> {next_fd d..n}" if "next_fd d < n" for n
      using that by (auto simp: atLeastAtMost_insertL [symmetric])
    ultimately show ?thesis using True Cons.prems assms(1) by (auto simp: IS_SERVER_def IS_CLIENT_def Let_def fun_upd_def)
  next
    case False
    then show ?thesis using Cons.IH [of d] Cons.prems by simp
  qed
qed

text \<open>
  Server and client get a socket bound to the first address that works; the sockets of the
  addresses tried before stay open.
\<close>

lemma create_and_bind_first:
  assumes "getaddrinfo addr port = Some (before @ rp # after)" "oper_mode \<in> {SERVER_MODE, CLIENT_MODE}"
    "\<forall>rp\<in>set before. \<not> (sock rp \<and> bindable rp)" "sock rp" "bindable rp"
  shows "\<exists>n d'. create_and_bind getaddrinfo sock bindable d addr port oper_mode = Inr (int n, d') \<and> bound d' n = Some rp \<and>
    n = next_fd d + length (filter sock before) \<and> open_fds d' = open_fds d \<union> {next_fd d..n}"
  using bind_loop_first [OF assms(2-5), of d after] assms(1) by (auto simp: create_and_bind_def)

text \<open>When no address works the process ends; the callers' test for -1 is for names without addresses.\<close>

lemma create_and_bind_none:
  assumes "getaddrinfo addr port = Some rps" "oper_mode \<in> {SERVER_MODE, CLIENT_MODE}" "\<forall>rp\<in>set rps. \<not> (sock rp \<and> bindable rp)"
  shows "create_and_bind getaddrinfo sock bindable d addr port oper_mode = Inl ProcExit"
proof -
  have "bind_loop sock bindable oper_mode d rps = Inl ProcExit"
    using assms(2,3) by (induction rps arbitrary: d) (auto simp: IS_SERVER_def IS_CLIENT_def Let_def)
  then show ?thesis using assms(1) by (simp add: create_and_bind_def)
qed

text \<open>
  \<open>getfl\<close> and \<open>setfl\<close> are the answers of \<open>fcntl\<close>, \<open>nonblock\<close> the platform's \<open>O_NONBLOCK\<close>; the
  result is the answer of the routine and the flags the descriptor has afterwards.
\<close>

definition make_socket_non_blocking :: "u32 \<Rightarrow> (int \<Rightarrow> u32) \<Rightarrow> (int \<Rightarrow> u32 \<Rightarrow> bool) \<Rightarrow> int \<Rightarrow> int \<times> u32 option" where
  "make_socket_non_blocking nonblock getfl setfl sfd =
     (let flags = getfl sfd
      in if flags = - 1 then (- 1, None)
         else if \<not> setfl sfd (or flags nonblock) then (- 1, None)
         else (1, Some (or flags nonblock)))"

lemma make_socket_non_blocking_sets:
  assumes "make_socket_non_blocking nonblock getfl setfl sfd = (1, f)"
  obtains v where "f = Some v" "and v nonblock = nonblock" "and v (getfl sfd) = getfl sfd"
proof -
  have "f = Some (or (getfl sfd) nonblock)"
    using assms by (auto simp: make_socket_non_blocking_def Let_def split: if_splits)
  moreover have "and (or (getfl sfd) nonblock) nonblock = nonblock" "and (or (getfl sfd) nonblock) (getfl sfd) = getfl sfd"
    by (simp_all add: bit_eq_iff bit_and_iff bit_or_iff)
  ultimately show ?thesis by (rule that)
qed

text \<open>
  The address of a device: its name is copied into 15 of the 16 bytes of the request, so a
  name without room for its end leaves the request without one; \<open>ioctl\<close> fills in the address.
\<close>

definition get_my_ip :: "(string \<Rightarrow> sockaddr) \<Rightarrow> string \<Rightarrow> sockaddr result" where
  "get_my_ip ioctl device =
     (if 15 \<le> length device then Inl Uninit
      else Inr \<lparr>sa_family = sa_family (ioctl device), sa_data = take 14 (sa_data (ioctl device))\<rparr>)"

lemma get_my_ip_copies: "length device < 15 \<Longrightarrow> length (sa_data (ioctl device)) = 14 \<Longrightarrow> get_my_ip ioctl device = Inr (ioctl device)"
  by (simp add: get_my_ip_def)

section \<open>Timers and signals\<close>

text \<open>A time of zero disarms the timer, which stays allocated; without a timer the process ends.\<close>

definition stop_timer :: "server_info \<Rightarrow> nat \<Rightarrow> server_info result" where
  "stop_timer s t = (case timers s t of
     None \<Rightarrow> Inl ProcExit
   | Some k \<Rightarrow> Inr (s\<lparr>timers := (timers s)(t \<mapsto> k\<lparr>kt_interval := 0, kt_recurring := False\<rparr>)\<rparr>))"

text \<open>The set of blocked signals of the process.\<close>

definition mask_signal :: "u32 set \<Rightarrow> u32 \<Rightarrow> bool \<Rightarrow> u32 set" where
  "mask_signal blocked sigval flag = (if flag then insert sigval blocked else blocked - {sigval})"

lemma mask_signal_restores: "sigval \<notin> blocked \<Longrightarrow> mask_signal (mask_signal blocked sigval True) sigval False = blocked"
  by (simp add: mask_signal_def)

section \<open>Folders\<close>

text \<open>The command is printed into an array of \<open>len + 10\<close> characters.\<close>

definition create_folder :: "string \<Rightarrow> string result" where
  "create_folder path =
     (let len = length path; cmd = ''mkdir -p '' @ path
      in if len + 10 < length cmd + 1 then Inl OutOfBounds else Inr cmd)"

definition check_and_create_folder :: "(string \<Rightarrow> bool) \<Rightarrow> string \<Rightarrow> string option result" where
  "check_and_create_folder present path =
     (if present path then Inr None else bindE (create_folder path) (\<lambda>cmd. Inr (Some cmd)))"

text \<open>The array is as large as the command with its end, to the byte.\<close>

lemma check_and_create_folder_fits:
  "check_and_create_folder present path = Inr (if present path then None else Some (''mkdir -p '' @ path))"
  by (simp add: check_and_create_folder_def create_folder_def Let_def)

section \<open>Capability\<close>

text \<open>\<open>r\<close> is what \<open>rand\<close> answers, which is not negative.\<close>

definition generate_random_capability :: "nat \<Rightarrow> u32" where
  "generate_random_capability r = of_nat (r mod 3 + 1)"

lemma generate_random_capability_range: "generate_random_capability r \<in> {1, 2, 3}"
proof -
  have "r mod 3 < 3" by simp
  then have "r mod 3 = 0 \<or> r mod 3 = 1 \<or> r mod 3 = 2" by linarith
  then show ?thesis by (auto simp: generate_random_capability_def)
qed

end
