(* ===== verification/ServerLL.thy ===== *)
theory ServerLL
  imports ServerDS
begin

text \<open>
  \<open>src/src/server_ll.c\<close>: the server's lists of groups, of the clients of a group, and of
  the groups of a client.
\<close>

section \<open>Groups of a client\<close>

text \<open>
  The list of a client starts empty (\<open>allocate_rb_info\<close>) and grows at its head
  (\<open>allocate_rb_cl_node\<close>, whose caller stores the group).
\<close>

definition allocate_rb_info :: "ptr list" where
  "allocate_rb_info = []"

definition allocate_rb_cl_node :: "ptr list \<Rightarrow> ptr \<Rightarrow> ptr list" where
  "allocate_rb_cl_node l gp = gp # l"

fun search_rb_grp_node :: "server_info \<Rightarrow> ptr list \<Rightarrow> string \<Rightarrow> ptr option result" where
  "search_rb_grp_node s [] grpname = Inr None"
| "search_rb_grp_node s (p # ps) grpname =
     bindE (grp s p) (\<lambda>node.
       if strcmp_eq (group_name node) grpname then Inr (Some p) else search_rb_grp_node s ps grpname)"

text \<open>The shortened list and the group, or \<open>None\<close> when no group has the name.\<close>

fun remove_rb_grp_node :: "server_info \<Rightarrow> ptr list \<Rightarrow> string \<Rightarrow> (ptr list \<times> ptr) option result" where
  "remove_rb_grp_node s [] grpname = Inr None"
| "remove_rb_grp_node s (p # ps) grpname =
     bindE (grp s p) (\<lambda>node.
       if strcmp_eq (group_name node) grpname then Inr (Some (ps, p))
       else bindE (remove_rb_grp_node s ps grpname) (\<lambda>r.
            Inr (map_option (\<lambda>(l, q). (p # l, q)) r)))"

section \<open>Clients of a group\<close>

definition allocate_mcast_client_list :: "server_info \<Rightarrow> ptr \<Rightarrow> server_info result" where
  "allocate_mcast_client_list s gp = upd_grp s gp (\<lambda>g. g\<lparr>client_info := Some []\<rparr>)"

text \<open>The fields of the new client node are set by the caller.\<close>

definition blank_client :: mcast_client_node where
  "blank_client = \<lparr>client_id = 0, client_addr = \<lparr>sa_family = 0, sa_data = []\<rparr>, cl_av_status = CLFREE\<rparr>"

definition allocate_mcast_client_node :: "server_info \<Rightarrow> ptr \<Rightarrow> (ptr \<times> server_info) result" where
  "allocate_mcast_client_node s gp =
     bindE (grp s gp) (\<lambda>g.
     bindE (if client_info g = None then allocate_mcast_client_list s gp else Inr s) (\<lambda>s1.
     let new = next_ptr s1; s2 = s1\<lparr>clients := (clients s1)(new \<mapsto> blank_client), next_ptr := next_ptr s1 + 1\<rparr>
     in bindE (upd_grp s2 gp (\<lambda>g. g\<lparr>number_of_clients := number_of_clients g + 1,
                                    client_info := map_option (\<lambda>l. new # l) (client_info g)\<rparr>)) (\<lambda>s3.
        Inr (new, s3))))"

definition deallocate_mcast_client_node :: "server_info \<Rightarrow> ptr \<Rightarrow> ptr \<Rightarrow> server_info result" where
  "deallocate_mcast_client_node s gp node =
     bindE (upd_grp s gp (\<lambda>g. g\<lparr>client_info := map_option (remove1 node) (client_info g)\<rparr>)) (\<lambda>s1.
     Inr (s1\<lparr>clients := (clients s1)(node := None)\<rparr>))"

text \<open>The search loops over a list of client nodes.\<close>

fun find_client :: "server_info \<Rightarrow> ptr list \<Rightarrow> u32 \<Rightarrow> ptr option result" where
  "find_client s [] target_id = Inr None"
| "find_client s (p # ps) target_id =
     bindE (cl s p) (\<lambda>c. if client_id c = target_id then Inr (Some p) else find_client s ps target_id)"

definition search_client_in_group_node :: "server_info \<Rightarrow> ptr \<Rightarrow> u32 \<Rightarrow> ptr option result" where
  "search_client_in_group_node s gp target_id =
     bindE (grp s gp) (\<lambda>g.
     case client_info g of None \<Rightarrow> Inr None | Some l \<Rightarrow> find_client s l target_id)"

text \<open>A null group is reported and ignored.\<close>

definition remove_client_from_mcast_group_node :: "server_info \<Rightarrow> ptr option \<Rightarrow> u32 \<Rightarrow> (bool \<times> server_info) result" where
  "remove_client_from_mcast_group_node s gpo target_id =
     (case gpo of
        None \<Rightarrow> Inr (False, s)
      | Some gp \<Rightarrow>
          bindE (grp s gp) (\<lambda>g.
          case client_info g of
            None \<Rightarrow> Inr (False, s)
          | Some l \<Rightarrow>
              bindE (find_client s l target_id) (\<lambda>r.
              case r of
                None \<Rightarrow> Inr (False, s)
              | Some node \<Rightarrow>
                  bindE (deallocate_mcast_client_node s gp node) (\<lambda>s1.
                  bindE (upd_grp s1 gp (\<lambda>g. g\<lparr>number_of_clients := number_of_clients g - 1,
                      client_info := (if client_info g = Some [] then None else client_info g)\<rparr>)) (\<lambda>s2.
                  Inr (True, s2))))))"

definition ADD_CLIENT_IN_GROUP :: "server_info \<Rightarrow> ptr \<Rightarrow> sockaddr \<Rightarrow> u32 \<Rightarrow> server_info result" where
  "ADD_CLIENT_IN_GROUP s gp addr cid =
     bindE (allocate_mcast_client_node s gp) (\<lambda>(node, s1).
     upd_cl s1 node (\<lambda>c. c\<lparr>client_addr := addr, client_id := cid, cl_av_status := CLFREE\<rparr>))"

section \<open>Groups of the server\<close>

definition allocate_mcast_group_list :: "server_info \<Rightarrow> server_info" where
  "allocate_mcast_group_list s = s\<lparr>server_list := [], task_id := 1, is_stdby_available := False\<rparr>"

definition allocate_server_info :: "server_info \<Rightarrow> server_info" where
  "allocate_server_info s = allocate_mcast_group_list s"

definition blank_task_set :: mcast_task_set where
  "blank_task_set = \<lparr>distribution_map = Unset, ts_capability = Unset, task_folder_path = Unset,
     number_of_working_clients = 0, num_of_responses_expected = 0\<rparr>"

definition blank_dead :: dead_clients_t where
  "blank_dead = \<lparr>dead_clients = Unset, dead_client_count = 0, dead_clients_file = Unset, dead_file_count = 0\<rparr>"

text \<open>A new group node; what \<open>malloc\<close> leaves unset is blank here.\<close>

definition new_group :: mcast_group_node where
  "new_group = \<lparr>group_name = [], grp_capability = 0, number_of_clients = 0,
     grp_mcast_addr = \<lparr>sin_family = 0, sin_port = 0, s_addr = 0\<rparr>, group_port = 2147483647,
     client_info = None, moderator_client = None, timer_id = 0, heartbeat_remaining = 0,
     group_reachability_index = GROUP_REACHABLE, fsm_state = STATE_NONE, task_type = 0, task_set_filename = Unset,
     task_set_format = 0, task_set_details = blank_task_set, dead_clients_info = blank_dead,
     is_metrics_valid = False, server_metrics = None\<rparr>"

definition allocate_mcast_group_node :: "server_info \<Rightarrow> ptr \<times> server_info" where
  "allocate_mcast_group_node s =
     (let new = next_ptr s
      in (new, s\<lparr>groups := (groups s)(new \<mapsto> new_group), next_ptr := next_ptr s + 1,
                 server_list := new # server_list s\<rparr>))"

definition deallocate_mcast_group_node :: "server_info \<Rightarrow> ptr \<Rightarrow> server_info" where
  "deallocate_mcast_group_node s gp =
     s\<lparr>server_list := remove1 gp (server_list s), groups := (groups s)(gp := None)\<rparr>"

definition ADD_GROUP_IN_LL :: "server_info \<Rightarrow> string \<Rightarrow> sockaddr_in \<Rightarrow> u32 \<Rightarrow> server_info result" where
  "ADD_GROUP_IN_LL s name addr port =
     (let (gp, s1) = allocate_mcast_group_node s
      in upd_grp s1 gp (\<lambda>g. g\<lparr>group_name := name, grp_mcast_addr := addr, group_port := port,
                               moderator_client := None\<rparr>))"

text \<open>
  \<open>get_group_node_by_best_fit\<close>: the scan goes on while groups have no moderator; a group
  of capability 0 is compared with the quotient left by the group before it.  \<open>subtask\<close>
  and \<open>best\<close> are C \<open>int\<close>s assigned from unsigned quotients.
\<close>

fun best_fit_from :: "server_info \<Rightarrow> u32 \<Rightarrow> ptr list \<Rightarrow> u32 \<Rightarrow> u32 \<Rightarrow> ptr option \<Rightarrow> ptr option result" where
  "best_fit_from s task_size [] best subtask res = Inr res"
| "best_fit_from s task_size (p # ps) best subtask res =
     bindE (grp s p) (\<lambda>g.
     if moderator_client g \<noteq> None then Inr res
     else let subtask' = (if grp_capability g \<noteq> 0 then task_size div grp_capability g else subtask)
          in if sint subtask' < sint best
             then best_fit_from s task_size ps subtask' subtask' (Some p)
             else best_fit_from s task_size ps best subtask' res)"

definition get_group_node_by_best_fit :: "server_info \<Rightarrow> u32 \<Rightarrow> ptr option \<Rightarrow> ptr option result" where
  "get_group_node_by_best_fit s task_size prev =
     best_fit_from s task_size (server_list s) 2147483647 2147483647 prev"

text \<open>
  The output parameter is assigned only when a group is found; \<open>prev\<close> is its old value.
  Two characters of the names are compared.
\<close>

fun group_by_name_from :: "server_info \<Rightarrow> string \<Rightarrow> ptr list \<Rightarrow> ptr option \<Rightarrow> ptr option result" where
  "group_by_name_from s name [] prev = Inr prev"
| "group_by_name_from s name (p # ps) prev =
     bindE (grp s p) (\<lambda>g.
     if strncmp_eq (group_name g) name 2 then Inr (Some p) else group_by_name_from s name ps prev)"

definition get_group_node_by_name :: "server_info \<Rightarrow> string \<Rightarrow> ptr option \<Rightarrow> ptr option result" where
  "get_group_node_by_name s name prev = group_by_name_from s name (server_list s) prev"

fun group_by_timerid_from :: "server_info \<Rightarrow> nat \<Rightarrow> ptr list \<Rightarrow> ptr option \<Rightarrow> ptr option result" where
  "group_by_timerid_from s t [] prev = Inr prev"
| "group_by_timerid_from s t (p # ps) prev =
     bindE (grp s p) (\<lambda>g. if t = timer_id g then Inr (Some p) else group_by_timerid_from s t ps prev)"

text \<open>The timer pointer is the address of some group's \<open>timer_id\<close> field.\<close>

definition get_group_node_by_timerid :: "server_info \<Rightarrow> ptr \<Rightarrow> ptr option \<Rightarrow> ptr option result" where
  "get_group_node_by_timerid s timer_ptr prev =
     bindE (grp s timer_ptr) (\<lambda>g0. group_by_timerid_from s (timer_id g0) (server_list s) prev)"

end
