(* ===== verification/ServerMembership.thy ===== *)
theory ServerMembership
  imports ServerLL CommCodec
begin

text \<open>
  Membership on the server (\<open>src/src/server.c\<close>): joining and leaving a group, the
  checkpoints to the backup server and its handling of them, the migration notice.
\<close>

section \<open>Messages to other servers and groups\<close>

fun notify_groups :: "server_info \<Rightarrow> comm_struct_t \<Rightarrow> ptr list \<Rightarrow> server_info result" where
  "notify_groups s m [] = Inr s"
| "notify_groups s m (p # ps) =
     bindE (grp s p) (\<lambda>g. notify_groups (send s (of_in (grp_mcast_addr g)) m) m ps)"

definition send_new_server_info_to_all_groups :: "server_info \<Rightarrow> server_info result" where
  "send_new_server_info_to_all_groups s =
     notify_groups s \<lparr>msg_id = new_server_notify,
        idv = New_server_notify \<lparr>ns_new_server_id = calc_key (Some (of_in (secondary_server s)))\<rparr>\<rparr> (server_list s)"

definition send_checkpoint :: "u32 \<Rightarrow> server_info \<Rightarrow> sockaddr \<Rightarrow> string \<Rightarrow> u32 \<Rightarrow> server_info result" where
  "send_checkpoint chkpoint_type s clientAddr gname capability =
     bindE (copy_gname gname) (\<lambda>gn.
     let a = as_in clientAddr
     in Inr (send s (of_in (secondary_server s)) \<lparr>msg_id = checkpoint_req,
          idv = Checkpoint_req \<lparr>cp_chkpoint_type = chkpoint_type, cp_num_groups = 1,
            cp_group_ips = [zero_saddr\<lparr>ls_sin_family := sin_family a, ls_sin_port := sin_port a,
                                        ls_s_addr := ucast (s_addr a), ls_group_name := gn\<rparr>],
            cp_capability = capability\<rparr>\<rparr>))"

section \<open>Client information\<close>

text \<open>
  \<open>RBTreeInsert\<close> of a key that is not in the index; the address is copied with
  \<open>strcpy\<close> into the node (14 bytes), where only the copy's end can go wrong.
\<close>

definition index_insert :: "server_info \<Rightarrow> u32 \<Rightarrow> sockaddr \<Rightarrow> ptr \<Rightarrow> u32 \<Rightarrow> server_info result" where
  "index_insert s key addr gp capability =
     bindE (strcpy_bytes (replicate 14 0) (sa_data addr)) (\<lambda>_.
     Inr (s\<lparr>client_RBT := (client_RBT s)(key \<mapsto>
        \<lparr>rbc_capability = capability, rbc_grp_list = allocate_rb_cl_node allocate_rb_info gp,
         rbc_av_status = RBFREE, rbc_is_moderator = False\<rparr>)\<rparr>))"

definition insert_client_info_in_server_DS :: "server_info \<Rightarrow> ptr option \<Rightarrow> sockaddr \<Rightarrow> u32 \<Rightarrow> server_info result" where
  "insert_client_info_in_server_DS s gpo clientAddr capability =
     (case gpo of
        None \<Rightarrow> Inr s
      | Some gp \<Rightarrow>
          bindE (upd_grp s gp (\<lambda>g. g\<lparr>grp_capability := grp_capability g + capability\<rparr>)) (\<lambda>s1.
          let clientID = calc_key (Some clientAddr)
          in bindE (remove_client_from_mcast_group_node s1 gpo clientID) (\<lambda>(_, s2).
             bindE (ADD_CLIENT_IN_GROUP s2 gp clientAddr clientID) (\<lambda>s3.
             if clientID > 0
             then bindE (case client_RBT s3 clientID of
                           None \<Rightarrow> index_insert s3 clientID clientAddr gp capability
                         | Some _ \<Rightarrow> upd_rbt s3 clientID (\<lambda>r. r\<lparr>rbc_grp_list := allocate_rb_cl_node (rbc_grp_list r) gp\<rparr>)) (\<lambda>s4.
                  if is_stdby_available s4
                  then bindE (grp s4 gp) (\<lambda>g. send_checkpoint ADD_CHECKPOINT s4 clientAddr (group_name g) capability)
                  else Inr s4)
             else Inr s3))))"

text \<open>\<open>RBDelete\<close>: the node is unlinked and freed.\<close>

definition index_delete :: "server_info \<Rightarrow> u32 \<Rightarrow> server_info" where
  "index_delete s key = s\<lparr>client_RBT := (client_RBT s)(key := None)\<rparr>"

text \<open>The capability for the checkpoint is read through the node's pointer once more at the end.\<close>

definition remove_client_info_from_server_DS :: "server_info \<Rightarrow> sockaddr \<Rightarrow> string \<Rightarrow> (bool \<times> server_info) result" where
  "remove_client_info_from_server_DS s clientAddr gname =
     (let clientID = calc_key (Some clientAddr)
      in if clientID > 0
         then (case client_RBT s clientID of
                 None \<Rightarrow> Inr (False, s)
               | Some rbNode \<Rightarrow>
                   bindE (remove_rb_grp_node s (rbc_grp_list rbNode) gname) (\<lambda>r.
                   case r of
                     None \<Rightarrow> Inr (False, s)
                   | Some (l, gp) \<Rightarrow>
                       bindE (upd_rbt s clientID (\<lambda>r. r\<lparr>rbc_grp_list := l\<rparr>)) (\<lambda>s1.
                       bindE (upd_grp s1 gp (\<lambda>g. g\<lparr>grp_capability := grp_capability g - rbc_capability rbNode\<rparr>)) (\<lambda>s2.
                       bindE (remove_client_from_mcast_group_node s2 (Some gp) clientID) (\<lambda>(_, s3).
                       let s4 = (if l = [] then index_delete s3 clientID else s3)
                       in if is_stdby_available s4
                          then bindE (rbt_node s4 clientID) (\<lambda>rbNode.
                               bindE (send_checkpoint DEL_CHECKPOINT s4 clientAddr gname (rbc_capability rbNode)) (\<lambda>s5.
                               Inr (True, s5)))
                          else Inr (True, s4))))))
         else Inr (False, s))"

section \<open>Requests\<close>

definition handle_checkpoint_req :: "server_info \<Rightarrow> sockaddr \<Rightarrow> checkpoint_req_t \<Rightarrow> server_info result" where
  "handle_checkpoint_req s peer req =
     bindE (at (cp_group_ips req) 0) (\<lambda>gi.
     let client_ip = of_in \<lparr>sin_family = ls_sin_family gi, sin_port = ls_sin_port gi, s_addr = ucast (ls_s_addr gi)\<rparr>
     in bindE (if cp_chkpoint_type req = ADD_CHECKPOINT
               then bindE (nonnull (ls_group_name gi)) (\<lambda>gname.
                    bindE (get_group_node_by_name s gname None) (\<lambda>gpo.
                    insert_client_info_in_server_DS s gpo client_ip (cp_capability req)))
               else if cp_chkpoint_type req = DEL_CHECKPOINT
               then bindE (nonnull (ls_group_name gi)) (\<lambda>gname.
                    bindE (remove_client_info_from_server_DS s client_ip gname) (\<lambda>(_, s1). Inr s1))
               else Inr s) (\<lambda>s2.
        if is_stdby_available s2
        then bindE (nonnull (ls_group_name gi)) (\<lambda>gname.
             send_checkpoint (cp_chkpoint_type req) s2 client_ip gname (cp_capability req))
        else Inr s2))"

definition handle_leave_req :: "server_info \<Rightarrow> sockaddr \<Rightarrow> leave_req_t \<Rightarrow> server_info result" where
  "handle_leave_req s peer req =
     bindE (at (lq_group_ids req) 0) (\<lambda>gid.
     bindE (nonnull gid) (\<lambda>gname.
     bindE (remove_client_info_from_server_DS s peer gname) (\<lambda>(delete_status, s1).
     bindE (copy_gname gname) (\<lambda>gn.
     Inr (send s1 peer \<lparr>msg_id = leave_response,
        idv = Leave_rsp \<lparr>lr_num_groups = 1, lr_group_ids = [gn],
                         lr_cause = (if delete_status then ACCEPTED else REJECTED)\<rparr>\<rparr>)))))"

text \<open>
  One pass of the loop of \<open>handle_join_req\<close>: the state, the group pointer, which keeps its
  value from one pass to the next, and the entry of the response.
\<close>

definition join_step :: "server_info \<Rightarrow> sockaddr \<Rightarrow> join_req_t \<Rightarrow> nat \<Rightarrow> ptr option \<Rightarrow> (server_info \<times> ptr option \<times> l_saddr_in_t) result" where
  "join_step s peer req i group_node =
     bindE (at (jq_group_ids req) i) (\<lambda>gid.
     bindE (nonnull gid) (\<lambda>gname.
     bindE (get_group_node_by_name s gname group_node) (\<lambda>gpo.
     bindE (case gpo of
              None \<Rightarrow> Inr (s, zero_saddr\<lparr>ls_cause := REJECTED\<rparr>)
            | Some gp \<Rightarrow>
                bindE (insert_client_info_in_server_DS s gpo peer (jq_capability req)) (\<lambda>s1.
                bindE (grp s1 gp) (\<lambda>g.
                Inr (s1, zero_saddr\<lparr>ls_sin_family := sin_family (grp_mcast_addr g),
                                   ls_sin_port := sin_port (grp_mcast_addr g),
                                   ls_s_addr := ucast (s_addr (grp_mcast_addr g)),
                                   ls_grp_port := group_port g, ls_cause := ACCEPTED\<rparr>)))) (\<lambda>(s2, e).
     bindE (copy_gname gname) (\<lambda>gn.
     Inr (s2, gpo, e\<lparr>ls_group_name := gn\<rparr>))))))"

text \<open>
  The loop counts in 8 bits up to a 32-bit bound: \<open>None\<close> when it does not end.
\<close>

partial_function (option) join_loop ::
  "sockaddr \<Rightarrow> join_req_t \<Rightarrow> u8 \<Rightarrow> server_info \<Rightarrow> ptr option \<Rightarrow> l_saddr_in_t list \<Rightarrow> (server_info \<times> l_saddr_in_t list) result option"
where
  "join_loop peer req i s group_node ips =
     (if ucast i < jq_num_groups req
      then case join_step s peer req (unat i) group_node of
             Inl e \<Rightarrow> Some (Inl e)
           | Inr (s1, gpo, e) \<Rightarrow> join_loop peer req (i + 1) s1 gpo (ips[unat i := e])
      else Some (Inr (s, ips)))"

declare join_loop.simps [code]

definition handle_join_req :: "server_info \<Rightarrow> sockaddr \<Rightarrow> join_req_t \<Rightarrow> server_info result option" where
  "handle_join_req s peer req =
     map_option (\<lambda>r. bindE r (\<lambda>(s1, ips).
         Inr (send s1 peer \<lparr>msg_id = join_response,
                idv = Join_rsp \<lparr>jr_num_groups = jq_num_groups req, jr_group_ips = ips\<rparr>\<rparr>)))
       (join_loop peer req 0 s None (replicate (unat (jq_num_groups req)) zero_saddr))"

end
