(* ===== verification/MembershipInv.thy ===== *)
theory MembershipInv
  imports ServerMembership
begin

text \<open>
  What the join and leave handlers keep: the heap of client nodes is well-formed, and the
  two views of membership, the client list of each group and the group list of each
  client, agree with each other and with the capability of the group.
\<close>

section \<open>Client lists of a group\<close>

definition clist :: "mcast_group_node \<Rightarrow> ptr list" where
  "clist g = (case client_info g of None \<Rightarrow> [] | Some l \<Rightarrow> l)"

definition cid :: "server_info \<Rightarrow> ptr \<Rightarrow> u32" where
  "cid s c = client_id (the (clients s c))"

definition cids :: "server_info \<Rightarrow> mcast_group_node \<Rightarrow> u32 list" where
  "cids s g = map (cid s) (clist g)"

text \<open>The nodes of every group are allocated, not shared, and counted; no list is empty.\<close>

definition wf_heap :: "server_info \<Rightarrow> bool" where
  "wf_heap s \<longleftrightarrow>
     (\<forall>gp g. groups s gp = Some g \<longrightarrow> gp < next_ptr s \<and> client_info g \<noteq> Some [] \<and> distinct (clist g) \<and>
        (\<forall>c\<in>set (clist g). clients s c \<noteq> None) \<and> number_of_clients g = int (length (clist g))) \<and>
     (\<forall>gp gp' g g'. groups s gp = Some g \<longrightarrow> groups s gp' = Some g' \<longrightarrow> gp \<noteq> gp' \<longrightarrow>
        set (clist g) \<inter> set (clist g') = {}) \<and>
     (\<forall>c. clients s c \<noteq> None \<longrightarrow> c < next_ptr s)"

lemma wf_heapD:
  assumes "wf_heap s" "groups s gp = Some g"
  shows "gp < next_ptr s" "client_info g \<noteq> Some []" "distinct (clist g)"
    "\<And>c. c \<in> set (clist g) \<Longrightarrow> clients s c \<noteq> None" "number_of_clients g = int (length (clist g))"
    "\<And>gp' g'. groups s gp' = Some g' \<Longrightarrow> gp \<noteq> gp' \<Longrightarrow> set (clist g) \<inter> set (clist g') = {}"
    "\<And>c. clients s c \<noteq> None \<Longrightarrow> c < next_ptr s"
  using assms unfolding wf_heap_def by blast+

section \<open>Searching\<close>

lemma find_client_ok:
  assumes "\<forall>c\<in>set l. clients s c \<noteq> None"
  shows "\<exists>r. find_client s l k = Inr r \<and>
    (case r of None \<Rightarrow> k \<notin> cid s ` set l | Some c \<Rightarrow> c \<in> set l \<and> cid s c = k)"
  using assms
proof (induction l)
  case (Cons c l)
  then obtain n where n: "clients s c = Some n" by auto
  then show ?case using Cons by (auto simp: cid_def split: option.splits)
qed simp

section \<open>Effects on the heap\<close>

text \<open>One group is replaced, together with client nodes that no other group has.\<close>

lemma wf_heap_update:
  assumes wf: "wf_heap s" and g: "groups s gp = Some g" and gs: "groups s' = (groups s)(gp \<mapsto> g')"
    and nx: "next_ptr s \<le> next_ptr s'" and cs: "\<And>c. clients s' c \<noteq> None \<Longrightarrow> c < next_ptr s'"
    and g': "client_info g' \<noteq> Some []" "distinct (clist g')" "\<forall>c\<in>set (clist g'). clients s' c \<noteq> None"
      "number_of_clients g' = int (length (clist g'))"
    and oth: "\<And>p h c. p \<noteq> gp \<Longrightarrow> groups s p = Some h \<Longrightarrow> c \<in> set (clist h) \<Longrightarrow> clients s' c \<noteq> None \<and> c \<notin> set (clist g')"
  shows "wf_heap s'"
  unfolding wf_heap_def
proof (intro conjI allI impI)
  fix p h assume h: "groups s' p = Some h"
  have "p < next_ptr s' \<and> client_info h \<noteq> Some [] \<and> distinct (clist h) \<and>
    (\<forall>c\<in>set (clist h). clients s' c \<noteq> None) \<and> number_of_clients h = int (length (clist h))"
  proof (cases "p = gp")
    case True
    then show ?thesis using h gs g' wf_heapD(1) [OF wf g] nx by auto
  next
    case False
    then have p: "groups s p = Some h" using h gs by simp
    show ?thesis using wf_heapD(1-3,5) [OF wf p] oth [OF False p] nx by auto
  qed
  then show "p < next_ptr s'" "client_info h \<noteq> Some []" "distinct (clist h)"
    "\<forall>c\<in>set (clist h). clients s' c \<noteq> None" "number_of_clients h = int (length (clist h))" by auto
next
  fix p p' h h' assume h: "groups s' p = Some h" "groups s' p' = Some h'" "p \<noteq> p'"
  consider "p = gp" "p' \<noteq> gp" | "p \<noteq> gp" "p' = gp" | "p \<noteq> gp" "p' \<noteq> gp" using h(3) by blast
  then show "set (clist h) \<inter> set (clist h') = {}"
  proof cases
    case 3
    then show ?thesis using wf_heapD(6) [OF wf _ _ h(3)] h(1,2) gs by auto
  qed (use h gs oth [of p h] oth [of p' h'] in auto)
qed (rule cs)

text \<open>Removing the client \<open>k\<close> from a group it is in.\<close>

lemma remove_client_present:
  assumes wf: "wf_heap s" and g: "groups s gp = Some g" and k: "k \<in> set (cids s g)" and d: "distinct (cids s g)"
  shows "\<exists>s' g'. remove_client_from_mcast_group_node s (Some gp) k = Inr (True, s') \<and> wf_heap s' \<and>
    groups s' = (groups s)(gp \<mapsto> g') \<and> cids s' g' = remove1 k (cids s g) \<and>
    g' = g\<lparr>number_of_clients := number_of_clients g', client_info := client_info g'\<rparr> \<and>
    (\<forall>gp' h. gp' \<noteq> gp \<longrightarrow> groups s gp' = Some h \<longrightarrow> cids s' h = cids s h) \<and>
    s' = s\<lparr>groups := groups s', clients := clients s'\<rparr>"
proof -
  note W = wf_heapD [OF wf g]
  obtain l where l: "client_info g = Some l" "clist g = l"
    using k by (cases "client_info g") (auto simp: cids_def clist_def)
  obtain r where r: "find_client s l k = Inr r"
    "case r of None \<Rightarrow> k \<notin> cid s ` set l | Some c \<Rightarrow> c \<in> set l \<and> cid s c = k"
    using find_client_ok [of l s k] W(4) l by auto
  then obtain c where c: "find_client s l k = Inr (Some c)" "c \<in> set l" "cid s c = k"
    using k l by (cases r) (auto simp: cids_def)
  let ?l = "remove1 c l"
  define g' where "g' = g\<lparr>number_of_clients := number_of_clients g - 1, client_info := if ?l = [] then None else Some ?l\<rparr>"
  define s' where "s' = s\<lparr>groups := (groups s)(gp \<mapsto> g'), clients := (clients s)(c := None)\<rparr>"
  have op: "remove_client_from_mcast_group_node s (Some gp) k = Inr (True, s')"
    using g l c(1) by (simp add: remove_client_from_mcast_group_node_def deallocate_mcast_client_node_def g'_def s'_def)
  have cl: "clist g' = ?l" by (simp add: g'_def clist_def)
  have dl: "distinct l" using W(3) l by simp
  have cid': "cid s' x = cid s x" if "x \<noteq> c" for x using that by (simp add: cid_def s'_def)
  have other: "c \<notin> set (clist h)" if "groups s gp' = Some h" "gp' \<noteq> gp" for gp' h
    using W(6) [OF that(1)] that(2) c(2) l by auto
  have "map (cid s) ?l = remove1 k (map (cid s) l)"
  proof -
    obtain as bs where sp: "l = as @ c # bs" "c \<notin> set as" "c \<notin> set bs"
      using distinct_split_member [OF c(2) dl] by metis
    have "k \<notin> set (map (cid s) as)" using d sp c(3) by (auto simp: cids_def l)
    then show ?thesis using sp c(3) by (simp add: remove1_append)
  qed
  moreover have "map (cid s') ?l = map (cid s) ?l"
    by (rule map_cong [OF refl], rule cid') (use dl in auto)
  ultimately have ids: "cids s' g' = remove1 k (cids s g)" by (simp add: cids_def cl l)
  have oth: "cids s' h = cids s h" if "gp' \<noteq> gp" "groups s gp' = Some h" for gp' h
    unfolding cids_def by (rule map_cong [OF refl], rule cid') (use other [OF that(2,1)] in auto)
  have "length l \<ge> 1" using c(2) by (cases l) auto
  then have num: "int (length l) - 1 = int (length ?l)" using c(2) by (simp add: length_remove1 of_nat_diff)
  have wf': "wf_heap s'"
  proof (rule wf_heap_update [OF wf g])
    show "clients s' x \<noteq> None \<and> x \<notin> set (clist g')" if "p \<noteq> gp" "groups s p = Some h" "x \<in> set (clist h)" for p h x
      using wf_heapD(4) [OF wf that(2,3)] other [OF that(2,1)] that W(6) [OF that(2)] dl by (auto simp: s'_def cl l)
  qed (use W cl dl c(2) num in \<open>auto simp: s'_def l g'_def clist_def split: if_splits\<close>)
  show ?thesis
    by (intro exI [of _ s'] exI [of _ g'] conjI op wf' ids allI impI oth) (auto simp: s'_def g'_def)
qed

lemma remove_client_absent:
  assumes wf: "wf_heap s" and g: "groups s gp = Some g" and k: "k \<notin> set (cids s g)"
  shows "remove_client_from_mcast_group_node s (Some gp) k = Inr (False, s)"
proof (cases "client_info g")
  case None
  then show ?thesis using g by (simp add: remove_client_from_mcast_group_node_def)
next
  case (Some l)
  have "\<forall>c\<in>set l. clients s c \<noteq> None" using wf_heapD(4) [OF wf g] Some by (simp add: clist_def)
  from find_client_ok [OF this, of k] obtain r where "find_client s l k = Inr r"
    "case r of None \<Rightarrow> k \<notin> cid s ` set l | Some c \<Rightarrow> c \<in> set l \<and> cid s c = k" by blast
  moreover have "k \<notin> cid s ` set l" using k Some by (simp add: cids_def clist_def)
  ultimately have "find_client s l k = Inr None" by (cases r) auto
  then show ?thesis using g Some by (simp add: remove_client_from_mcast_group_node_def)
qed

text \<open>Adding a client node to a group.\<close>

lemma add_client:
  assumes wf: "wf_heap s" and g: "groups s gp = Some g"
  shows "\<exists>s' g'. ADD_CLIENT_IN_GROUP s gp addr k = Inr s' \<and> wf_heap s' \<and>
    groups s' = (groups s)(gp \<mapsto> g') \<and> cids s' g' = k # cids s g \<and>
    g' = g\<lparr>number_of_clients := number_of_clients g', client_info := client_info g'\<rparr> \<and>
    (\<forall>gp' h. gp' \<noteq> gp \<longrightarrow> groups s gp' = Some h \<longrightarrow> cids s' h = cids s h) \<and>
    s' = s\<lparr>groups := groups s', clients := clients s', next_ptr := next_ptr s'\<rparr> \<and>
    (\<forall>c\<in>set (clist g'). c \<noteq> next_ptr s \<longrightarrow> clients s' c = clients s c) \<and>
    clients s' (next_ptr s) = Some \<lparr>client_id = k, client_addr = addr, cl_av_status = CLFREE\<rparr>"
proof -
  note W = wf_heapD [OF wf g]
  define c where "c = next_ptr s"
  define n where "n = \<lparr>client_id = k, client_addr = addr, cl_av_status = CLFREE\<rparr>"
  define g' where "g' = g\<lparr>number_of_clients := number_of_clients g + 1, client_info := Some (c # clist g)\<rparr>"
  define s' where "s' = s\<lparr>groups := (groups s)(gp \<mapsto> g'), clients := (clients s)(c \<mapsto> n), next_ptr := c + 1\<rparr>"
  have fresh: "c \<notin> set (clist h)" if "groups s p = Some h" for p h
    using wf_heapD(4,7) [OF wf that] by (fastforce simp: c_def)
  have op: "ADD_CLIENT_IN_GROUP s gp addr k = Inr s'"
    using g by (cases "client_info g")
      (simp_all add: ADD_CLIENT_IN_GROUP_def allocate_mcast_client_node_def allocate_mcast_client_list_def Let_def
        g'_def s'_def c_def n_def clist_def blank_client_def)
  have cl: "clist g' = c # clist g" by (simp add: g'_def clist_def)
  have cid': "cid s' x = cid s x" if "x \<noteq> c" for x using that by (simp add: cid_def s'_def)
  have same: "map (cid s') (clist h) = map (cid s) (clist h)" if "groups s p = Some h" for p h
    by (rule map_cong [OF refl], rule cid') (use fresh [OF that] in auto)
  have ids: "cids s' g' = k # cids s g"
    using same [OF g] by (simp add: cids_def cl cid_def [of s' c]) (simp add: s'_def n_def)
  have oth: "cids s' h = cids s h" if "groups s gp' = Some h" for gp' h
    using same [OF that] by (simp add: cids_def)
  have wf': "wf_heap s'"
  proof (rule wf_heap_update [OF wf g])
    show "clients s' x \<noteq> None \<and> x \<notin> set (clist g')" if "p \<noteq> gp" "groups s p = Some h" "x \<in> set (clist h)" for p h x
      using wf_heapD(4) [OF wf that(2,3)] fresh [OF that(2)] that W(6) [OF that(2)] by (auto simp: s'_def cl)
    show "x < next_ptr s'" if "clients s' x \<noteq> None" for x
      using that W(7) [of x] by (auto simp: s'_def c_def split: if_splits)
  qed (use W fresh [OF g] in \<open>auto simp: cl s'_def c_def, auto simp: g'_def\<close>)
  show ?thesis
    by (intro exI [of _ s'] exI [of _ g'] conjI op wf' ids allI impI oth) (auto simp: s'_def g'_def c_def n_def)
qed

section \<open>Agreement of the two views\<close>

text \<open>
  \<open>consistent s\<close>: the heap is well-formed; a client appears once in a group, under a
  non-zero identifier, exactly when the index lists that group for it, once; no client in
  the index is without groups; a group's capability is the sum of its clients'.
\<close>

definition consistent :: "server_info \<Rightarrow> bool" where
  "consistent s \<longleftrightarrow> wf_heap s \<and>
     (\<forall>k r. client_RBT s k = Some r \<longrightarrow> k \<noteq> 0 \<and> rbc_grp_list r \<noteq> [] \<and> distinct (rbc_grp_list r) \<and>
        (\<forall>gp\<in>set (rbc_grp_list r). groups s gp \<noteq> None)) \<and>
     (\<forall>gp g. groups s gp = Some g \<longrightarrow> distinct (cids s g) \<and>
        (\<forall>k. k \<in> set (cids s g) \<longleftrightarrow> (\<exists>r. client_RBT s k = Some r \<and> gp \<in> set (rbc_grp_list r))) \<and>
        grp_capability g = sum_list (map (\<lambda>k. rbc_capability (the (client_RBT s k))) (cids s g)))"

lemma consistent_group:
  assumes "consistent s" "groups s gp = Some g"
  shows "distinct (cids s g)"
    "\<And>k. k \<in> set (cids s g) \<longleftrightarrow> (\<exists>r. client_RBT s k = Some r \<and> gp \<in> set (rbc_grp_list r))"
    "grp_capability g = sum_list (map (\<lambda>k. rbc_capability (the (client_RBT s k))) (cids s g))"
  using assms unfolding consistent_def by blast+

lemma consistent_index:
  assumes "consistent s" "client_RBT s k = Some r"
  shows "k \<noteq> 0" "rbc_grp_list r \<noteq> []" "distinct (rbc_grp_list r)"
    "\<And>gp. gp \<in> set (rbc_grp_list r) \<Longrightarrow> groups s gp \<noteq> None"
  using assms unfolding consistent_def by blast+

lemma sum_list_remove1:
  "k \<in> set ks \<Longrightarrow> sum_list (map f (remove1 k ks)) = sum_list (map f ks) - (f k :: u32)"
  by (induction ks) auto

lemma wf_heap_cong:
  assumes "groups s' = groups s" "clients s' = clients s" "next_ptr s' = next_ptr s"
  shows "wf_heap s' = wf_heap s"
  by (simp add: wf_heap_def assms)

lemma cids_cong: "clients s' = clients s \<Longrightarrow> clist g' = clist g \<Longrightarrow> cids s' g' = cids s g"
  by (simp add: cids_def cid_def)

lemma wf_heap_capability:
  assumes wf: "wf_heap s" and g: "groups s gp = Some g"
  shows "wf_heap (s\<lparr>groups := (groups s)(gp \<mapsto> g\<lparr>grp_capability := x\<rparr>)\<rparr>)" (is "wf_heap ?s")
proof (rule wf_heap_update [OF wf g])
  note W = wf_heapD [OF wf g]
  have cl: "clist (g\<lparr>grp_capability := x\<rparr>) = clist g" by (simp add: clist_def)
  show "clients ?s c \<noteq> None \<and> c \<notin> set (clist (g\<lparr>grp_capability := x\<rparr>))" if "p \<noteq> gp" "groups s p = Some h" "c \<in> set (clist h)" for p h c
    using wf_heapD(4) [OF wf that(2,3)] W(6) [OF that(2)] that by (auto simp: cl)
qed (use wf_heapD [OF wf g] in \<open>auto simp: clist_def\<close>)

lemma consistentI:
  assumes "wf_heap s"
    "\<And>k r. client_RBT s k = Some r \<Longrightarrow> k \<noteq> 0 \<and> rbc_grp_list r \<noteq> [] \<and> distinct (rbc_grp_list r) \<and>
        (\<forall>gp\<in>set (rbc_grp_list r). groups s gp \<noteq> None)"
    "\<And>gp g. groups s gp = Some g \<Longrightarrow> distinct (cids s g)"
    "\<And>gp g k. groups s gp = Some g \<Longrightarrow> k \<in> set (cids s g) \<longleftrightarrow> (\<exists>r. client_RBT s k = Some r \<and> gp \<in> set (rbc_grp_list r))"
    "\<And>gp g. groups s gp = Some g \<Longrightarrow>
        grp_capability g = sum_list (map (\<lambda>k. rbc_capability (the (client_RBT s k))) (cids s g))"
  shows "consistent s"
  using assms unfolding consistent_def by blast

text \<open>
  One group and the index change together: the new group agrees with the new index, the
  index lists the other groups as before, and no remaining client changes its capability.
\<close>

abbreviation total_cap :: "server_info \<Rightarrow> u32 list \<Rightarrow> u32" where
  "total_cap s ks \<equiv> sum_list (map (\<lambda>k. rbc_capability (the (client_RBT s k))) ks)"

abbreviation indexed :: "server_info \<Rightarrow> u32 \<Rightarrow> ptr \<Rightarrow> bool" where
  "indexed s k gp \<equiv> \<exists>r. client_RBT s k = Some r \<and> gp \<in> set (rbc_grp_list r)"

lemma consistent_update:
  assumes con: "consistent s" and wf: "wf_heap t" and gs: "groups t = (groups s)(gp \<mapsto> g')"
    and idx: "\<And>k r. client_RBT t k = Some r \<Longrightarrow> k \<noteq> 0 \<and> rbc_grp_list r \<noteq> [] \<and> distinct (rbc_grp_list r) \<and>
        (\<forall>p\<in>set (rbc_grp_list r). groups t p \<noteq> None)"
    and g': "distinct (cids t g')" "\<And>k. k \<in> set (cids t g') \<longleftrightarrow> indexed t k gp" "grp_capability g' = total_cap t (cids t g')"
    and ids: "\<And>p h. p \<noteq> gp \<Longrightarrow> groups s p = Some h \<Longrightarrow> cids t h = cids s h"
    and same: "\<And>k p. p \<noteq> gp \<Longrightarrow> indexed t k p \<longleftrightarrow> indexed s k p"
    and cap: "\<And>k p. p \<noteq> gp \<Longrightarrow> indexed s k p \<Longrightarrow> rbc_capability (the (client_RBT t k)) = rbc_capability (the (client_RBT s k))"
  shows "consistent t"
proof (rule consistentI [OF wf idx])
  fix p h assume h: "groups t p = Some h"
  have "distinct (cids t h) \<and> (\<forall>k. k \<in> set (cids t h) \<longleftrightarrow> indexed t k p) \<and> grp_capability h = total_cap t (cids t h)"
  proof (cases "p = gp")
    case True
    then show ?thesis using h gs g' by simp
  next
    case False
    then have p: "groups s p = Some h" using h gs by simp
    note G = consistent_group [OF con p]
    have "total_cap t (cids s h) = total_cap s (cids s h)"
      by (rule arg_cong [of _ _ sum_list], rule map_cong [OF refl]) (use G(2) cap [OF False] in blast)
    then show ?thesis using G by (simp add: ids [OF False p] same [OF False])
  qed
  then show "distinct (cids t h)" "\<And>k. k \<in> set (cids t h) \<longleftrightarrow> indexed t k p" "grp_capability h = total_cap t (cids t h)"
    by blast+
qed

text \<open>A state that differs only in its messages, timers and the like.\<close>

lemma consistent_cong:
  assumes "groups s' = groups s" "clients s' = clients s" "next_ptr s' = next_ptr s" "client_RBT s' = client_RBT s"
  shows "consistent s' = consistent s"
  by (simp add: consistent_def wf_heap_cong [OF assms(1,2,3)] assms cids_cong [OF assms(2) refl])

section \<open>Joining\<close>

text \<open>
  The state after a member joined: its node heads the client list, and the index has it,
  new or with the group at the head of its list.
\<close>

definition joined :: "server_info \<Rightarrow> u32 \<Rightarrow> ptr \<Rightarrow> u32 \<Rightarrow> u32 \<rightharpoonup> rb_client" where
  "joined s k gp capability = (client_RBT s)(k \<mapsto>
     (case client_RBT s k of
        None \<Rightarrow> \<lparr>rbc_capability = capability, rbc_grp_list = [gp], rbc_av_status = RBFREE, rbc_is_moderator = False\<rparr>
      | Some r \<Rightarrow> r\<lparr>rbc_grp_list := gp # rbc_grp_list r\<rparr>))"

lemma consistent_joined:
  assumes con: "consistent s" and g: "groups s gp = Some g" and k: "k \<noteq> 0" "k \<notin> set (cids s g)"
    and cap: "\<And>r. client_RBT s k = Some r \<Longrightarrow> rbc_capability r = c"
    and wf: "wf_heap t" and gs: "groups t = (groups s)(gp \<mapsto> g')" and ids: "cids t g' = k # cids s g"
    and gc: "grp_capability g' = grp_capability g + c"
    and oth: "\<And>p h. p \<noteq> gp \<Longrightarrow> groups s p = Some h \<Longrightarrow> cids t h = cids s h"
    and rbt: "client_RBT t = joined s k gp c"
  shows "consistent t"
proof (rule consistent_update [OF con wf gs])
  note G = consistent_group [OF con g] and I = consistent_index [OF con]
  have notin: "gp \<notin> set (rbc_grp_list r)" if "client_RBT s k = Some r" for r
    using G(2) [of k] k(2) that by auto
  have rcap: "rbc_capability (the (client_RBT t x)) = (if x = k then c else rbc_capability (the (client_RBT s x)))" for x
    using cap by (auto simp: rbt joined_def split: option.splits)
  show "x \<noteq> 0 \<and> rbc_grp_list r \<noteq> [] \<and> distinct (rbc_grp_list r) \<and> (\<forall>p\<in>set (rbc_grp_list r). groups t p \<noteq> None)"
    if "client_RBT t x = Some r" for x r
    using that I [of x] k(1) notin g by (auto simp: rbt joined_def gs split: if_splits option.splits)
  show "distinct (cids t g')" using G(1) k(2) by (simp add: ids)
  show "x \<in> set (cids t g') \<longleftrightarrow> indexed t x gp" for x
    using G(2) k(2) by (auto simp: ids rbt joined_def split: option.splits)
  have "total_cap t (cids s g) = total_cap s (cids s g)"
    by (rule arg_cong [of _ _ sum_list], rule map_cong [OF refl]) (use k(2) in \<open>auto simp: rcap\<close>)
  then show "grp_capability g' = total_cap t (cids t g')"
    by (simp add: ids gc rcap [of k] G(3) add.commute)
  show "indexed t x p \<longleftrightarrow> indexed s x p" if "p \<noteq> gp" for x p
    using that by (auto simp: rbt joined_def split: option.splits)
  show "rbc_capability (the (client_RBT t x)) = rbc_capability (the (client_RBT s x))" if "indexed s x p" for x p
    using that cap by (auto simp: rcap)
qed (rule oth)

text \<open>The checkpoint to the backup server, when there is one.\<close>

definition checkpoint_msg :: "u32 \<Rightarrow> sockaddr \<Rightarrow> string \<Rightarrow> u32 \<Rightarrow> comm_struct_t" where
  "checkpoint_msg kind a nm c = \<lparr>msg_id = checkpoint_req,
      idv = Checkpoint_req \<lparr>cp_chkpoint_type = kind, cp_num_groups = 1,
        cp_group_ips = [zero_saddr\<lparr>ls_sin_family := sin_family (as_in a), ls_sin_port := sin_port (as_in a),
                                   ls_s_addr := ucast (s_addr (as_in a)), ls_group_name := Some nm\<rparr>],
        cp_capability = c\<rparr>\<rparr>"

definition checkpointed :: "u32 \<Rightarrow> server_info \<Rightarrow> sockaddr \<Rightarrow> string \<Rightarrow> u32 \<Rightarrow> server_info" where
  "checkpointed kind s a nm c =
     (if is_stdby_available s then send s (of_in (secondary_server s)) (checkpoint_msg kind a nm c) else s)"

lemma checkpointed_simps [simp]:
  "groups (checkpointed kind s a nm c) = groups s" "clients (checkpointed kind s a nm c) = clients s"
  "next_ptr (checkpointed kind s a nm c) = next_ptr s" "client_RBT (checkpointed kind s a nm c) = client_RBT s"
  "is_stdby_available (checkpointed kind s a nm c) = is_stdby_available s" "server_list (checkpointed kind s a nm c) = server_list s"
  "\<not> is_stdby_available s \<Longrightarrow> checkpointed kind s a nm c = s"
  by (simp_all add: checkpointed_def)

lemma send_checkpoint_ok:
  "length nm < max_gname_len \<Longrightarrow> is_stdby_available s \<Longrightarrow> send_checkpoint kind s a nm c = Inr (checkpointed kind s a nm c)"
  by (simp add: send_checkpoint_def checkpointed_def checkpoint_msg_def copy_gname_def Let_def)

text \<open>
  Both operations change the capability of the group and then its list of clients; what
  the second step says of its own start holds of the first one's.
\<close>

lemma with_capability:
  assumes s1: "s1 = s\<lparr>groups := (groups s)(gp \<mapsto> g\<lparr>grp_capability := x\<rparr>)\<rparr>"
    and gs: "groups s2 = (groups s1)(gp \<mapsto> g2)"
    and eq: "g2 = (g\<lparr>grp_capability := x\<rparr>)\<lparr>number_of_clients := number_of_clients g2, client_info := client_info g2\<rparr>"
    and oth: "\<forall>p h. p \<noteq> gp \<longrightarrow> groups s1 p = Some h \<longrightarrow> cids s2 h = cids s1 h"
    and s2: "\<exists>gs cs n. s2 = s1\<lparr>groups := gs, clients := cs, next_ptr := n\<rparr>"
  shows "groups s2 = (groups s)(gp \<mapsto> g2)" "grp_capability g2 = x" "group_name g2 = group_name g"
    "g2 = g\<lparr>grp_capability := grp_capability g2, number_of_clients := number_of_clients g2, client_info := client_info g2\<rparr>"
    "\<And>p h. p \<noteq> gp \<Longrightarrow> groups s p = Some h \<Longrightarrow> cids s2 h = cids s h"
    "client_RBT s2 = client_RBT s" "is_stdby_available s2 = is_stdby_available s" "server_list s2 = server_list s" "outbox s2 = outbox s"
    "secondary_server s2 = secondary_server s"
proof -
  show "groups s2 = (groups s)(gp \<mapsto> g2)" using gs by (simp add: s1)
  show cap: "grp_capability g2 = x" "group_name g2 = group_name g"
    using arg_cong [OF eq, of grp_capability] arg_cong [OF eq, of group_name] by simp_all
  show "g2 = g\<lparr>grp_capability := grp_capability g2, number_of_clients := number_of_clients g2, client_info := client_info g2\<rparr>"
    using eq unfolding cap(1) by simp
  show "cids s2 h = cids s h" if "p \<noteq> gp" "groups s p = Some h" for p h
    using oth that by (simp add: s1 cids_cong [of "s\<lparr>groups := gs\<rparr>" s h h for gs])
qed (use s2 in \<open>auto simp: s1\<close>)

lemma capability_set:
  assumes "wf_heap s" "groups s gp = Some g" "s1 = s\<lparr>groups := (groups s)(gp \<mapsto> g\<lparr>grp_capability := x\<rparr>)\<rparr>"
  shows "wf_heap s1" "groups s1 gp = Some (g\<lparr>grp_capability := x\<rparr>)" "cids s1 (g\<lparr>grp_capability := x\<rparr>) = cids s g"
  using wf_heap_capability [OF assms(1,2)] by (simp_all add: assms(3) cids_def cid_def clist_def)

lemma insert_client_joined:
  assumes con: "consistent s" and g: "groups s gp = Some g"
    and k: "k = calc_key (Some a)" "k \<noteq> 0" "k \<notin> set (cids s g)"
    and cap: "\<forall>r. client_RBT s k = Some r \<longrightarrow> rbc_capability r = c"
    and cpy: "\<exists>d. strcpy_bytes (replicate 14 0) (sa_data a) = Inr d"
    and name: "length (group_name g) < max_gname_len"
  shows "\<exists>s' g'. insert_client_info_in_server_DS s (Some gp) a c = Inr s' \<and> consistent s' \<and>
    groups s' = (groups s)(gp \<mapsto> g') \<and> cids s' g' = k # cids s g \<and> grp_capability g' = grp_capability g + c \<and>
    g' = g\<lparr>grp_capability := grp_capability g', number_of_clients := number_of_clients g', client_info := client_info g'\<rparr> \<and>
    (\<forall>p h. p \<noteq> gp \<longrightarrow> groups s p = Some h \<longrightarrow> cids s' h = cids s h) \<and>
    client_RBT s' = joined s k gp c \<and> is_stdby_available s' = is_stdby_available s \<and>
    server_list s' = server_list s \<and>
    (\<not> is_stdby_available s \<longrightarrow> outbox s' = outbox s)"
proof -
  note wf = consistent_def [THEN iffD1, OF con, THEN conjunct1]
  define s1 where s1: "s1 = s\<lparr>groups := (groups s)(gp \<mapsto> g\<lparr>grp_capability := grp_capability g + c\<rparr>)\<rparr>"
  note cs = capability_set [OF wf g s1]
  have rem: "remove_client_from_mcast_group_node s1 (Some gp) k = Inr (False, s1)"
    by (rule remove_client_absent [OF cs(1,2)]) (use k(3) cs(3) in simp)
  obtain s2 g2 where add: "ADD_CLIENT_IN_GROUP s1 gp a k = Inr s2" and wf2: "wf_heap s2"
    and ch: "groups s2 = (groups s1)(gp \<mapsto> g2)"
      "g2 = (g\<lparr>grp_capability := grp_capability g + c\<rparr>)\<lparr>number_of_clients := number_of_clients g2, client_info := client_info g2\<rparr>"
      "\<forall>p h. p \<noteq> gp \<longrightarrow> groups s1 p = Some h \<longrightarrow> cids s2 h = cids s1 h"
      "s2 = s1\<lparr>groups := groups s2, clients := clients s2, next_ptr := next_ptr s2\<rparr>"
    and ids2: "cids s2 g2 = k # cids s1 (g\<lparr>grp_capability := grp_capability g + c\<rparr>)"
    using add_client [OF cs(1,2), of a k] by - (elim exE conjE, rule that, assumption+)
  have "\<exists>gs cs n. s2 = s1\<lparr>groups := gs, clients := cs, next_ptr := n\<rparr>" using ch(4) by (intro exI)
  note C = with_capability [OF s1 ch(1-3) this]
  define s3 where "s3 = s2\<lparr>client_RBT := joined s k gp c\<rparr>"
  define s4 where "s4 = checkpointed ADD_CHECKPOINT s3 a (group_name g) c"
  obtain d where "strcpy_bytes (replicate 14 0) (sa_data a) = Inr d" using cpy ..
  then have ix: "(case client_RBT s2 k of None \<Rightarrow> index_insert s2 k a gp c
      | Some _ \<Rightarrow> upd_rbt s2 k (\<lambda>r. r\<lparr>rbc_grp_list := allocate_rb_cl_node (rbc_grp_list r) gp\<rparr>)) = Inr s3"
    by (cases "client_RBT s k")
      (simp_all add: C(6) s3_def joined_def index_insert_def allocate_rb_cl_node_def allocate_rb_info_def)
  have s3: "groups s3 gp = Some g2" "is_stdby_available s3 = is_stdby_available s" by (simp_all add: s3_def C(1,7))
  have pos: "k > 0" using k(2) by (simp add: word_neq_0_conv)
  have op: "insert_client_info_in_server_DS s (Some gp) a c = Inr s4"
    using g rem add ix s3 C(3) name pos send_checkpoint_ok [OF name, of s3]
    by (simp add: insert_client_info_in_server_DS_def Let_def k(1) [symmetric] s1 [symmetric] s4_def)
  have st: "groups s4 = (groups s)(gp \<mapsto> g2)" "client_RBT s4 = joined s k gp c" "clients s4 = clients s2" "next_ptr s4 = next_ptr s2"
    "is_stdby_available s4 = is_stdby_available s" "server_list s4 = server_list s" "\<not> is_stdby_available s \<longrightarrow> outbox s4 = outbox s"
    by (simp_all add: s4_def s3_def C(1,6-9))
  have ids: "cids s4 h = cids s2 h" for h by (rule cids_cong [OF st(3) refl])
  have ids4: "cids s4 g2 = k # cids s g" using ids2 cs(3) by (simp add: ids)
  have oth4: "cids s4 h = cids s h" if "p \<noteq> gp" "groups s p = Some h" for p h using C(5) [OF that] by (simp add: ids)
  have wf4: "wf_heap s4" using wf_heap_cong [of s4 s2] wf2 by (simp add: st C(1))
  have "consistent s4" by (rule consistent_joined [OF con g k(2,3) cap [rule_format] wf4 st(1) ids4 C(2) oth4 st(2)])
  then show ?thesis
    by (intro exI [of _ s4] exI [of _ g2] conjI op st ids4 C(2,4) allI impI oth4)
qed

section \<open>Leaving\<close>

lemma remove_rb_grp_node_ok:
  assumes "\<forall>p\<in>set l. groups s p \<noteq> None"
  shows "\<exists>r. remove_rb_grp_node s l nm = Inr r \<and>
    (case r of None \<Rightarrow> (\<forall>p\<in>set l. group_name (the (groups s p)) \<noteq> nm)
     | Some (l', gp) \<Rightarrow> group_name (the (groups s gp)) = nm \<and>
         (\<exists>as bs. l = as @ gp # bs \<and> l' = as @ bs \<and> (\<forall>p\<in>set as. group_name (the (groups s p)) \<noteq> nm)))"
  using assms
proof (induction l)
  case (Cons p l)
  then obtain g where g: "groups s p = Some g" by auto
  obtain r where r: "remove_rb_grp_node s l nm = Inr r"
    "case r of None \<Rightarrow> (\<forall>p\<in>set l. group_name (the (groups s p)) \<noteq> nm)
     | Some (l', gp) \<Rightarrow> group_name (the (groups s gp)) = nm \<and>
         (\<exists>as bs. l = as @ gp # bs \<and> l' = as @ bs \<and> (\<forall>p\<in>set as. group_name (the (groups s p)) \<noteq> nm))"
    using Cons by auto
  show ?case
  proof (cases "group_name g = nm")
    case True
    have "\<exists>as bs. p # l = as @ p # bs \<and> l = as @ bs \<and> (\<forall>p\<in>set as. group_name (the (groups s p)) \<noteq> nm)"
      by (intro exI [of _ "[]"] exI [of _ l]) simp
    then show ?thesis using g True by (intro exI [of _ "Some (l, p)"]) (simp add: strcmp_eq_def)
  next
    case False
    show ?thesis
    proof (cases r)
      case None
      then show ?thesis using r g False by (auto simp: strcmp_eq_def)
    next
      case (Some q)
      obtain l' gp where q: "q = (l', gp)" by (cases q)
      then obtain as bs where "group_name (the (groups s gp)) = nm" "l = as @ gp # bs" "l' = as @ bs"
        "\<forall>p\<in>set as. group_name (the (groups s p)) \<noteq> nm" using r(2) Some by auto
      then have "\<exists>as bs. p # l = as @ gp # bs \<and> p # l' = as @ bs \<and> (\<forall>p\<in>set as. group_name (the (groups s p)) \<noteq> nm)"
        using g False by (intro exI [of _ "p # as"] exI [of _ bs]) simp
      then show ?thesis using r(1) g False Some q \<open>group_name (the (groups s gp)) = nm\<close>
        by (intro exI [of _ "Some (p # l', gp)"]) (simp add: strcmp_eq_def)
    qed
  qed
qed simp

text \<open>The index after the client left the group.\<close>

definition left_index :: "server_info \<Rightarrow> u32 \<Rightarrow> ptr \<Rightarrow> u32 \<rightharpoonup> rb_client" where
  "left_index s k gp = (client_RBT s)(k :=
     (case client_RBT s k of None \<Rightarrow> None
      | Some r \<Rightarrow> if remove1 gp (rbc_grp_list r) = [] then None
                  else Some (r\<lparr>rbc_grp_list := remove1 gp (rbc_grp_list r)\<rparr>)))"

lemma consistent_left:
  assumes con: "consistent s" and g: "groups s gp = Some g"
    and k: "client_RBT s k = Some r" "gp \<in> set (rbc_grp_list r)"
    and wf: "wf_heap t" and gs: "groups t = (groups s)(gp \<mapsto> g')" and ids: "cids t g' = remove1 k (cids s g)"
    and gc: "grp_capability g' = grp_capability g - rbc_capability r"
    and oth: "\<And>p h. p \<noteq> gp \<Longrightarrow> groups s p = Some h \<Longrightarrow> cids t h = cids s h"
    and rbt: "client_RBT t = left_index s k gp"
  shows "consistent t"
proof (rule consistent_update [OF con wf gs])
  note G = consistent_group [OF con g] and I = consistent_index [OF con]
  have kin: "k \<in> set (cids s g)" using G(2) k by blast
  have dr: "distinct (rbc_grp_list r)" by (rule I(3) [OF k(1)])
  have only: "remove1 gp (rbc_grp_list r) = [] \<Longrightarrow> rbc_grp_list r = [gp]"
    using k(2) by (cases "rbc_grp_list r") (auto split: if_splits)
  have mem: "x \<in> set (cids t g') \<longleftrightarrow> x \<noteq> k \<and> x \<in> set (cids s g)" for x
    using G(1) by (auto simp: ids)
  show "x \<noteq> 0 \<and> rbc_grp_list q \<noteq> [] \<and> distinct (rbc_grp_list q) \<and> (\<forall>p\<in>set (rbc_grp_list q). groups t p \<noteq> None)"
    if "client_RBT t x = Some q" for x q
    using that I [of x] k dr g by (auto simp: rbt left_index_def gs split: if_splits)
  show "distinct (cids t g')" using G(1) by (simp add: ids)
  show "x \<in> set (cids t g') \<longleftrightarrow> indexed t x gp" for x
    using G(2) dr by (auto simp: mem rbt left_index_def k(1))
  have "total_cap t (cids t g') = total_cap s (cids t g')"
    by (rule arg_cong [of _ _ sum_list], rule map_cong [OF refl]) (use mem in \<open>auto simp: rbt left_index_def\<close>)
  then show "grp_capability g' = total_cap t (cids t g')"
    using k(1) by (simp add: ids gc sum_list_remove1 [OF kin] G(3))
  show same: "indexed t x p \<longleftrightarrow> indexed s x p" if "p \<noteq> gp" for x p
    using that k(1) dr only by (auto simp: rbt left_index_def)
  show "rbc_capability (the (client_RBT t x)) = rbc_capability (the (client_RBT s x))" if "p \<noteq> gp" "indexed s x p" for x p
    using same [OF that(1), of x] that(2) k(1) by (auto simp: rbt left_index_def split: if_splits)
qed (rule oth)

lemma remove_rb_grp_node_member:
  assumes l: "distinct l" "gp \<in> set l" and g: "\<forall>p\<in>set l. groups s p \<noteq> None"
    and uniq: "\<And>p. p \<in> set l \<Longrightarrow> group_name (the (groups s p)) = nm \<longleftrightarrow> p = gp"
  shows "remove_rb_grp_node s l nm = Inr (Some (remove1 gp l, gp))"
proof -
  obtain x where x: "remove_rb_grp_node s l nm = Inr x"
    "case x of None \<Rightarrow> (\<forall>p\<in>set l. group_name (the (groups s p)) \<noteq> nm)
     | Some (l', gp) \<Rightarrow> group_name (the (groups s gp)) = nm \<and>
         (\<exists>as bs. l = as @ gp # bs \<and> l' = as @ bs \<and> (\<forall>p\<in>set as. group_name (the (groups s p)) \<noteq> nm))"
    using remove_rb_grp_node_ok [OF g] by blast
  then obtain l' q where q: "x = Some (l', q)" using uniq l(2) by (cases x) auto
  with x(2) obtain as bs where as: "group_name (the (groups s q)) = nm" "l = as @ q # bs" "l' = as @ bs" by auto
  then have "q = gp" using uniq by simp
  with as l(1) have "l' = remove1 gp l" by (simp add: remove1_append)
  with x(1) q \<open>q = gp\<close> show ?thesis by simp
qed

lemma remove_client_left:
  assumes con: "consistent s" and g: "groups s gp = Some g"
    and k: "k = calc_key (Some a)" "client_RBT s k = Some r" "gp \<in> set (rbc_grp_list r)"
    and uniq: "\<forall>p\<in>set (rbc_grp_list r). group_name (the (groups s p)) = nm \<longleftrightarrow> p = gp"
    and nm: "length nm < max_gname_len"
  shows "\<exists>s' g'. remove_client_info_from_server_DS s a nm =
      (if is_stdby_available s \<and> rbc_grp_list r = [gp] then Inl UseAfterFree else Inr (True, s')) \<and>
    consistent s' \<and> groups s' = (groups s)(gp \<mapsto> g') \<and> cids s' g' = remove1 k (cids s g) \<and>
    grp_capability g' = grp_capability g - rbc_capability r \<and>
    (\<forall>p h. p \<noteq> gp \<longrightarrow> groups s p = Some h \<longrightarrow> cids s' h = cids s h) \<and>
    client_RBT s' = left_index s k gp \<and>
    g' = g\<lparr>grp_capability := grp_capability g', number_of_clients := number_of_clients g', client_info := client_info g'\<rparr> \<and>
    is_stdby_available s' = is_stdby_available s \<and> server_list s' = server_list s \<and>
    outbox s' = outbox (checkpointed DEL_CHECKPOINT s a nm (rbc_capability r))"
proof -
  note wf = consistent_def [THEN iffD1, OF con, THEN conjunct1]
  note G = consistent_group [OF con g] and I = consistent_index [OF con k(2)]
  let ?l = "remove1 gp (rbc_grp_list r)"
  have rl: "remove_rb_grp_node s (rbc_grp_list r) nm = Inr (Some (?l, gp))"
    by (rule remove_rb_grp_node_member [OF I(3) k(3) _ uniq [rule_format]]) (use I(4) in blast)
  have nil: "?l = [] \<longleftrightarrow> rbc_grp_list r = [gp]"
    using k(3) by (cases "rbc_grp_list r") (auto split: if_splits)
  define s1 where "s1 = s\<lparr>client_RBT := (client_RBT s)(k \<mapsto> r\<lparr>rbc_grp_list := ?l\<rparr>)\<rparr>"
  define s2 where s2: "s2 = s1\<lparr>groups := (groups s1)(gp \<mapsto> g\<lparr>grp_capability := grp_capability g - rbc_capability r\<rparr>)\<rparr>"
  have wf1: "wf_heap s1" "groups s1 gp = Some g" using wf_heap_cong [of s1 s] wf g by (simp_all add: s1_def)
  note cs = capability_set [OF wf1 s2]
  have ids1: "cids s1 h = cids s h" for h by (rule cids_cong) (simp_all add: s1_def)
  have kin: "k \<in> set (cids s2 (g\<lparr>grp_capability := grp_capability g - rbc_capability r\<rparr>))"
    "distinct (cids s2 (g\<lparr>grp_capability := grp_capability g - rbc_capability r\<rparr>))"
    using G(1,2) k(2,3) by (auto simp: cs(3) ids1)
  obtain s3 g3 where rem: "remove_client_from_mcast_group_node s2 (Some gp) k = Inr (True, s3)" and wf3: "wf_heap s3"
    and ch: "groups s3 = (groups s2)(gp \<mapsto> g3)"
      "g3 = (g\<lparr>grp_capability := grp_capability g - rbc_capability r\<rparr>)\<lparr>number_of_clients := number_of_clients g3, client_info := client_info g3\<rparr>"
      "\<forall>p h. p \<noteq> gp \<longrightarrow> groups s2 p = Some h \<longrightarrow> cids s3 h = cids s2 h" "s3 = s2\<lparr>groups := groups s3, clients := clients s3\<rparr>"
    and ids3: "cids s3 g3 = remove1 k (cids s2 (g\<lparr>grp_capability := grp_capability g - rbc_capability r\<rparr>))"
    using remove_client_present [OF cs(1,2) kin] by - (elim exE conjE, rule that, assumption+)
  have "s2\<lparr>groups := groups s3, clients := clients s3\<rparr> = s2\<lparr>groups := groups s3, clients := clients s3, next_ptr := next_ptr s2\<rparr>"
    by simp
  then have "\<exists>gs cs n. s3 = s2\<lparr>groups := gs, clients := cs, next_ptr := n\<rparr>" using ch(4) by (intro exI) (rule trans)
  note C = with_capability [OF s2 ch(1-3) this]
  define s4 where "s4 = s3\<lparr>client_RBT := left_index s k gp\<rparr>"
  define s5 where "s5 = checkpointed DEL_CHECKPOINT s4 a nm (rbc_capability r)"
  have s4: "(if rbc_grp_list r = [gp] then index_delete s3 k else s3) = s4"
    using k(2) C(6) by (auto simp: s4_def left_index_def index_delete_def s1_def fun_upd_idem nil)
  have node: "rbt_node s4 k = (if rbc_grp_list r = [gp] then Inl UseAfterFree else Inr (r\<lparr>rbc_grp_list := ?l\<rparr>))"
    using k(2) by (simp add: rbt_node_def s4_def left_index_def nil)
  have std: "is_stdby_available s4 = is_stdby_available s" by (simp add: s4_def C(7) s1_def)
  have pos: "k > 0" using I(1) by (simp add: word_neq_0_conv)
  have e1: "upd_rbt s k (\<lambda>r. r\<lparr>rbc_grp_list := ?l\<rparr>) = Inr s1" using k(2) by (simp add: s1_def)
  have e2: "upd_grp s1 gp (\<lambda>g. g\<lparr>grp_capability := grp_capability g - rbc_capability r\<rparr>) = Inr s2"
    using wf1(2) by (simp add: s2)
  have op: "remove_client_info_from_server_DS s a nm =
      (if is_stdby_available s \<and> rbc_grp_list r = [gp] then Inl UseAfterFree else Inr (True, s5))"
    unfolding remove_client_info_from_server_DS_def Let_def k(1) [symmetric] k(2) rl option.case prod.case bindE_simps
      if_P [OF pos] e1 e2 rem nil s4 std s5_def node
    using send_checkpoint_ok [OF nm, of s4] std by simp
  have st: "groups s5 = (groups s)(gp \<mapsto> g3)" "client_RBT s5 = left_index s k gp" "clients s5 = clients s3" "next_ptr s5 = next_ptr s3"
    "is_stdby_available s5 = is_stdby_available s" "server_list s5 = server_list s"
    using std by (simp_all add: s5_def s4_def C(1,6-9) s1_def)
  have out: "outbox s5 = outbox (checkpointed DEL_CHECKPOINT s a nm (rbc_capability r))"
    using arg_cong [OF ch(4), of outbox] arg_cong [OF ch(4), of secondary_server] std
    by (simp add: s5_def checkpointed_def send_def s4_def s2 s1_def)
  have ids: "cids s5 h = cids s3 h" for h by (rule cids_cong [OF st(3) refl])
  have ids5: "cids s5 g3 = remove1 k (cids s g)" using ids3 cs(3) ids1 by (simp add: ids)
  have oth5: "cids s5 h = cids s h" if "p \<noteq> gp" "groups s p = Some h" for p h
    using C(5) [of p h] that ids1 by (simp add: ids s1_def)
  have wf5: "wf_heap s5" using wf_heap_cong [of s5 s3] wf3 ch(1) by (simp add: st(3,4)) (simp add: s5_def s4_def)
  have "consistent s5" by (rule consistent_left [OF con g k(2,3) wf5 st(1) ids5 C(2) oth5 st(2)])
  then show ?thesis
    by (intro exI [of _ s5] exI [of _ g3] conjI op st out ids5 C(2,4) allI impI oth5)
qed

end
