(* ===== verification/DemoState.thy ===== *)
theory DemoState
  imports ServerLL
begin

text \<open>
  A server with the one group \<open>G1\<close> and no clients, and the address of a client: the
  state the properties of the server are applied to in their witnesses.
\<close>

definition demo_addr :: sockaddr where
  "demo_addr = of_in \<lparr>sin_family = AF_INET, sin_port = 80, s_addr = 5\<rparr>"

definition demo_group :: mcast_group_node where
  "demo_group = new_group\<lparr>group_name := ''G1''\<rparr>"

definition demo_server :: server_info where
  "demo_server = \<lparr>groups = [1 \<mapsto> demo_group], clients = Map.empty, next_ptr = 2, server_list = [1],
     client_RBT = Map.empty, secondary_server = \<lparr>sin_family = 0, sin_port = 0, s_addr = 0\<rparr>, task_id = 1,
     is_stdby_available = False, is_show_metrics = False, timers = Map.empty, next_timer = 1, clock = 0,
     stamp = [], files = Map.empty, outbox = [], threads = []\<rparr>"

lemma calc_key_demo [simp]: "calc_key (Some demo_addr) = 5"
  by (simp add: demo_addr_def calc_key_of_in)

lemma demo_addr_copy [simp]: "\<exists>d. strcpy_bytes (replicate 14 0) (sa_data demo_addr) = Inr d"
  by (simp add: demo_addr_def of_in_def byte_def numeral_eq_Suc)

lemma demo_rbt [simp]: "client_RBT demo_server = Map.empty"
  by (simp add: demo_server_def)

end
