(* ===== verification/MembershipProps.thy ===== *)
theory MembershipProps
  imports MembershipInv DemoState
begin

text \<open>
  What the request handlers of \<open>src/src/server.c\<close> promise: joins and leaves on every
  branch, their effect on both views of membership, and the requests the code does not
  handle as it means to.
\<close>

section \<open>Joining several groups\<close>

lemma unat_ucast_u8: "i < 256 \<Longrightarrow> unat (ucast (of_nat i :: u8) :: u32) = i"
  by (simp add: unsigned_ucast_eq take_bit_nat_eq_self unsigned_of_nat)

text \<open>The names of the groups decide a lookup by name.\<close>

lemma group_by_name_cong:
  assumes "\<And>p. map_option group_name (groups t p) = map_option group_name (groups s p)"
  shows "group_by_name_from t nm ps prev = group_by_name_from s nm ps prev"
proof (induction ps)
  case (Cons p ps)
  show ?case
    using Cons assms [of p] by (cases "groups s p"; cases "groups t p") (auto simp: grp_def deref_def)
qed simp

lemma get_group_node_by_name_cong:
  assumes "\<And>p. map_option group_name (groups t p) = map_option group_name (groups s p)" "server_list t = server_list s"
  shows "get_group_node_by_name t nm prev = get_group_node_by_name s nm prev"
  unfolding get_group_node_by_name_def assms(2) by (rule group_by_name_cong [OF assms(1)])

text \<open>
  \<open>joinable s k nm gp\<close>: the name finds the group \<open>gp\<close>, which the client \<open>k\<close> is not in.
\<close>

definition joinable :: "server_info \<Rightarrow> u32 \<Rightarrow> string \<Rightarrow> ptr \<Rightarrow> bool" where
  "joinable s k nm gp \<longleftrightarrow> length nm < max_gname_len \<and> (\<forall>prev. get_group_node_by_name s nm prev = Inr (Some gp)) \<and>
     (\<exists>g. groups s gp = Some g \<and> k \<notin> set (cids s g) \<and> length (group_name g) < max_gname_len)"

definition accepted_entry :: "server_info \<Rightarrow> string \<Rightarrow> ptr \<Rightarrow> l_saddr_in_t" where
  "accepted_entry s nm gp =
     (let g = the (groups s gp)
      in zero_saddr\<lparr>ls_sin_family := sin_family (grp_mcast_addr g), ls_sin_port := sin_port (grp_mcast_addr g),
           ls_s_addr := ucast (s_addr (grp_mcast_addr g)), ls_grp_port := group_port g,
           ls_cause := ACCEPTED, ls_group_name := Some nm\<rparr>)"

lemma join_step_joinable:
  assumes con: "consistent s" and j: "joinable s k nm gp"
    and k: "k = calc_key (Some a)" "k \<noteq> 0"
    and cap: "\<forall>r. client_RBT s k = Some r \<longrightarrow> rbc_capability r = jq_capability req"
    and cpy: "\<exists>d. strcpy_bytes (replicate 14 0) (sa_data a) = Inr d"
    and i: "i < length (jq_group_ids req)" "jq_group_ids req ! i = Some nm"
  shows "\<exists>s' g g'. join_step s a req i prev = Inr (s', Some gp, accepted_entry s nm gp) \<and> consistent s' \<and>
    groups s gp = Some g \<and> groups s' = (groups s)(gp \<mapsto> g') \<and> cids s' g' = k # cids s g \<and>
    (\<forall>p h. p \<noteq> gp \<longrightarrow> groups s p = Some h \<longrightarrow> cids s' h = cids s h) \<and>
    group_name g' = group_name g \<and> grp_mcast_addr g' = grp_mcast_addr g \<and> group_port g' = group_port g \<and>
    server_list s' = server_list s \<and>
    (\<forall>r. client_RBT s' k = Some r \<longrightarrow> rbc_capability r = jq_capability req)"
proof -
  obtain g where g: "groups s gp = Some g" "k \<notin> set (cids s g)" "length (group_name g) < max_gname_len"
    and nm: "length nm < max_gname_len" "get_group_node_by_name s nm prev = Inr (Some gp)"
    using j by (auto simp: joinable_def)
  obtain s' g' where r: "insert_client_info_in_server_DS s (Some gp) a (jq_capability req) = Inr s'" "consistent s'"
    "groups s' = (groups s)(gp \<mapsto> g')" "cids s' g' = k # cids s g"
    "g' = g\<lparr>grp_capability := grp_capability g', number_of_clients := number_of_clients g', client_info := client_info g'\<rparr>"
    "\<forall>p h. p \<noteq> gp \<longrightarrow> groups s p = Some h \<longrightarrow> cids s' h = cids s h"
    "client_RBT s' = joined s k gp (jq_capability req)" "server_list s' = server_list s"
    using insert_client_joined [OF con g(1) k g(2) cap cpy g(3)]
    by - (elim exE conjE, rule that, assumption+)
  have eqs: "group_name g' = group_name g" "grp_mcast_addr g' = grp_mcast_addr g" "group_port g' = group_port g"
    using arg_cong [OF r(5), of group_name] arg_cong [OF r(5), of grp_mcast_addr] arg_cong [OF r(5), of group_port]
    by simp_all
  have "join_step s a req i prev = Inr (s', Some gp, accepted_entry s nm gp)"
    using nm i r(1,3) g(1) eqs by (simp add: join_step_def copy_gname_def accepted_entry_def Let_def)
  moreover have "\<forall>r. client_RBT s' k = Some r \<longrightarrow> rbc_capability r = jq_capability req"
    using cap by (auto simp: r(7) joined_def split: option.splits)
  ultimately show ?thesis using r(2-4,6,8) g(1) eqs by blast
qed

text \<open>What a step for one group leaves for the others.\<close>

lemma joined_rest:
  assumes g: "groups s gp = Some g" and gs: "groups s1 = (groups s)(gp \<mapsto> g1)"
    and oth: "\<forall>p h. p \<noteq> gp \<longrightarrow> groups s p = Some h \<longrightarrow> cids s1 h = cids s h"
    and eq: "group_name g1 = group_name g" "grp_mcast_addr g1 = grp_mcast_addr g" "group_port g1 = group_port g"
    and sl: "server_list s1 = server_list s"
  shows "p \<noteq> gp \<Longrightarrow> joinable s k nm p \<Longrightarrow> joinable s1 k nm p" "accepted_entry s1 nm p = accepted_entry s nm p"
proof -
  have "get_group_node_by_name s1 nm prev = get_group_node_by_name s nm prev" for prev
    by (rule get_group_node_by_name_cong [OF _ sl]) (simp add: gs g eq)
  then show "p \<noteq> gp \<Longrightarrow> joinable s k nm p \<Longrightarrow> joinable s1 k nm p"
    using oth by (auto simp: joinable_def gs)
  show "accepted_entry s1 nm p = accepted_entry s nm p"
    by (cases "p = gp") (simp_all add: accepted_entry_def gs g eq)
qed

text \<open>The client \<open>k\<close> is added to the groups \<open>ps\<close>, to no other.\<close>

abbreviation members_added :: "server_info \<Rightarrow> u32 \<Rightarrow> ptr list \<Rightarrow> server_info \<Rightarrow> bool" where
  "members_added s k ps s' \<equiv> \<forall>p g. groups s p = Some g \<longrightarrow> (\<exists>g'. groups s' p = Some g' \<and>
     cids s' g' = (if p \<in> set ps then k # cids s g else cids s g))"

lemma members_added_Cons:
  assumes "gp \<notin> set ps" "groups s gp = Some g" "groups s1 = (groups s)(gp \<mapsto> g1)" "cids s1 g1 = k # cids s g"
    "\<forall>p h. p \<noteq> gp \<longrightarrow> groups s p = Some h \<longrightarrow> cids s1 h = cids s h" "members_added s1 k ps s'"
  shows "members_added s k (gp # ps) s'"
proof (intro allI impI)
  fix p h assume h: "groups s p = Some h"
  show "\<exists>g'. groups s' p = Some g' \<and> cids s' g' = (if p \<in> set (gp # ps) then k # cids s h else cids s h)"
  proof (cases "p = gp")
    case True
    then show ?thesis using assms(6) [rule_format, of p g1] h assms(1-4) by auto
  next
    case False
    then show ?thesis using assms(6) [rule_format, of p h] h assms(3,5) by auto
  qed
qed

lemma join_loop_accepts:
  assumes n: "n < 256" "jq_num_groups req = of_nat n" "jq_group_ids req = map Some nms" "length nms = n"
    "length gps = n" "distinct gps"
    and k: "k = calc_key (Some a)" "k \<noteq> 0"
    and cpy: "\<exists>d. strcpy_bytes (replicate 14 0) (sa_data a) = Inr d"
  shows "n - i = m \<Longrightarrow> i \<le> n \<Longrightarrow> consistent s \<Longrightarrow> length ips = n \<Longrightarrow>
    (\<And>j. i \<le> j \<Longrightarrow> j < n \<Longrightarrow> joinable s k (nms ! j) (gps ! j)) \<Longrightarrow>
    (\<forall>r. client_RBT s k = Some r \<longrightarrow> rbc_capability r = jq_capability req) \<Longrightarrow>
    \<exists>s' ips'. join_loop a req (of_nat i) s prev ips = Some (Inr (s', ips')) \<and> consistent s' \<and> length ips' = n \<and>
      (\<forall>j<n. ips' ! j = (if j < i then ips ! j else accepted_entry s (nms ! j) (gps ! j))) \<and>
      members_added s k (drop i gps) s'"
proof (induction m arbitrary: i s prev ips)
  case 0
  then have i: "i = n" by simp
  have "\<not> (ucast (of_nat i :: u8) :: u32) < of_nat n"
    using n(1) i by (simp add: word_less_nat_alt unat_ucast_u8 unat_of_nat)
  then show ?case using 0 i n
    by (subst join_loop.simps) auto
next
  case (Suc m)
  have i: "i < n" "i < 256" using Suc.prems(1) n(1) by arith+
  have lt: "(ucast (of_nat i :: u8) :: u32) < of_nat n" and ui: "unat (of_nat i :: u8) = i"
    using n(1) i by (simp_all add: word_less_nat_alt unat_ucast_u8 unat_of_nat)
  let ?gp = "gps ! i" and ?nm = "nms ! i"
  have ids: "i < length (jq_group_ids req)" "jq_group_ids req ! i = Some ?nm" using n i by auto
  obtain s1 g g1 where st: "join_step s a req i prev = Inr (s1, Some ?gp, accepted_entry s ?nm ?gp)" "consistent s1"
    and g: "groups s ?gp = Some g" and gs: "groups s1 = (groups s)(?gp \<mapsto> g1)" and ids1: "cids s1 g1 = k # cids s g"
    and oth: "\<forall>p h. p \<noteq> ?gp \<longrightarrow> groups s p = Some h \<longrightarrow> cids s1 h = cids s h"
    and eq: "group_name g1 = group_name g" "grp_mcast_addr g1 = grp_mcast_addr g" "group_port g1 = group_port g"
    and sl: "server_list s1 = server_list s"
    and cap: "\<forall>r. client_RBT s1 k = Some r \<longrightarrow> rbc_capability r = jq_capability req"
    using join_step_joinable [OF Suc.prems(3,5) k Suc.prems(6) cpy ids, of prev] i
    by auto
  note R = joined_rest [OF g gs oth eq sl]
  have jn: "joinable s1 k (nms ! j) (gps ! j)" if "Suc i \<le> j" "j < n" for j
    using Suc.prems(5) [of j] that n(5,6) i by (intro R(1)) (simp_all add: nth_eq_iff_index_eq)
  have m: "n - Suc i = m" "Suc i \<le> n" "length (ips[i := accepted_entry s ?nm ?gp]) = n" using Suc.prems i by auto
  obtain s' ips' where r: "join_loop a req (of_nat (Suc i)) s1 (Some ?gp) (ips[i := accepted_entry s ?nm ?gp]) = Some (Inr (s', ips'))"
    "consistent s'" "length ips' = n"
    and ips': "\<forall>j<n. ips' ! j = (if j < Suc i then (ips[i := accepted_entry s ?nm ?gp]) ! j else accepted_entry s1 (nms ! j) (gps ! j))"
    and gr: "members_added s1 k (drop (Suc i) gps) s'"
    using Suc.IH [OF m(1,2) st(2) m(3) jn, of "Some ?gp"] cap by blast
  have "join_loop a req (of_nat i) s prev ips = Some (Inr (s', ips'))"
    using r(1) lt ui st(1) n(2) by (subst join_loop.simps) (simp add: add.commute)
  moreover have "\<forall>j<n. ips' ! j = (if j < i then ips ! j else accepted_entry s (nms ! j) (gps ! j))"
    using ips' Suc.prems(4) i by (auto simp: R(2) nth_list_update less_Suc_eq)
  moreover have dr: "drop i gps = ?gp # drop (Suc i) gps" using i n(5) by (simp add: Cons_nth_drop_Suc)
  have "?gp \<notin> set (drop (Suc i) gps)" using dr n(6) by (metis distinct.simps(2) distinct_drop)
  then have "members_added s k (drop i gps) s'"
    unfolding dr by (rule members_added_Cons [OF _ g gs ids1 oth gr])
  ultimately show ?case using r(2,3) by blast
qed

section \<open>A server with one member\<close>

text \<open>The demonstration state with the member 5 in its group.\<close>

definition demo_member :: server_info where
  "demo_member = demo_server\<lparr>
     groups := [1 \<mapsto> demo_group\<lparr>grp_capability := 7, number_of_clients := 1, client_info := Some [2]\<rparr>],
     clients := [2 \<mapsto> \<lparr>client_id = 5, client_addr = demo_addr, cl_av_status = CLFREE\<rparr>], next_ptr := 3,
     client_RBT := [5 \<mapsto> \<lparr>rbc_capability = 7, rbc_grp_list = [1], rbc_av_status = RBFREE, rbc_is_moderator = False\<rparr>]\<rparr>"

lemma demo_consistent [simp]: "consistent demo_server"
  by (rule consistentI) (auto simp: demo_server_def demo_group_def new_group_def wf_heap_def clist_def cids_def split: if_splits)

lemma demo_member_consistent [simp]: "consistent demo_member"
  by (rule consistentI)
    (auto simp: demo_member_def demo_server_def demo_group_def new_group_def wf_heap_def clist_def cids_def cid_def split: if_splits)

lemma demo_joinable [simp]: "joinable demo_server 5 ''G1'' (Suc 0)"
  by (simp add: joinable_def demo_server_def demo_group_def new_group_def get_group_node_by_name_def
      cids_def clist_def numeral_2_eq_2)

section \<open>Join requests\<close>

lemma join_req_accepted:
  assumes "n < 256" "jq_num_groups req = of_nat n" "jq_group_ids req = map Some nms" "length nms = n"
    "length gps = n" "distinct gps" "k = calc_key (Some a)" "k \<noteq> 0"
    "\<exists>d. strcpy_bytes (replicate 14 0) (sa_data a) = Inr d"
    "consistent s" "\<forall>j<n. joinable s k (nms ! j) (gps ! j)"
    "\<forall>r. client_RBT s k = Some r \<longrightarrow> rbc_capability r = jq_capability req"
  shows "\<exists>s'. handle_join_req s a req = Some (Inr s') \<and> consistent s' \<and>
    (\<forall>p g. groups s p = Some g \<longrightarrow> (\<exists>g'. groups s' p = Some g' \<and>
        cids s' g' = (if p \<in> set gps then k # cids s g else cids s g))) \<and>
    last (outbox s') = (a, \<lparr>msg_id = join_response, idv = Join_rsp \<lparr>jr_num_groups = of_nat n,
        jr_group_ips = map (\<lambda>j. accepted_entry s (nms ! j) (gps ! j)) [0..<n]\<rparr>\<rparr>)"
proof -
  have len: "length (replicate (unat (jq_num_groups req)) zero_saddr) = n"
    using assms(1) by (simp add: assms(2) unat_of_nat)
  obtain s' ips' where r: "join_loop a req 0 s None (replicate (unat (jq_num_groups req)) zero_saddr) = Some (Inr (s', ips'))"
    "consistent s'" "length ips' = n"
    "\<forall>j<n. ips' ! j = accepted_entry s (nms ! j) (gps ! j)"
    "\<forall>p g. groups s p = Some g \<longrightarrow> (\<exists>g'. groups s' p = Some g' \<and>
        cids s' g' = (if p \<in> set gps then k # cids s g else cids s g))"
    using join_loop_accepts [OF assms(1-9) refl _ assms(10) len _ assms(12), of 0 None] assms(11) by auto
  have ips: "ips' = map (\<lambda>j. accepted_entry s (nms ! j) (gps ! j)) [0..<n]"
    by (rule nth_equalityI) (use r(3,4) in auto)
  let ?m = "\<lparr>msg_id = join_response, idv = Join_rsp \<lparr>jr_num_groups = jq_num_groups req, jr_group_ips = ips'\<rparr>\<rparr>"
  have "handle_join_req s a req = Some (Inr (send s' a ?m))"
    by (simp add: handle_join_req_def r(1))
  moreover have "consistent (send s' a ?m)" using consistent_cong [of "send s' a ?m" s'] r(2) by simp
  moreover have "cids (send s' a ?m) g' = cids s' g'" for g' by (rule cids_cong) simp_all
  ultimately show ?thesis using r(5) by (simp add: ips assms(2))
qed

text \<open>
  C14: a join of up to 255 known, distinct groups the client is not in succeeds: the
  response accepts each with the group's multicast address, the client is added to exactly
  these groups, and both views of membership stay consistent.
\<close>

theorem handle_join_req_accepts:
  assumes "n < 256" "jq_num_groups req = of_nat n" "jq_group_ids req = map Some nms" "length nms = n"
    "length gps = n" "distinct gps" "k = calc_key (Some a)" "k \<noteq> 0"
    "\<exists>d. strcpy_bytes (replicate 14 0) (sa_data a) = Inr d"
    "consistent s" "\<forall>j<n. joinable s k (nms ! j) (gps ! j)"
    "\<forall>r. client_RBT s k = Some r \<longrightarrow> rbc_capability r = jq_capability req"
  shows "\<exists>s'. handle_join_req s a req = Some (Inr s') \<and> consistent s' \<and>
    (\<forall>p g. groups s p = Some g \<longrightarrow> (\<exists>g'. groups s' p = Some g' \<and>
        cids s' g' = (if p \<in> set gps then k # cids s g else cids s g))) \<and>
    last (outbox s') = (a, \<lparr>msg_id = join_response, idv = Join_rsp \<lparr>jr_num_groups = of_nat n,
        jr_group_ips = map (\<lambda>j. accepted_entry s (nms ! j) (gps ! j)) [0..<n]\<rparr>\<rparr>)"
  by (rule join_req_accepted [OF assms])

theorem handle_join_req_accepts_witness:
  "\<exists>s'. handle_join_req demo_server demo_addr \<lparr>jq_num_groups = 1, jq_group_ids = [Some ''G1''], jq_capability = 7\<rparr> =
     Some (Inr s') \<and> consistent s'"
  using handle_join_req_accepts [of 1 "\<lparr>jq_num_groups = 1, jq_group_ids = [Some ''G1''], jq_capability = 7\<rparr>" "[''G1'']" "[1]" 5 demo_addr demo_server]
  by auto

text \<open>
  C15: a request for 256 or more groups is never answered: the 8-bit loop counter wraps
  before it reaches the count.
\<close>

theorem handle_join_req_never_answers:
  assumes "unat (jq_num_groups req) \<ge> 256"
  shows "handle_join_req s a req \<noteq> Some (Inr s')"
proof -
  have never: "256 \<le> unat (jq_num_groups req) \<longrightarrow> (\<forall>x. r \<noteq> Inr x)"
    if "join_loop a req i s p ips = Some r" for i s p ips r and req :: join_req_t
  proof (rule join_loop.raw_induct [where P = "\<lambda>_ req _ _ _ _ r. 256 \<le> unat (jq_num_groups req) \<longrightarrow> (\<forall>x. r \<noteq> Inr x)", OF _ that],
      intro impI)
    fix jl peer req s p ips y and i :: u8
    assume IH: "\<And>peer req i s p ips y. jl peer req i s p ips = Some y \<Longrightarrow>
        256 \<le> unat (jq_num_groups req) \<longrightarrow> (\<forall>x. y \<noteq> Inr x)"
      and y: "(if ucast i < jq_num_groups req
        then case join_step s peer req (unat i) p of Inl e \<Rightarrow> Some (Inl e)
             | Inr (s1, gpo, e) \<Rightarrow> jl peer req (i + 1) s1 gpo (ips[unat i := e])
        else Some (Inr (s, ips))) = Some y"
      and n: "256 \<le> unat (jq_num_groups req)"
    have "unat i < 2 ^ LENGTH(8)" by (rule unsigned_less)
    then have "unat (ucast i :: u32) = unat i" "unat i < 256" using unat_ucast_u8 [of "unat i"] by simp_all
    with n have "ucast i < jq_num_groups req"
      by (simp add: word_less_nat_alt)
    then show "\<forall>x. y \<noteq> Inr x" using y IH n by (auto split: sum.splits prod.splits)
  qed
  show ?thesis using never assms by (auto simp: handle_join_req_def bindE_eq_Inr)
qed

theorem handle_join_req_never_answers_witness:
  "handle_join_req demo_server demo_addr
     \<lparr>jq_num_groups = 256, jq_group_ids = replicate 256 (Some ''G1''), jq_capability = 7\<rparr> \<noteq> Some (Inr demo_server)"
  by (rule handle_join_req_never_answers) simp

text \<open>
  A name that matches no group is refused without a change of state, but only when no
  earlier group of the same request was found: otherwise the client is added to that group
  again and the unknown group is reported as accepted.
\<close>

theorem join_step_unknown_group:
  assumes "i < length (jq_group_ids req)" "jq_group_ids req ! i = Some nm" "length nm < max_gname_len"
    "\<forall>p\<in>set (server_list s). \<exists>g. groups s p = Some g \<and> \<not> strncmp_eq (group_name g) nm 2"
  shows "join_step s a req i prev =
    (case prev of
       None \<Rightarrow> Inr (s, None, zero_saddr\<lparr>ls_cause := REJECTED, ls_group_name := Some nm\<rparr>)
     | Some gp \<Rightarrow> bindE (insert_client_info_in_server_DS s (Some gp) a (jq_capability req)) (\<lambda>s1.
         bindE (grp s1 gp) (\<lambda>_. Inr (s1, Some gp, accepted_entry s1 nm gp))))"
proof -
  have "group_by_name_from s nm ps prev = Inr prev"
    if "\<forall>p\<in>set ps. \<exists>g. groups s p = Some g \<and> \<not> strncmp_eq (group_name g) nm 2" for ps
    using that by (induction ps) auto
  then have "get_group_node_by_name s nm prev = Inr prev"
    using assms(4) by (simp add: get_group_node_by_name_def)
  then show ?thesis
    using assms(1-3)
    by (cases prev)
      (auto simp: join_step_def copy_gname_def accepted_entry_def Let_def bindE_assoc bindE_def split: sum.splits)
qed

theorem join_step_unknown_group_witness:
  "\<exists>s1. join_step demo_server demo_addr \<lparr>jq_num_groups = 2, jq_group_ids = [Some ''G1'', Some ''XX''], jq_capability = 7\<rparr> 1 (Some 1) =
     Inr (s1, Some 1, accepted_entry s1 ''XX'' 1)"
proof -
  let ?q = "\<lparr>jq_num_groups = 2, jq_group_ids = [Some ''G1'', Some ''XX''], jq_capability = 7\<rparr> :: join_req_t"
  have d: "groups demo_server 1 = Some demo_group" "5 = calc_key (Some demo_addr)" "5 \<noteq> (0 :: u32)"
    "5 \<notin> set (cids demo_server demo_group)" "\<forall>r. client_RBT demo_server 5 = Some r \<longrightarrow> rbc_capability r = 7"
    "length (group_name demo_group) < max_gname_len"
    by (simp_all add: demo_server_def demo_group_def new_group_def cids_def clist_def)
  obtain s' g' where r: "insert_client_info_in_server_DS demo_server (Some 1) demo_addr 7 = Inr s'"
    "groups s' = (groups demo_server)(1 \<mapsto> g')"
    using insert_client_joined [OF demo_consistent d(1-5) demo_addr_copy d(6)]
    by - (elim exE conjE, rule that, assumption+)
  show ?thesis
    using join_step_unknown_group [of 1 ?q "''XX''" demo_server demo_addr "Some 1"] r
    by (simp add: demo_server_def demo_group_def new_group_def numeral_2_eq_2)
qed

section \<open>Leave requests\<close>

text \<open>
  C16: a member that leaves a group, while it stays in another or no backup server is
  attached, is told \<open>ACCEPTED\<close>, disappears from exactly that group, whose capability
  drops by the member's, and both views of membership stay consistent.
\<close>

theorem handle_leave_req_member:
  assumes "consistent s" "groups s gp = Some g" "k = calc_key (Some a)"
    "client_RBT s k = Some r" "gp \<in> set (rbc_grp_list r)"
    "\<forall>p\<in>set (rbc_grp_list r). group_name (the (groups s p)) = nm \<longleftrightarrow> p = gp" "length nm < max_gname_len"
    "lq_group_ids req = [Some nm]" "is_stdby_available s \<longrightarrow> rbc_grp_list r \<noteq> [gp]"
  shows "\<exists>s' g'. handle_leave_req s a req = Inr s' \<and> consistent s' \<and> groups s' = (groups s)(gp \<mapsto> g') \<and>
    cids s' g' = remove1 k (cids s g) \<and> grp_capability g' = grp_capability g - rbc_capability r \<and>
    (\<forall>p h. p \<noteq> gp \<longrightarrow> groups s p = Some h \<longrightarrow> cids s' h = cids s h) \<and>
    client_RBT s' = left_index s k gp \<and>
    last (outbox s') = (a, \<lparr>msg_id = leave_response,
        idv = Leave_rsp \<lparr>lr_num_groups = 1, lr_group_ids = [Some nm], lr_cause = ACCEPTED\<rparr>\<rparr>)"
proof -
  obtain s1 g' where r: "remove_client_info_from_server_DS s a nm =
      (if is_stdby_available s \<and> rbc_grp_list r = [gp] then Inl UseAfterFree else Inr (True, s1))"
    "consistent s1" "groups s1 = (groups s)(gp \<mapsto> g')" "cids s1 g' = remove1 k (cids s g)"
    "grp_capability g' = grp_capability g - rbc_capability r"
    "\<forall>p h. p \<noteq> gp \<longrightarrow> groups s p = Some h \<longrightarrow> cids s1 h = cids s h" "client_RBT s1 = left_index s k gp"
    using remove_client_left [OF assms(1-7)] by - (elim exE conjE, rule that, assumption+)
  define s' where "s' = send s1 a \<lparr>msg_id = leave_response,
        idv = Leave_rsp \<lparr>lr_num_groups = 1, lr_group_ids = [Some nm], lr_cause = ACCEPTED\<rparr>\<rparr>"
  have "handle_leave_req s a req = Inr s'"
    using r(1) assms(7-9) by (auto simp: handle_leave_req_def copy_gname_def s'_def)
  moreover have "consistent s'" using consistent_cong [of s' s1] r(2) by (simp add: s'_def)
  moreover have "cids s' h = cids s1 h" for h by (rule cids_cong) (simp_all add: s'_def)
  ultimately show ?thesis using r(3-7) by (intro exI [of _ s'] exI [of _ g']) (simp add: s'_def)
qed

lemma demo_member_index:
  "client_RBT demo_member 5 = Some \<lparr>rbc_capability = 7, rbc_grp_list = [1], rbc_av_status = RBFREE, rbc_is_moderator = False\<rparr>"
  "groups demo_member 1 = Some (demo_group\<lparr>grp_capability := 7, number_of_clients := 1, client_info := Some [2]\<rparr>)"
  "\<not> is_stdby_available demo_member" "calc_key (Some demo_addr) = 5" "length ''G1'' < max_gname_len"
  "\<forall>p\<in>set [1]. group_name (the (groups demo_member p)) = ''G1'' \<longleftrightarrow> p = 1"
  by (simp_all add: demo_member_def demo_server_def demo_group_def)

theorem handle_leave_req_member_witness:
  "\<exists>s'. handle_leave_req demo_member demo_addr \<lparr>lq_num_groups = 1, lq_group_ids = [Some ''G1'']\<rparr> = Inr s' \<and>
     consistent s' \<and> client_RBT s' 5 = None"
  using handle_leave_req_member [OF demo_member_consistent demo_member_index(2) demo_member_index(4) [symmetric]
      demo_member_index(1) _ _ demo_member_index(5), of "\<lparr>lq_num_groups = 1, lq_group_ids = [Some ''G1'']\<rparr>"]
    demo_member_index
  by (auto simp: left_index_def)

text \<open>
  A leave for a group the client is not in, or from a client the server does not
  know, changes nothing and is answered with \<open>REJECTED\<close>.
\<close>

theorem handle_leave_req_not_member:
  assumes "consistent s" "lq_group_ids req = [Some nm]" "length nm < max_gname_len"
    "\<forall>r. client_RBT s (calc_key (Some a)) = Some r \<longrightarrow> (\<forall>p\<in>set (rbc_grp_list r). group_name (the (groups s p)) \<noteq> nm)"
  shows "handle_leave_req s a req = Inr (send s a \<lparr>msg_id = leave_response,
        idv = Leave_rsp \<lparr>lr_num_groups = 1, lr_group_ids = [Some nm], lr_cause = REJECTED\<rparr>\<rparr>)"
proof -
  have "remove_client_info_from_server_DS s a nm = Inr (False, s)"
  proof (cases "client_RBT s (calc_key (Some a))")
    case None
    then show ?thesis by (simp add: remove_client_info_from_server_DS_def Let_def)
  next
    case (Some r)
    have al: "\<forall>p\<in>set (rbc_grp_list r). groups s p \<noteq> None" using consistent_index(4) [OF assms(1) Some] by blast
    from remove_rb_grp_node_ok [OF al, of nm] obtain x where
      x: "remove_rb_grp_node s (rbc_grp_list r) nm = Inr x" and
      c: "case x of None \<Rightarrow> (\<forall>p\<in>set (rbc_grp_list r). group_name (the (groups s p)) \<noteq> nm)
       | Some (l', gp) \<Rightarrow> group_name (the (groups s gp)) = nm \<and>
         (\<exists>as bs. rbc_grp_list r = as @ gp # bs \<and> l' = as @ bs \<and> (\<forall>p\<in>set as. group_name (the (groups s p)) \<noteq> nm))" by blast
    have "x = None" using c assms(4) Some by (cases x) auto
    then show ?thesis using Some x by (simp add: remove_client_info_from_server_DS_def Let_def)
  qed
  then show ?thesis using assms(2,3) by (simp add: handle_leave_req_def copy_gname_def)
qed

theorem handle_leave_req_not_member_witness:
  "handle_leave_req demo_member demo_addr \<lparr>lq_num_groups = 1, lq_group_ids = [Some ''G2'']\<rparr> =
     Inr (send demo_member demo_addr \<lparr>msg_id = leave_response,
        idv = Leave_rsp \<lparr>lr_num_groups = 1, lr_group_ids = [Some ''G2''], lr_cause = REJECTED\<rparr>\<rparr>)"
  by (rule handle_leave_req_not_member [OF demo_member_consistent]) (simp_all add: demo_member_index demo_member_def demo_server_def demo_group_def)

text \<open>
  C17: with a backup server attached, a leave by a member frees the client's index node when
  the group was its last one, and reading the capability for the checkpoint through the
  node's pointer is then a use after free; as long as another group is left the node is
  still there, and the backup server gets the checkpoint with its capability before the
  client gets its answer.
\<close>

theorem handle_leave_req_use_after_free:
  assumes "consistent s" "groups s gp = Some g" "k = calc_key (Some a)"
    "client_RBT s k = Some r" "gp \<in> set (rbc_grp_list r)"
    "\<forall>p\<in>set (rbc_grp_list r). group_name (the (groups s p)) = nm \<longleftrightarrow> p = gp" "length nm < max_gname_len"
    "lq_group_ids req = [Some nm]" "is_stdby_available s"
  shows "if rbc_grp_list r = [gp] then handle_leave_req s a req = Inl UseAfterFree
    else \<exists>s'. handle_leave_req s a req = Inr s' \<and>
      outbox s' = outbox s @ [(of_in (secondary_server s), checkpoint_msg DEL_CHECKPOINT a nm (rbc_capability r)),
        (a, \<lparr>msg_id = leave_response,
          idv = Leave_rsp \<lparr>lr_num_groups = 1, lr_group_ids = [Some nm], lr_cause = ACCEPTED\<rparr>\<rparr>)]"
proof -
  obtain s1 where "remove_client_info_from_server_DS s a nm =
      (if is_stdby_available s \<and> rbc_grp_list r = [gp] then Inl UseAfterFree else Inr (True, s1))"
    "outbox s1 = outbox (checkpointed DEL_CHECKPOINT s a nm (rbc_capability r))"
    using remove_client_left [OF assms(1-7)] by - (elim exE conjE, rule that, assumption+)
  then show ?thesis
    using assms(7-9) by (simp add: handle_leave_req_def copy_gname_def checkpointed_def send_def)
qed

theorem handle_leave_req_use_after_free_witness:
  "handle_leave_req (demo_member\<lparr>is_stdby_available := True\<rparr>) demo_addr \<lparr>lq_num_groups = 1, lq_group_ids = [Some ''G1'']\<rparr> =
     Inl UseAfterFree"
proof -
  let ?s = "demo_member\<lparr>is_stdby_available := True\<rparr>"
  have "consistent ?s" by (simp add: consistent_cong [of ?s demo_member])
  moreover have "groups ?s 1 = groups demo_member 1" "client_RBT ?s 5 = client_RBT demo_member 5" "is_stdby_available ?s"
    by simp_all
  ultimately show ?thesis
    using handle_leave_req_use_after_free [of ?s 1 _ 5 demo_addr _ "''G1''" "\<lparr>lq_num_groups = 1, lq_group_ids = [Some ''G1'']\<rparr>"]
      demo_member_index by simp
qed

section \<open>Joining, then leaving or joining again\<close>

text \<open>
  C18: without a backup server, a new client that joins a group and leaves it restores
  the index, the group's members, its count and its capability.
\<close>

theorem join_then_leave:
  assumes "consistent s" "groups s gp = Some g" "k = calc_key (Some a)" "k \<noteq> 0" "client_RBT s k = None"
    "\<exists>d. strcpy_bytes (replicate 14 0) (sa_data a) = Inr d" "length (group_name g) < max_gname_len"
    "\<not> is_stdby_available s"
  shows "\<exists>s1 s2 g2. insert_client_info_in_server_DS s (Some gp) a c = Inr s1 \<and>
    remove_client_info_from_server_DS s1 a (group_name g) = Inr (True, s2) \<and> consistent s2 \<and>
    client_RBT s2 = client_RBT s \<and> groups s2 = (groups s)(gp \<mapsto> g2) \<and> cids s2 g2 = cids s g \<and>
    number_of_clients g2 = number_of_clients g \<and> grp_capability g2 = grp_capability g \<and>
    (\<forall>p h. p \<noteq> gp \<longrightarrow> groups s p = Some h \<longrightarrow> cids s2 h = cids s h) \<and> outbox s2 = outbox s"
proof -
  have nin: "k \<notin> set (cids s g)" using consistent_group(2) [OF assms(1,2)] assms(5) by auto
  have cap: "\<forall>r. client_RBT s k = Some r \<longrightarrow> rbc_capability r = c" using assms(5) by simp
  obtain s1 g1 where r: "insert_client_info_in_server_DS s (Some gp) a c = Inr s1" "consistent s1"
    "groups s1 = (groups s)(gp \<mapsto> g1)" "cids s1 g1 = k # cids s g" "grp_capability g1 = grp_capability g + c"
    "g1 = g\<lparr>grp_capability := grp_capability g1, number_of_clients := number_of_clients g1, client_info := client_info g1\<rparr>"
    "\<forall>p h. p \<noteq> gp \<longrightarrow> groups s p = Some h \<longrightarrow> cids s1 h = cids s h"
    "client_RBT s1 = joined s k gp c" "is_stdby_available s1 = is_stdby_available s"
    "\<not> is_stdby_available s \<longrightarrow> outbox s1 = outbox s"
    using insert_client_joined [OF assms(1-4) nin cap assms(6,7)]
    by - (elim exE conjE, rule that, assumption+)
  have nm: "group_name g1 = group_name g" using arg_cong [OF r(6), of group_name] by simp
  define q where "q = \<lparr>rbc_capability = c, rbc_grp_list = [gp], rbc_av_status = RBFREE, rbc_is_moderator = False\<rparr>"
  have i1: "client_RBT s1 k = Some q" using assms(5) by (simp add: r(8) joined_def q_def)
  have g1: "groups s1 gp = Some g1" by (simp add: r(3))
  have m: "gp \<in> set (rbc_grp_list q)"
    "\<forall>p\<in>set (rbc_grp_list q). group_name (the (groups s1 p)) = group_name g \<longleftrightarrow> p = gp"
    by (simp_all add: q_def g1 nm)
  obtain s2 g2 where t: "remove_client_info_from_server_DS s1 a (group_name g) =
      (if is_stdby_available s1 \<and> rbc_grp_list q = [gp] then Inl UseAfterFree else Inr (True, s2))"
    "consistent s2" "groups s2 = (groups s1)(gp \<mapsto> g2)" "cids s2 g2 = remove1 k (cids s1 g1)"
    "grp_capability g2 = grp_capability g1 - rbc_capability q"
    "\<forall>p h. p \<noteq> gp \<longrightarrow> groups s1 p = Some h \<longrightarrow> cids s2 h = cids s1 h"
    "client_RBT s2 = left_index s1 k gp" "outbox s2 = outbox (checkpointed DEL_CHECKPOINT s1 a (group_name g) (rbc_capability q))"
    using remove_client_left [OF r(2) g1 assms(3) i1 m assms(7)]
    by - (elim exE conjE, rule that, assumption+)
  have num: "number_of_clients h = int (length (cids u h))" if "consistent u" "groups u gp = Some h" for u h
    using wf_heapD(5) [OF _ that(2)] that(1) by (simp add: consistent_def cids_def)
  have "number_of_clients g2 = number_of_clients g"
    using num [OF t(2), of g2] num [OF assms(1,2)] by (simp add: t(3,4) r(4))
  moreover have "client_RBT s2 = client_RBT s"
    using assms(5) by (auto simp: t(7) left_index_def r(8) joined_def fun_eq_iff)
  moreover have "cids s2 h = cids s h" if "p \<noteq> gp" "groups s p = Some h" for p h
    using t(6) [rule_format, of p h] r(7) [rule_format, of p h] that by (simp add: r(3))
  ultimately show ?thesis
    using r(1,5) t(1,2) assms(8)
    by (intro exI [of _ s1] exI [of _ s2] exI [of _ g2])
      (simp add: r(3,4,9,10) t(3,4,5,8) q_def)
qed

theorem join_then_leave_witness:
  "\<exists>s1 s2. insert_client_info_in_server_DS demo_server (Some 1) demo_addr 7 = Inr s1 \<and>
     remove_client_info_from_server_DS s1 demo_addr ''G1'' = Inr (True, s2) \<and> client_RBT s2 = Map.empty"
  using join_then_leave [of demo_server 1 demo_group 5 demo_addr 7]
  by (auto simp: demo_server_def [THEN arg_cong, of groups] demo_server_def [THEN arg_cong, of is_stdby_available]
      demo_group_def new_group_def)

text \<open>
  A member that joins its group again keeps a single client node but is listed twice
  for the group in the index, and its capability is counted twice.
\<close>

theorem rejoin_counts_twice:
  assumes "consistent s" "groups s gp = Some g" "k = calc_key (Some a)" "client_RBT s k = Some r"
    "gp \<in> set (rbc_grp_list r)" "\<not> is_stdby_available s"
  shows "\<exists>s' g'. insert_client_info_in_server_DS s (Some gp) a c = Inr s' \<and> groups s' = (groups s)(gp \<mapsto> g') \<and>
    cids s' g' = k # remove1 k (cids s g) \<and> grp_capability g' = grp_capability g + c \<and>
    client_RBT s' = (client_RBT s)(k \<mapsto> r\<lparr>rbc_grp_list := gp # rbc_grp_list r\<rparr>)"
proof -
  note wf = consistent_def [THEN iffD1, OF assms(1), THEN conjunct1]
  note G = consistent_group [OF assms(1,2)]
  have pos: "k > 0" using consistent_index(1) [OF assms(1,4)] by (simp add: word_neq_0_conv)
  define g1 where "g1 = g\<lparr>grp_capability := grp_capability g + c\<rparr>"
  define s1 where "s1 = s\<lparr>groups := (groups s)(gp \<mapsto> g1)\<rparr>"
  have wf1: "wf_heap s1" unfolding s1_def g1_def by (rule wf_heap_capability [OF wf assms(2)])
  have gs1: "groups s1 gp = Some g1" by (simp add: s1_def)
  have ids1: "cids s1 g1 = cids s g" by (rule cids_cong) (simp_all add: s1_def g1_def clist_def)
  have kin: "k \<in> set (cids s1 g1)" "distinct (cids s1 g1)" using G(1,2) assms(4,5) ids1 by auto
  obtain s2 g2 where rem: "remove_client_from_mcast_group_node s1 (Some gp) k = Inr (True, s2)" "wf_heap s2"
    "groups s2 = (groups s1)(gp \<mapsto> g2)" "cids s2 g2 = remove1 k (cids s1 g1)"
    "g2 = g1\<lparr>number_of_clients := number_of_clients g2, client_info := client_info g2\<rparr>"
    "s2 = s1\<lparr>groups := groups s2, clients := clients s2\<rparr>"
    using remove_client_present [OF wf1 gs1 kin] by - (elim exE conjE, rule that, assumption+)
  have gs2: "groups s2 gp = Some g2" by (simp add: rem(3))
  obtain s3 g3 where add: "ADD_CLIENT_IN_GROUP s2 gp a k = Inr s3"
    "groups s3 = (groups s2)(gp \<mapsto> g3)" "cids s3 g3 = k # cids s2 g2"
    "g3 = g2\<lparr>number_of_clients := number_of_clients g3, client_info := client_info g3\<rparr>"
    "s3 = s2\<lparr>groups := groups s3, clients := clients s3, next_ptr := next_ptr s3\<rparr>"
    using add_client [OF rem(2) gs2, of a k] by - (elim exE conjE, rule that, assumption+)
  have s3: "client_RBT s3 = client_RBT s" "is_stdby_available s3 = is_stdby_available s"
    using arg_cong [OF rem(6), of client_RBT] arg_cong [OF rem(6), of is_stdby_available]
      arg_cong [OF add(5), of client_RBT] arg_cong [OF add(5), of is_stdby_available] by (simp_all add: s1_def)
  define s4 where "s4 = s3\<lparr>client_RBT := (client_RBT s)(k \<mapsto> r\<lparr>rbc_grp_list := gp # rbc_grp_list r\<rparr>)\<rparr>"
  have "insert_client_info_in_server_DS s (Some gp) a c = Inr s4"
    using assms(2,4,6) rem(1) add(1) pos s3
    by (simp add: insert_client_info_in_server_DS_def Let_def assms(3) [symmetric] s1_def [symmetric] g1_def [symmetric]
        allocate_rb_cl_node_def s4_def)
  moreover have "cids s4 g3 = cids s3 g3" by (rule cids_cong) (simp_all add: s4_def)
  moreover have "grp_capability g3 = grp_capability g + c"
    using arg_cong [OF rem(5), of grp_capability] arg_cong [OF add(4), of grp_capability] by (simp add: g1_def)
  moreover have "groups s4 = (groups s)(gp \<mapsto> g3)" by (simp add: s4_def add(2) rem(3) s1_def)
  moreover have "client_RBT s4 = (client_RBT s)(k \<mapsto> r\<lparr>rbc_grp_list := gp # rbc_grp_list r\<rparr>)" by (simp add: s4_def)
  ultimately show ?thesis
    by (intro exI [of _ s4] exI [of _ g3]) (simp add: add(3) rem(4) ids1)
qed

theorem rejoin_counts_twice_witness:
  "\<exists>s' g'. insert_client_info_in_server_DS demo_member (Some 1) demo_addr 7 = Inr s' \<and> groups s' 1 = Some g' \<and>
     cids s' g' = [5] \<and> grp_capability g' = 14"
proof -
  have m: "(1::nat) \<in> set (rbc_grp_list \<lparr>rbc_capability = 7, rbc_grp_list = [1], rbc_av_status = RBFREE, rbc_is_moderator = False\<rparr>)"
    by simp
  have c: "cids demo_member (demo_group\<lparr>grp_capability := 7, number_of_clients := 1, client_info := Some [2]\<rparr>) = [5]"
    by (simp add: cids_def clist_def cid_def demo_member_def)
  show ?thesis
    using rejoin_counts_twice [OF demo_member_consistent demo_member_index(2) demo_member_index(4) [symmetric]
        demo_member_index(1) m demo_member_index(3), of 7]
    by (auto simp: c)
qed

end
