(* ===== verification/TaskFiles.thy ===== *)
theory TaskFiles
  imports ServerMembership
begin

text \<open>
  The distribution of a task over the clients of a group (\<open>src/src/server.c\<close>): the
  splitting of the task file, the map of clients to their files, the removal of dead
  clients from it, and the thread that fetches the results.
\<close>

section \<open>Text the code prints into file names\<close>

definition digit :: "nat \<Rightarrow> char" where
  "digit d = ''0123456789'' ! (d mod 10)"

text \<open>\<open>%u\<close>.\<close>

fun dec_str :: "nat \<Rightarrow> string" where
  "dec_str n = (if n < 10 then [digit n] else dec_str (n div 10) @ [digit n])"

declare dec_str.simps [simp del]

text \<open>\<open>inet_ntoa\<close>: the bytes of the address in memory order.\<close>

definition inet_ntoa :: "u32 \<Rightarrow> string" where
  "inet_ntoa a = dec_str (unat (byte 0 a)) @ ''.'' @ dec_str (unat (byte 1 a)) @ ''.'' @
                 dec_str (unat (byte 2 a)) @ ''.'' @ dec_str (unat (byte 3 a))"

text \<open>\<open>basename\<close> of \<open>libgen.h\<close>; a null pointer gives \<open>''.''\<close> as the empty path does.\<close>

definition basename :: "string \<Rightarrow> string" where
  "basename p = (if p = [] then ''.''
     else let q = rev (dropWhile (\<lambda>c. c = CHR ''/'') (rev p))
          in if q = [] then ''/'' else rev (takeWhile (\<lambda>c. c \<noteq> CHR ''/'') (rev q)))"

section \<open>Dead clients\<close>

definition copy_struct :: "task_distribution \<Rightarrow> task_distribution \<Rightarrow> task_distribution" where
  "copy_struct dst src = dst\<lparr>working_clients := working_clients src, file_count := file_count src,
                             task_filename := task_filename src\<rparr>"

definition swap_struct :: "task_distribution list \<Rightarrow> nat \<Rightarrow> nat \<Rightarrow> task_distribution list result" where
  "swap_struct m i j =
     bindE (at m i) (\<lambda>temp.
     bindE (at m j) (\<lambda>src.
     bindE (upd_at m i (copy_struct temp src)) (\<lambda>m1.
     bindE (at m1 j) (\<lambda>dst. upd_at m1 j (copy_struct dst temp)))))"

text \<open>The inner loop over the dead clients: is \<open>x\<close> among the first \<open>n\<close>?\<close>

fun dead_scan :: "u32 list \<Rightarrow> nat \<Rightarrow> u32 \<Rightarrow> bool result" where
  "dead_scan ds 0 x = Inr False"
| "dead_scan [] (Suc n) x = Inl OutOfBounds"
| "dead_scan (d # ds) (Suc n) x = (if x = d then Inr True else dead_scan ds n x)"

text \<open>
  The marking loop over the first \<open>c\<close> entries, \<open>marked\<close> of \<open>dc\<close> dead clients found so
  far: the entries and the final number of marked ones.
\<close>

fun mark_loop :: "task_distribution list \<Rightarrow> nat \<Rightarrow> u32 list \<Rightarrow> nat \<Rightarrow> nat \<Rightarrow> (task_distribution list \<times> nat) result" where
  "mark_loop m 0 dead dc marked = Inr (m, marked)"
| "mark_loop [] (Suc c) dead dc marked = (if marked < dc then Inl OutOfBounds else Inr ([], marked))"
| "mark_loop (t # m) (Suc c) dead dc marked =
     (if marked < dc
      then bindE (dead_scan dead dc (working_clients t)) (\<lambda>hit.
           bindE (mark_loop m c dead dc (if hit then marked + 1 else marked)) (\<lambda>(m1, k).
           Inr ((if hit then t\<lparr>working_clients := 0\<rparr> else t) # m1, k)))
      else Inr (t # m, marked))"

text \<open>
  The two inner loops of the compression: \<open>i\<close> runs up to the first empty entry, reading
  the entry before testing the bound, \<open>j\<close> runs down to the last used one or to \<open>i\<close>.
\<close>

function seek_zero :: "task_distribution list \<Rightarrow> nat \<Rightarrow> nat \<Rightarrow> nat result" where
  "seek_zero m c i =
     bindE (at m i) (\<lambda>t. if working_clients t \<noteq> 0 \<and> i < c then seek_zero m c (i + 1) else Inr i)"
  by pat_completeness auto
termination
  by (relation "measure (\<lambda>(m, c, i). c - i)") auto

declare seek_zero.simps [simp del]

fun seek_used :: "task_distribution list \<Rightarrow> nat \<Rightarrow> nat \<Rightarrow> nat result" where
  "seek_used m i 0 =
     bindE (at m 0) (\<lambda>t. if working_clients t = 0 \<and> i \<noteq> 0 then Inl OutOfBounds else Inr 0)"
| "seek_used m i (Suc j) =
     bindE (at m (Suc j)) (\<lambda>t. if working_clients t = 0 \<and> Suc j \<noteq> i then seek_used m i j else Inr (Suc j))"

fun compress :: "task_distribution list \<Rightarrow> nat \<Rightarrow> nat \<Rightarrow> nat \<Rightarrow> nat \<Rightarrow> task_distribution list result" where
  "compress m c 0 i j = Inr m"
| "compress m c (Suc marked) i j =
     (if int i < int c - int marked
      then bindE (seek_zero m c i) (\<lambda>i1.
           bindE (seek_used m i1 j) (\<lambda>j1.
           bindE (swap_struct m i1 j1) (\<lambda>m1. compress m1 c marked i1 j1)))
      else Inr m)"

text \<open>The count is lowered by the number of dead clients given, found or not.\<close>

definition mark_dead_clients_in_group :: "task_distribution list \<Rightarrow> int \<Rightarrow> u32 list \<Rightarrow> int \<Rightarrow> (task_distribution list \<times> int) result" where
  "mark_dead_clients_in_group ref_array ref_count dead_client_arr dead_count =
     bindE (mark_loop ref_array (nat ref_count) dead_client_arr (nat dead_count) 0) (\<lambda>(m, marked).
     bindE (compress m (nat ref_count) marked 0 (nat (ref_count - 1))) (\<lambda>m1.
     Inr (m1, ref_count - dead_count)))"

section \<open>Splitting the task file\<close>

text \<open>\<open>get_task_count\<close> (\<open>common.c\<close>): the lines \<open>wc -l\<close> counts; unset when the file is missing.\<close>

definition get_task_count :: "server_info \<Rightarrow> string \<Rightarrow> u32 result" where
  "get_task_count s filename =
     (case files s filename of None \<Rightarrow> Inl Uninit
      | Some b \<Rightarrow> Inr (of_nat (length (List.filter (\<lambda>x. x = 10) b))))"

text \<open>The length of the first \<open>n\<close> lines, or of the whole text when it has fewer.\<close>

fun lines_len :: "u8 list \<Rightarrow> nat \<Rightarrow> nat" where
  "lines_len [] n = 0"
| "lines_len (b # bs) 0 = 0"
| "lines_len (b # bs) (Suc n) = Suc (lines_len bs (if b = 10 then n else Suc n))"

text \<open>
  The mapping of a file: its bytes, then zeros to the end of the last page; reading
  further is a fault.
\<close>

definition mapped :: "u8 list \<Rightarrow> u8 list" where
  "mapped b = b @ replicate ((4096 - length b mod 4096) mod 4096) 0"

text \<open>
  One pass of the loop of \<open>create_task_sets_per_client\<close> for client \<open>i\<close> of \<open>n\<close>: its
  entry of the map is given a new file name, and the file is written.  \<open>mmap\<close> of no
  bytes fails, which ends the process.
\<close>

definition client_file_name :: "u32 \<Rightarrow> string \<Rightarrow> string" where
  "client_file_name cid st = dec_str (unat cid) @ ''_'' @ st @ ''.txt''"

definition create_step ::
  "string \<Rightarrow> u8 list \<Rightarrow> bool \<Rightarrow> u32 list \<Rightarrow> u32 option list \<Rightarrow> u32 \<Rightarrow> u32 \<Rightarrow> u32 \<Rightarrow> u32 \<Rightarrow>
   server_info \<Rightarrow> task_distribution list \<Rightarrow> u32 \<Rightarrow> u32 \<Rightarrow> (server_info \<times> task_distribution list \<times> u32 \<times> u32) result"
where
  "create_step folder_path src is_file_unstructured client_ids caps num_of_clients task_count capability_total i
     s task_map start_index remaining_count =
     bindE (at client_ids (unat i)) (\<lambda>cid.
     let file_name = client_file_name cid (stamp s); file_path = folder_path @ ''/'' @ file_name
     in bindE (at task_map (unat i)) (\<lambda>t.
        bindE (upd_at task_map (unat i) (t\<lparr>task_filename := [file_name]\<rparr>)) (\<lambda>m1.
        bindE (at caps (unat i)) (\<lambda>co.
        bindE (case co of None \<Rightarrow> Inl Uninit | Some c \<Rightarrow> Inr c) (\<lambda>c.
        bindE (if capability_total = 0 then Inl DivByZero else Inr (c * task_count div capability_total)) (\<lambda>dc.
        let remaining1 = remaining_count - dc;
            data_count = (if i = num_of_clients - 1 then dc + remaining1 else dc);
            fsize = (if is_file_unstructured then lines_len (drop (unat start_index) src) (unat data_count)
                     else unat (data_count * 11))
        in if fsize = 0 then Inl ProcExit
           else if unat start_index + fsize > length (mapped src) then Inl OutOfBounds
           else Inr (s\<lparr>files := (files s)(file_path \<mapsto> take fsize (drop (unat start_index) (mapped src)))\<rparr>,
                     m1, start_index + of_nat fsize, remaining1)))))))"

text \<open>The loop, with \<open>k\<close> clients left.\<close>

fun create_loop ::
  "string \<Rightarrow> u8 list \<Rightarrow> bool \<Rightarrow> u32 list \<Rightarrow> u32 option list \<Rightarrow> u32 \<Rightarrow> u32 \<Rightarrow> u32 \<Rightarrow> nat \<Rightarrow>
   server_info \<Rightarrow> task_distribution list \<Rightarrow> u32 \<Rightarrow> u32 \<Rightarrow> (server_info \<times> task_distribution list) result"
where
  "create_loop folder_path src uns ids caps n tasks cap_sum 0 s m start remaining = Inr (s, m)"
| "create_loop folder_path src uns ids caps n tasks cap_sum (Suc k) s m start remaining =
     bindE (create_step folder_path src uns ids caps n tasks cap_sum (n - of_nat (Suc k)) s m start remaining) (\<lambda>(s1, m1, start1, remaining1).
     create_loop folder_path src uns ids caps n tasks cap_sum k s1 m1 start1 remaining1)"

text \<open>The folder name is printed into 100 characters.\<close>

definition create_task_sets_per_client :: "server_info \<Rightarrow> ptr \<Rightarrow> u32 list \<Rightarrow> u32 \<Rightarrow> u32 \<Rightarrow> u32 \<Rightarrow> server_info result" where
  "create_task_sets_per_client s gp client_ids num_of_clients task_count capability_total =
     bindE (grp s gp) (\<lambda>g.
     bindE (own_get (distribution_map (task_set_details g))) (\<lambda>task_map.
     bindE (own_get (task_set_filename g)) (\<lambda>fname.
     bindE (case files s fname of None \<Rightarrow> Inl OutOfBounds | Some b \<Rightarrow> Inr b) (\<lambda>src.
     let folder_path = ''/tmp/server/task_set/'' @ group_name g
     in if length folder_path \<ge> 100 then Inl OutOfBounds
        else bindE (own_get (ts_capability (task_set_details g))) (\<lambda>caps.
             bindE (create_loop folder_path src (task_set_format g = 0) client_ids caps num_of_clients task_count capability_total
                      (unat num_of_clients) s task_map 0 task_count) (\<lambda>(s1, m1).
             upd_grp s1 gp (\<lambda>g. g\<lparr>task_set_details := (task_set_details g)
                \<lparr>task_folder_path := Own folder_path, distribution_map := Own m1\<rparr>\<rparr>)))))))"

text \<open>Reading the capabilities of the clients; an unknown client leaves its entry unset.\<close>

fun sum_capabilities :: "server_info \<Rightarrow> u32 list \<Rightarrow> nat \<Rightarrow> nat \<Rightarrow> u32 \<Rightarrow> u32 option list \<Rightarrow> (u32 \<times> u32 option list) result" where
  "sum_capabilities s client_ids i 0 acc caps = Inr (acc, caps)"
| "sum_capabilities s client_ids i (Suc k) acc caps =
     bindE (at client_ids i) (\<lambda>cid.
     case client_RBT s cid of
       None \<Rightarrow> sum_capabilities s client_ids (i + 1) k acc caps
     | Some rbNode \<Rightarrow> bindE (upd_at caps i (Some (rbc_capability rbNode))) (\<lambda>caps1.
         sum_capabilities s client_ids (i + 1) k (acc + rbc_capability rbNode) caps1))"

definition blank_entry :: task_distribution where
  "blank_entry = \<lparr>working_clients = 0, task_filename = [], file_count = 0\<rparr>"

text \<open>With no more tasks than clients only half as many clients as tasks get a share.\<close>

definition get_data_set_for_client_based_on_capability :: "server_info \<Rightarrow> ptr \<Rightarrow> u32 \<Rightarrow> u32 list \<Rightarrow> u32 \<Rightarrow> server_info result" where
  "get_data_set_for_client_based_on_capability s gp num_of_clients client_ids task_count =
     (let n = (if num_of_clients \<ge> task_count then task_count div 2 else num_of_clients);
          caps0 = replicate (unat n) None
      in bindE (upd_grp s gp (\<lambda>g. g\<lparr>task_set_details := (task_set_details g)
             \<lparr>ts_capability := Own caps0, distribution_map := Own (replicate (unat n) blank_entry)\<rparr>\<rparr>)) (\<lambda>s1.
         bindE (sum_capabilities s1 client_ids 0 (if sint n < 0 then 0 else unat n) 0 caps0) (\<lambda>(capability_total, caps).
         bindE (upd_grp s1 gp (\<lambda>g. g\<lparr>task_set_details := (task_set_details g)\<lparr>ts_capability := Own caps\<rparr>\<rparr>)) (\<lambda>s2.
         create_task_sets_per_client s2 gp client_ids n task_count capability_total))))"

section \<open>Results\<close>

definition collect_task_results :: "server_info \<Rightarrow> task_rsp_t \<Rightarrow> string \<Rightarrow> u32 \<Rightarrow> server_info result" where
  "collect_task_results s task_resp result_folder clientid =
     bindE (nonnull (tr_group_name task_resp)) (\<lambda>gname.
     let src_folder = inet_ntoa clientid @ '':/tmp/client/moderator/'' @ gname; n = unat (tr_num_clients task_resp)
     in if length src_folder \<ge> 100 then Inl OutOfBounds
        else if n > length (tr_result task_resp) then Inl OutOfBounds
        else Inr (s\<lparr>threads := threads s @ [\<lparr>ta_file_count = n,
               ta_task_filename = map (\<lambda>r. basename (case r of None \<Rightarrow> [] | Some p \<Rightarrow> p)) (take n (tr_result task_resp)),
               source_folder = src_folder, dest_folder = result_folder\<rparr>]\<rparr>))"

text \<open>The buffer has 140 characters; \<open>stamp\<close> is the time printed by \<open>strftime\<close>.\<close>

definition get_task_result_folder_path :: "server_info \<Rightarrow> string \<Rightarrow> string result" where
  "get_task_result_folder_path s gname =
     (let path = ''/tmp/server/task_result/'' @ gname @ ''/'' @ stamp s
      in if length path \<ge> 140 then Inl OutOfBounds else Inr path)"

end
