(* ===== verification/DeadClients.thy ===== *)
theory DeadClients
  imports TaskFiles "HOL-Library.Multiset"
begin

text \<open>
  \<open>mark_dead_clients_in_group\<close> (\<open>src/src/server.c\<close>): the marking loop blanks the entries
  of dead clients, the compression moves the blank entries behind the others.
\<close>

section \<open>Marking\<close>

abbreviation wc :: "task_distribution \<Rightarrow> u32" where
  "wc t \<equiv> working_clients t"

definition blanked :: "u32 list \<Rightarrow> task_distribution \<Rightarrow> task_distribution" where
  "blanked D t = (if wc t \<in> set D then t\<lparr>working_clients := 0\<rparr> else t)"

definition hits :: "u32 list \<Rightarrow> task_distribution list \<Rightarrow> nat" where
  "hits D xs = length (filter (\<lambda>t. wc t \<in> set D) xs)"

lemma dead_scan_all: "dead_scan D (length D) x = Inr (x \<in> set D)"
  by (induction D) auto

lemma blanked_id: "hits D xs = 0 \<Longrightarrow> map (blanked D) xs = xs"
  by (rule map_idI) (auto simp: hits_def blanked_def filter_empty_conv)

lemma mark_loop_blanks:
  "k + hits D xs \<le> length D \<Longrightarrow>
   mark_loop (xs @ rest) (length xs) D (length D) k = Inr (map (blanked D) xs @ rest, k + hits D xs)"
proof (induction xs arbitrary: k)
  case (Cons x xs)
  show ?case
  proof (cases "k < length D")
    case True
    have "(if wc x \<in> set D then k + 1 else k) + hits D xs \<le> length D"
      using Cons.prems by (simp add: hits_def split: if_splits)
    from Cons.IH [OF this] True show ?thesis
      by (auto simp: dead_scan_all hits_def blanked_def)
  next
    case False
    then have "hits D (x # xs) = 0" "k = length D" using Cons.prems by auto
    then show ?thesis using blanked_id [of D "x # xs"] by simp
  qed
qed (simp add: hits_def)

section \<open>Compression\<close>

lemma seek_zero_finds:
  "i \<le> z \<Longrightarrow> z < c \<Longrightarrow> c \<le> length m \<Longrightarrow> wc (m ! z) = 0 \<Longrightarrow>
   \<exists>i1. seek_zero m c i = Inr i1 \<and> i \<le> i1 \<and> i1 \<le> z \<and> wc (m ! i1) = 0 \<and> (\<forall>k. i \<le> k \<longrightarrow> k < i1 \<longrightarrow> wc (m ! k) \<noteq> 0)"
proof (induction m c i rule: seek_zero.induct)
  case (1 m c i)
  show ?case
  proof (cases "wc (m ! i) = 0")
    case True
    then show ?thesis using 1(2-4) by (subst seek_zero.simps) auto
  next
    case False
    then have "i < z" using 1(2,5) by (cases "i = z") auto
    then obtain i1 where i1: "seek_zero m c (i + 1) = Inr i1" "i + 1 \<le> i1" "i1 \<le> z" "wc (m ! i1) = 0"
      "\<forall>k. i + 1 \<le> k \<longrightarrow> k < i1 \<longrightarrow> wc (m ! k) \<noteq> 0"
      using 1(1) [of "m ! i"] 1(3-5) False by auto
    have "\<forall>k. i \<le> k \<longrightarrow> k < i1 \<longrightarrow> wc (m ! k) \<noteq> 0"
      using i1(5) False by (metis Suc_eq_plus1 Suc_leI le_neq_implies_less)
    then show ?thesis using i1 False \<open>i < z\<close> 1(3,4) by (subst seek_zero.simps) auto
  qed
qed

lemma seek_used_finds:
  "i \<le> j \<Longrightarrow> j < length m \<Longrightarrow>
   \<exists>j1. seek_used m i j = Inr j1 \<and> i \<le> j1 \<and> j1 \<le> j \<and> (\<forall>k. j1 < k \<longrightarrow> k \<le> j \<longrightarrow> wc (m ! k) = 0) \<and>
     (j1 = i \<or> wc (m ! j1) \<noteq> 0)"
proof (induction j)
  case (Suc j)
  show ?case
  proof (cases "wc (m ! Suc j) = 0 \<and> Suc j \<noteq> i")
    case True
    then obtain j1 where "seek_used m i j = Inr j1" "i \<le> j1" "j1 \<le> j" "\<forall>k. j1 < k \<longrightarrow> k \<le> j \<longrightarrow> wc (m ! k) = 0"
      "j1 = i \<or> wc (m ! j1) \<noteq> 0" using Suc by auto
    then show ?thesis using True Suc.prems(2) by (auto simp: le_Suc_eq)
  qed (use Suc.prems in auto)
qed auto

lemma copy_struct_eq [simp]: "copy_struct dst src = src"
  by (simp add: copy_struct_def)

lemma swap_struct_swaps:
  "i < length m \<Longrightarrow> j < length m \<Longrightarrow> swap_struct m i j = Inr (m[i := m ! j, j := m ! i])"
  by (cases "i = j") (simp_all add: swap_struct_def)

text \<open>The blank entries among the first \<open>c\<close>; a swap below \<open>c\<close> keeps their number.\<close>

definition blanks :: "task_distribution list \<Rightarrow> nat \<Rightarrow> nat" where
  "blanks m c = length (filter (\<lambda>t. wc t = 0) (take c m))"

lemma swap_take_mset:
  assumes "i < c" "j < c" "c \<le> length m"
  shows "mset (take c (m[i := m ! j, j := m ! i])) = mset (take c m)"
proof -
  have "take c (m[i := m ! j, j := m ! i]) = (take c m)[i := take c m ! j, j := take c m ! i]"
    using assms by (simp add: take_update_swap)
  then show ?thesis using mset_swap [of j "take c m" i] assms by simp
qed

lemma blanks_mset: "mset (take c m') = mset (take c m) \<Longrightarrow> blanks m' c = blanks m c"
  unfolding blanks_def by (metis mset_filter size_mset)

lemma nth_in_take: "k < c \<Longrightarrow> c \<le> length m \<Longrightarrow> m ! k \<in> set (take c m)"
  by (metis in_set_conv_nth length_take min.absorb2 nth_take)

lemma in_take_nth: "t \<in> set (take p m) \<Longrightarrow> \<exists>k<p. k < length m \<and> t = m ! k"
  by (metis in_set_conv_nth length_take min_less_iff_conj nth_take)

lemma in_drop_take_nth: "t \<in> set (drop p (take c m)) \<Longrightarrow> \<exists>k. p \<le> k \<and> k < c \<and> t = m ! k"
proof -
  assume "t \<in> set (drop p (take c m))"
  then obtain i where "i < length (drop p (take c m))" "t = drop p (take c m) ! i" by (metis in_set_conv_nth)
  then show ?thesis by (intro exI [of _ "p + i"]) (auto simp: drop_take)
qed

lemma blanks_bound:
  assumes "\<And>k. k < i \<Longrightarrow> wc (m ! k) \<noteq> 0" "i \<le> c" "c \<le> length m"
  shows "blanks m c \<le> c - i"
proof -
  have "take c m = take i m @ drop i (take c m)" using assms(2) by (metis append_take_drop_id min.absorb1 take_take)
  then have "blanks m c = length (filter (\<lambda>t. wc t = 0) (take i m)) + length (filter (\<lambda>t. wc t = 0) (drop i (take c m)))"
    unfolding blanks_def by (metis filter_append length_append)
  moreover have "filter (\<lambda>t. wc t = 0) (take i m) = []"
    using assms(1) in_take_nth [of _ i m] by (metis (mono_tags, lifting) filter_False)
  moreover have "length (filter (\<lambda>t. wc t = 0) (drop i (take c m))) \<le> c - i"
    using length_filter_le [of "\<lambda>t. wc t = 0" "drop i (take c m)"] by (rule le_trans) simp
  ultimately show ?thesis by simp
qed

text \<open>The first \<open>c\<close> entries of \<open>m\<close> are \<open>p\<close> used ones and then blank ones.\<close>

definition settled :: "task_distribution list \<Rightarrow> nat \<Rightarrow> nat \<Rightarrow> bool" where
  "settled m c p \<longleftrightarrow> p \<le> c \<and> (\<forall>k<p. wc (m ! k) \<noteq> 0) \<and> (\<forall>k. p \<le> k \<longrightarrow> k < c \<longrightarrow> wc (m ! k) = 0)"

text \<open>A swap leaves fewer blank entries between the two.\<close>

lemma swap_fewer_between:
  assumes "i \<le> i1" "i1 \<le> j1" "j1 \<le> j" "j1 < length m" "wc (m ! i1) = 0" "j1 = i1 \<or> wc (m ! j1) \<noteq> 0"
    "card {k. i \<le> k \<and> k < j \<and> wc (m ! k) = 0} \<le> Suc marked"
  shows "card {k. i1 \<le> k \<and> k < j1 \<and> wc (m[i1 := m ! j1, j1 := m ! i1] ! k) = 0} \<le> marked"
proof (cases "j1 = i1")
  case True
  then have "{k. i1 \<le> k \<and> k < j1 \<and> wc (m[i1 := m ! j1, j1 := m ! i1] ! k) = 0} = {}" by auto
  then show ?thesis by (simp only: card.empty)
next
  case False
  let ?B = "{k. i \<le> k \<and> k < j \<and> wc (m ! k) = 0}"
  have lt: "i1 < j1" "wc (m ! j1) \<noteq> 0" using False assms(2,6) by auto
  have "{k. i1 \<le> k \<and> k < j1 \<and> wc (m[i1 := m ! j1, j1 := m ! i1] ! k) = 0} \<subseteq> ?B - {i1}"
    using lt assms(1,3,4) by (auto simp: nth_list_update split: if_splits)
  moreover have "finite ?B" by (rule finite_subset [of _ "{..<j}"]) auto
  moreover from this have "card (?B - {i1}) \<le> marked" using assms(1,3,5,7) lt(1) by simp
  ultimately show ?thesis by (meson card_mono finite_Diff le_trans)
qed

lemma compress_settles:
  "i \<le> j \<Longrightarrow> j < c \<Longrightarrow> c \<le> length m \<Longrightarrow> (\<And>k. k < i \<Longrightarrow> wc (m ! k) \<noteq> 0) \<Longrightarrow>
   (\<And>k. j < k \<Longrightarrow> k < c \<Longrightarrow> wc (m ! k) = 0) \<Longrightarrow>
   wc (m ! j) = 0 \<or> (\<exists>k. i \<le> k \<and> k < j \<and> wc (m ! k) = 0) \<Longrightarrow>
   card {k. i \<le> k \<and> k < j \<and> wc (m ! k) = 0} \<le> marked \<Longrightarrow> marked \<le> blanks m c \<Longrightarrow>
   \<exists>m'. compress m c marked i j = Inr m' \<and> length m' = length m \<and> drop c m' = drop c m \<and>
     mset (take c m') = mset (take c m) \<and> (\<exists>p. settled m' c p)"
proof (induction marked arbitrary: m i j)
  case 0
  then have none: "\<And>k. i \<le> k \<Longrightarrow> k < j \<Longrightarrow> wc (m ! k) \<noteq> 0" by (auto simp: card_eq_0_iff)
  with 0(6) have "wc (m ! j) = 0" by blast
  then have "settled m c j" unfolding settled_def using 0 none
    by (metis le_neq_implies_less less_imp_le not_le)
  then show ?case by auto
next
  case (Suc marked)
  note P = Suc.prems
  obtain z where z: "i \<le> z" "z \<le> j" "wc (m ! z) = 0" using P(1,6) by (meson less_imp_le order_refl)
  obtain i1 where i1: "seek_zero m c i = Inr i1" "i \<le> i1" "i1 \<le> z" "wc (m ! i1) = 0"
    "\<forall>k. i \<le> k \<longrightarrow> k < i1 \<longrightarrow> wc (m ! k) \<noteq> 0"
    using seek_zero_finds [of i z c m] z P(2,3) by auto
  have ij: "i1 \<le> j" "j < length m" "i1 < c" using i1(3) z(2) P(2,3) by auto
  obtain j1 where j1: "seek_used m i1 j = Inr j1" "i1 \<le> j1" "j1 \<le> j"
    "\<forall>k. j1 < k \<longrightarrow> k \<le> j \<longrightarrow> wc (m ! k) = 0" "j1 = i1 \<or> wc (m ! j1) \<noteq> 0"
    using seek_used_finds [OF ij(1,2)] by blast
  define m1 where "m1 = m[i1 := m ! j1, j1 := m ! i1]"
  have jc: "j1 < c" using j1(3) P(2) by simp
  have sw: "swap_struct m i1 j1 = Inr m1" unfolding m1_def
    by (rule swap_struct_swaps) (use ij jc P(3) in auto)
  have tk: "mset (take c m1) = mset (take c m)" unfolding m1_def by (rule swap_take_mset [OF ij(3) jc P(3)])
  have dr: "drop c m1 = drop c m" using ij(3) jc by (simp add: m1_def)
  have len: "length m1 = length m" by (simp add: m1_def)
  have pre: "wc (m ! k) \<noteq> 0" if "k < i1" for k using that P(4) i1(5) by (meson not_le)
  have same: "m1 ! k = m ! k" if "k \<noteq> i1" "k \<noteq> j1" for k using that by (simp add: m1_def)
  have at1: "m1 ! j1 = m ! i1" "m1 ! i1 = m ! j1"
    using ij jc P(3) by (auto simp: m1_def nth_list_update)
  have guard: "int i < int c - int marked"
    using blanks_bound [of i m c] P(1-4,8) by auto
  have pre1: "wc (m1 ! k) \<noteq> 0" if "k < i1" for k using that pre same j1(2) by auto
  have suf1: "wc (m1 ! k) = 0" if "j1 < k" "k < c" for k
    using that same [of k] j1(2,4) P(5) [of k] by (cases "k \<le> j") auto
  have z1: "wc (m1 ! j1) = 0" using at1 i1(4) by simp
  have card1: "card {k. i1 \<le> k \<and> k < j1 \<and> wc (m1 ! k) = 0} \<le> marked"
    unfolding m1_def by (rule swap_fewer_between [OF i1(2) j1(2,3) _ i1(4) j1(5) P(7)]) (use jc P(3) in simp)
  have bl: "marked \<le> blanks m1 c" using P(8) blanks_mset [OF tk] by simp
  obtain m' where "compress m1 c marked i1 j1 = Inr m'" "length m' = length m1" "drop c m' = drop c m1"
    "mset (take c m') = mset (take c m1)" "\<exists>p. settled m' c p"
    using Suc.IH [OF j1(2) jc _ pre1 suf1 disjI1 [OF z1] card1 bl] P(3) len by auto
  then show ?case using guard i1(1) j1(1) sw tk dr len by auto
qed

section \<open>The whole routine\<close>

text \<open>Compressing all blank entries, as the routine does after marking.\<close>

lemma compress_all:
  assumes "c \<le> length m" "blanks m c = d"
  shows "\<exists>m'. compress m c d 0 (c - 1) = Inr m' \<and> length m' = length m \<and> drop c m' = drop c m \<and>
    mset (take c m') = mset (take c m) \<and> (\<exists>p. settled m' c p)"
proof (cases d)
  case 0
  then have "\<forall>k<c. wc (m ! k) \<noteq> 0" using assms nth_in_take [of _ c m]
    by (auto simp: blanks_def filter_empty_conv)
  then show ?thesis using 0 by (auto simp: settled_def)
next
  case (Suc d')
  then have "filter (\<lambda>t. wc t = 0) (take c m) \<noteq> []" using assms(2) by (auto simp: blanks_def)
  then obtain t where "t \<in> set (take c m)" "wc t = 0" by (auto simp: filter_empty_conv)
  then obtain z where z: "z < c" "wc (m ! z) = 0" using in_take_nth [of t c m] by blast
  show ?thesis
  proof (rule compress_settles)
    show "wc (m ! (c - 1)) = 0 \<or> (\<exists>k\<ge>0. k < c - 1 \<and> wc (m ! k) = 0)"
      using z by (cases "z = c - 1") auto
    have "{k. 0 \<le> k \<and> k < c - 1 \<and> wc (m ! k) = 0} \<subseteq> {k. k < length (take c m) \<and> wc (take c m ! k) = 0}"
      using assms(1) by auto
    then have "card {k. 0 \<le> k \<and> k < c - 1 \<and> wc (m ! k) = 0} \<le> card {k. k < length (take c m) \<and> wc (take c m ! k) = 0}"
      by (rule card_mono [rotated]) simp
    then show "card {k. 0 \<le> k \<and> k < c - 1 \<and> wc (m ! k) = 0} \<le> d"
      using assms(2) by (simp add: blanks_def length_filter_conv_card)
  qed (use z assms in auto)
qed

lemma settled_filter:
  assumes "settled m c p" "c \<le> length m"
  shows "filter (\<lambda>t. wc t \<noteq> 0) (take c m) = take p m"
proof -
  have p: "p \<le> c" using assms(1) by (simp add: settled_def)
  then have "take c m = take p m @ drop p (take c m)" by (metis append_take_drop_id min.absorb1 take_take)
  moreover have "filter (\<lambda>t. wc t \<noteq> 0) (take p m) = take p m"
    using assms(1) in_take_nth [of _ p m] by (fastforce simp: filter_id_conv settled_def)
  moreover have "filter (\<lambda>t. wc t \<noteq> 0) (drop p (take c m)) = []"
    using assms(1) in_drop_take_nth [of _ p c m] by (fastforce simp: filter_empty_conv settled_def)
  ultimately show ?thesis by (metis append_Nil2 filter_append)
qed

lemma hits_all:
  assumes "distinct (map wc xs)" "distinct D" "set D \<subseteq> wc ` set xs"
  shows "hits D xs = length D"
proof -
  have "wc ` set (filter (\<lambda>t. wc t \<in> set D) xs) = set D" using assms(3) by auto
  moreover have "distinct (map wc (filter (\<lambda>t. wc t \<in> set D) xs))" using assms(1) by (simp add: distinct_map_filter)
  ultimately show ?thesis unfolding hits_def using assms(2)
    by (metis distinct_card length_map set_map)
qed

lemma blanked_filter:
  assumes "0 \<notin> set (map wc xs)"
  shows "filter (\<lambda>t. wc t \<noteq> 0) (map (blanked D) xs) = filter (\<lambda>t. wc t \<notin> set D) xs"
    "length (filter (\<lambda>t. wc t = 0) (map (blanked D) xs)) = hits D xs"
  using assms by (induction xs) (auto simp: blanked_def hits_def)

text \<open>
  C20: when distinct clients that work on the task are reported dead, the map keeps
  exactly the entries of the others, in its first places, and the count is theirs.
\<close>

theorem mark_dead_clients_keeps_alive:
  assumes "distinct (map working_clients xs)" "0 \<notin> set (map working_clients xs)" "distinct D"
    "set D \<subseteq> working_clients ` set xs"
  shows "\<exists>m'. mark_dead_clients_in_group (xs @ rest) (int (length xs)) D (int (length D)) =
      Inr (m', int (length xs) - int (length D)) \<and>
    mset (take (length xs - length D) m') = mset (filter (\<lambda>t. working_clients t \<notin> set D) xs) \<and>
    drop (length xs) m' = rest"
proof -
  define c where "c = length xs"
  define m1 where "m1 = map (blanked D) xs @ rest"
  have h: "hits D xs = length D" by (rule hits_all [OF assms(1,3,4)])
  have mark: "mark_loop (xs @ rest) c D (length D) 0 = Inr (m1, length D)"
    using mark_loop_blanks [of 0 D xs rest] h by (simp add: c_def m1_def)
  have bl: "blanks m1 c = length D" using blanked_filter(2) [OF assms(2), of D] h by (simp add: blanks_def m1_def c_def)
  have c: "c \<le> length m1" by (simp add: m1_def c_def)
  obtain m' p where m': "compress m1 c (length D) 0 (c - 1) = Inr m'" "length m' = length m1" "drop c m' = drop c m1"
    "mset (take c m') = mset (take c m1)" "settled m' c p"
    using compress_all [OF c bl] by blast
  have f: "take p m' = filter (\<lambda>t. wc t \<noteq> 0) (take c m')"
    using settled_filter [OF m'(5)] c m'(2) by simp
  have ms: "mset (take p m') = mset (filter (\<lambda>t. wc t \<notin> set D) xs)"
    using m'(4) blanked_filter(1) [OF assms(2), of D] unfolding f
    by (metis (no_types, lifting) append_eq_conv_conj c_def length_map m1_def mset_filter)
  have "length (filter (\<lambda>t. wc t \<notin> set D) xs) = c - length D"
    using sum_length_filter_compl [of "\<lambda>t. wc t \<in> set D" xs] h by (simp add: hits_def c_def)
  then have "min (length m') p = c - length D" using ms by (metis length_take size_mset min.commute)
  then have "p = c - length D" using m'(2,5) c by (auto simp: settled_def min_def split: if_splits)
  moreover have "nat (int c - 1) = c - 1" by simp
  ultimately show ?thesis using mark m' ms
    by (auto simp: mark_dead_clients_in_group_def c_def m1_def)
qed

theorem mark_dead_clients_keeps_alive_witness:
  "\<exists>m'. mark_dead_clients_in_group
     ([\<lparr>working_clients = 1, task_filename = [''a''], file_count = 1\<rparr>, \<lparr>working_clients = 2, task_filename = [''b''], file_count = 1\<rparr>] @ [])
     (int 2) [1] (int 1) = Inr (m', int 2 - int 1) \<and>
     mset (take 1 m') = mset [\<lparr>working_clients = 2, task_filename = [''b''], file_count = 1\<rparr>]"
  using mark_dead_clients_keeps_alive [of "[\<lparr>working_clients = 1, task_filename = [''a''], file_count = 1\<rparr>,
      \<lparr>working_clients = 2, task_filename = [''b''], file_count = 1\<rparr>]" "[1]" "[]"]
  by (auto simp: numeral_2_eq_2)

end
