(* ===== verification/TaskSplit.thy ===== *)
theory TaskSplit
  imports TaskFiles DemoState
begin

text \<open>
  \<open>create_task_sets_per_client\<close> (\<open>src/src/server.c\<close>): the files of the clients are
  consecutive pieces of the task file, sized by the clients' capabilities.
\<close>

section \<open>Lines\<close>

definition newlines :: "u8 list \<Rightarrow> nat" where
  "newlines bs = length (filter (\<lambda>x. x = 10) bs)"

lemma newlines_simps [simp]:
  "newlines [] = 0" "newlines (b # bs) = (if b = 10 then Suc (newlines bs) else newlines bs)"
  "newlines (xs @ ys) = newlines xs + newlines ys"
  by (simp_all add: newlines_def)

lemma lines_len_le: "lines_len bs d \<le> length bs"
  by (induction bs d rule: lines_len.induct) auto

lemma newlines_take_lines: "newlines (take (lines_len bs d) bs) = min d (newlines bs)"
  by (induction bs d rule: lines_len.induct) auto

lemma newlines_drop_lines: "newlines (drop (lines_len bs d) bs) = newlines bs - d"
proof -
  have "newlines bs = newlines (take (lines_len bs d) bs) + newlines (drop (lines_len bs d) bs)"
    by (metis append_take_drop_id newlines_simps(3))
  then show ?thesis by (simp add: newlines_take_lines)
qed

lemma lines_len_pos: "bs \<noteq> [] \<Longrightarrow> 0 < d \<Longrightarrow> 0 < lines_len bs d"
  by (cases bs; cases d) auto

lemma lines_len_all: "bs = [] \<or> last bs = 10 \<Longrightarrow> lines_len bs (newlines bs) = length bs"
proof (induction bs)
  case (Cons b bs)
  then have IH: "lines_len bs (newlines bs) = length bs" by (cases bs) auto
  show ?case
  proof (cases "b = 10")
    case False
    then have "bs \<noteq> []" "last bs = 10" using Cons.prems by (auto split: if_splits)
    then have "newlines bs > 0" by (metis append_butlast_last_id newlines_simps(2,3) add_gr_0 zero_less_Suc)
    then obtain d where "newlines bs = Suc d" using gr0_implies_Suc by blast
    then show ?thesis using False IH by simp
  qed (use IH in simp)
qed simp

section \<open>File names\<close>

lemma digit_inj: "digit a = digit b \<Longrightarrow> a mod 10 = b mod 10"
proof -
  assume d: "digit a = digit b"
  have dist: "distinct ''0123456789''" by simp
  show ?thesis using d nth_eq_iff_index_eq [OF dist, of "a mod 10" "b mod 10"] by (simp add: digit_def)
qed

lemma dec_str_ne: "dec_str n \<noteq> []"
  by (subst dec_str.simps) simp

lemma dec_str_inj: "dec_str a = dec_str b \<Longrightarrow> a = b"
proof (induction a arbitrary: b rule: less_induct)
  case (less a)
  note E = less.prems [unfolded dec_str.simps [of a] dec_str.simps [of b]]
  show ?case
  proof (cases "a < 10 \<or> b < 10")
    case True
    then have "a < 10 \<and> b < 10" using E dec_str_ne dec_str_ne [THEN not_sym] by (auto split: if_splits)
    then show ?thesis using E digit_inj [of a b] by simp
  next
    case False
    then have "dec_str (a div 10) = dec_str (b div 10)" "digit a = digit b" using E by auto
    moreover have "a div 10 < a" using False by simp
    ultimately have "a div 10 = b div 10" "a mod 10 = b mod 10"
      using less.IH [of "a div 10" "b div 10"] digit_inj [of a b] by blast+
    then show ?thesis by (metis mult_div_mod_eq)
  qed
qed

lemma digit_not_underscore: "digit a \<noteq> CHR ''_''"
proof -
  have "\<forall>c\<in>set ''0123456789''. c \<noteq> CHR ''_''" by simp
  moreover have "digit a \<in> set ''0123456789''" unfolding digit_def by (rule nth_mem) simp
  ultimately show ?thesis by blast
qed

lemma dec_str_chars: "CHR ''_'' \<notin> set (dec_str n)"
proof (induction n rule: less_induct)
  case (less n)
  show ?case using less [of "n div 10"] digit_not_underscore [of n] by (subst dec_str.simps) (auto dest: sym)
qed

lemma takeWhile_stop: "x \<notin> set xs \<Longrightarrow> takeWhile (\<lambda>c. c \<noteq> x) (xs @ x # ys) = xs"
  by (induction xs) auto

lemma client_file_name_inj: "client_file_name c st = client_file_name d st \<Longrightarrow> c = d"
proof -
  assume e: "client_file_name c st = client_file_name d st"
  have "takeWhile (\<lambda>x. x \<noteq> CHR ''_'') (client_file_name k st) = dec_str (unat k)" for k
    unfolding client_file_name_def using takeWhile_stop [OF dec_str_chars] by simp
  then have "dec_str (unat c) = dec_str (unat d)" using e by metis
  then have "unat c = unat d" by (rule dec_str_inj)
  then show ?thesis by (rule unsigned_word_eqI)
qed

definition client_path :: "string \<Rightarrow> string \<Rightarrow> u32 \<Rightarrow> string" where
  "client_path folder_path st cid = folder_path @ ''/'' @ client_file_name cid st"

lemma client_path_inj [simp]: "client_path f st c = client_path f st d \<longleftrightarrow> c = d"
  by (auto simp: client_path_def dest: client_file_name_inj)

section \<open>Shares\<close>

text \<open>The lines of the client \<open>i\<close> before rounding losses are given to the last one.\<close>

definition share :: "u32 list \<Rightarrow> nat \<Rightarrow> nat \<Rightarrow> nat" where
  "share cs tasks i = unat (cs ! i) * tasks div sum_list (map unat cs)"

lemma shares_le: "i \<le> length cs \<Longrightarrow> (\<Sum>j<i. share cs tasks j) * sum_list (map unat cs) \<le> (\<Sum>j<i. unat (cs ! j)) * tasks"
proof (induction i)
  case (Suc i)
  have "share cs tasks i * sum_list (map unat cs) \<le> unat (cs ! i) * tasks"
    unfolding share_def by (rule div_times_less_eq_dividend)
  with Suc show ?case by (simp add: algebra_simps)
qed simp

lemma shares_sum: "i \<le> length cs \<Longrightarrow> 0 < sum_list (map unat cs) \<Longrightarrow> (\<Sum>j<i. share cs tasks j) \<le> tasks"
proof -
  assume i: "i \<le> length cs" and pos: "0 < sum_list (map unat cs)"
  have "(\<Sum>j<i. unat (cs ! j)) \<le> (\<Sum>j<length cs. unat (cs ! j))" by (rule sum_mono2) (use i in auto)
  also have "\<dots> = sum_list (map unat cs)" by (simp add: sum_list_sum_nth atLeast0LessThan)
  finally have "(\<Sum>j<i. unat (cs ! j)) * tasks \<le> sum_list (map unat cs) * tasks" by (rule mult_le_mono1)
  then have "(\<Sum>j<i. share cs tasks j) * sum_list (map unat cs) \<le> sum_list (map unat cs) * tasks"
    using shares_le [OF i, of tasks] by (rule le_trans [rotated])
  then show ?thesis using pos by (metis mult.commute mult_le_cancel2)
qed

lemma cap_le_sum: "i < length cs \<Longrightarrow> unat (cs ! i) \<le> sum_list (map unat (cs :: u32 list))"
  by (metis elem_le_sum_list length_map nth_map)

text \<open>The lines of the client \<open>i\<close>: the last one gets what is left of the task.\<close>

definition piece_lines :: "u32 list \<Rightarrow> nat \<Rightarrow> nat \<Rightarrow> nat" where
  "piece_lines cs tasks i = (if i = length cs - 1 then tasks - (\<Sum>j<i. share cs tasks j) else share cs tasks i)"

text \<open>The file is there, consists of whole lines and has that many.\<close>

definition piece_of :: "(string \<rightharpoonup> u8 list) \<Rightarrow> string \<Rightarrow> nat \<Rightarrow> bool" where
  "piece_of fs path k \<longleftrightarrow> (\<exists>b. fs path = Some b \<and> newlines b = k \<and> b \<noteq> [] \<and> last b = 10)"

lemma last_take_lines: "0 < d \<Longrightarrow> d \<le> newlines bs \<Longrightarrow> last (take (lines_len bs d) bs) = 10"
proof (induction bs d rule: lines_len.induct)
  case (3 b bs n)
  then show ?case
  proof (cases "b = 10 \<and> n = 0")
    case False
    then have d: "0 < (if b = 10 then n else Suc n)" "(if b = 10 then n else Suc n) \<le> newlines bs" using 3 by auto
    then have "bs \<noteq> []" by auto
    moreover have "0 < lines_len bs (if b = 10 then n else Suc n)" using lines_len_pos [OF calculation d(1)] .
    moreover have "last (take (lines_len bs (if b = 10 then n else Suc n)) bs) = 10" using 3 d by auto
    ultimately show ?thesis by (simp split: if_splits)
  next
    case True
    moreover have "lines_len bs 0 = 0" by (cases bs) simp_all
    ultimately show ?thesis by simp
  qed
qed simp_all

text \<open>Without overflow the division on words is the share.\<close>

lemma share_word:
  assumes "i < length cs" "sum_list (map unat cs) * tasks < 2 ^ 32" "0 < sum_list (map unat cs)" "0 < tasks"
  shows "unat (cs ! i * of_nat tasks div of_nat (sum_list (map unat cs)) :: u32) = share cs tasks i"
proof -
  let ?T = "sum_list (map unat cs)"
  have "unat (cs ! i) * tasks \<le> ?T * tasks" using cap_le_sum [OF assms(1)] by simp
  then have m: "unat (cs ! i) * tasks < 2 ^ 32" using assms(2) by (rule le_less_trans)
  have "?T \<le> ?T * tasks" using assms(4) by simp
  then have T: "?T < 2 ^ 32" using assms(2) by (rule le_less_trans)
  have "tasks \<le> ?T * tasks" using assms(3) by simp
  then have t: "tasks < 2 ^ 32" using assms(2) by (rule le_less_trans)
  have "unat (cs ! i * of_nat tasks :: u32) = unat (cs ! i) * tasks"
    using m t by (simp add: unat_word_ariths(2) unat_of_nat)
  then show ?thesis using T by (simp add: unat_div_distrib share_def unat_of_nat)
qed

section \<open>The loop\<close>

text \<open>One pass for the client \<open>i\<close> with \<open>d\<close> lines to write.\<close>

lemma create_step_piece:
  assumes i: "i < n" "n < 2 ^ 32" "length cs = n" "length ids = n" "length m = n"
    and T: "sum_list (map unat cs) * tasks < 2 ^ 32" "0 < sum_list (map unat cs)" "0 < tasks"
    and a: "a \<le> length src" "length src < 2 ^ 32"
    and r: "r = newlines (drop a src)" "share cs tasks i \<le> r" "r < 2 ^ 32" "0 < share cs tasks i"
    and d: "d = (if i = n - 1 then r else share cs tasks i)"
  shows "create_step fp src True ids (map Some cs) (of_nat n) (of_nat tasks) (of_nat (sum_list (map unat cs))) (of_nat i)
      s m (of_nat a) (of_nat r) =
    Inr (s\<lparr>files := (files s)(client_path fp (stamp s) (ids ! i) \<mapsto> take (lines_len (drop a src) d) (drop a src))\<rparr>,
      m[i := (m ! i)\<lparr>task_filename := [client_file_name (ids ! i) (stamp s)]\<rparr>],
      of_nat (a + lines_len (drop a src) d), of_nat (r - share cs tasks i))"
proof -
  let ?T = "sum_list (map unat cs)" and ?rest = "drop a src" and ?f = "lines_len (drop a src) d"
  have ui: "unat (of_nat i :: u32) = i" using i(1,2) by (simp add: unat_of_nat)
  have dcw: "cs ! i * of_nat tasks div of_nat ?T = (of_nat (share cs tasks i) :: u32)"
  proof -
    define w where "w = cs ! i * of_nat tasks div (of_nat ?T :: u32)"
    have "unat w = share cs tasks i" unfolding w_def by (rule share_word) (use i T in auto)
    then have "(of_nat (unat w) :: u32) = of_nat (share cs tasks i)" by (rule arg_cong)
    then show ?thesis by (simp add: w_def)
  qed
  have T0: "(of_nat ?T :: u32) \<noteq> 0"
  proof -
    have "?T \<le> ?T * tasks" using T(3) by simp
    then have "?T < 2 ^ 32" using T(1) by (rule le_less_trans)
    then have "unat (of_nat ?T :: u32) = ?T" by (simp add: unat_of_nat)
    then show ?thesis using T(2) by (metis less_irrefl unsigned_0)
  qed
  have last: "(of_nat i = (of_nat n :: u32) - 1) = (i = n - 1)"
  proof -
    have "(of_nat n :: u32) - 1 = of_nat (n - 1)" using i(1) by (simp add: of_nat_diff)
    moreover have u: "unat (of_nat q :: u32) = q" if "q < 2 ^ 32" for q using that by (simp add: unat_of_nat)
    have "unat (of_nat (n - 1) :: u32) = n - 1" by (rule u) (use i(2) in linarith)
    then have "(of_nat i :: u32) = of_nat (n - 1) \<longleftrightarrow> i = n - 1" using ui by metis
    ultimately show ?thesis by simp
  qed
  have rem: "(of_nat r :: u32) - of_nat (share cs tasks i) = of_nat (r - share cs tasks i)"
    using r(2) by (simp add: of_nat_diff)
  have dl: "d < 2 ^ 32" "0 < d" using d r by (auto split: if_splits)
  have dc: "unat (if (of_nat i :: u32) = of_nat n - 1 then of_nat (share cs tasks i) + of_nat (r - share cs tasks i)
      else of_nat (share cs tasks i) :: u32) = d"
    using d r(2) dl last by (auto simp: unat_of_nat simp flip: of_nat_add)
  have ne: "?rest \<noteq> []" using r by auto
  have f: "0 < ?f" "a + ?f \<le> length src" using lines_len_pos [OF ne dl(2)] lines_len_le [of ?rest d] a(1) by auto
  have ua: "unat (of_nat a :: u32) = a" using a by (simp add: unat_of_nat)
  have mp: "length src \<le> length (mapped src)" by (simp add: mapped_def)
  have tk: "take ?f (drop a (mapped src)) = take ?f ?rest" using f(2) a(1) by (simp add: mapped_def)
  have reads: "at ids i = Inr (ids ! i)" "at m i = Inr (m ! i)" "upd_at m i v = Inr (m[i := v])"
    "at (map Some cs) i = Inr (Some (cs ! i))" for v
    using i by simp_all
  have tests: "(?f = 0) = False" "(a + ?f > length (mapped src)) = False" using f mp by auto
  show ?thesis
    unfolding create_step_def Let_def ui reads bindE_simps option.case if_not_P [OF T0] dcw rem dc ua if_True tk tests if_False
      client_path_def of_nat_add ..
qed

text \<open>
  What the loop leaves when it starts at the client \<open>i\<close> with the text \<open>rest\<close> of the
  task file: the files and entries of the clients from \<open>i\<close> on are written, no others.
\<close>

definition pieces_written :: "string \<Rightarrow> u32 list \<Rightarrow> u32 list \<Rightarrow> nat \<Rightarrow> u8 list \<Rightarrow> nat \<Rightarrow> server_info \<Rightarrow> task_distribution list \<Rightarrow>
    server_info \<Rightarrow> task_distribution list \<Rightarrow> bool" where
  "pieces_written fp cs ids tasks rest i s m s' m' \<longleftrightarrow>
     (i < length ids \<longrightarrow> concat (map (\<lambda>c. the (files s' (client_path fp (stamp s) c))) (drop i ids)) = rest) \<and>
     (\<forall>p. p \<notin> client_path fp (stamp s) ` set (drop i ids) \<longrightarrow> files s' p = files s p) \<and>
     s' = s\<lparr>files := files s'\<rparr> \<and> length m' = length m \<and>
     (\<forall>j<length m. m' ! j = (if j < i then m ! j else (m ! j)\<lparr>task_filename := [client_file_name (ids ! j) (stamp s)]\<rparr>)) \<and>
     (\<forall>j<length ids. i \<le> j \<longrightarrow> piece_of (files s') (client_path fp (stamp s) (ids ! j)) (piece_lines cs tasks j))"

lemma pieces_written_end: "pieces_written fp cs ids tasks rest (length ids) s m s m" if "length m = length ids"
  using that by (simp add: pieces_written_def)

lemma pieces_written_step:
  assumes "i < length ids" "distinct ids" "length m = length ids"
    "pieces_written fp cs ids tasks (drop f rest) (Suc i) (s\<lparr>files := (files s)(client_path fp (stamp s) (ids ! i) \<mapsto> take f rest)\<rparr>)
       (m[i := (m ! i)\<lparr>task_filename := [client_file_name (ids ! i) (stamp s)]\<rparr>]) s' m'"
    "newlines (take f rest) = piece_lines cs tasks i" "take f rest \<noteq> []" "last (take f rest) = 10"
    "Suc i = length ids \<Longrightarrow> length rest \<le> f"
  shows "pieces_written fp cs ids tasks rest i s m s' m'"
proof -
  let ?p = "client_path fp (stamp s)"
  have dr: "drop i ids = ids ! i # drop (Suc i) ids" using assms(1) by (rule Cons_nth_drop_Suc [symmetric])
  have "ids ! i \<notin> set (drop (Suc i) ids)" using dr assms(2) by (metis distinct.simps(2) distinct_drop)
  then have "?p (ids ! i) \<notin> ?p ` set (drop (Suc i) ids)" by auto
  then have mine: "files s' (?p (ids ! i)) = Some (take f rest)" using assms(4) by (simp add: pieces_written_def)
  have "concat (map (\<lambda>c. the (files s' (?p c))) (drop i ids)) = rest"
    using assms(1,4,8) mine dr by (cases "Suc i = length ids") (auto simp: pieces_written_def)
  moreover have "piece_of (files s') (?p (ids ! i)) (piece_lines cs tasks i)"
    using mine assms(5-7) by (simp add: piece_of_def)
  then have "\<forall>j<length ids. i \<le> j \<longrightarrow> piece_of (files s') (?p (ids ! j)) (piece_lines cs tasks j)"
    using assms(4) by (auto simp: pieces_written_def le_less Suc_le_eq)
  moreover have "m' ! j = (if j < i then m ! j else (m ! j)\<lparr>task_filename := [client_file_name (ids ! j) (stamp s)]\<rparr>)"
    if "j < length m" for j
    using that assms(1,3,4) by (cases j i rule: linorder_cases) (auto simp: pieces_written_def)
  ultimately show ?thesis using assms(3,4) dr by (auto simp: pieces_written_def)
qed

lemma piece_of_rest:
  assumes "newlines rest = tasks - (\<Sum>j<i. share cs tasks j)" "0 < share cs tasks i" "share cs tasks i \<le> newlines rest"
    "d = (if i = length cs - 1 then newlines rest else share cs tasks i)"
  shows "newlines (take (lines_len rest d) rest) = piece_lines cs tasks i" "take (lines_len rest d) rest \<noteq> []"
    "last (take (lines_len rest d) rest) = 10" "newlines (drop (lines_len rest d) rest) = newlines rest - d"
proof -
  have d: "0 < d" "d \<le> newlines rest" "piece_lines cs tasks i = d"
    using assms(2-4) by (auto simp: assms(1) piece_lines_def)
  then show n: "newlines (take (lines_len rest d) rest) = piece_lines cs tasks i"
    "newlines (drop (lines_len rest d) rest) = newlines rest - d"
    by (simp_all add: newlines_take_lines newlines_drop_lines)
  show "take (lines_len rest d) rest \<noteq> []" using n(1) d by (metis less_irrefl newlines_simps(1))
  show "last (take (lines_len rest d) rest) = 10" using last_take_lines d by blast
qed

lemma create_loop_pieces:
  assumes n: "n < 2 ^ 32" "length cs = n" "length ids = n" "distinct ids"
    and T: "sum_list (map unat cs) * tasks < 2 ^ 32" "0 < sum_list (map unat cs)" "0 < tasks"
    and pos: "\<forall>i<n. 0 < share cs tasks i"
    and src: "length src < 2 ^ 32" "last src = 10" "newlines src = tasks"
  shows "k \<le> n \<Longrightarrow> length m = n \<Longrightarrow> a \<le> length src \<Longrightarrow>
    (k > 0 \<Longrightarrow> newlines (drop a src) = tasks - (\<Sum>j<n - k. share cs tasks j) \<and> rem = of_nat (newlines (drop a src))) \<Longrightarrow>
    \<exists>s' m'. create_loop fp src True ids (map Some cs) (of_nat n) (of_nat tasks) (of_nat (sum_list (map unat cs))) k
        s m (of_nat a) rem = Inr (s', m') \<and> pieces_written fp cs ids tasks (drop a src) (n - k) s m s' m'"
proof (induction k arbitrary: s m a rem)
  case 0
  then show ?case using pieces_written_end [of m ids] n(3) by simp
next
  case (Suc k)
  note P = Suc.prems
  define i where "i = n - Suc k"
  have i: "i < n" "n - k = Suc i" using P(1) by (auto simp: i_def)
  define r where "r = newlines (drop a src)"
  define d where "d = (if i = n - 1 then r else share cs tasks i)"
  define f where "f = lines_len (drop a src) d"
  have r: "r = tasks - (\<Sum>j<i. share cs tasks j)" "rem = of_nat r" using P(4) by (simp_all add: r_def i_def)
  have "(\<Sum>j<Suc i. share cs tasks j) \<le> tasks" by (rule shares_sum) (use i n T in auto)
  then have sh: "0 < share cs tasks i" "share cs tasks i \<le> r" using r(1) pos i(1) by auto
  have "tasks < 2 ^ 32" using src(1,3) length_filter_le [of "\<lambda>x. x = 10" src] by (simp add: newlines_def)
  then have r32: "r < 2 ^ 32" using r(1) by linarith
  define s1 where "s1 = s\<lparr>files := (files s)(client_path fp (stamp s) (ids ! i) \<mapsto> take f (drop a src))\<rparr>"
  define m1 where "m1 = m[i := (m ! i)\<lparr>task_filename := [client_file_name (ids ! i) (stamp s)]\<rparr>]"
  have st: "create_step fp src True ids (map Some cs) (of_nat n) (of_nat tasks) (of_nat (sum_list (map unat cs))) (of_nat i)
      s m (of_nat a) (of_nat r) = Inr (s1, m1, of_nat (a + f), of_nat (r - share cs tasks i))"
    unfolding s1_def m1_def f_def
    by (rule create_step_piece [OF i(1) n(1,2,3) P(2) T P(3) src(1) r_def sh(2) r32 sh(1) d_def])
  have dd: "drop f (drop a src) = drop (a + f) src" by (simp add: add.commute)
  note piece = piece_of_rest [OF r(1) [unfolded r_def] sh(1) sh(2) [unfolded r_def] d_def [unfolded r_def n(2) [symmetric]], folded f_def]
  have later: "newlines (drop (a + f) src) = tasks - (\<Sum>j<n - k. share cs tasks j) \<and>
      (of_nat (r - share cs tasks i) :: u32) = of_nat (newlines (drop (a + f) src))" if "k > 0"
  proof -
    have "i \<noteq> n - 1" using that P(1) by (simp add: i_def)
    then show ?thesis using piece(4) r(1) i(2) by (simp add: add.commute [of a f] d_def r_def)
  qed
  have all: "length (drop a src) \<le> f" if "Suc i = length ids"
    using that lines_len_all [of "drop a src"] src(2) n(3) by (cases "a < length src") (auto simp: f_def d_def r_def)
  have "length m1 = n" "a + f \<le> length src"
    using P(2,3) lines_len_le [of "drop a src" d] by (simp_all add: m1_def f_def)
  then obtain s' m' where r': "create_loop fp src True ids (map Some cs) (of_nat n) (of_nat tasks) (of_nat (sum_list (map unat cs))) k
        s1 m1 (of_nat (a + f)) (of_nat (r - share cs tasks i)) = Inr (s', m')"
      "pieces_written fp cs ids tasks (drop f (drop a src)) (Suc i) s1 m1 s' m'"
    using Suc.IH [of m1 "a + f" "of_nat (r - share cs tasks i)" s1] P(1) later unfolding i(2) dd by auto
  have "pieces_written fp cs ids tasks (drop a src) i s m s' m'"
    by (rule pieces_written_step [OF _ n(4) _ r'(2) [unfolded s1_def m1_def] piece(1-3) all]) (use i n P(2) in simp_all)
  moreover have "(of_nat n :: u32) - of_nat (Suc k) = of_nat i" using P(1) by (simp add: i_def of_nat_diff del: of_nat_Suc)
  ultimately show ?case using r'(1) st by (auto simp: r(2) i_def simp del: of_nat_Suc of_nat_add)
qed

section \<open>The task files\<close>

lemma sum_lt_word:
  assumes "T * tasks < (2 :: nat) ^ 32" "0 < tasks"
  shows "T < 2 ^ 32"
proof -
  have "T \<le> T * tasks" using assms(2) by simp
  then show ?thesis using assms(1) by (rule le_less_trans)
qed

lemma create_task_sets_ok:
  assumes "groups s gp = Some g" "distribution_map (task_set_details g) = Own m" "length m = n"
    "task_set_filename g = Own fname" "files s fname = Some src" "task_set_format g = 0"
    "ts_capability (task_set_details g) = Own (map Some cs)" "length cs = n" "length ids = n" "distinct ids"
    "0 < n" "n < 2 ^ 32" "length (group_name g) < 79"
    "last src = 10" "length src < 2 ^ 32" "sum_list (map unat cs) * newlines src < 2 ^ 32"
    "\<forall>i<n. 0 < share cs (newlines src) i"
  obtains fs m' where "create_task_sets_per_client s gp ids (of_nat n) (of_nat (newlines src)) (of_nat (sum_list (map unat cs))) =
      Inr (s\<lparr>files := fs, groups := (groups s)(gp \<mapsto> g\<lparr>task_set_details := (task_set_details g)
        \<lparr>task_folder_path := Own (''/tmp/server/task_set/'' @ group_name g), distribution_map := Own m'\<rparr>\<rparr>)\<rparr>)"
    "concat (map (\<lambda>c. the (fs (client_path (''/tmp/server/task_set/'' @ group_name g) (stamp s) c))) ids) = src"
    "\<forall>p. p \<notin> client_path (''/tmp/server/task_set/'' @ group_name g) (stamp s) ` set ids \<longrightarrow> fs p = files s p"
    "length m' = n" "\<forall>i<n. m' ! i = (m ! i)\<lparr>task_filename := [client_file_name (ids ! i) (stamp s)]\<rparr>"
    "\<forall>i<n. piece_of fs (client_path (''/tmp/server/task_set/'' @ group_name g) (stamp s) (ids ! i)) (piece_lines cs (newlines src) i)"
proof -
  let ?tasks = "newlines src" and ?T = "sum_list (map unat cs)" and ?fp = "''/tmp/server/task_set/'' @ group_name g"
  have "0 < share cs ?tasks 0" using assms(11,17) by blast
  then have T: "0 < ?T" "0 < ?tasks" by (auto simp: share_def intro: Nat.gr0I)
  have "\<exists>s1 m1. create_loop ?fp src True ids (map Some cs) (of_nat n) (of_nat ?tasks) (of_nat ?T) n s m (of_nat 0) (of_nat ?tasks) = Inr (s1, m1) \<and>
      pieces_written ?fp cs ids ?tasks (drop 0 src) (n - n) s m s1 m1"
    by (rule create_loop_pieces [OF assms(12,8,9,10,16) T assms(17,15,14) refl]) (use assms(3) in simp_all)
  then obtain s1 m1 where r: "create_loop ?fp src True ids (map Some cs) (of_nat n) (of_nat ?tasks) (of_nat ?T) n s m (of_nat 0) (of_nat ?tasks) = Inr (s1, m1)"
    "pieces_written ?fp cs ids ?tasks src 0 s m s1 m1"
    unfolding diff_self_eq_0 drop_0 by blast
  have "s1 = s\<lparr>files := files s1\<rparr>" using r(2) unfolding pieces_written_def by (elim conjE)
  then obtain fs where fs: "s1 = s\<lparr>files := fs\<rparr>" by (rule that)
  show ?thesis
  proof (rule that [of m1 fs])
    show "create_task_sets_per_client s gp ids (of_nat n) (of_nat ?tasks) (of_nat ?T) =
      Inr (s\<lparr>files := fs, groups := (groups s)(gp \<mapsto> g\<lparr>task_set_details := (task_set_details g)
        \<lparr>task_folder_path := Own ?fp, distribution_map := Own m1\<rparr>\<rparr>)\<rparr>)"
      using r(1) assms(1-7,12,13) fs by (simp add: create_task_sets_per_client_def Let_def unat_of_nat)
  qed (use r(2) assms(3,9,11) fs in \<open>simp_all add: pieces_written_def\<close>)
qed

text \<open>
  C19: the task file is cut into consecutive pieces, one per client, that together are
  the whole file; a client's piece has its share of the lines by capability, the last one
  what is left; every client's entry of the map names its piece, and no other file
  changes.  The capabilities may not overflow, and every client's share must be at least
  one line.
\<close>

theorem create_task_sets_partition:
  assumes "groups s gp = Some g" "distribution_map (task_set_details g) = Own m" "length m = n"
    "task_set_filename g = Own fname" "files s fname = Some src" "task_set_format g = 0"
    "ts_capability (task_set_details g) = Own (map Some cs)" "length cs = n" "length ids = n" "distinct ids"
    "0 < n" "n < 2 ^ 32" "length (group_name g) < 79"
    "last src = 10" "length src < 2 ^ 32" "sum_list (map unat cs) * newlines src < 2 ^ 32"
    "\<forall>i<n. 0 < share cs (newlines src) i"
  shows "\<exists>s' m'. create_task_sets_per_client s gp ids (of_nat n) (of_nat (newlines src)) (of_nat (sum_list (map unat cs))) = Inr s' \<and>
    concat (map (\<lambda>c. the (files s' (client_path (''/tmp/server/task_set/'' @ group_name g) (stamp s) c))) ids) = src \<and>
    (\<forall>p. p \<notin> client_path (''/tmp/server/task_set/'' @ group_name g) (stamp s) ` set ids \<longrightarrow> files s' p = files s p) \<and>
    distribution_map (task_set_details (the (groups s' gp))) = Own m' \<and> length m' = n \<and>
    (\<forall>i<n. task_filename (m' ! i) = [client_file_name (ids ! i) (stamp s)]) \<and>
    (\<forall>i<n. piece_of (files s') (client_path (''/tmp/server/task_set/'' @ group_name g) (stamp s) (ids ! i)) (piece_lines cs (newlines src) i))"
proof -
  obtain fs m' where "create_task_sets_per_client s gp ids (of_nat n) (of_nat (newlines src)) (of_nat (sum_list (map unat cs))) =
      Inr (s\<lparr>files := fs, groups := (groups s)(gp \<mapsto> g\<lparr>task_set_details := (task_set_details g)
        \<lparr>task_folder_path := Own (''/tmp/server/task_set/'' @ group_name g), distribution_map := Own m'\<rparr>\<rparr>)\<rparr>)"
    "concat (map (\<lambda>c. the (fs (client_path (''/tmp/server/task_set/'' @ group_name g) (stamp s) c))) ids) = src"
    "\<forall>p. p \<notin> client_path (''/tmp/server/task_set/'' @ group_name g) (stamp s) ` set ids \<longrightarrow> fs p = files s p"
    "length m' = n" "\<forall>i<n. m' ! i = (m ! i)\<lparr>task_filename := [client_file_name (ids ! i) (stamp s)]\<rparr>"
    "\<forall>i<n. piece_of fs (client_path (''/tmp/server/task_set/'' @ group_name g) (stamp s) (ids ! i)) (piece_lines cs (newlines src) i)"
    by (rule create_task_sets_ok [OF assms])
  then show ?thesis by simp
qed

definition demo_split :: server_info where
  "demo_split = demo_server\<lparr>groups := [1 \<mapsto> demo_group\<lparr>task_set_filename := Own ''t'',
      task_set_details := blank_task_set\<lparr>distribution_map := Own [blank_entry, blank_entry],
                                         ts_capability := Own (map Some [1, 1])\<rparr>\<rparr>],
     files := [''t'' \<mapsto> [50, 10, 51, 10]]\<rparr>"

theorem create_task_sets_partition_witness:
  "\<exists>s'. create_task_sets_per_client demo_split 1 [5, 6] 2 2 2 = Inr s' \<and>
     concat (map (\<lambda>c. the (files s' (client_path ''/tmp/server/task_set/G1'' [] c))) [5, 6]) = [50, 10, 51, 10]"
proof -
  let ?g = "demo_group\<lparr>task_set_filename := Own ''t'', task_set_details := blank_task_set
      \<lparr>distribution_map := Own [blank_entry, blank_entry], ts_capability := Own (map Some [1, 1])\<rparr>\<rparr>"
  have nl: "newlines [50, 10, 51, 10] = 2" by simp
  have sh: "share [1, 1] 2 i = 1" if "i < 2" for i using that by (auto simp: share_def less_Suc_eq numeral_2_eq_2)
  then have sh2: "\<forall>i<2. 0 < share [1, 1] (Suc (Suc 0)) i" by (simp add: numeral_2_eq_2)
  have g: "groups demo_split 1 = Some ?g" "files demo_split ''t'' = Some [50, 10, 51, 10]" "stamp demo_split = []"
    "group_name demo_group = ''G1''" "task_set_format demo_group = 0"
    by (simp_all add: demo_split_def demo_server_def demo_group_def new_group_def)
  show ?thesis
    using create_task_sets_partition [OF g(1), where n = 2 and ids = "[5, 6]" and cs = "[1, 1]"
        and src = "[50, 10, 51, 10]" and fname = "''t''" and m = "[blank_entry, blank_entry]"] sh2
    by (auto simp: g nl)
qed

text \<open>
  A client whose share rounds down to no line at all ends the server: the file of
  length 0 cannot be mapped.
\<close>

theorem create_task_sets_empty_share:
  assumes "groups s gp = Some g" "distribution_map (task_set_details g) = Own m" "length m = n"
    "task_set_filename g = Own fname" "files s fname = Some src" "task_set_format g = 0"
    "ts_capability (task_set_details g) = Own (map Some cs)" "length cs = n" "length ids = n"
    "1 < n" "n < 2 ^ 32" "length (group_name g) < 79" "0 < newlines src"
    "sum_list (map unat cs) * newlines src < 2 ^ 32"
    "unat (cs ! 0) * newlines src < sum_list (map unat cs)"
  shows "create_task_sets_per_client s gp ids (of_nat n) (of_nat (newlines src)) (of_nat (sum_list (map unat cs))) = Inl ProcExit"
proof -
  let ?tasks = "newlines src" and ?T = "sum_list (map unat cs)" and ?fp = "''/tmp/server/task_set/'' @ group_name g"
  have T: "0 < ?T" using assms(15) by (cases "?T") auto
  have T0: "(of_nat ?T :: u32) \<noteq> 0"
  proof -
    have "unat (of_nat ?T :: u32) = ?T" using sum_lt_word [OF assms(14,13)] by (simp add: unat_of_nat)
    then show ?thesis using T by (metis less_irrefl unsigned_0)
  qed
  have "unat (cs ! 0 * of_nat ?tasks div of_nat ?T :: u32) = 0"
    using share_word [of 0 cs ?tasks] assms(8,10,13-15) T by (simp add: share_def)
  then have z: "cs ! 0 * of_nat ?tasks div of_nat ?T = (0 :: u32)" by (simp only: unat_eq_zero)
  have un: "unat (of_nat n :: u32) = n" using assms(11) by (simp add: unat_of_nat)
  then have n1: "((of_nat n :: u32) - 1 = 0) = False" using assms(10) by (metis eq_iff_diff_eq_0 less_irrefl unsigned_1)
  have reads: "at ids 0 = Inr (ids ! 0)" "at m 0 = Inr (m ! 0)" "upd_at m 0 v = Inr (m[0 := v])"
    "at (map Some cs) 0 = Inr (Some (cs ! 0))" for v
    using assms(3,8,9,10) by (cases ids; cases m; cases cs; simp)+
  have l0: "lines_len bs 0 = 0" for bs by (cases bs) auto
  have "create_step ?fp src True ids (map Some cs) (of_nat n) (of_nat ?tasks) (of_nat ?T) 0 s m 0 (of_nat ?tasks) = Inl ProcExit"
    unfolding create_step_def Let_def unsigned_0 reads bindE_simps option.case if_not_P [OF T0] z
    using n1 by (simp add: l0)
  moreover obtain k where k: "n = Suc k" using assms(10) by (cases n) auto
  ultimately have "create_loop ?fp src True ids (map Some cs) (of_nat n) (of_nat ?tasks) (of_nat ?T) n s m 0 (of_nat ?tasks) = Inl ProcExit"
    by simp
  then show ?thesis
    using assms(1-7,12) un by (simp add: create_task_sets_per_client_def Let_def)
qed

definition demo_unfair :: server_info where
  "demo_unfair = demo_server\<lparr>groups := [1 \<mapsto> demo_group\<lparr>task_set_filename := Own ''t'',
      task_set_details := blank_task_set\<lparr>distribution_map := Own [blank_entry, blank_entry],
                                         ts_capability := Own (map Some [1, 9])\<rparr>\<rparr>],
     files := [''t'' \<mapsto> [50, 10, 51, 10]]\<rparr>"

theorem create_task_sets_empty_share_witness:
  "create_task_sets_per_client demo_unfair 1 [5, 6] 2 2 10 = Inl ProcExit"
proof -
  let ?g = "demo_group\<lparr>task_set_filename := Own ''t'', task_set_details := blank_task_set
      \<lparr>distribution_map := Own [blank_entry, blank_entry], ts_capability := Own (map Some [1, 9])\<rparr>\<rparr>"
  have nl: "newlines [50, 10, 51, 10] = 2" by simp
  have g: "groups demo_unfair 1 = Some ?g" "files demo_unfair ''t'' = Some [50, 10, 51, 10]"
    "group_name demo_group = ''G1''" "task_set_format demo_group = 0"
    by (simp_all add: demo_unfair_def demo_server_def demo_group_def new_group_def)
  show ?thesis
    using create_task_sets_empty_share [OF g(1), where n = 2 and ids = "[5, 6]" and cs = "[1, 9]"
        and src = "[50, 10, 51, 10]" and fname = "''t''" and m = "[blank_entry, blank_entry]"]
    by (simp add: g nl)
qed

end
