(* ===== verification/ServerTask.thy ===== *)
theory ServerTask
  imports TaskFiles
begin

text \<open>
  The life of a task on the server (\<open>src/src/server.c\<close>): choosing a moderator, sending
  out the task, replacing dead clients, watching the moderator's timer, and closing the
  task when its results arrive.  Arguments of log messages are not evaluated.
\<close>

section \<open>Freeing a task\<close>

text \<open>The strings of an entry are freed and its slots cleared, then the array of slots.\<close>

fun free_entries :: "task_distribution list \<Rightarrow> nat \<Rightarrow> unit result" where
  "free_entries m 0 = Inr ()"
| "free_entries [] (Suc n) = Inl OutOfBounds"
| "free_entries (t # m) (Suc n) =
     (if file_count t \<le> length (task_filename t) then free_entries m n else Inl OutOfBounds)"

definition set_group_available :: "server_info \<Rightarrow> ptr \<Rightarrow> server_info result" where
  "set_group_available s gp =
     bindE (grp s gp) (\<lambda>g.
     let s1 = (if timer_id g \<noteq> 0 then timer_delete s (timer_id g) else s); ts = task_set_details g
     in bindE (own_free (task_set_filename g)) (\<lambda>fname.
        bindE (own_free (ts_capability ts)) (\<lambda>caps.
        bindE (if number_of_working_clients ts > 0
               then bindE (own_get (distribution_map ts)) (\<lambda>m. free_entries m (nat (number_of_working_clients ts)))
               else Inr ()) (\<lambda>_.
        bindE (own_free (distribution_map ts)) (\<lambda>dmap.
        bindE (own_free (task_folder_path ts)) (\<lambda>folder.
        upd_grp s1 gp (\<lambda>g. g\<lparr>timer_id := 0, moderator_client := None, task_set_filename := fname,
          task_set_details := ts\<lparr>ts_capability := caps, distribution_map := dmap,
                                 number_of_working_clients := 0, task_folder_path := folder\<rparr>,
          task_type := 0, fsm_state := STATE_NONE\<rparr>)))))))"

section \<open>Choosing a moderator\<close>

text \<open>\<open>SN_LIST_MEMBER_NEXT\<close>: the node after \<open>c\<close> in its list.\<close>

fun next_in :: "ptr list \<Rightarrow> ptr \<Rightarrow> ptr option" where
  "next_in [] c = None"
| "next_in (x # xs) c = (if x = c then (case xs of [] \<Rightarrow> None | y # _ \<Rightarrow> Some y) else next_in xs c)"

fun selection_loop :: "server_info \<Rightarrow> string \<Rightarrow> ptr list \<Rightarrow> nat \<Rightarrow> ptr option \<Rightarrow> (server_info \<times> ptr option) result" where
  "selection_loop s gname l 0 client_node = Inr (s, client_node)"
| "selection_loop s gname l (Suc n) None = Inr (s, None)"
| "selection_loop s gname l (Suc n) (Some c) =
     bindE (cl s c) (\<lambda>node.
     bindE (if cl_av_status node = CLFREE then send_echo_request s (client_addr node) gname else Inr s) (\<lambda>s1.
     selection_loop s1 gname l n (next_in l c)))"

definition moderator_selection :: "server_info \<Rightarrow> ptr \<Rightarrow> server_info result" where
  "moderator_selection s gp =
     bindE (grp s gp) (\<lambda>g.
     bindE (nonnull (client_info g)) (\<lambda>l.
     let client_node = (case moderator_client g of Some c \<Rightarrow> Some c | None \<Rightarrow> (case l of [] \<Rightarrow> None | c # _ \<Rightarrow> Some c));
         max_clients = (if length l < MAX_CLIENTS_TRIED_PER_ATTEMPT then length l else MAX_CLIENTS_TRIED_PER_ATTEMPT)
     in bindE (selection_loop s (group_name g) l max_clients client_node) (\<lambda>(s1, last).
        bindE (upd_grp s1 gp (\<lambda>g. g\<lparr>moderator_client := last\<rparr>)) (\<lambda>s2.
        case last of
          Some _ \<Rightarrow> start_oneshot_timer s2 gp DEFAULT_TIMEOUT MOD_SEL_TIMEOUT
        | None \<Rightarrow>
            bindE (upd_grp s2 gp (\<lambda>g. g\<lparr>group_reachability_index := group_reachability_index g - 1\<rparr>)) (\<lambda>s3.
            bindE (grp s3 gp) (\<lambda>g3.
            if group_reachability_index g3 = 0 then set_group_available s3 gp
            else start_oneshot_timer s3 gp DEFAULT_TIMEOUT MOD_SEL_TIMEOUT))))))"

definition update_moderator_info :: "server_info \<Rightarrow> ptr \<Rightarrow> u32 \<Rightarrow> (bool \<times> server_info) result" where
  "update_moderator_info s gp clientID =
     (case client_RBT s clientID of
        None \<Rightarrow> Inr (False, s)
      | Some _ \<Rightarrow>
          bindE (upd_rbt s clientID (\<lambda>r. r\<lparr>rbc_av_status := RBBUSY, rbc_is_moderator := True\<rparr>)) (\<lambda>s1.
          bindE (search_client_in_group_node s1 gp clientID) (\<lambda>r.
          case r of
            None \<Rightarrow> Inr (False, s1)
          | Some c \<Rightarrow>
              bindE (upd_grp s1 gp (\<lambda>g. g\<lparr>moderator_client := Some c\<rparr>)) (\<lambda>s2.
              bindE (upd_cl s2 c (\<lambda>n. n\<lparr>cl_av_status := CLBUSY\<rparr>)) (\<lambda>s3. Inr (True, s3))))))"

definition mcast_send_chk_alive_msg :: "server_info \<Rightarrow> ptr \<Rightarrow> pdu_t \<Rightarrow> server_info result" where
  "mcast_send_chk_alive_msg s gp pdu =
     bindE (grp s gp) (\<lambda>g.
     bindE (upd_grp (timer_delete s (timer_id g)) gp (\<lambda>g. g\<lparr>timer_id := 0, group_reachability_index := GROUP_REACHABLE\<rparr>)) (\<lambda>s1.
     let clientID = calc_key (Some (peer_addr pdu))
     in if clientID \<le> 0 then Inr s1
        else bindE (update_moderator_info s1 gp clientID) (\<lambda>(ok, s2).
             if \<not> ok then Inr s2
             else bindE (upd_grp s2 gp (\<lambda>g. g\<lparr>fsm_state := MODERATOR_SELECTED, heartbeat_remaining := MAX_ALLOWED_KA_MISSES\<rparr>)) (\<lambda>s3.
                  bindE (grp s3 gp) (\<lambda>g3.
                  bindE (copy_gname (group_name g3)) (\<lambda>gn.
                  Inr (send s3 (of_in (grp_mcast_addr g3)) \<lparr>msg_id = moderator_notify_req,
                    idv = Moderator_notify_req \<lparr>nq_moderator_id = clientID,
                      nq_moderator_port = ucast (sin_port (as_in (peer_addr pdu))),
                      nq_num_of_clients_in_grp = of_int (number_of_clients g3), nq_group_name = gn\<rparr>\<rparr>)))))))"

section \<open>Sending out a task\<close>

text \<open>Recording the working clients; the map may have fewer entries than there are clients.\<close>

fun assign_clients :: "task_distribution list \<Rightarrow> u32 list \<Rightarrow> nat \<Rightarrow> nat \<Rightarrow> task_distribution list result" where
  "assign_clients m ids i 0 = Inr m"
| "assign_clients m ids i (Suc k) =
     bindE (at ids i) (\<lambda>cid.
     bindE (at m i) (\<lambda>t.
     bindE (upd_at m i (t\<lparr>working_clients := cid, file_count := 1\<rparr>)) (\<lambda>m1. assign_clients m1 ids (i + 1) k)))"

fun first_files :: "task_distribution list \<Rightarrow> nat \<Rightarrow> nat \<Rightarrow> string_t list result" where
  "first_files m i 0 = Inr []"
| "first_files m i (Suc k) =
     bindE (at m i) (\<lambda>t.
     bindE (at (task_filename t) 0) (\<lambda>f.
     bindE (first_files m (i + 1) k) (\<lambda>fs. Inr (Some f # fs))))"

text \<open>Without client identifiers in the response the count and array of the request are unset.\<close>

definition mcast_start_task_distribution :: "server_info \<Rightarrow> ptr \<Rightarrow> pdu_t \<Rightarrow> server_info result" where
  "mcast_start_task_distribution s gp pdu =
     bindE (grp s gp) (\<lambda>g.
     bindE (own_get (task_set_filename g)) (\<lambda>fname.
     bindE (get_task_count s fname) (\<lambda>task_count.
     if task_count = 0 then Inr s
     else case idv (pdu_msg pdu) of
       Moderator_notify_rsp rsp \<Rightarrow>
         (let s0 = s\<lparr>task_id := task_id s + 1\<rparr>; n = nr_client_id_count rsp
          in if n = 0 then Inl Uninit
             else if length (nr_client_ids rsp) < unat n then Inl OutOfBounds
             else let ids = take (unat n) (nr_client_ids rsp); cnt = (if sint n < 0 then 0 else unat n)
             in bindE (get_data_set_for_client_based_on_capability s0 gp n ids task_count) (\<lambda>s1.
                bindE (grp s1 gp) (\<lambda>g1.
                bindE (own_get (distribution_map (task_set_details g1))) (\<lambda>m.
                bindE (assign_clients m (nr_client_ids rsp) 0 cnt) (\<lambda>m1.
                bindE (upd_grp s1 gp (\<lambda>g. g\<lparr>task_set_details := (task_set_details g)
                   \<lparr>number_of_working_clients := sint n, distribution_map := Own m1,
                    num_of_responses_expected := sint n\<rparr>\<rparr>)) (\<lambda>s2.
                bindE (first_files m1 0 cnt) (\<lambda>fs.
                bindE (own_get (task_folder_path (task_set_details g1))) (\<lambda>folder.
                bindE (if is_show_metrics s2
                       then upd_grp s2 gp (\<lambda>g. g\<lparr>server_metrics := Some \<lparr>start_time = clock s2, end_time = 0\<rparr>\<rparr>)
                       else Inr s2) (\<lambda>s3.
                let s4 = send s3 (of_in (grp_mcast_addr g1)) \<lparr>msg_id = perform_task_req,
                     idv = Perform_task_req \<lparr>pt_group_name = Some (group_name g1), pt_task_id = task_id s,
                       pt_client_id_count = n, pt_client_ids = ids, pt_task_filename = fs,
                       pt_task_folder_path = Some folder, pt_task_type = task_type g1, pt_task_reassigned = 0\<rparr>\<rparr>
                in bindE (start_recurring_timer s4 gp DEFAULT_TIMEOUT MOD_RSP_TIMEOUT) (\<lambda>s5.
                   upd_grp s5 gp (\<lambda>g. g\<lparr>fsm_state := GROUP_TASK_IN_PROGRESS\<rparr>))))))))))
          )
     | _ \<Rightarrow> Inl WrongMember)))"

section \<open>Replacing dead clients\<close>

text \<open>
  The \<open>do ... while\<close> loop that looks for a client other than the moderator, from entry
  \<open>start\<close> around the first \<open>n\<close> entries: the index it stops at, and the client found.
  It passes each entry once, so \<open>n + 1\<close> rounds are enough.
\<close>

fun pick_client :: "task_distribution list \<Rightarrow> u32 \<Rightarrow> nat \<Rightarrow> nat \<Rightarrow> nat \<Rightarrow> nat \<Rightarrow> (nat \<times> u32 option) result" where
  "pick_client m mod_id n start index 0 = Inr (index, None)"
| "pick_client m mod_id n start index (Suc fuel) =
     bindE (at m index) (\<lambda>t.
     if mod_id \<noteq> working_clients t then Inr (index, Some (working_clients t))
     else if n = 0 then Inl DivByZero
     else let index' = (index + 1) mod n
          in if index' = start then Inr (index', None) else pick_client m mod_id n start index' fuel)"

fun pick_clients :: "task_distribution list \<Rightarrow> u32 \<Rightarrow> nat \<Rightarrow> nat \<Rightarrow> nat \<Rightarrow> u32 list result" where
  "pick_clients m mod_id n index 0 = Inr []"
| "pick_clients m mod_id n index (Suc k) =
     bindE (at m 0) (\<lambda>t0.
     bindE (pick_client m mod_id n index index (n + 1)) (\<lambda>(index1, r).
     bindE (pick_clients m mod_id n index1 k) (\<lambda>cs.
     Inr ((case r of None \<Rightarrow> working_clients t0 | Some c \<Rightarrow> c) # cs))))"

text \<open>The files of the dead client are added to the entries from the first one on.\<close>

fun hand_over :: "task_distribution list \<Rightarrow> string list \<Rightarrow> nat \<Rightarrow> nat \<Rightarrow> (task_distribution list \<times> string_t list) result" where
  "hand_over m dead_files index 0 = Inr (m, [])"
| "hand_over m dead_files index (Suc k) =
     bindE (at m index) (\<lambda>t.
     bindE (at dead_files index) (\<lambda>f.
     bindE (upd_at m index (t\<lparr>task_filename := take (file_count t) (task_filename t) @ [f],
                              file_count := file_count t + 1\<rparr>)) (\<lambda>m1.
     bindE (hand_over m1 dead_files (index + 1) k) (\<lambda>(m2, fs). Inr (m2, Some f # fs)))))"

definition retransmit_task_req_for_client :: "server_info \<Rightarrow> ptr \<Rightarrow> server_info result" where
  "retransmit_task_req_for_client s gp =
     bindE (grp s gp) (\<lambda>g.
     let k = nat (dead_client_count (dead_clients_info g)); n = nat \<bar>number_of_working_clients (task_set_details g)\<bar>
     in bindE (own_get (distribution_map (task_set_details g))) (\<lambda>m.
        bindE (if k = 0 then Inr []
               else bindE (nonnull (moderator_client g)) (\<lambda>mp.
                    bindE (cl s mp) (\<lambda>md. pick_clients m (client_id md) n 0 k))) (\<lambda>ids.
        bindE (if k = 0 then Inr (m, [])
               else bindE (own_get (dead_clients_file (dead_clients_info g))) (\<lambda>dfs. hand_over m dfs 0 k)) (\<lambda>(m1, fs).
        bindE (own_get (task_folder_path (task_set_details g))) (\<lambda>folder.
        let s1 = send s (of_in (grp_mcast_addr g)) \<lparr>msg_id = perform_task_req,
              idv = Perform_task_req \<lparr>pt_group_name = Some (group_name g), pt_task_id = task_id s,
                pt_client_id_count = of_int (dead_client_count (dead_clients_info g)), pt_client_ids = ids,
                pt_task_filename = fs, pt_task_folder_path = Some folder, pt_task_type = task_type g,
                pt_task_reassigned = 1\<rparr>\<rparr>
        in bindE (own_free (dead_clients_file (dead_clients_info g))) (\<lambda>dfile.
           bindE (own_free (dead_clients (dead_clients_info g))) (\<lambda>dcl.
           upd_grp s1 gp (\<lambda>g. g\<lparr>task_set_details := (task_set_details g)\<lparr>distribution_map := Own m1\<rparr>,
             dead_clients_info := (dead_clients_info g)\<lparr>dead_client_count := 0, dead_clients_file := dfile,
                                                         dead_clients := dcl\<rparr>\<rparr>))))))))"

end
