(* ===== verification/TaskStart.thy ===== *)
theory TaskStart
  imports TaskSplit ServerTask
begin

text \<open>
  Sending out a task (\<open>mcast_start_task_distribution\<close> of \<open>src/src/server.c\<close>): the
  capabilities are read, the task file is split, the request goes to the whole group and
  the moderator's timer is started.
\<close>

section \<open>Reading the capabilities\<close>

text \<open>The capability the index has for a client.\<close>

definition cap_of :: "server_info \<Rightarrow> u32 \<Rightarrow> u32" where
  "cap_of s c = (case client_RBT s c of None \<Rightarrow> 0 | Some r \<Rightarrow> rbc_capability r)"

lemma sum_capabilities_ok:
  assumes "length caps = length ids" "\<forall>c\<in>set ids. client_RBT s c \<noteq> None" "i + k = length ids"
    "take i caps = map (\<lambda>c. Some (cap_of s c)) (take i ids)"
  shows "sum_capabilities s ids i k acc caps =
    Inr (acc + of_nat (sum_list (map (\<lambda>c. unat (cap_of s c)) (drop i ids))), map (\<lambda>c. Some (cap_of s c)) ids)"
  using assms
proof (induction k arbitrary: i acc caps)
  case 0
  then show ?case by simp
next
  case (Suc k)
  have i: "i < length ids" using Suc.prems(3) by simp
  then obtain r where r: "client_RBT s (ids ! i) = Some r" using Suc.prems(2) by fastforce
  have cap: "cap_of s (ids ! i) = rbc_capability r" using r by (simp add: cap_of_def)
  have tk: "take (Suc i) (caps[i := Some (rbc_capability r)]) = map (\<lambda>c. Some (cap_of s c)) (take (Suc i) ids)"
    using i Suc.prems(1,4) cap by (simp add: take_Suc_conv_app_nth)
  have dr: "drop i ids = ids ! i # drop (i + 1) ids" using i by (simp add: Cons_nth_drop_Suc)
  show ?case
    using Suc.IH [of "caps[i := Some (rbc_capability r)]" "i + 1" "acc + rbc_capability r"] Suc.prems i r cap tk
    by (simp add: dr add.assoc)
qed

section \<open>The entries of the map\<close>

lemma assign_clients_ok:
  assumes "length m = length ids" "i + k = length ids"
  shows "\<exists>m'. assign_clients m ids i k = Inr m' \<and> length m' = length m \<and>
    (\<forall>j<length m. m' ! j = (if i \<le> j then (m ! j)\<lparr>working_clients := ids ! j, file_count := 1\<rparr> else m ! j))"
  using assms
proof (induction k arbitrary: m i)
  case 0
  then show ?case by auto
next
  case (Suc k)
  let ?m = "m[i := (m ! i)\<lparr>working_clients := ids ! i, file_count := 1\<rparr>]"
  obtain m' where m': "assign_clients ?m ids (i + 1) k = Inr m'" "length m' = length m"
    "\<forall>j<length m. m' ! j = (if i + 1 \<le> j then (?m ! j)\<lparr>working_clients := ids ! j, file_count := 1\<rparr> else ?m ! j)"
    using Suc.IH [of ?m "i + 1"] Suc.prems by auto
  have "m' ! j = (if i \<le> j then (m ! j)\<lparr>working_clients := ids ! j, file_count := 1\<rparr> else m ! j)" if "j < length m" for j
    using m'(3) that by (cases "j = i") auto
  with m'(1,2) Suc.prems show ?case by simp
qed

lemma first_files_ok:
  assumes "i + k = length m" "\<forall>j<length m. task_filename (m ! j) \<noteq> []"
  shows "first_files m i k = Inr (map (\<lambda>t. Some (hd (task_filename t))) (drop i m))"
  using assms
proof (induction k arbitrary: i)
  case (Suc k)
  then have "i < length m" "task_filename (m ! i) \<noteq> []" by simp_all
  then show ?case using Suc.IH [of "i + 1"] Suc.prems
    by (simp add: Cons_nth_drop_Suc [symmetric] hd_conv_nth)
qed simp

section \<open>The start of a task\<close>

lemma newlines_le: "newlines bs \<le> length bs"
  by (simp add: newlines_def)

text \<open>The directory of a group's task files, and the file of a client in it.\<close>

abbreviation task_folder :: "mcast_group_node \<Rightarrow> string" where
  "task_folder g \<equiv> ''/tmp/server/task_set/'' @ group_name g"

abbreviation task_file :: "server_info \<Rightarrow> mcast_group_node \<Rightarrow> u32 \<Rightarrow> string" where
  "task_file s g c \<equiv> client_path (task_folder g) (stamp s) c"

text \<open>The task file \<open>src\<close> is divided among the clients \<open>ids\<close>.\<close>

definition divided :: "server_info \<Rightarrow> mcast_group_node \<Rightarrow> u8 list \<Rightarrow> u32 list \<Rightarrow> (string \<rightharpoonup> u8 list) \<Rightarrow> bool" where
  "divided s g src ids fs \<longleftrightarrow> concat (map (\<lambda>c. the (fs (task_file s g c))) ids) = src \<and>
     (\<forall>i<length ids. piece_of fs (task_file s g (ids ! i)) (piece_lines (map (cap_of s) ids) (newlines src) i))"

lemma divided_shares:
  assumes "divided s g src ids fs" "i < length ids"
  shows "\<exists>b. fs (task_file s g (ids ! i)) = Some b \<and> last b = 10 \<and>
    newlines b = (if i = length ids - 1 then newlines src - (\<Sum>j<i. share (map (cap_of s) ids) (newlines src) j)
      else unat (cap_of s (ids ! i)) * newlines src div (\<Sum>c\<leftarrow>ids. unat (cap_of s c)))"
  using assms by (auto simp: divided_def piece_of_def piece_lines_def share_def comp_def)

definition divided_details :: "server_info \<Rightarrow> mcast_group_node \<Rightarrow> u32 list \<Rightarrow> task_distribution list \<Rightarrow> mcast_task_set" where
  "divided_details s g ids m = (task_set_details g)\<lparr>ts_capability := Own (map (\<lambda>c. Some (cap_of s c)) ids),
     task_folder_path := Own (task_folder g), distribution_map := Own m\<rparr>"

lemma small_count:
  assumes "n < 2 ^ 31"
  shows "unat (of_nat n :: u32) = n" "sint (of_nat n :: u32) = int n" "(of_nat n :: u32) = 0 \<longleftrightarrow> n = 0"
proof -
  show u: "unat (of_nat n :: u32) = n" using assms by (simp add: unat_of_nat)
  show "sint (of_nat n :: u32) = int n" using assms by (simp add: signed_of_nat signed_take_bit_int_eq_self)
  show "(of_nat n :: u32) = 0 \<longleftrightarrow> n = 0" using u by (cases "(of_nat n :: u32) = 0") (auto intro: Nat.gr0I)
qed

lemma task_data:
  assumes "groups s gp = Some g" "task_set_filename g = Own fname" "files s fname = Some src"
    "task_set_format g = 0" "last src = 10" "length src < 2 ^ 31" "length (group_name g) < 79"
    "ids \<noteq> []" "distinct ids" "length ids < newlines src" "\<forall>c\<in>set ids. client_RBT s c \<noteq> None"
    "sum_list (map (unat \<circ> cap_of s) ids) * newlines src < 2 ^ 32"
    "\<forall>i<length ids. 0 < share (map (cap_of s) ids) (newlines src) i"
  obtains fs m where "get_data_set_for_client_based_on_capability (s\<lparr>task_id := t\<rparr>) gp (of_nat (length ids)) ids (of_nat (newlines src)) =
      Inr (s\<lparr>task_id := t, files := fs, groups := (groups s)(gp \<mapsto> g\<lparr>task_set_details := divided_details s g ids m\<rparr>)\<rparr>)"
    "divided s g src ids fs" "length m = length ids"
    "\<forall>i<length ids. m ! i = blank_entry\<lparr>task_filename := [client_file_name (ids ! i) (stamp s)]\<rparr>"
proof -
  let ?n = "length ids" and ?cs = "map (cap_of s) ids" and ?T = "sum_list (map (\<lambda>c. unat (cap_of s c)) ids)"
  have n: "0 < ?n" "?n < 2 ^ 31" "newlines src < 2 ^ 31" using assms(6,8,10) newlines_le [of src] by auto
  have w: "unat (of_nat ?n :: u32) = ?n" "sint (of_nat ?n :: u32) = int ?n" "(of_nat ?n :: u32) \<noteq> 0" "\<not> (of_nat ?n :: u32) \<ge> of_nat (newlines src)"
    using small_count [OF n(2)] small_count [OF n(3)] n(1) assms(10) by (auto simp: word_le_nat_alt)
  define g0 where "g0 = g\<lparr>task_set_details := (task_set_details g)\<lparr>distribution_map := Own (replicate ?n blank_entry),
      ts_capability := Own (map (\<lambda>c. Some (cap_of s c)) ids)\<rparr>\<rparr>"
  define s0 where "s0 = s\<lparr>task_id := t, groups := (groups s)(gp \<mapsto> g0)\<rparr>"
  have g0: "groups s0 gp = Some g0" "distribution_map (task_set_details g0) = Own (replicate ?n blank_entry)"
    "task_set_filename g0 = Own fname" "files s0 fname = Some src" "task_set_format g0 = 0"
    "ts_capability (task_set_details g0) = Own (map Some ?cs)" "length (group_name g0) < 79"
    and same: "group_name g0 = group_name g" "stamp s0 = stamp s"
    using assms(2-4,7) by (simp_all add: g0_def s0_def comp_def)
  have len: "length (replicate ?n blank_entry) = ?n" "length ?cs = ?n" "?n < 2 ^ 32" "length src < 2 ^ 32"
    "sum_list (map unat ?cs) * newlines src < 2 ^ 32"
    using n assms(6,12) by simp_all
  have "sum_capabilities (s\<lparr>task_id := t, groups := gs\<rparr>) ids 0 ?n 0 (replicate ?n None) =
      Inr (of_nat ?T, map (\<lambda>c. Some (cap_of s c)) ids)" for gs
    using sum_capabilities_ok [of "replicate ?n None" ids "s\<lparr>task_id := t, groups := gs\<rparr>" 0 ?n 0] assms(11)
    by (simp add: cap_of_def)
  then have data: "get_data_set_for_client_based_on_capability (s\<lparr>task_id := t\<rparr>) gp (of_nat ?n) ids (of_nat (newlines src)) =
      create_task_sets_per_client s0 gp ids (of_nat ?n) (of_nat (newlines src)) (of_nat (sum_list (map unat ?cs)))"
    using assms(1) w
    by (simp add: get_data_set_for_client_based_on_capability_def Let_def s0_def g0_def comp_def)
  show ?thesis
    by (rule create_task_sets_ok [OF g0(1,2) len(1) g0(3-6) len(2) refl assms(9) n(1) len(3) g0(7) assms(5) len(4,5) assms(13)])
      (rule that; use data in \<open>simp add: same s0_def g0_def divided_def divided_details_def\<close>)
qed

text \<open>The group and the server once the task is sent out.\<close>

definition started_group :: "server_info \<Rightarrow> mcast_group_node \<Rightarrow> u32 list \<Rightarrow> task_distribution list \<Rightarrow> mcast_group_node" where
  "started_group s g ids m = g\<lparr>task_set_details := (task_set_details g)
       \<lparr>ts_capability := Own (map (\<lambda>c. Some (cap_of s c)) ids), task_folder_path := Own (task_folder g),
        number_of_working_clients := int (length ids), distribution_map := Own m, num_of_responses_expected := int (length ids)\<rparr>,
     server_metrics := if is_show_metrics s then Some \<lparr>start_time = clock s, end_time = 0\<rparr> else server_metrics g,
     timer_id := next_timer s, fsm_state := GROUP_TASK_IN_PROGRESS\<rparr>"

definition task_request :: "server_info \<Rightarrow> mcast_group_node \<Rightarrow> u32 list \<Rightarrow> comm_struct_t" where
  "task_request s g ids = \<lparr>msg_id = perform_task_req, idv = Perform_task_req
     \<lparr>pt_group_name = Some (group_name g), pt_task_id = task_id s, pt_client_id_count = of_nat (length ids),
      pt_client_ids = ids, pt_task_filename = map (\<lambda>c. Some (client_file_name c (stamp s))) ids,
      pt_task_folder_path = Some (task_folder g), pt_task_type = task_type g, pt_task_reassigned = 0\<rparr>\<rparr>"

definition started :: "server_info \<Rightarrow> ptr \<Rightarrow> mcast_group_node \<Rightarrow> u32 list \<Rightarrow> task_distribution list \<Rightarrow> (string \<rightharpoonup> u8 list) \<Rightarrow> server_info" where
  "started s gp g ids m fs = s\<lparr>task_id := task_id s + 1, files := fs,
     outbox := outbox s @ [(of_in (grp_mcast_addr g), task_request s g ids)], next_timer := next_timer s + 1,
     timers := (timers s)(next_timer s \<mapsto> \<lparr>kt_signal = MOD_RSP_TIMEOUT, kt_sival = gp, kt_interval = DEFAULT_TIMEOUT, kt_recurring = True\<rparr>),
     groups := (groups s)(gp \<mapsto> started_group s g ids m)\<rparr>"

lemma started_simps [simp]:
  "files (started s gp g ids m fs) = fs" "groups (started s gp g ids m fs) = (groups s)(gp \<mapsto> started_group s g ids m)"
  "clients (started s gp g ids m fs) = clients s" "client_RBT (started s gp g ids m fs) = client_RBT s"
  "is_show_metrics (started s gp g ids m fs) = is_show_metrics s" "stamp (started s gp g ids m fs) = stamp s"
  "fsm_state (started_group s g ids m) = GROUP_TASK_IN_PROGRESS" "group_name (started_group s g ids m) = group_name g"
  "moderator_client (started_group s g ids m) = moderator_client g" "timer_id (started_group s g ids m) = next_timer s"
  by (simp_all add: started_def started_group_def)

text \<open>The entries of the map: one per client, with its one file.\<close>

definition task_entries :: "server_info \<Rightarrow> u32 list \<Rightarrow> task_distribution list" where
  "task_entries s ids = map (\<lambda>c. \<lparr>working_clients = c, task_filename = [client_file_name c (stamp s)], file_count = 1\<rparr>) ids"

lemma assign_task_entries:
  assumes "length m = length ids" "\<forall>i<length ids. m ! i = blank_entry\<lparr>task_filename := [client_file_name (ids ! i) (stamp s)]\<rparr>"
  shows "assign_clients m ids 0 (length ids) = Inr (task_entries s ids)"
    "first_files (task_entries s ids) 0 (length ids) = Inr (map (\<lambda>c. Some (client_file_name c (stamp s))) ids)"
proof -
  obtain m1 where m1: "assign_clients m ids 0 (length ids) = Inr m1" "length m1 = length ids"
    "\<forall>i<length ids. m1 ! i = (m ! i)\<lparr>working_clients := ids ! i, file_count := 1\<rparr>"
    using assign_clients_ok [of m ids 0 "length ids"] assms(1) by auto
  then have "m1 = task_entries s ids" using assms by (auto intro: nth_equalityI simp: task_entries_def)
  then show "assign_clients m ids 0 (length ids) = Inr (task_entries s ids)" using m1(1) by simp
  show "first_files (task_entries s ids) 0 (length ids) = Inr (map (\<lambda>c. Some (client_file_name c (stamp s))) ids)"
    using first_files_ok [of 0 "length ids" "task_entries s ids"] by (simp add: task_entries_def comp_def)
qed

text \<open>What the start of a task leaves: the theorem below, with the whole state.\<close>

lemma task_distribution_run:
  assumes "groups s gp = Some g" "timer_id g = 0" "task_set_filename g = Own fname" "files s fname = Some src"
    "task_set_format g = 0" "last src = 10" "length src < 2 ^ 31" "length (group_name g) < 79"
    "idv (pdu_msg pdu) = Moderator_notify_rsp rsp" "nr_client_ids rsp = ids" "nr_client_id_count rsp = of_nat (length ids)"
    "ids \<noteq> []" "distinct ids" "length ids < newlines src" "\<forall>c\<in>set ids. client_RBT s c \<noteq> None"
    "sum_list (map (unat \<circ> cap_of s) ids) * newlines src < 2 ^ 32"
    "\<forall>i<length ids. 0 < share (map (cap_of s) ids) (newlines src) i"
  obtains fs where "mcast_start_task_distribution s gp pdu = Inr (started s gp g ids (task_entries s ids) fs)" "divided s g src ids fs"
proof -
  obtain fs m where d: "get_data_set_for_client_based_on_capability (s\<lparr>task_id := task_id s + 1\<rparr>) gp (of_nat (length ids)) ids (of_nat (newlines src)) =
      Inr (s\<lparr>task_id := task_id s + 1, files := fs, groups := (groups s)(gp \<mapsto> g\<lparr>task_set_details := divided_details s g ids m\<rparr>)\<rparr>)"
    "divided s g src ids fs" "length m = length ids"
    "\<forall>i<length ids. m ! i = blank_entry\<lparr>task_filename := [client_file_name (ids ! i) (stamp s)]\<rparr>"
    by (rule task_data [OF assms(1,3-8,12-17), where t = "task_id s + 1"])
  have n: "length ids < 2 ^ 31" "newlines src < 2 ^ 31" using assms(7,14) newlines_le [of src] by auto
  have count: "get_task_count s fname = Inr (of_nat (newlines src))"
    using assms(4) by (simp add: get_task_count_def newlines_def)
  have ne: "newlines src \<noteq> 0" using assms(14) by simp
  note run = mcast_start_task_distribution_def Let_def d(1) start_recurring_timer_def start_timer_def send_def
    assign_task_entries [OF d(3,4)] count small_count [OF n(1)] small_count [OF n(2)]
    started_def started_group_def task_request_def divided_details_def
  show ?thesis
  proof (rule that [OF _ d(2)], cases "is_show_metrics s")
    case True
    then show "mcast_start_task_distribution s gp pdu = Inr (started s gp g ids (task_entries s ids) fs)"
      using assms(1-3,9-12) ne by (simp add: run)
  next
    case False
    then show "mcast_start_task_distribution s gp pdu = Inr (started s gp g ids (task_entries s ids) fs)"
      using assms(1-3,9-12) ne by (simp add: run)
  qed
qed

text \<open>
  C24: a notified moderator starts the task: the task file is cut into consecutive pieces, one
  per client it names; a client's piece has as many lines as its share of the capability of
  all of them, the last client's what is left; one request with every client's file goes to
  the group, the response timer is started and the group is in progress.
\<close>

theorem task_distribution_starts:
  assumes "groups s gp = Some g" "timer_id g = 0" "task_set_filename g = Own fname" "files s fname = Some src"
    "task_set_format g = 0" "last src = 10" "length src < 2 ^ 31" "length (group_name g) < 79"
    "idv (pdu_msg pdu) = Moderator_notify_rsp rsp" "nr_client_ids rsp = ids" "nr_client_id_count rsp = of_nat (length ids)"
    "ids \<noteq> []" "distinct ids" "length ids < newlines src" "\<forall>c\<in>set ids. client_RBT s c \<noteq> None"
    "sum_list (map (unat \<circ> cap_of s) ids) * newlines src < 2 ^ 32"
    "\<forall>i<length ids. 0 < share (map (cap_of s) ids) (newlines src) i"
  shows "\<exists>s' g'. mcast_start_task_distribution s gp pdu = Inr s' \<and> groups s' gp = Some g' \<and>
    fsm_state g' = GROUP_TASK_IN_PROGRESS \<and> timer_id g' = next_timer s \<and>
    timers s' (next_timer s) = Some \<lparr>kt_signal = MOD_RSP_TIMEOUT, kt_sival = gp, kt_interval = DEFAULT_TIMEOUT, kt_recurring = True\<rparr> \<and>
    outbox s' = outbox s @ [(of_in (grp_mcast_addr g), \<lparr>msg_id = perform_task_req, idv = Perform_task_req
      \<lparr>pt_group_name = Some (group_name g), pt_task_id = task_id s, pt_client_id_count = of_nat (length ids),
       pt_client_ids = ids, pt_task_filename = map (\<lambda>c. Some (client_file_name c (stamp s))) ids,
       pt_task_folder_path = Some (''/tmp/server/task_set/'' @ group_name g), pt_task_type = task_type g, pt_task_reassigned = 0\<rparr>\<rparr>)] \<and>
    concat (map (\<lambda>c. the (files s' (client_path (''/tmp/server/task_set/'' @ group_name g) (stamp s) c))) ids) = src \<and>
    (\<forall>i<length ids. \<exists>b. files s' (client_path (''/tmp/server/task_set/'' @ group_name g) (stamp s) (ids ! i)) = Some b \<and>
       last b = 10 \<and>
       newlines b = (if i = length ids - 1 then newlines src - (\<Sum>j<i. share (map (cap_of s) ids) (newlines src) j)
         else unat (cap_of s (ids ! i)) * newlines src div (\<Sum>c\<leftarrow>ids. unat (cap_of s c)))) \<and>
    (\<exists>m. distribution_map (task_set_details g') = Own m \<and> map working_clients m = ids \<and>
       map task_filename m = map (\<lambda>c. [client_file_name c (stamp s)]) ids)"
proof -
  obtain fs where "mcast_start_task_distribution s gp pdu = Inr (started s gp g ids (task_entries s ids) fs)" "divided s g src ids fs"
    by (rule task_distribution_run [OF assms])
  then show ?thesis
    using divided_shares [of s g src ids fs]
    by (simp add: started_def started_group_def divided_def divided_details_def task_request_def task_entries_def comp_def)
qed

definition demo_start_group :: mcast_group_node where
  "demo_start_group = demo_group\<lparr>task_set_filename := Own ''t'', fsm_state := MODERATOR_SELECTED, task_type := 1\<rparr>"

definition demo_start :: server_info where
  "demo_start = demo_server\<lparr>groups := [1 \<mapsto> demo_start_group], files := [''t'' \<mapsto> [50, 10, 51, 10, 53, 10]],
     client_RBT := [5 \<mapsto> \<lparr>rbc_capability = 1, rbc_grp_list = [1], rbc_av_status = RBBUSY, rbc_is_moderator = True\<rparr>,
                    6 \<mapsto> \<lparr>rbc_capability = 1, rbc_grp_list = [1], rbc_av_status = RBFREE, rbc_is_moderator = False\<rparr>]\<rparr>"

definition demo_notify :: pdu_t where
  "demo_notify = \<lparr>peer_addr = demo_addr, pdu_msg = \<lparr>msg_id = moderator_notify_rsp, idv = Moderator_notify_rsp
     \<lparr>nr_group_name = Some ''G1'', nr_moderator_id = 5, nr_client_id_count = 2, nr_client_ids = [5, 6]\<rparr>\<rparr>\<rparr>"

theorem task_distribution_starts_witness:
  "\<exists>s' g'. mcast_start_task_distribution demo_start 1 demo_notify = Inr s' \<and> groups s' 1 = Some g' \<and>
     fsm_state g' = GROUP_TASK_IN_PROGRESS \<and> timer_id g' = 1"
proof -
  have g: "groups demo_start 1 = Some demo_start_group" "timer_id demo_start_group = 0" "task_set_filename demo_start_group = Own ''t''"
    "files demo_start ''t'' = Some [50, 10, 51, 10, 53, 10]" "task_set_format demo_start_group = 0"
    "group_name demo_start_group = ''G1''" "next_timer demo_start = 1"
    by (simp_all add: demo_start_def demo_start_group_def demo_server_def demo_group_def new_group_def)
  have rsp: "idv (pdu_msg demo_notify) = Moderator_notify_rsp \<lparr>nr_group_name = Some ''G1'', nr_moderator_id = 5,
      nr_client_id_count = 2, nr_client_ids = [5, 6]\<rparr>"
    by (simp add: demo_notify_def)
  have caps: "cap_of demo_start 5 = 1" "cap_of demo_start 6 = 1" "client_RBT demo_start 5 \<noteq> None" "client_RBT demo_start 6 \<noteq> None"
    by (simp_all add: cap_of_def demo_start_def)
  have sh: "\<forall>i<Suc (Suc 0). 0 < share [1, 1] (Suc (Suc (Suc 0))) i" by (auto simp: share_def less_Suc_eq div_greater_zero_iff)
  have "\<exists>s' g'. mcast_start_task_distribution demo_start 1 demo_notify = Inr s' \<and> groups s' 1 = Some g' \<and>
     fsm_state g' = GROUP_TASK_IN_PROGRESS \<and> timer_id g' = next_timer demo_start"
    using task_distribution_starts [OF g(1-5) _ _ _ rsp, of "[5, 6]"] caps sh by (simp add: g) (elim exE conjE, intro exI conjI)
  then show ?thesis by (simp add: g)
qed

end
