(* ===== verification/ServerFsm.thy ===== *)
theory ServerFsm
  imports ServerTask
begin

text \<open>
  The state machine of a group (\<open>src/src/server_fsm.c\<close>) with the handlers it calls, the
  signal handler of the timers, the message handlers that feed it and the commands of the
  operator (\<open>src/src/server.c\<close>).  A handler that may not end returns an option.
\<close>

section \<open>Echo requests while a task is running\<close>

text \<open>The entry of the map for a client, or \<open>n\<close> when the first \<open>n\<close> do not have it.\<close>

fun find_worker :: "task_distribution list \<Rightarrow> u32 \<Rightarrow> nat \<Rightarrow> nat \<Rightarrow> nat result" where
  "find_worker m cid j 0 = Inr j"
| "find_worker m cid j (Suc k) =
     bindE (at m j) (\<lambda>t. if working_clients t = cid then Inr j else find_worker m cid (j + 1) k)"

text \<open>The files of the dead client \<open>cid\<close> replace those remembered before.\<close>

definition remember_dead :: "server_info \<Rightarrow> ptr \<Rightarrow> u32 \<Rightarrow> server_info result" where
  "remember_dead s gp cid =
     bindE (grp s gp) (\<lambda>g.
     let n = nat (number_of_working_clients (task_set_details g))
     in bindE (own_get (distribution_map (task_set_details g))) (\<lambda>m.
        bindE (find_worker m cid 0 n) (\<lambda>j.
        bindE (at m j) (\<lambda>t.
        if file_count t > length (task_filename t) then Inl OutOfBounds
        else upd_grp s gp (\<lambda>g. g\<lparr>dead_clients_info := (dead_clients_info g)
               \<lparr>dead_client_count := int (file_count t),
                dead_clients := Own (replicate (file_count t) cid),
                dead_clients_file := Own (take (file_count t) (task_filename t))\<rparr>\<rparr>)))))"

text \<open>One dead client: the group loses its capability, its files are remembered.\<close>

definition dead_step :: "server_info \<Rightarrow> ptr \<Rightarrow> u32 \<Rightarrow> server_info result" where
  "dead_step s gp cid =
     (case client_RBT s cid of
        None \<Rightarrow> Inl NullDeref
      | Some rbNode \<Rightarrow>
          bindE (upd_grp s gp (\<lambda>g. g\<lparr>grp_capability := grp_capability g - rbc_capability rbNode\<rparr>)) (\<lambda>s1.
          remember_dead s1 gp cid))"

text \<open>The loop counts in 8 bits up to a 32-bit bound: \<open>None\<close> when it does not end.\<close>

partial_function (option) dead_loop :: "ptr \<Rightarrow> echo_req_t \<Rightarrow> u8 \<Rightarrow> server_info \<Rightarrow> server_info result option" where
  "dead_loop gp req iter s =
     (if ucast iter < eq_num_clients req
      then case bindE (at (eq_client_ids req) (unat iter)) (\<lambda>cid. dead_step s gp cid) of
             Inl e \<Rightarrow> Some (Inl e)
           | Inr s1 \<Rightarrow> dead_loop gp req (iter + 1) s1
      else Some (Inr s))"

declare dead_loop.simps [code]

definition mark_and_retransmit :: "server_info \<Rightarrow> ptr \<Rightarrow> u32 list \<Rightarrow> int \<Rightarrow> server_info result" where
  "mark_and_retransmit s gp dead dead_count =
     bindE (grp s gp) (\<lambda>g.
     bindE (own_get (distribution_map (task_set_details g))) (\<lambda>m.
     bindE (mark_dead_clients_in_group m (number_of_working_clients (task_set_details g)) dead dead_count) (\<lambda>(m1, n1).
     bindE (upd_grp s gp (\<lambda>g. g\<lparr>task_set_details := (task_set_details g)
        \<lparr>distribution_map := Own m1, number_of_working_clients := n1\<rparr>\<rparr>)) (\<lambda>s1.
     retransmit_task_req_for_client s1 gp))))"

definition server_echo_req_task_in_progress_state :: "server_info \<Rightarrow> ptr \<Rightarrow> pdu_t \<Rightarrow> server_info result option" where
  "server_echo_req_task_in_progress_state s gp pdu =
     (case bindE (grp s gp) (\<lambda>g. bindE (nonnull (moderator_client g)) (\<lambda>mp. cl s mp)) of
        Inl e \<Rightarrow> Some (Inl e)
      | Inr md \<Rightarrow>
          if calc_key (Some (peer_addr pdu)) \<noteq> client_id md then Some (Inr s)
          else (case upd_grp s gp (\<lambda>g. g\<lparr>heartbeat_remaining := MAX_ALLOWED_KA_MISSES\<rparr>) of
                  Inl e \<Rightarrow> Some (Inl e)
                | Inr s1 \<Rightarrow>
                    (case idv (pdu_msg pdu) of
                       Echo_req req \<Rightarrow>
                         if eq_num_clients req \<noteq> 0
                         then map_option (\<lambda>r. bindE r (\<lambda>s2.
                                mark_and_retransmit s2 gp (eq_client_ids req) (sint (eq_num_clients req))))
                              (dead_loop gp req 0 s1)
                         else Some (Inr s1)
                     | _ \<Rightarrow> Some (Inl WrongMember))))"

section \<open>A new moderator for a running task\<close>

fun worker_ids :: "task_distribution list \<Rightarrow> nat \<Rightarrow> u32 list result" where
  "worker_ids m 0 = Inr []"
| "worker_ids [] (Suc n) = Inl OutOfBounds"
| "worker_ids (t # m) (Suc n) = bindE (worker_ids m n) (\<lambda>ids. Inr (working_clients t # ids))"

definition send_new_moderator_info :: "server_info \<Rightarrow> ptr \<Rightarrow> pdu_t \<Rightarrow> server_info result" where
  "send_new_moderator_info s gp pdu =
     bindE (grp s gp) (\<lambda>g.
     let s0 = (if timer_id g \<noteq> 0 then timer_delete s (timer_id g) else s)
     in bindE (upd_grp s0 gp (\<lambda>g. g\<lparr>timer_id := 0, fsm_state := GROUP_TASK_IN_PROGRESS\<rparr>)) (\<lambda>s1.
        let clientID = calc_key (Some (peer_addr pdu))
        in if clientID \<le> 0 then Inr s1
           else bindE (update_moderator_info s1 gp clientID) (\<lambda>(ok, s2).
                if \<not> ok then Inr s2
                else bindE (upd_grp s2 gp (\<lambda>g. g\<lparr>heartbeat_remaining := MAX_ALLOWED_KA_MISSES\<rparr>)) (\<lambda>s3.
                     bindE (grp s3 gp) (\<lambda>g3.
                     let n = number_of_working_clients (task_set_details g3)
                     in bindE (if n > 0 then bindE (own_get (distribution_map (task_set_details g3))) (\<lambda>m. worker_ids m (nat n))
                               else Inr []) (\<lambda>ids.
                        let s4 = send s3 (of_in (grp_mcast_addr g3)) \<lparr>msg_id = moderator_update_req,
                             idv = Moderator_update_req \<lparr>mu_moderator_id = clientID,
                               mu_moderator_port = ucast (sin_port (as_in (peer_addr pdu))),
                               mu_group_name = Some (group_name g3), mu_client_id_count = of_int n, mu_client_ids = ids,
                               mu_expected_task_responses = of_int (num_of_responses_expected (task_set_details g3))\<rparr>\<rparr>
                        in bindE (start_recurring_timer s4 gp DEFAULT_TIMEOUT MOD_RSP_TIMEOUT) (\<lambda>s5.
                           retransmit_task_req_for_client s5 gp)))))))"

section \<open>Results of a task\<close>

text \<open>Prints the metrics and drops them.\<close>

definition print_execution_report :: "server_info \<Rightarrow> ptr \<Rightarrow> server_info result" where
  "print_execution_report s gp = upd_grp s gp (\<lambda>g. g\<lparr>server_metrics := None\<rparr>)"

abbreviation TYPE_LONG :: u32 where "TYPE_LONG \<equiv> 2"
abbreviation TYPE_FILE :: u32 where "TYPE_FILE \<equiv> 3"

definition mcast_handle_task_response :: "server_info \<Rightarrow> ptr \<Rightarrow> pdu_t \<Rightarrow> server_info result" where
  "mcast_handle_task_response s gp pdu =
     bindE (grp s gp) (\<lambda>g.
     let s0 = timer_delete s (timer_id g)
     in (case idv (pdu_msg pdu) of
           Task_rsp rsp \<Rightarrow>
             bindE (if server_metrics g \<noteq> None \<and> is_show_metrics s0 then print_execution_report s0 gp else Inr s0) (\<lambda>s1.
             bindE (if tr_type rsp = TYPE_FILE
                    then bindE (get_task_result_folder_path s1 (group_name g)) (\<lambda>folder.
                         collect_task_results s1 rsp folder (calc_key (Some (peer_addr pdu))))
                    else Inr s1) (\<lambda>s2.
             set_group_available s2 gp))
         | _ \<Rightarrow> Inl WrongMember))"

section \<open>The state machine\<close>

definition server_fsm_mod_pend_state :: "server_info \<Rightarrow> server_event \<Rightarrow> ptr \<Rightarrow> pdu_t \<Rightarrow> server_info result" where
  "server_fsm_mod_pend_state s event gp pdu =
     (case event of ECHO_RSP_RCVD_EVENT \<Rightarrow> mcast_send_chk_alive_msg s gp pdu | _ \<Rightarrow> Inr s)"

definition server_fsm_mod_selected :: "server_info \<Rightarrow> server_event \<Rightarrow> ptr \<Rightarrow> pdu_t \<Rightarrow> server_info result" where
  "server_fsm_mod_selected s event gp pdu =
     (case event of MOD_NOTIFY_RSP_RCVD_EVENT \<Rightarrow> mcast_start_task_distribution s gp pdu | _ \<Rightarrow> Inr s)"

definition server_fsm_task_in_progress_mod_sel_pend :: "server_info \<Rightarrow> server_event \<Rightarrow> ptr \<Rightarrow> pdu_t \<Rightarrow> server_info result" where
  "server_fsm_task_in_progress_mod_sel_pend s event gp pdu =
     (case event of ECHO_RSP_RCVD_EVENT \<Rightarrow> send_new_moderator_info s gp pdu | _ \<Rightarrow> Inr s)"

definition server_fsm_task_in_progress :: "server_info \<Rightarrow> server_event \<Rightarrow> ptr \<Rightarrow> pdu_t \<Rightarrow> server_info result option" where
  "server_fsm_task_in_progress s event gp pdu =
     (case event of
        ECHO_REQ_RCVD_EVENT \<Rightarrow> server_echo_req_task_in_progress_state s gp pdu
      | MOD_TASK_RSP_RCVD_EVENT \<Rightarrow> Some (mcast_handle_task_response s gp pdu)
      | _ \<Rightarrow> Some (Inr s))"

text \<open>\<open>fs\<close> is the state the caller read from the group node into its \<open>fsm_data\<close>.\<close>

definition server_main_fsm :: "server_info \<Rightarrow> server_event \<Rightarrow> server_state \<Rightarrow> ptr \<Rightarrow> pdu_t \<Rightarrow> server_info result option" where
  "server_main_fsm s event fs gp pdu =
     (case fs of
        MODERATOR_SELECTION_PENDING \<Rightarrow> Some (server_fsm_mod_pend_state s event gp pdu)
      | MODERATOR_SELECTED \<Rightarrow> Some (server_fsm_mod_selected s event gp pdu)
      | GROUP_TASK_IN_PROGRESS \<Rightarrow> server_fsm_task_in_progress s event gp pdu
      | TASK_IN_PROGRESS_MOD_SEL_PEND \<Rightarrow> Some (server_fsm_task_in_progress_mod_sel_pend s event gp pdu)
      | _ \<Rightarrow> Some (Inr s))"

section \<open>Timers\<close>

text \<open>
  The signal handler of both timers.  \<open>masked\<close> is the flag raised while the signal mask
  is being changed, \<open>timer_ptr\<close> the group whose \<open>timer_id\<close> field the signal carries.  The
  heartbeat count wraps around after 0.
\<close>

definition handle_timeout_real :: "server_info \<Rightarrow> bool \<Rightarrow> timer_signal \<Rightarrow> ptr \<Rightarrow> server_info result" where
  "handle_timeout_real s masked sig timer_ptr =
     (if masked then Inr s
      else bindE (get_group_node_by_timerid s timer_ptr None) (\<lambda>gpo.
      case gpo of
        None \<Rightarrow> bindE (grp s timer_ptr) (\<lambda>g. Inr (timer_delete s (timer_id g)))
      | Some gp \<Rightarrow>
          bindE (grp s gp) (\<lambda>g.
          case sig of
            MOD_SEL_TIMEOUT \<Rightarrow>
              if fsm_state g = MODERATOR_SELECTED then Inl AssertFail else moderator_selection s gp
          | MOD_RSP_TIMEOUT \<Rightarrow>
              bindE (upd_grp s gp (\<lambda>g. g\<lparr>heartbeat_remaining := heartbeat_remaining g - 1\<rparr>)) (\<lambda>s1.
              if heartbeat_remaining g > 0 then Inr s1
              else if fsm_state g = MODERATOR_SELECTED
              then bindE (upd_grp (timer_delete s1 (timer_id g)) gp (\<lambda>g. g\<lparr>timer_id := 0\<rparr>)) (\<lambda>s2. moderator_selection s2 gp)
              else if fsm_state g = GROUP_TASK_IN_PROGRESS
              then bindE (nonnull (moderator_client g)) (\<lambda>mp.
                   bindE (cl s1 mp) (\<lambda>md.
                   bindE (upd_grp (timer_delete s1 (timer_id g)) gp (\<lambda>g. g\<lparr>timer_id := 0\<rparr>)) (\<lambda>s2.
                   let clientID = client_id md
                   in bindE (nonnull (client_RBT s2 clientID)) (\<lambda>rbNode.
                      bindE (upd_rbt s2 clientID (\<lambda>r. r\<lparr>rbc_av_status := RBFREE, rbc_is_moderator := False\<rparr>)) (\<lambda>s3.
                      bindE (upd_grp s3 gp (\<lambda>g. g\<lparr>grp_capability := grp_capability g - rbc_capability rbNode\<rparr>)) (\<lambda>s4.
                      bindE (remember_dead s4 gp clientID) (\<lambda>s5.
                      bindE (upd_grp s5 gp (\<lambda>g. g\<lparr>dead_clients_info := (dead_clients_info g)
                         \<lparr>dead_file_count := dead_client_count (dead_clients_info g)\<rparr>\<rparr>)) (\<lambda>s6.
                      bindE (grp s6 gp) (\<lambda>g6.
                      bindE (own_get (distribution_map (task_set_details g6))) (\<lambda>m.
                      bindE (mark_dead_clients_in_group m (number_of_working_clients (task_set_details g6)) [clientID]
                               (dead_client_count (dead_clients_info g6))) (\<lambda>(m1, n1).
                      bindE (upd_grp s6 gp (\<lambda>g. g\<lparr>fsm_state := TASK_IN_PROGRESS_MOD_SEL_PEND,
                         task_set_details := (task_set_details g)\<lparr>distribution_map := Own m1, number_of_working_clients := n1\<rparr>\<rparr>)) (\<lambda>s7.
                      moderator_selection s7 gp))))))))))))
              else Inl AssertFail))))"

section \<open>Message handlers\<close>

text \<open>The group of a name; an unknown name is a null pointer.\<close>

definition named_group :: "server_info \<Rightarrow> string_t \<Rightarrow> (ptr \<times> mcast_group_node) result" where
  "named_group s name =
     bindE (nonnull name) (\<lambda>nm.
     bindE (get_group_node_by_name s nm None) (\<lambda>gpo.
     bindE (nonnull gpo) (\<lambda>gp.
     bindE (grp s gp) (\<lambda>g. Inr (gp, g)))))"

definition handle_echo_req :: "server_info \<Rightarrow> pdu_t \<Rightarrow> server_info result option" where
  "handle_echo_req s pdu =
     (case idv (pdu_msg pdu) of
        Echo_req req \<Rightarrow>
          (case bindE (nonnull (eq_group_name req)) (\<lambda>nm.
                bindE (copy_gname nm) (\<lambda>gn.
                let s1 = send s (peer_addr pdu) \<lparr>msg_id = echo_response,
                            idv = Echo_resp \<lparr>er_status = 11, er_group_name = gn\<rparr>\<rparr>
                in bindE (named_group s1 (eq_group_name req)) (\<lambda>(gp, g). Inr (s1, gp, fsm_state g)))) of
             Inl e \<Rightarrow> Some (Inl e)
           | Inr (s1, gp, fs) \<Rightarrow> server_main_fsm s1 ECHO_REQ_RCVD_EVENT fs gp pdu)
      | _ \<Rightarrow> Some (Inl WrongMember))"

definition handle_echo_response :: "server_info \<Rightarrow> pdu_t \<Rightarrow> server_info result option" where
  "handle_echo_response s pdu =
     (case idv (pdu_msg pdu) of
        Echo_resp rsp \<Rightarrow>
          (case named_group s (er_group_name rsp) of
             Inl e \<Rightarrow> Some (Inl e)
           | Inr (gp, g) \<Rightarrow> server_main_fsm s ECHO_RSP_RCVD_EVENT (fsm_state g) gp pdu)
      | _ \<Rightarrow> Some (Inl WrongMember))"

text \<open>
  The group is looked up by its full name among the groups of the sender, or of the client
  that announces itself as moderator.
\<close>

definition group_of_client :: "server_info \<Rightarrow> u32 \<Rightarrow> string_t \<Rightarrow> ptr option result" where
  "group_of_client s clientID name =
     (if clientID \<le> 0 then Inr None
      else case client_RBT s clientID of
             None \<Rightarrow> Inr None
           | Some rbNode \<Rightarrow> bindE (nonnull name) (\<lambda>nm. search_rb_grp_node s (rbc_grp_list rbNode) nm))"

text \<open>
  The sender of the results is free again, in the index and in the group; a search that does
  not find it leaves the pointer as it was declared, without a value.
\<close>

definition free_moderator :: "server_info \<Rightarrow> ptr \<Rightarrow> u32 \<Rightarrow> server_info result" where
  "free_moderator s gp clientID =
     bindE (upd_rbt s clientID (\<lambda>r. r\<lparr>rbc_av_status := RBFREE, rbc_is_moderator := False\<rparr>)) (\<lambda>s1.
     bindE (grp s1 gp) (\<lambda>g.
     bindE (if is_show_metrics s1
            then upd_grp s1 gp (\<lambda>g. g\<lparr>server_metrics := map_option (\<lambda>m. m\<lparr>end_time := clock s1\<rparr>) (server_metrics g)\<rparr>)
            else Inr s1) (\<lambda>s2.
     case moderator_client g of
       Some mp \<Rightarrow> bindE (upd_cl s2 mp (\<lambda>n. n\<lparr>cl_av_status := CLFREE\<rparr>)) (\<lambda>s3.
                   upd_grp s3 gp (\<lambda>g. g\<lparr>moderator_client := None\<rparr>))
     | None \<Rightarrow> bindE (search_client_in_group_node s2 gp clientID) (\<lambda>r.
               case r of None \<Rightarrow> Inl Uninit | Some c \<Rightarrow> upd_cl s2 c (\<lambda>n. n\<lparr>cl_av_status := CLFREE\<rparr>)))))"

definition handle_moderator_task_response :: "server_info \<Rightarrow> pdu_t \<Rightarrow> server_info result option" where
  "handle_moderator_task_response s pdu =
     (case idv (pdu_msg pdu) of
        Task_rsp rsp \<Rightarrow>
          (let clientID = calc_key (Some (peer_addr pdu))
           in case group_of_client s clientID (tr_group_name rsp) of
                Inl e \<Rightarrow> Some (Inl e)
              | Inr None \<Rightarrow> Some (Inr s)
              | Inr (Some gp) \<Rightarrow>
                  (case bindE (free_moderator s gp clientID) (\<lambda>s1. bindE (grp s1 gp) (\<lambda>g. Inr (s1, fsm_state g))) of
                     Inl e \<Rightarrow> Some (Inl e)
                   | Inr (s1, fs) \<Rightarrow> server_main_fsm s1 MOD_TASK_RSP_RCVD_EVENT fs gp pdu))
      | _ \<Rightarrow> Some (Inl WrongMember))"

definition handle_moderator_notify_response :: "server_info \<Rightarrow> pdu_t \<Rightarrow> server_info result option" where
  "handle_moderator_notify_response s pdu =
     (case idv (pdu_msg pdu) of
        Moderator_notify_rsp rsp \<Rightarrow>
          (case group_of_client s (nr_moderator_id rsp) (nr_group_name rsp) of
             Inl e \<Rightarrow> Some (Inl e)
           | Inr None \<Rightarrow> Some (Inr s)
           | Inr (Some gp) \<Rightarrow>
               (case grp s gp of
                  Inl e \<Rightarrow> Some (Inl e)
                | Inr g \<Rightarrow> server_main_fsm s MOD_NOTIFY_RSP_RCVD_EVENT (fsm_state g) gp pdu))
      | _ \<Rightarrow> Some (Inl WrongMember))"

text \<open>The handler of a message identifier, and what the event loop does with it.\<close>

datatype handler =
    H_join_req | H_leave_req | H_echo_req | H_echo_response | H_moderator_notify_response
  | H_moderator_task_response | H_checkpoint_req

definition server_func_handler :: "u32 \<Rightarrow> handler option" where
  "server_func_handler msgType =
     (if msgType = join_request then Some H_join_req
      else if msgType = leave_request then Some H_leave_req
      else if msgType = echo_req then Some H_echo_req
      else if msgType = echo_response then Some H_echo_response
      else if msgType = moderator_notify_rsp then Some H_moderator_notify_response
      else if msgType = task_response then Some H_moderator_task_response
      else if msgType = checkpoint_req then Some H_checkpoint_req
      else None)"

definition run_handler :: "handler \<Rightarrow> server_info \<Rightarrow> pdu_t \<Rightarrow> server_info result option" where
  "run_handler h s pdu =
     (case h of
        H_join_req \<Rightarrow> (case idv (pdu_msg pdu) of
            Join_req req \<Rightarrow> handle_join_req s (peer_addr pdu) req | _ \<Rightarrow> Some (Inl WrongMember))
      | H_leave_req \<Rightarrow> (case idv (pdu_msg pdu) of
            Leave_req req \<Rightarrow> Some (handle_leave_req s (peer_addr pdu) req) | _ \<Rightarrow> Some (Inl WrongMember))
      | H_echo_req \<Rightarrow> handle_echo_req s pdu
      | H_echo_response \<Rightarrow> handle_echo_response s pdu
      | H_moderator_notify_response \<Rightarrow> handle_moderator_notify_response s pdu
      | H_moderator_task_response \<Rightarrow> handle_moderator_task_response s pdu
      | H_checkpoint_req \<Rightarrow> (case idv (pdu_msg pdu) of
            Checkpoint_req req \<Rightarrow> Some (handle_checkpoint_req s (peer_addr pdu) req) | _ \<Rightarrow> Some (Inl WrongMember)))"

definition serve :: "server_info \<Rightarrow> pdu_t \<Rightarrow> server_info result option" where
  "serve s pdu = (case server_func_handler (msg_id (pdu_msg pdu)) of
     None \<Rightarrow> Some (Inr s) | Some h \<Rightarrow> run_handler h s pdu)"

section \<open>Commands of the operator\<close>

definition assign_task :: "server_info \<Rightarrow> string option \<Rightarrow> u32 \<Rightarrow> string \<Rightarrow> u8 \<Rightarrow> server_info result" where
  "assign_task s grp_name task_kind filename file_data_type =
     (case files s filename of
        None \<Rightarrow> Inr s
      | Some content \<Rightarrow>
          bindE (case grp_name of
                   Some nm \<Rightarrow> get_group_node_by_name s nm None
                 | None \<Rightarrow> get_group_node_by_best_fit s (of_nat (length content)) None) (\<lambda>gpo.
          case gpo of
            None \<Rightarrow> Inr s
          | Some gp \<Rightarrow>
              bindE (grp s gp) (\<lambda>g.
              if moderator_client g \<noteq> None then Inr s
              else if client_info g = None then Inr s
              else bindE (upd_grp s gp (\<lambda>g. g\<lparr>task_type := task_kind, task_set_format := file_data_type,
                       task_set_filename := Own filename, fsm_state := MODERATOR_SELECTION_PENDING,
                       group_reachability_index := GROUP_REACHABLE\<rparr>)) (\<lambda>s1.
                   moderator_selection s1 gp))))"

text \<open>\<open>strtok\<close> with the delimiter \<open>'' ''\<close>: the words of a line.\<close>

fun words_of :: "string \<Rightarrow> string \<Rightarrow> string list" where
  "words_of w [] = (if w = [] then [] else [w])"
| "words_of w (c # cs) =
     (if c = CHR '' '' then (if w = [] then words_of [] cs else w # words_of [] cs)
      else words_of (w @ [c]) cs)"

definition word_at :: "string \<Rightarrow> nat \<Rightarrow> string option" where
  "word_at l i = (let ws = words_of [] l in if i < length ws then Some (ws ! i) else None)"

text \<open>
  The commands, from what was read of the terminal (at most 99 characters); commands that
  only print leave the state as it is.  \<open>inet_addr\<close> parses an address.
\<close>

definition task_type_of :: "string \<Rightarrow> u32" where
  "task_type_of w = (if strcmp_eq w ''prime'' then 1 else if strcmp_eq w ''sum'' then 2
     else if strcmp_eq w ''prime-sum'' then 3 else 0)"

definition task_command :: "server_info \<Rightarrow> string \<Rightarrow> server_info result" where
  "task_command s line =
     (let kind = (case word_at line 1 of None \<Rightarrow> 0 | Some w \<Rightarrow> task_type_of w);
          filename = (case word_at line 5 of None \<Rightarrow> ''task_set/prime_set1.txt'' | Some f \<Rightarrow> f);
          format = (case word_at line 7 of None \<Rightarrow> 0 | Some f \<Rightarrow> if strcmp_eq ''structured'' f then 1 else 0)
      in if kind \<noteq> 0 then assign_task s (word_at line 3) kind filename format else Inr s)"

definition server_stdin_data :: "(string \<Rightarrow> u32) \<Rightarrow> server_info \<Rightarrow> string \<Rightarrow> server_info result" where
  "server_stdin_data inet_addr s input =
     (if input = [] then Inr s
      else let line = takeWhile (\<lambda>c. c \<noteq> CHR 0x00) (butlast (take 99 input))
      in if strncmp_eq line ''show help'' 9 then Inr s
         else if strncmp_eq line ''server backup'' 13
         then (case word_at line 2 of None \<Rightarrow> Inr s
               | Some w \<Rightarrow> Inr (s\<lparr>secondary_server := \<lparr>sin_family = AF_INET, sin_port = 0xA20D, s_addr = inet_addr w\<rparr>,
                                  is_stdby_available := True\<rparr>))
         else if strncmp_eq line ''server primary'' 13 then Inr s
         else if strncmp_eq line ''migrate'' 7
         then (if is_stdby_available s then send_new_server_info_to_all_groups s else Inr s)
         else if strcmp_eq line ''show groups'' then Inr s
         else if strncmp_eq line ''show group info'' 15 then Inr s
         else if strcmp_eq line ''cls'' then Inr s
         else if strncmp_eq line ''task'' 4 then task_command s line
         else if strncmp_eq line ''enable metrics'' 14 then Inr (s\<lparr>is_show_metrics := True\<rparr>)
         else if strncmp_eq line ''disable metrics'' 15 then Inr (s\<lparr>is_show_metrics := False\<rparr>)
         else Inr s)"

end
