(* ===== verification/ServerProps.thy ===== *)
theory ServerProps
  imports ServerFsm DemoState
begin

text \<open>
  Properties of the life of a task on the server: how it ends, what happens when nobody
  answers, how the files of dead clients are handed over, which group a task goes to.
\<close>

section \<open>The end of a task\<close>

lemma free_entries_ok:
  "n \<le> length m \<Longrightarrow> \<forall>t\<in>set (take n m). file_count t \<le> length (task_filename t) \<Longrightarrow> free_entries m n = Inr ()"
  by (induction m n rule: free_entries.induct) auto

text \<open>A group whose task data is all allocated.\<close>

definition task_allocated :: "mcast_group_node \<Rightarrow> bool" where
  "task_allocated g \<longleftrightarrow> (\<exists>f c m d. task_set_filename g = Own f \<and> ts_capability (task_set_details g) = Own c \<and>
     distribution_map (task_set_details g) = Own m \<and> task_folder_path (task_set_details g) = Own d \<and>
     number_of_working_clients (task_set_details g) \<le> int (length m) \<and>
     (\<forall>t\<in>set m. file_count t \<le> length (task_filename t)))"

text \<open>The group afterwards.\<close>

definition available_again :: "mcast_group_node \<Rightarrow> mcast_group_node" where
  "available_again g = g\<lparr>timer_id := 0, moderator_client := None, task_set_filename := Freed,
     task_set_details := (task_set_details g)\<lparr>ts_capability := Freed, distribution_map := Freed,
       number_of_working_clients := 0, task_folder_path := Freed\<rparr>, task_type := 0, fsm_state := STATE_NONE\<rparr>"

lemma set_group_available_ok:
  assumes "groups s gp = Some g" "task_allocated g"
  shows "set_group_available s gp =
    Inr ((if timer_id g \<noteq> 0 then timer_delete s (timer_id g) else s)\<lparr>groups := (groups s)(gp \<mapsto> available_again g)\<rparr>)"
proof -
  obtain f c m d where own: "task_set_filename g = Own f" "ts_capability (task_set_details g) = Own c"
      "distribution_map (task_set_details g) = Own m" "task_folder_path (task_set_details g) = Own d"
      "number_of_working_clients (task_set_details g) \<le> int (length m)" "\<forall>t\<in>set m. file_count t \<le> length (task_filename t)"
    using assms(2) by (auto simp: task_allocated_def)
  have "free_entries m (nat (number_of_working_clients (task_set_details g))) = Inr ()"
    using own(5,6) by (intro free_entries_ok) (auto dest: in_set_takeD)
  then show ?thesis
    using assms(1) own by (simp add: set_group_available_def Let_def timer_delete_def available_again_def)
qed

lemma dec_str_length: "n < 10 ^ k \<Longrightarrow> 0 < k \<Longrightarrow> length (dec_str n) \<le> k"
proof (induction k arbitrary: n)
  case (Suc k)
  show ?case
  proof (cases "n < 10")
    case True
    then show ?thesis by (simp add: dec_str.simps [of n])
  next
    case False
    then have "0 < k" using Suc.prems by (cases k) auto
    moreover have "n div 10 < 10 ^ k" using Suc.prems(1) by (simp add: less_mult_imp_div_less mult.commute)
    ultimately show ?thesis using Suc.IH [of "n div 10"] False by (simp add: dec_str.simps [of n])
  qed
qed simp

lemma byte_str_length: "length (dec_str (unat (b :: u8))) \<le> 3"
  by (rule dec_str_length) (use unsigned_less [of b, where ?'a = nat] in simp_all)

lemma inet_ntoa_length: "length (inet_ntoa a) \<le> 15"
  using byte_str_length [of "byte 0 a"] byte_str_length [of "byte 1 a"] byte_str_length [of "byte 2 a"] byte_str_length [of "byte 3 a"]
  by (simp add: inet_ntoa_def)

text \<open>The server when a group's results have arrived and its moderator is free again.\<close>

definition freed :: "server_info \<Rightarrow> ptr \<Rightarrow> mcast_group_node \<Rightarrow> u32 \<Rightarrow> rb_client \<Rightarrow> ptr \<Rightarrow> mcast_client_node \<Rightarrow> thread_args list \<Rightarrow> server_info" where
  "freed s gp g c rb mp md ths = s\<lparr>client_RBT := (client_RBT s)(c \<mapsto> rb\<lparr>rbc_av_status := RBFREE, rbc_is_moderator := False\<rparr>),
     clients := (clients s)(mp \<mapsto> md\<lparr>cl_av_status := CLFREE\<rparr>), timers := (timers s)(timer_id g := None),
     threads := threads s @ ths, groups := (groups s)(gp \<mapsto> available_again g)\<rparr>"

lemma response_frees_group:
  assumes "idv (pdu_msg pdu) = Task_rsp rsp" "calc_key (Some (peer_addr pdu)) = c" "tr_group_name rsp = Some nm"
    "group_of_client s c (Some nm) = Inr (Some gp)" "groups s gp = Some g" "fsm_state g = GROUP_TASK_IN_PROGRESS"
    "task_allocated g" "client_RBT s c = Some rb" "moderator_client g = Some mp" "clients s mp = Some md" "\<not> is_show_metrics s"
    and ths: "\<And>s'. stamp s' = stamp s \<Longrightarrow>
      (if tr_type rsp = TYPE_FILE
       then bindE (get_task_result_folder_path s' (group_name g)) (\<lambda>folder. collect_task_results s' rsp folder c) else Inr s') =
      Inr (s'\<lparr>threads := threads s' @ ths\<rparr>)"
  shows "handle_moderator_task_response s pdu = Some (Inr (freed s gp g c rb mp md ths))"
proof -
  let ?g1 = "g\<lparr>moderator_client := None\<rparr>"
  define s1 where "s1 = s\<lparr>client_RBT := (client_RBT s)(c \<mapsto> rb\<lparr>rbc_av_status := RBFREE, rbc_is_moderator := False\<rparr>),
    clients := (clients s)(mp \<mapsto> md\<lparr>cl_av_status := CLFREE\<rparr>), groups := (groups s)(gp \<mapsto> ?g1)\<rparr>"
  have free: "free_moderator s gp c = Inr s1"
    using assms(5,8-11) by (simp add: free_moderator_def s1_def)
  define s2 where "s2 = (timer_delete s1 (timer_id g))\<lparr>threads := threads s @ ths\<rparr>"
  have s2: "groups s2 gp = Some ?g1" by (simp add: s2_def s1_def timer_delete_def)
  have alloc: "task_allocated ?g1" using assms(7) by (simp add: task_allocated_def)
  have coll: "(if tr_type rsp = TYPE_FILE then bindE (get_task_result_folder_path (timer_delete s1 (timer_id g)) (group_name g))
      (\<lambda>folder. collect_task_results (timer_delete s1 (timer_id g)) rsp folder c) else Inr (timer_delete s1 (timer_id g))) = Inr s2"
    by (subst ths) (simp_all add: s2_def s1_def timer_delete_def)
  have "grp s1 gp = Inr ?g1" "\<not> is_show_metrics (timer_delete s1 t)" for t
    using assms(11) by (simp_all add: s1_def timer_delete_def)
  then have "mcast_handle_task_response s1 gp pdu = set_group_available s2 gp"
    using assms(1,2) coll by (simp add: mcast_handle_task_response_def Let_def split: if_splits)
  moreover have "handle_moderator_task_response s pdu = Some (mcast_handle_task_response s1 gp pdu)"
    using assms(1-4,6) free
    by (simp add: handle_moderator_task_response_def s1_def server_main_fsm_def server_fsm_task_in_progress_def)
  ultimately show ?thesis
    using set_group_available_ok [OF s2 alloc]
    by (simp add: s2_def s1_def timer_delete_def available_again_def freed_def)
qed

text \<open>
  C26: the results of a running task are accepted: the fetching thread gets the names of
  the result files, the moderator is free again, and the group is available, without
  timer and with its task data freed.
\<close>

theorem task_results_free_group:
  assumes "idv (pdu_msg pdu) = Task_rsp rsp" "calc_key (Some (peer_addr pdu)) = c" "tr_group_name rsp = Some nm"
    "group_of_client s c (Some nm) = Inr (Some gp)" "groups s gp = Some g" "fsm_state g = GROUP_TASK_IN_PROGRESS"
    "task_allocated g" "client_RBT s c = Some rb" "moderator_client g = Some mp" "clients s mp = Some md"
    "\<not> is_show_metrics s" "tr_type rsp = TYPE_FILE" "length nm < 60" "length (group_name g) < 60" "length (stamp s) < 50"
    "tr_result rsp = map Some fs" "unat (tr_num_clients rsp) = length fs" 
  shows "\<exists>s' g'. handle_moderator_task_response s pdu = Some (Inr s') \<and> groups s' gp = Some g' \<and>
    fsm_state g' = STATE_NONE \<and> moderator_client g' = None \<and> timers s' (timer_id g) = None \<and> timer_id g' = 0 \<and>
    task_set_filename g' = Freed \<and> ts_capability (task_set_details g') = Freed \<and> client_info g' = client_info g \<and>
    client_RBT s' c = Some (rb\<lparr>rbc_av_status := RBFREE, rbc_is_moderator := False\<rparr>) \<and>
    clients s' mp = Some (md\<lparr>cl_av_status := CLFREE\<rparr>) \<and>
    threads s' = threads s @ [\<lparr>ta_file_count = length fs, ta_task_filename = map basename fs,
      source_folder = inet_ntoa c @ '':/tmp/client/moderator/'' @ nm,
      dest_folder = ''/tmp/server/task_result/'' @ group_name g @ ''/'' @ stamp s\<rparr>]"
proof -
  define dest where "dest = ''/tmp/server/task_result/'' @ group_name g @ ''/'' @ stamp s"
  define ths where "ths = [\<lparr>ta_file_count = length fs, ta_task_filename = map basename fs,
      source_folder = inet_ntoa c @ '':/tmp/client/moderator/'' @ nm, dest_folder = dest\<rparr>]"
  have "collect_task_results s' rsp dest c = Inr (s'\<lparr>threads := threads s' @ ths\<rparr>)" for s'
    using assms(3,13,16,17) inet_ntoa_length [of c] by (simp add: collect_task_results_def ths_def comp_def)
  moreover have "get_task_result_folder_path s' (group_name g) = Inr dest" if "stamp s' = stamp s" for s'
    using assms(14,15) that by (simp add: get_task_result_folder_path_def dest_def)
  ultimately show ?thesis
    using response_frees_group [OF assms(1-11), of ths] assms(12) unfolding ths_def dest_def
    by (simp add: freed_def available_again_def)
qed

text \<open>A running task of one client, the moderator.\<close>

definition demo_busy_group :: mcast_group_node where
  "demo_busy_group = demo_group\<lparr>task_set_filename := Own ''t'', fsm_state := GROUP_TASK_IN_PROGRESS, task_type := 1,
     client_info := Some [7], moderator_client := Some 7, timer_id := 1,
     task_set_details := \<lparr>distribution_map = Own [\<lparr>working_clients = 5, task_filename = [''5_.txt''], file_count = 1\<rparr>],
       ts_capability = Own [Some 1], task_folder_path = Own ''/tmp/server/task_set/G1'', number_of_working_clients = 1,
       num_of_responses_expected = 1\<rparr>\<rparr>"

definition demo_busy :: server_info where
  "demo_busy = demo_server\<lparr>groups := [1 \<mapsto> demo_busy_group], clients := [7 \<mapsto> \<lparr>client_id = 5, client_addr = demo_addr, cl_av_status = CLBUSY\<rparr>],
     client_RBT := [5 \<mapsto> \<lparr>rbc_capability = 1, rbc_grp_list = [1], rbc_av_status = RBBUSY, rbc_is_moderator = True\<rparr>],
     timers := [1 \<mapsto> \<lparr>kt_signal = MOD_RSP_TIMEOUT, kt_sival = 1, kt_interval = 3, kt_recurring = True\<rparr>], next_timer := 2\<rparr>"

definition demo_results :: pdu_t where
  "demo_results = \<lparr>peer_addr = demo_addr, pdu_msg = \<lparr>msg_id = task_response, idv = Task_rsp
     \<lparr>tr_group_name = Some ''G1'', tr_task_id = 1, tr_type = TYPE_FILE, tr_num_clients = 1, tr_client_ids = [5],
      tr_result = map Some [''/tmp/r.txt''], tr_final_resp = None\<rparr>\<rparr>\<rparr>"

theorem task_results_free_group_witness:
  "\<exists>s' g'. handle_moderator_task_response demo_busy demo_results = Some (Inr s') \<and> groups s' 1 = Some g' \<and>
     fsm_state g' = STATE_NONE \<and> timers s' 1 = None"
proof -
  have s: "groups demo_busy 1 = Some demo_busy_group" "fsm_state demo_busy_group = GROUP_TASK_IN_PROGRESS"
    "group_name demo_busy_group = ''G1''" "timer_id demo_busy_group = 1" "moderator_client demo_busy_group = Some 7"
    "client_RBT demo_busy 5 = Some \<lparr>rbc_capability = 1, rbc_grp_list = [1], rbc_av_status = RBBUSY, rbc_is_moderator = True\<rparr>"
    "clients demo_busy 7 = Some \<lparr>client_id = 5, client_addr = demo_addr, cl_av_status = CLBUSY\<rparr>"
    "\<not> is_show_metrics demo_busy" "stamp demo_busy = []"
    by (simp_all add: demo_busy_def demo_busy_group_def demo_server_def demo_group_def)
  have alloc: "task_allocated demo_busy_group"
    by (simp add: task_allocated_def demo_busy_group_def)
  have rsp: "idv (pdu_msg demo_results) = Task_rsp \<lparr>tr_group_name = Some ''G1'', tr_task_id = 1, tr_type = TYPE_FILE,
      tr_num_clients = 1, tr_client_ids = [5], tr_result = map Some [''/tmp/r.txt''], tr_final_resp = None\<rparr>"
    "calc_key (Some (peer_addr demo_results)) = 5"
    by (simp_all add: demo_results_def)
  have grp: "group_of_client demo_busy 5 (Some ''G1'') = Inr (Some 1)"
    using s(1,3,6) by (simp add: group_of_client_def strcmp_eq_def)
  have "\<exists>s' g'. handle_moderator_task_response demo_busy demo_results = Some (Inr s') \<and> groups s' 1 = Some g' \<and>
     fsm_state g' = STATE_NONE \<and> timers s' (timer_id demo_busy_group) = None"
    using task_results_free_group [OF rsp _ grp s(1,2) alloc s(6,5,7,8), of "[''/tmp/r.txt'']"] s(3,9)
    by simp (elim exE conjE, intro exI conjI)
  then show ?thesis by (simp add: s(4))
qed


section \<open>Nobody answers\<close>

definition first_of :: "ptr list \<Rightarrow> ptr option" where
  "first_of ys = (case ys of [] \<Rightarrow> None | y # _ \<Rightarrow> Some y)"

lemma next_in_split: "distinct (xs @ c # ys) \<Longrightarrow> next_in (xs @ c # ys) c = first_of ys"
  by (induction xs) (auto simp: first_of_def split: list.split)

text \<open>The free clients among the rest of the list are asked.\<close>

fun asked :: "server_info \<Rightarrow> ptr list \<Rightarrow> ptr list" where
  "asked s [] = []"
| "asked s (c # cs) = (case clients s c of
     Some n \<Rightarrow> if cl_av_status n = CLFREE then c # asked s cs else asked s cs
   | None \<Rightarrow> asked s cs)"

definition echo_to :: "server_info \<Rightarrow> string \<Rightarrow> ptr \<Rightarrow> sockaddr \<times> comm_struct_t" where
  "echo_to s nm c = (client_addr (the (clients s c)),
     \<lparr>msg_id = echo_req, idv = Echo_req (initialize_echo_request\<lparr>eq_group_name := Some nm\<rparr>)\<rparr>)"

lemma selection_loop_all:
  assumes "distinct (xs @ ys)" "\<forall>c\<in>set ys. clients s c \<noteq> None" "length nm < max_gname_len" "n \<le> length ys"
  shows "selection_loop s nm (xs @ ys) n (first_of ys) =
    Inr (s\<lparr>outbox := outbox s @ map (echo_to s nm) (asked s (take n ys))\<rparr>, first_of (drop n ys))"
  using assms
proof (induction n arbitrary: s xs ys)
  case 0
  then show ?case by simp
next
  case (Suc n)
  then obtain c cs where ys: "ys = c # cs" by (cases ys) auto
  obtain nd where nd: "clients s c = Some nd" using Suc.prems(2) ys by auto
  let ?s = "if cl_av_status nd = CLFREE then s\<lparr>outbox := outbox s @ [echo_to s nm c]\<rparr> else s"
  have step: "bindE (if cl_av_status nd = CLFREE then send_echo_request s (client_addr nd) nm else Inr s) f = f ?s" for f :: "server_info \<Rightarrow> (server_info \<times> ptr option) result"
    using nd Suc.prems(3) by (simp add: send_echo_request_def copy_gname_def send_def echo_to_def)
  have asked: "asked ?s l = asked s l" "map (echo_to ?s nm) l = map (echo_to s nm) l" for l
    by (induction l) (auto simp: echo_to_def split: option.split)
  have "selection_loop ?s nm ((xs @ [c]) @ cs) n (first_of cs) =
    Inr (?s\<lparr>outbox := outbox ?s @ map (echo_to ?s nm) (asked ?s (take n cs))\<rparr>, first_of (drop n cs))"
    by (rule Suc.IH) (use Suc.prems ys in auto)
  then show ?case
    using nd ys Suc.prems(1) next_in_split [of xs c cs] unfolding asked
    by (simp add: first_of_def [of "c # cs"] step)
qed

lemma moderator_selection_run:
  assumes "groups s gp = Some g" "client_info g = Some l" "distinct l" "moderator_client g = None"
    "\<forall>c\<in>set l. clients s c \<noteq> None" "length (group_name g) < max_gname_len"
  shows "moderator_selection s gp =
    (let s2 = s\<lparr>outbox := outbox s @ map (echo_to s (group_name g)) (asked s (take 3 l)),
                groups := (groups s)(gp \<mapsto> g\<lparr>moderator_client := first_of (drop 3 l)\<rparr>)\<rparr>
     in case first_of (drop 3 l) of
          Some _ \<Rightarrow> start_oneshot_timer s2 gp DEFAULT_TIMEOUT MOD_SEL_TIMEOUT
        | None \<Rightarrow>
            bindE (upd_grp s2 gp (\<lambda>g. g\<lparr>group_reachability_index := group_reachability_index g - 1\<rparr>)) (\<lambda>s3.
            bindE (grp s3 gp) (\<lambda>g3.
            if group_reachability_index g3 = 0 then set_group_available s3 gp
            else start_oneshot_timer s3 gp DEFAULT_TIMEOUT MOD_SEL_TIMEOUT)))"
proof -
  let ?n = "if length l < 3 then length l else 3"
  have head: "(case l of [] \<Rightarrow> None | c # _ \<Rightarrow> Some c) = first_of l"
    by (simp add: first_of_def)
  have n: "?n \<le> length l" "take ?n l = take 3 l" "drop ?n l = drop 3 l" by auto
  show ?thesis
    using selection_loop_all [of "[]" l s "group_name g" ?n] assms n
    by (simp add: moderator_selection_def Let_def head split del: if_split)
qed

text \<open>
  C29: selection asks the free clients among the first three of the group and remembers
  the fourth as the one to go on with; unless the end of the list is reached for the
  second time in a row, it starts the one-shot timer that tries again.
\<close>

theorem moderator_selection_asks:
  assumes "groups s gp = Some g" "client_info g = Some l" "distinct l" "moderator_client g = None" "timer_id g = 0"
    "\<forall>c\<in>set l. clients s c \<noteq> None" "length (group_name g) < max_gname_len"
    "length l \<le> 3 \<longrightarrow> group_reachability_index g \<noteq> 1"
  shows "\<exists>s' g'. moderator_selection s gp = Inr s' \<and> groups s' gp = Some g' \<and>
    outbox s' = outbox s @ map (echo_to s (group_name g)) (asked s (take 3 l)) \<and>
    moderator_client g' = (if length l \<le> 3 then None else Some (l ! 3)) \<and>
    group_reachability_index g' = (if length l \<le> 3 then group_reachability_index g - 1 else group_reachability_index g) \<and>
    timer_id g' = next_timer s \<and> timers s' (next_timer s) =
      Some \<lparr>kt_signal = MOD_SEL_TIMEOUT, kt_sival = gp, kt_interval = DEFAULT_TIMEOUT, kt_recurring = False\<rparr>"
proof (cases "length l \<le> 3")
  case True
  then have "group_reachability_index g - 1 \<noteq> 0" using assms(8) by auto
  then show ?thesis
    using True assms(1,5) moderator_selection_run [OF assms(1-4,6,7)]
    by (simp add: first_of_def start_oneshot_timer_def start_timer_def)
next
  case False
  then have "drop 3 l = l ! 3 # drop 4 l" by (simp add: Cons_nth_drop_Suc [symmetric] numeral_eq_Suc)
  then show ?thesis
    using False assms(1,5) moderator_selection_run [OF assms(1-4,6,7)]
    by (simp add: first_of_def start_oneshot_timer_def start_timer_def)
qed

text \<open>
  When no client of a group with at most three answers for the second time, the group
  is given up by freeing its task data, which was never allocated or already freed: the
  server is left with undefined behaviour.
\<close>

theorem unanswered_selection_faults:
  assumes "groups s gp = Some g" "client_info g = Some l" "distinct l" "length l \<le> 3" "moderator_client g = None"
    "\<forall>c\<in>set l. clients s c \<noteq> None" "length (group_name g) < max_gname_len" "group_reachability_index g = 1"
    "task_set_filename g = Own f" "ts_capability (task_set_details g) = p" "p = Unset \<or> p = Freed"
  shows "moderator_selection s gp = Inl (if p = Unset then Uninit else DoubleFree)"
  using assms(1,4,8-11) moderator_selection_run [OF assms(1-3,5-7)]
  by (auto simp: first_of_def set_group_available_def)

definition demo_waiting_group :: mcast_group_node where
  "demo_waiting_group = demo_group\<lparr>client_info := Some [7], fsm_state := MODERATOR_SELECTION_PENDING, task_set_filename := Own ''t''\<rparr>"

definition demo_waiting :: "u8 \<Rightarrow> server_info" where
  "demo_waiting r = demo_server\<lparr>groups := [1 \<mapsto> demo_waiting_group\<lparr>group_reachability_index := r\<rparr>],
     clients := [7 \<mapsto> \<lparr>client_id = 5, client_addr = demo_addr, cl_av_status = CLFREE\<rparr>]\<rparr>"

lemma demo_waiting_simps:
  "groups (demo_waiting r) 1 = Some (demo_waiting_group\<lparr>group_reachability_index := r\<rparr>)"
  "clients (demo_waiting r) 7 = Some \<lparr>client_id = 5, client_addr = demo_addr, cl_av_status = CLFREE\<rparr>"
  "client_info demo_waiting_group = Some [7]" "moderator_client demo_waiting_group = None" "timer_id demo_waiting_group = 0"
  "group_name demo_waiting_group = ''G1''" "task_set_filename demo_waiting_group = Own ''t''"
  "ts_capability (task_set_details demo_waiting_group) = Unset"
  by (simp_all add: demo_waiting_def demo_waiting_group_def demo_group_def new_group_def blank_task_set_def)

lemma moderator_selection_asks_witness:
  "\<exists>s'. moderator_selection (demo_waiting 2) 1 = Inr s' \<and>
     outbox s' = outbox (demo_waiting 2) @ [echo_to (demo_waiting 2) ''G1'' 7]"
  using moderator_selection_asks [of "demo_waiting 2" 1 "demo_waiting_group\<lparr>group_reachability_index := 2\<rparr>" "[7]"]
  by (simp add: demo_waiting_simps del: One_nat_def) blast

lemma unanswered_selection_faults_witness:
  "moderator_selection (demo_waiting 1) 1 = Inl Uninit"
  using unanswered_selection_faults [of "demo_waiting 1" 1 "demo_waiting_group\<lparr>group_reachability_index := 1\<rparr>" "[7]" "''t''" Unset]
  by (simp add: demo_waiting_simps del: One_nat_def)

section \<open>Handing over the files of dead clients\<close>

text \<open>
  The fuel of \<open>pick_client\<close> does not matter beyond a full round: \<open>r\<close> steps from \<open>index\<close> the
  search is back at \<open>start\<close>, where it ends.
\<close>

lemma pick_client_round:
  "(index + r) mod n = start \<Longrightarrow> 0 < r \<Longrightarrow> r \<le> f \<Longrightarrow> r \<le> f' \<Longrightarrow>
   pick_client m md n start index f = pick_client m md n start index f'"
proof (induction r arbitrary: index f f')
  case (Suc r)
  obtain f0 f0' where f: "f = Suc f0" "f' = Suc f0'" using Suc.prems(3,4) by (cases f; cases f') auto
  have nxt: "pick_client m md n start ((index + 1) mod n) f0 = pick_client m md n start ((index + 1) mod n) f0'"
    if "(index + 1) mod n \<noteq> start"
  proof (rule Suc.IH)
    show "((index + 1) mod n + r) mod n = start" using Suc.prems(1) by (simp add: mod_add_left_eq)
    show "0 < r" using that Suc.prems(1) by (cases r) auto
  qed (use Suc.prems f in auto)
  show ?case unfolding f using nxt by (cases "at m index") (auto simp: Let_def)
qed simp

lemma pick_client_enough:
  assumes "start < n" "n < f"
  shows "pick_client m md n start start f = pick_client m md n start start (n + 1)"
  by (rule pick_client_round [of _ n]) (use assms in auto)

lemma pick_client_first:
  assumes "j < n" "n \<le> length m" "\<forall>i<j. working_clients (m ! i) = md" "working_clients (m ! j) \<noteq> md"
    "i \<le> j" "j - i < fuel"
  shows "pick_client m md n 0 i fuel = Inr (j, Some (working_clients (m ! j)))"
  using assms(5,6)
proof (induction fuel arbitrary: i)
  case (Suc fuel)
  show ?case
  proof (cases "i = j")
    case True
    then show ?thesis using assms by simp
  next
    case False
    then show ?thesis using Suc assms by simp
  qed
qed simp

lemma pick_clients_same:
  assumes "j < length m" "working_clients (m ! j) \<noteq> md"
  shows "pick_clients m md n j k = Inr (replicate k (working_clients (m ! j)))"
proof (induction k)
  case (Suc k)
  have "at m 0 = Inr (m ! 0)" using assms(1) by (cases m) auto
  with Suc assms show ?case by simp
qed simp

lemma hand_over_first:
  assumes "i + k \<le> length m" "i + k \<le> length dfs"
  shows "\<exists>m'. hand_over m dfs i k = Inr (m', map Some (take k (drop i dfs))) \<and> length m' = length m \<and>
    (\<forall>j<length m. m' ! j = (if i \<le> j \<and> j < i + k
      then (m ! j)\<lparr>task_filename := take (file_count (m ! j)) (task_filename (m ! j)) @ [dfs ! j], file_count := file_count (m ! j) + 1\<rparr>
      else m ! j))"
  using assms
proof (induction k arbitrary: m i)
  case (Suc k)
  let ?t = "(m ! i)\<lparr>task_filename := take (file_count (m ! i)) (task_filename (m ! i)) @ [dfs ! i], file_count := file_count (m ! i) + 1\<rparr>"
  obtain m' where m': "hand_over (m[i := ?t]) dfs (i + 1) k = Inr (m', map Some (take k (drop (i + 1) dfs)))" "length m' = length m"
    "\<forall>j<length m. m' ! j = (if i + 1 \<le> j \<and> j < i + 1 + k
      then (m[i := ?t] ! j)\<lparr>task_filename := take (file_count (m[i := ?t] ! j)) (task_filename (m[i := ?t] ! j)) @ [dfs ! j],
        file_count := file_count (m[i := ?t] ! j) + 1\<rparr> else m[i := ?t] ! j)"
    using Suc.IH [of "i + 1" "m[i := ?t]"] Suc.prems by auto
  have dr: "drop i dfs = dfs ! i # drop (i + 1) dfs" using Suc.prems by (simp add: Cons_nth_drop_Suc)
  have "m' ! j = (if i \<le> j \<and> j < i + Suc k then (m ! j)\<lparr>task_filename := take (file_count (m ! j)) (task_filename (m ! j)) @ [dfs ! j],
        file_count := file_count (m ! j) + 1\<rparr> else m ! j)" if "j < length m" for j
    using m'(3) that by (cases "j = i") auto
  with m'(1,2) Suc.prems show ?case by (simp add: dr)
qed simp

text \<open>
  The request that replaces dead clients gives all their files to one client, the
  first in the map that is not the moderator, while the map records the files one each
  for its first entries.
\<close>

theorem retransmit_all_to_one:
  assumes "groups s gp = Some g" "dead_client_count (dead_clients_info g) = int k" "0 < k"
    "dead_clients_file (dead_clients_info g) = Own dfs" "length dfs = k" "dead_clients (dead_clients_info g) = Own dcs"
    "distribution_map (task_set_details g) = Own m" "number_of_working_clients (task_set_details g) = int n"
    "k \<le> n" "n \<le> length m" "task_folder_path (task_set_details g) = Own d"
    "moderator_client g = Some mp" "clients s mp = Some md" "j < n"
    "\<forall>i<j. working_clients (m ! i) = client_id md" "working_clients (m ! j) \<noteq> client_id md"
  shows "\<exists>s' g' m'. retransmit_task_req_for_client s gp = Inr s' \<and>
    outbox s' = outbox s @ [(of_in (grp_mcast_addr g), \<lparr>msg_id = perform_task_req, idv = Perform_task_req
      \<lparr>pt_group_name = Some (group_name g), pt_task_id = task_id s, pt_client_id_count = of_nat k,
       pt_client_ids = replicate k (working_clients (m ! j)), pt_task_filename = map Some dfs,
       pt_task_folder_path = Some d, pt_task_type = task_type g, pt_task_reassigned = 1\<rparr>\<rparr>)] \<and>
    groups s' gp = Some g' \<and> dead_client_count (dead_clients_info g') = 0 \<and>
    distribution_map (task_set_details g') = Own m' \<and> length m' = length m \<and>
    (\<forall>i<length m. file_count (m' ! i) = (if i < k then file_count (m ! i) + 1 else file_count (m ! i)) \<and>
       working_clients (m' ! i) = working_clients (m ! i) \<and>
       task_filename (m' ! i) = (if i < k then take (file_count (m ! i)) (task_filename (m ! i)) @ [dfs ! i] else task_filename (m ! i)))"
proof -
  obtain k' where k': "k = Suc k'" using assms(3) by (cases k) auto
  have pick: "pick_clients m (client_id md) n 0 k = Inr (replicate k (working_clients (m ! j)))"
    using pick_client_first [OF assms(14,10,15,16), of 0 "n + 1"] pick_clients_same [of j m "client_id md" n k'] assms(10,14,16)
    by (cases m) (auto simp: k')
  obtain m' where m': "hand_over m dfs 0 k = Inr (m', map Some dfs)" "length m' = length m"
    "\<forall>i<length m. m' ! i = (if i < k
      then (m ! i)\<lparr>task_filename := take (file_count (m ! i)) (task_filename (m ! i)) @ [dfs ! i], file_count := file_count (m ! i) + 1\<rparr>
      else m ! i)"
    using hand_over_first [of 0 k m dfs] assms(5,9,10) by auto
  show ?thesis
    using assms(1-4,6-8,11-13) pick m' by (simp add: retransmit_task_req_for_client_def Let_def send_def)
qed

definition demo_dead_group :: mcast_group_node where
  "demo_dead_group = demo_busy_group\<lparr>task_set_details := (task_set_details demo_busy_group)\<lparr>distribution_map :=
       Own [\<lparr>working_clients = 5, task_filename = [''5_.txt''], file_count = 1\<rparr>, \<lparr>working_clients = 6, task_filename = [''6_.txt''], file_count = 1\<rparr>],
       number_of_working_clients := 2\<rparr>,
     dead_clients_info := \<lparr>dead_clients = Own [8], dead_client_count = 1, dead_clients_file = Own [''8_.txt''], dead_file_count = 0\<rparr>\<rparr>"

lemma retransmit_all_to_one_witness:
  "\<exists>s'. retransmit_task_req_for_client (demo_busy\<lparr>groups := [1 \<mapsto> demo_dead_group]\<rparr>) 1 = Inr s' \<and>
     outbox s' = outbox demo_busy @ [(of_in (grp_mcast_addr demo_group), \<lparr>msg_id = perform_task_req, idv = Perform_task_req
      \<lparr>pt_group_name = Some ''G1'', pt_task_id = task_id demo_busy, pt_client_id_count = 1,
       pt_client_ids = [6], pt_task_filename = [Some ''8_.txt''],
       pt_task_folder_path = Some ''/tmp/server/task_set/G1'', pt_task_type = 1, pt_task_reassigned = 1\<rparr>\<rparr>)]"
proof -
  let ?s = "demo_busy\<lparr>groups := [1 \<mapsto> demo_dead_group]\<rparr>"
  let ?m = "[\<lparr>working_clients = 5, task_filename = [''5_.txt''], file_count = 1\<rparr>, \<lparr>working_clients = 6, task_filename = [''6_.txt''], file_count = 1\<rparr>]"
  have g: "groups ?s 1 = Some demo_dead_group" "moderator_client demo_dead_group = Some 7"
    "clients demo_busy 7 = Some \<lparr>client_id = 5, client_addr = demo_addr, cl_av_status = CLBUSY\<rparr>"
    "dead_clients_info demo_dead_group = \<lparr>dead_clients = Own [8], dead_client_count = 1, dead_clients_file = Own [''8_.txt''], dead_file_count = 0\<rparr>"
    "distribution_map (task_set_details demo_dead_group) = Own ?m" "number_of_working_clients (task_set_details demo_dead_group) = 2"
    "task_folder_path (task_set_details demo_dead_group) = Own ''/tmp/server/task_set/G1''" "grp_mcast_addr demo_dead_group = grp_mcast_addr demo_group"
    "group_name demo_dead_group = ''G1''" "task_type demo_dead_group = 1"
    by (simp_all add: demo_busy_def demo_dead_group_def demo_busy_group_def demo_group_def)
  have one: "replicate 1 x = [x]" for x :: u32 by simp
  show ?thesis
    using retransmit_all_to_one [OF g(1), where k = 1 and dfs = "[''8_.txt'']" and dcs = "[8]" and m = ?m and n = 2 and mp = 7
        and md = "\<lparr>client_id = 5, client_addr = demo_addr, cl_av_status = CLBUSY\<rparr>" and d = "''/tmp/server/task_set/G1''" and j = 1]
    by (simp add: g(2-) one del: One_nat_def) (elim exE conjE, intro exI conjI)
qed

section \<open>The moderator dies\<close>

lemma find_worker_first:
  assumes "i + k \<le> length m" "i \<le> j" "j < i + k" "working_clients (m ! j) = cid" "\<forall>x<j. working_clients (m ! x) \<noteq> cid"
  shows "find_worker m cid i k = Inr j"
  using assms
proof (induction k arbitrary: i)
  case (Suc k)
  then show ?case by (cases "i = j") auto
qed simp

lemma mark_loop_short_array:
  assumes "2 \<le> n" "n \<le> length m" "1 < dc" "working_clients (m ! 0) \<noteq> working_clients (m ! 1)"
  shows "mark_loop m n [cid] dc 0 = Inl OutOfBounds"
proof -
  obtain a xs where a: "m = a # xs" using assms(1,2) by (cases m) auto
  obtain b rest where m: "xs = b # rest" using assms(1,2) a by (cases xs) auto
  have k: "n = Suc (Suc (n - 2))" and d: "dc = Suc (Suc (dc - 2))" using assms(1,3) by simp_all
  show ?thesis using assms(4) by (subst k, subst d) (auto simp: a m)
qed

text \<open>
  C30: when the moderator of a task dies that holds two or more files (it took over those
  of a dead client), the signal handler reads past the one-element array of dead clients.
\<close>

theorem moderator_lost_with_two_files:
  assumes "get_group_node_by_timerid s p None = Inr (Some gp)" "groups s gp = Some g" "fsm_state g = GROUP_TASK_IN_PROGRESS"
    "heartbeat_remaining g = 0" "moderator_client g = Some mp" "clients s mp = Some md" "client_RBT s (client_id md) = Some rb"
    "distribution_map (task_set_details g) = Own m" "number_of_working_clients (task_set_details g) = int n"
    "2 \<le> n" "n \<le> length m" "distinct (map working_clients m)"
    "j < n" "working_clients (m ! j) = client_id md" "2 \<le> file_count (m ! j)" "file_count (m ! j) \<le> length (task_filename (m ! j))"
  shows "handle_timeout_real s False MOD_RSP_TIMEOUT p = Inl OutOfBounds"
proof -
  have other: "\<forall>x<j. working_clients (m ! x) \<noteq> client_id md"
  proof (intro allI impI notI)
    fix x assume "x < j" "working_clients (m ! x) = client_id md"
    then show False using assms(11,13,14) nth_eq_iff_index_eq [OF assms(12), of x j] by simp
  qed
  have find: "find_worker m (client_id md) 0 n = Inr j"
    by (rule find_worker_first) (use assms(11,13,14) other in auto)
  have two: "0 < length m" "1 < length m" using assms(10,11) by linarith+
  then have "working_clients (m ! 0) \<noteq> working_clients (m ! 1)"
    using nth_eq_iff_index_eq [OF assms(12), of 0 1] by simp
  then have mark: "mark_dead_clients_in_group m (int n) [client_id md] (int (file_count (m ! j))) = Inl OutOfBounds"
    using mark_loop_short_array [of n m "file_count (m ! j)"] assms(10,11,15) by (simp add: mark_dead_clients_in_group_def)
  show ?thesis
    using assms(1-9,11,13,16) find mark
    by (simp add: handle_timeout_real_def remember_dead_def timer_delete_def)
qed

definition demo_lost_group :: mcast_group_node where
  "demo_lost_group = demo_busy_group\<lparr>heartbeat_remaining := 0,
     task_set_details := (task_set_details demo_busy_group)\<lparr>distribution_map :=
       Own [\<lparr>working_clients = 5, task_filename = [''5_.txt'', ''8_.txt''], file_count = 2\<rparr>,
            \<lparr>working_clients = 6, task_filename = [''6_.txt''], file_count = 1\<rparr>],
       number_of_working_clients := 2\<rparr>\<rparr>"

lemma moderator_lost_with_two_files_witness:
  "handle_timeout_real (demo_busy\<lparr>groups := [1 \<mapsto> demo_lost_group]\<rparr>) False MOD_RSP_TIMEOUT 1 = Inl OutOfBounds"
proof -
  let ?s = "demo_busy\<lparr>groups := [1 \<mapsto> demo_lost_group]\<rparr>"
  let ?m = "[\<lparr>working_clients = 5, task_filename = [''5_.txt'', ''8_.txt''], file_count = 2\<rparr>,
            \<lparr>working_clients = 6, task_filename = [''6_.txt''], file_count = 1\<rparr>]"
  have g: "groups ?s 1 = Some demo_lost_group" "get_group_node_by_timerid ?s 1 None = Inr (Some 1)"
    "fsm_state demo_lost_group = GROUP_TASK_IN_PROGRESS" "heartbeat_remaining demo_lost_group = 0"
    "moderator_client demo_lost_group = Some 7" "clients ?s 7 = Some \<lparr>client_id = 5, client_addr = demo_addr, cl_av_status = CLBUSY\<rparr>"
    "client_RBT demo_busy 5 = Some \<lparr>rbc_capability = 1, rbc_grp_list = [1], rbc_av_status = RBBUSY, rbc_is_moderator = True\<rparr>"
    "distribution_map (task_set_details demo_lost_group) = Own ?m" "number_of_working_clients (task_set_details demo_lost_group) = int 2"
    by (simp_all add: demo_busy_def demo_lost_group_def demo_busy_group_def demo_server_def get_group_node_by_timerid_def)
  show ?thesis
    by (rule moderator_lost_with_two_files [OF g(2,1,3-6) _ g(8,9), where j = 0]) (simp_all add: g(7) del: One_nat_def)
qed

end
