(* ===== verification/TaskCycle.thy ===== *)
theory TaskCycle
  imports TaskStart ServerProps
begin

text \<open>
  A task on the server from the moderator's notification to its answer: the two handlers
  \<open>handle_moderator_notify_response\<close> and \<open>handle_moderator_task_response\<close> of
  \<open>src/src/server.c\<close>, one after the other.
\<close>

lemma search_rb_grp_node_started [simp]:
  "groups s gp = Some g \<Longrightarrow> search_rb_grp_node (started s gp g ids m fs) ps nm = search_rb_grp_node s ps nm"
  by (induction ps) (auto simp: grp_def deref_def split: option.split)

lemma group_of_client_started [simp]:
  "groups s gp = Some g \<Longrightarrow> group_of_client (started s gp g ids m fs) c nm = group_of_client s c nm"
  by (cases nm) (simp_all add: group_of_client_def split: option.split)

lemma task_allocated_started:
  "task_set_filename g = Own f \<Longrightarrow> task_allocated (started_group s g ids (task_entries s ids))"
  by (auto simp: task_allocated_def started_group_def task_entries_def)

lemma notified_starts:
  assumes "idv (pdu_msg pdu) = Moderator_notify_rsp rsp" "group_of_client s (nr_moderator_id rsp) (nr_group_name rsp) = Inr (Some gp)"
    "groups s gp = Some g" "fsm_state g = MODERATOR_SELECTED"
  shows "handle_moderator_notify_response s pdu = Some (mcast_start_task_distribution s gp pdu)"
  using assms by (simp add: handle_moderator_notify_response_def server_main_fsm_def server_fsm_mod_selected_def)

text \<open>
  C25: a task from start to end: the notification of the selected moderator starts it, with
  the moderator's timer running; the moderator's answer ends it, and the server is as it was,
  but that the moderator is free, the group has no moderator, task data or task any more,
  and the task counter has moved on.
\<close>

theorem task_starts_and_ends:
  assumes "groups s gp = Some g" "timer_id g = 0" "task_set_filename g = Own fname" "files s fname = Some src"
    "task_set_format g = 0" "last src = 10" "length src < 2 ^ 31" "length (group_name g) < 79"
    "idv (pdu_msg pdu) = Moderator_notify_rsp rsp" "nr_client_ids rsp = ids" "nr_client_id_count rsp = of_nat (length ids)"
    "ids \<noteq> []" "distinct ids" "length ids < newlines src" "\<forall>c\<in>set ids. client_RBT s c \<noteq> None"
    "sum_list (map (unat \<circ> cap_of s) ids) * newlines src < 2 ^ 32"
    "\<forall>i<length ids. 0 < share (map (cap_of s) ids) (newlines src) i"
    "nr_moderator_id rsp = c" "nr_group_name rsp = Some nm" "group_of_client s c (Some nm) = Inr (Some gp)"
    "fsm_state g = MODERATOR_SELECTED" "moderator_client g = Some mp" "clients s mp = Some md" "client_RBT s c = Some rb"
    "\<not> is_show_metrics s" "timers s (next_timer s) = None"
    "idv (pdu_msg ans) = Task_rsp t" "tr_type t = TYPE_LONG" "tr_group_name t = Some nm" "calc_key (Some (peer_addr ans)) = c"
  shows "\<exists>s1 s2 g2. handle_moderator_notify_response s pdu = Some (Inr s1) \<and>
    timers s1 (next_timer s) = Some \<lparr>kt_signal = MOD_RSP_TIMEOUT, kt_sival = gp, kt_interval = DEFAULT_TIMEOUT, kt_recurring = True\<rparr> \<and>
    handle_moderator_task_response s1 ans = Some (Inr s2) \<and> timers s2 = timers s \<and> threads s2 = threads s \<and>
    outbox s2 = outbox s1 \<and> task_id s2 = task_id s + 1 \<and> server_list s2 = server_list s \<and>
    clients s2 = (clients s)(mp \<mapsto> md\<lparr>cl_av_status := CLFREE\<rparr>) \<and>
    client_RBT s2 = (client_RBT s)(c \<mapsto> rb\<lparr>rbc_av_status := RBFREE, rbc_is_moderator := False\<rparr>) \<and>
    groups s2 = (groups s)(gp \<mapsto> g2) \<and> group_name g2 = group_name g \<and> client_info g2 = client_info g \<and>
    fsm_state g2 = STATE_NONE \<and> timer_id g2 = 0 \<and> moderator_client g2 = None \<and> task_type g2 = 0 \<and>
    task_set_filename g2 = Freed \<and> distribution_map (task_set_details g2) = Freed"
proof -
  obtain fs where run: "mcast_start_task_distribution s gp pdu = Inr (started s gp g ids (task_entries s ids) fs)"
    by (rule task_distribution_run [OF assms(1-17)])
  define s1 where "s1 = started s gp g ids (task_entries s ids) fs"
  define g1 where "g1 = started_group s g ids (task_entries s ids)"
  have g1: "groups s1 gp = Some g1" "fsm_state g1 = GROUP_TASK_IN_PROGRESS" "moderator_client g1 = Some mp"
    and s1: "client_RBT s1 c = Some rb" "clients s1 mp = Some md" "\<not> is_show_metrics s1" "group_of_client s1 c (Some nm) = Inr (Some gp)"
    using assms(1,20,22-25) by (simp_all add: s1_def g1_def)
  have start: "handle_moderator_notify_response s pdu = Some (Inr s1)"
    using notified_starts [OF assms(9) _ assms(1,21)] assms(18-20) run by (simp add: s1_def)
  have ended: "handle_moderator_task_response s1 ans = Some (Inr (freed s1 gp g1 c rb mp md []))"
    by (rule response_frees_group [OF assms(27,30,29) s1(4) g1(1,2) _ s1(1) g1(3) s1(2,3)])
      (use assms(3,28) in \<open>simp_all add: g1_def task_allocated_started\<close>)
  have "(timers s)(next_timer s := None) = timers s" using assms(26) by (simp add: fun_upd_idem)
  then show ?thesis
    by (intro exI [of _ s1] exI [of _ "freed s1 gp g1 c rb mp md []"] exI [of _ "available_again g1"])
      (use start ended in \<open>simp_all add: freed_def available_again_def s1_def g1_def started_def started_group_def\<close>)
qed


text \<open>The group of the example above with a selected moderator.\<close>

definition demo_cycle_group :: mcast_group_node where
  "demo_cycle_group = demo_start_group\<lparr>moderator_client := Some 7\<rparr>"

definition demo_cycle :: server_info where
  "demo_cycle = demo_start\<lparr>groups := [1 \<mapsto> demo_cycle_group],
     clients := [7 \<mapsto> \<lparr>client_id = 5, client_addr = demo_addr, cl_av_status = CLBUSY\<rparr>]\<rparr>"

definition demo_sum_answer :: pdu_t where
  "demo_sum_answer = \<lparr>peer_addr = demo_addr, pdu_msg = \<lparr>msg_id = task_response, idv = Task_rsp
     \<lparr>tr_group_name = Some ''G1'', tr_task_id = 1, tr_type = TYPE_LONG, tr_num_clients = 2, tr_client_ids = [5, 6],
      tr_result = [], tr_final_resp = Some ''10''\<rparr>\<rparr>\<rparr>"

theorem task_starts_and_ends_witness:
  "\<exists>s1 s2 g2. handle_moderator_notify_response demo_cycle demo_notify = Some (Inr s1) \<and>
     handle_moderator_task_response s1 demo_sum_answer = Some (Inr s2) \<and> timers s2 = timers demo_cycle \<and>
     groups s2 = (groups demo_cycle)(1 \<mapsto> g2) \<and> fsm_state g2 = STATE_NONE"
proof -
  have g: "groups demo_cycle 1 = Some demo_cycle_group" "timer_id demo_cycle_group = 0" "task_set_filename demo_cycle_group = Own ''t''"
    "files demo_cycle ''t'' = Some [50, 10, 51, 10, 53, 10]" "task_set_format demo_cycle_group = 0"
    "group_name demo_cycle_group = ''G1''" "next_timer demo_cycle = 1" "fsm_state demo_cycle_group = MODERATOR_SELECTED"
    "moderator_client demo_cycle_group = Some 7" "\<not> is_show_metrics demo_cycle" "timers demo_cycle (next_timer demo_cycle) = None"
    by (simp_all add: demo_cycle_def demo_cycle_group_def demo_start_def demo_start_group_def demo_server_def demo_group_def new_group_def)
  have c: "clients demo_cycle 7 = Some \<lparr>client_id = 5, client_addr = demo_addr, cl_av_status = CLBUSY\<rparr>"
    "client_RBT demo_cycle 5 = Some \<lparr>rbc_capability = 1, rbc_grp_list = [1], rbc_av_status = RBBUSY, rbc_is_moderator = True\<rparr>"
    "cap_of demo_cycle 5 = 1" "cap_of demo_cycle 6 = 1" "client_RBT demo_cycle 5 \<noteq> None" "client_RBT demo_cycle 6 \<noteq> None"
    by (simp_all add: cap_of_def demo_cycle_def demo_start_def)
  have n: "idv (pdu_msg demo_notify) = Moderator_notify_rsp \<lparr>nr_group_name = Some ''G1'', nr_moderator_id = 5,
      nr_client_id_count = 2, nr_client_ids = [5, 6]\<rparr>"
    by (simp add: demo_notify_def)
  have a: "idv (pdu_msg demo_sum_answer) = Task_rsp \<lparr>tr_group_name = Some ''G1'', tr_task_id = 1, tr_type = TYPE_LONG,
      tr_num_clients = 2, tr_client_ids = [5, 6], tr_result = [], tr_final_resp = Some ''10''\<rparr>"
    "calc_key (Some (peer_addr demo_sum_answer)) = 5"
    by (simp_all add: demo_sum_answer_def)
  have grp: "group_of_client demo_cycle 5 (Some ''G1'') = Inr (Some 1)"
    using g(1,6) c(2) by (simp add: group_of_client_def strcmp_eq_def)
  have sh: "\<forall>i<Suc (Suc 0). 0 < share [1, 1] (Suc (Suc (Suc 0))) i"
    by (auto simp: share_def less_Suc_eq div_greater_zero_iff)
  show ?thesis
    using task_starts_and_ends [OF g(1-5) _ _ _ n, of "[5, 6]" 5 "''G1''", OF _ _ _ _ _ _ _ _ _ _ _ _ _ grp g(8,9) c(1,2) g(10,11) a(1) _ _ a(2)]
      c(3-) sh g(6) by simp (elim exE conjE, intro exI conjI)
qed

end
