(* ===== verification/ServerTimers.thy ===== *)
theory ServerTimers
  imports ServerFsm
begin

text \<open>
  What the server's operations do to the timers and states of its groups.  \<open>tview\<close>
  abstracts a server state to them; most operations leave it alone (\<open>tsame\<close>), the others
  are characterised on it.
\<close>

section \<open>The view\<close>

type_synonym gview = "nat \<times> server_state \<times> ptr option"
type_synonym tview = "(ptr \<rightharpoonup> gview) \<times> (nat \<rightharpoonup> ktimer) \<times> nat"

definition gv :: "mcast_group_node \<Rightarrow> gview" where
  "gv g = (timer_id g, fsm_state g, moderator_client g)"

definition tview :: "server_info \<Rightarrow> tview" where
  "tview s = (\<lambda>p. map_option gv (groups s p), timers s, next_timer s)"

abbreviation tsame :: "server_info \<Rightarrow> server_info \<Rightarrow> bool" where
  "tsame s s' \<equiv> tview s' = tview s"

lemma tview_groups: "tview s = (v, ts, n) \<Longrightarrow> groups s p = Some g \<Longrightarrow> v p = Some (gv g)"
  by (auto simp: tview_def)

lemma tview_upd [simp]:
  "tview (s\<lparr>clients := x1\<rparr>) = tview s" "tview (s\<lparr>next_ptr := x2\<rparr>) = tview s"
  "tview (s\<lparr>server_list := x3\<rparr>) = tview s" "tview (s\<lparr>client_RBT := x4\<rparr>) = tview s"
  "tview (s\<lparr>secondary_server := x5\<rparr>) = tview s" "tview (s\<lparr>task_id := x6\<rparr>) = tview s"
  "tview (s\<lparr>is_stdby_available := x7\<rparr>) = tview s" "tview (s\<lparr>is_show_metrics := x8\<rparr>) = tview s"
  "tview (s\<lparr>clock := x9\<rparr>) = tview s" "tview (s\<lparr>stamp := x10\<rparr>) = tview s"
  "tview (s\<lparr>files := x11\<rparr>) = tview s" "tview (s\<lparr>outbox := x12\<rparr>) = tview s"
  "tview (s\<lparr>threads := x13\<rparr>) = tview s" "tview (send s a m) = tview s"
  by (simp_all add: tview_def send_def)

lemma tview_grp:
  "groups s p = Some g \<Longrightarrow> tview s = (v, ts, n) \<Longrightarrow> tview (s\<lparr>groups := (groups s)(p \<mapsto> g')\<rparr>) = (v(p \<mapsto> gv g'), ts, n)"
  by (auto simp: tview_def)

section \<open>Operations that leave the view alone\<close>

named_theorems keep "operations that keep the view"

lemma keep_upd_grp [keep]:
  assumes "tsame s0 s" "\<And>g. gv (f g) = gv g"
  shows "wp (upd_grp s p f) (tsame s0)"
proof (rule wpI)
  fix s' assume "upd_grp s p f = Inr s'"
  then obtain g where g: "groups s p = Some g" "s' = s\<lparr>groups := (groups s)(p \<mapsto> f g)\<rparr>"
    by (auto simp: upd_grp_def bindE_eq_Inr)
  then have "tview s' = tview s" using assms(2) by (auto simp: tview_def fun_eq_iff)
  with assms(1) show "tsame s0 s'" by simp
qed

lemma keep_upd_cl [keep]: "tsame s0 s \<Longrightarrow> wp (upd_cl s p f) (tsame s0)"
  by (rule wpI) (auto simp: upd_cl_def bindE_eq_Inr)

lemma keep_upd_rbt [keep]: "tsame s0 s \<Longrightarrow> wp (upd_rbt s k f) (tsame s0)"
  by (rule wpI) (auto simp: upd_rbt_def split: option.splits)

lemma keep_return [keep]: "tsame s0 s \<Longrightarrow> wp (Inr s) (tsame s0)"
  by simp

lemma keep_return_snd [keep]: "tsame s0 s \<Longrightarrow> wp (Inr (x, s)) (\<lambda>r. tsame s0 (snd r))"
  by simp

lemma keep_return_fst [keep]: "tsame s0 s \<Longrightarrow> wp (Inr (s, x)) (\<lambda>r. tsame s0 (fst r))"
  by simp

lemma gv_upd [simp]:
  "gv (g\<lparr>grp_capability := a\<rparr>) = gv g" "gv (g\<lparr>number_of_clients := b\<rparr>) = gv g" "gv (g\<lparr>client_info := c\<rparr>) = gv g"
  "gv (g\<lparr>heartbeat_remaining := d\<rparr>) = gv g" "gv (g\<lparr>group_reachability_index := e\<rparr>) = gv g"
  "gv (g\<lparr>task_type := f\<rparr>) = gv g" "gv (g\<lparr>task_set_filename := h\<rparr>) = gv g" "gv (g\<lparr>task_set_format := i\<rparr>) = gv g"
  "gv (g\<lparr>task_set_details := j\<rparr>) = gv g" "gv (g\<lparr>dead_clients_info := k\<rparr>) = gv g"
  "gv (g\<lparr>server_metrics := l\<rparr>) = gv g" "gv (g\<lparr>group_name := m\<rparr>) = gv g" "gv (g\<lparr>grp_mcast_addr := n\<rparr>) = gv g"
  by (simp_all add: gv_def)

lemma keep_send_checkpoint [keep]: "tsame s0 s \<Longrightarrow> wp (send_checkpoint ty s a nm c) (tsame s0)"
  by (simp add: send_checkpoint_def Let_def) (rule wp_bind_valueI, simp)

lemma keep_deallocate [keep]: "tsame s0 s \<Longrightarrow> wp (deallocate_mcast_client_node s gp node) (tsame s0)"
  unfolding deallocate_mcast_client_node_def
  by (rule keep [THEN wp_bindI] | simp)+

lemma keep_remove_client [keep]:
  "tsame s0 s \<Longrightarrow> wp (remove_client_from_mcast_group_node s gpo k) (\<lambda>r. tsame s0 (snd r))"
  unfolding remove_client_from_mcast_group_node_def
  by (rule keep keep [THEN wp_bindI] wp_structure | assumption | rule wp_bind_valueI | simp)+

lemma keep_add_client [keep]: "tsame s0 s \<Longrightarrow> wp (ADD_CLIENT_IN_GROUP s gp a k) (tsame s0)"
  unfolding ADD_CLIENT_IN_GROUP_def allocate_mcast_client_node_def allocate_mcast_client_list_def Let_def split_beta
  by (rule keep keep [THEN wp_bindI] wp_structure | assumption | rule wp_bind_valueI | simp)+

lemma keep_index_insert [keep]: "tsame s0 s \<Longrightarrow> wp (index_insert s k a gp c) (tsame s0)"
  unfolding index_insert_def by (rule wp_bind_valueI) simp

lemma keep_insert_client_info [keep]:
  "tsame s0 s \<Longrightarrow> wp (insert_client_info_in_server_DS s gpo a c) (tsame s0)"
  unfolding insert_client_info_in_server_DS_def Let_def split_beta
  by (rule keep keep [THEN wp_bindI] wp_structure | assumption | rule wp_bind_valueI | simp)+

lemma tsame_index_delete [simp]: "tsame s0 (index_delete s k) = tsame s0 s"
  by (simp add: index_delete_def)

lemma keep_remove_client_info [keep]:
  "tsame s0 s \<Longrightarrow> wp (remove_client_info_from_server_DS s a nm) (\<lambda>r. tsame s0 (snd r))"
  unfolding remove_client_info_from_server_DS_def Let_def split_beta
  by (rule keep keep [THEN wp_bindI] wp_structure | assumption | rule wp_bind_valueI | simp)+

lemma keep_handle_checkpoint_req [keep]: "tsame s0 s \<Longrightarrow> wp (handle_checkpoint_req s a req) (tsame s0)"
  unfolding handle_checkpoint_req_def Let_def split_beta
  by (rule keep keep [THEN wp_bindI] wp_structure | assumption | rule wp_bind_valueI | simp)+

lemma keep_handle_leave_req [keep]: "tsame s0 s \<Longrightarrow> wp (handle_leave_req s a req) (tsame s0)"
  unfolding handle_leave_req_def Let_def split_beta
  by (rule keep keep [THEN wp_bindI] wp_structure | assumption | rule wp_bind_valueI | simp)+

lemma keep_join_step [keep]: "tsame s0 s \<Longrightarrow> wp (join_step s a req i prev) (\<lambda>r. tsame s0 (fst r))"
  unfolding join_step_def Let_def split_beta
  by (rule keep keep [THEN wp_bindI] wp_structure | assumption | rule wp_bind_valueI | simp)+

lemma keep_join_loop:
  assumes "join_loop a req i s p ips = Some r" "tsame s0 s"
  shows "wp r (\<lambda>x. tsame s0 (fst x))"
proof -
  have "tsame s0 s \<longrightarrow> wp r (\<lambda>x. tsame s0 (fst x))"
  proof (rule join_loop.raw_induct [where P = "\<lambda>_ _ _ s _ _ r. tsame s0 s \<longrightarrow> wp r (\<lambda>x. tsame s0 (fst x))", OF _ assms(1)],
      intro impI)
    fix jl peer req s p ips r and i :: u8
    assume IH: "\<And>peer req i s p ips r. jl peer req i s p ips = Some r \<Longrightarrow> tsame s0 s \<longrightarrow> wp r (\<lambda>x. tsame s0 (fst x))"
      and r: "(if ucast i < jq_num_groups req
        then case join_step s peer req (unat i) p of Inl e \<Rightarrow> Some (Inl e)
             | Inr (s1, gpo, e) \<Rightarrow> jl peer req (i + 1) s1 gpo (ips[unat i := e])
        else Some (Inr (s, ips))) = Some r"
      and s: "tsame s0 s"
    show "wp r (\<lambda>x. tsame s0 (fst x))"
      using r IH keep_join_step [OF s, of peer req "unat i" p] s
      by (auto split: if_splits sum.splits)
  qed
  with assms(2) show ?thesis by simp
qed

lemma keep_handle_join_req: "handle_join_req s a req = Some r \<Longrightarrow> wp r (tsame s)"
  using keep_join_loop [of a req 0 s None _ _ s] unfolding handle_join_req_def
  by (fastforce intro: wp_bindI)

lemma keep_notify_groups: "tsame s0 s \<Longrightarrow> wp (notify_groups s m ps) (tsame s0)"
  by (induction ps arbitrary: s) (auto intro!: wp_bind_valueI)

lemma keep_send_echo [keep]: "tsame s0 s \<Longrightarrow> wp (send_echo_request s a nm) (tsame s0)"
  by (simp add: send_echo_request_def) (rule wp_bind_valueI, simp)

lemma keep_retransmit [keep]: "tsame s0 s \<Longrightarrow> wp (retransmit_task_req_for_client s gp) (tsame s0)"
  unfolding retransmit_task_req_for_client_def Let_def split_beta
  by (rule keep keep [THEN wp_bindI] | assumption | rule wp_bind_valueI | simp)+

lemma keep_remember_dead [keep]: "tsame s0 s \<Longrightarrow> wp (remember_dead s gp cid) (tsame s0)"
  unfolding remember_dead_def Let_def split_beta
  by (rule keep keep [THEN wp_bindI] wp_structure | assumption | rule wp_bind_valueI | simp)+

lemma keep_dead_step [keep]: "tsame s0 s \<Longrightarrow> wp (dead_step s gp cid) (tsame s0)"
  unfolding dead_step_def
  by (rule keep keep [THEN wp_bindI] wp_structure | assumption | rule wp_bind_valueI | simp)+

lemma keep_mark_and_retransmit [keep]: "tsame s0 s \<Longrightarrow> wp (mark_and_retransmit s gp d c) (tsame s0)"
  unfolding mark_and_retransmit_def split_beta
  by (rule keep keep [THEN wp_bindI] wp_structure | assumption | rule wp_bind_valueI | simp)+

lemma keep_dead_loop:
  assumes "dead_loop gp req i s = Some r" "tsame s0 s"
  shows "wp r (tsame s0)"
proof -
  have "tsame s0 s \<longrightarrow> wp r (tsame s0)"
  proof (rule dead_loop.raw_induct [where P = "\<lambda>_ _ _ s r. tsame s0 s \<longrightarrow> wp r (tsame s0)", OF _ assms(1)], intro impI)
    fix dl gp req s r and i :: u8
    assume IH: "\<And>gp req i s r. dl gp req i s = Some r \<Longrightarrow> tsame s0 s \<longrightarrow> wp r (tsame s0)"
      and r: "(if ucast i < eq_num_clients req
        then case bindE (at (eq_client_ids req) (unat i)) (dead_step s gp) of Inl e \<Rightarrow> Some (Inl e)
             | Inr s1 \<Rightarrow> dl gp req (i + 1) s1
        else Some (Inr s)) = Some r"
      and s: "tsame s0 s"
    have "wp (bindE (at (eq_client_ids req) (unat i)) (dead_step s gp)) (tsame s0)"
      by (rule wp_bind_valueI) (rule keep s)+
    then show "wp r (tsame s0)" using r IH s
      by (cases "bindE (at (eq_client_ids req) (unat i)) (dead_step s gp)")
        (auto split: if_splits intro!: wp_bind_valueI keep)
  qed
  with assms(2) show ?thesis by simp
qed

lemma keep_echo_req_in_progress:
  "server_echo_req_task_in_progress_state s gp pdu = Some r \<Longrightarrow> wp r (tsame s)"
proof -
  assume "server_echo_req_task_in_progress_state s gp pdu = Some r"
  moreover have u: "wp (upd_grp s gp (\<lambda>g. g\<lparr>heartbeat_remaining := MAX_ALLOWED_KA_MISSES\<rparr>)) (tsame s)"
    by (rule keep) simp_all
  moreover have "wp x (tsame s) \<Longrightarrow> wp (bindE x (\<lambda>s2. mark_and_retransmit s2 gp d c)) (tsame s)" for x d c
    by (erule wp_bindI) (rule keep)
  ultimately show ?thesis using keep_dead_loop [of gp _ 0]
    unfolding server_echo_req_task_in_progress_state_def
    by (cases "bindE (grp s gp) (\<lambda>g. bindE (nonnull (moderator_client g)) (\<lambda>mp. cl s mp))";
        cases "upd_grp s gp (\<lambda>g. g\<lparr>heartbeat_remaining := MAX_ALLOWED_KA_MISSES\<rparr>)")
      (auto split: if_splits idv_t.splits intro!: keep_upd_grp)
qed

lemma keep_create_step:
  "tsame s0 s \<Longrightarrow> wp (create_step f src u ids caps n tasks tot i s m st rm) (\<lambda>r. tsame s0 (fst r))"
  unfolding create_step_def Let_def
  by (rule wp_structure wp_bind_valueI | simp)+

lemma keep_create_loop [keep]:
  "tsame s0 s \<Longrightarrow> wp (create_loop f src u ids caps n tasks tot k s m st rm) (\<lambda>r. tsame s0 (fst r))"
proof (induction k arbitrary: s m st rm)
  case (Suc k)
  show ?case
    unfolding create_loop.simps case_prod_unfold
    by (rule wp_bindI [OF keep_create_step [OF Suc.prems]], rule Suc.IH)
qed simp

lemma keep_create_task_sets [keep]: "tsame s0 s \<Longrightarrow> wp (create_task_sets_per_client s gp ids n tasks tot) (tsame s0)"
  unfolding create_task_sets_per_client_def Let_def split_beta
  by (rule keep keep [THEN wp_bindI] wp_structure | assumption | rule wp_bind_valueI | simp)+

lemma keep_get_data_set [keep]: "tsame s0 s \<Longrightarrow> wp (get_data_set_for_client_based_on_capability s gp n ids tasks) (tsame s0)"
  unfolding get_data_set_for_client_based_on_capability_def Let_def split_beta
  by (rule keep keep [THEN wp_bindI] | assumption | rule wp_bind_valueI | simp)+

lemma keep_print_report [keep]: "tsame s0 s \<Longrightarrow> wp (print_execution_report s gp) (tsame s0)"
  unfolding print_execution_report_def by (rule keep) simp_all

lemma keep_collect [keep]: "tsame s0 s \<Longrightarrow> wp (collect_task_results s rsp f c) (tsame s0)"
  unfolding collect_task_results_def Let_def
  by (rule wp_structure wp_bind_valueI | simp)+

lemma keep_selection_loop [keep]: "tsame s0 s \<Longrightarrow> wp (selection_loop s nm l n c) (\<lambda>r. tsame s0 (fst r))"
proof (induction n arbitrary: s c)
  case (Suc n)
  show ?case
  proof (cases c)
    case (Some x)
    show ?thesis unfolding Some selection_loop.simps
      by (rule wp_structure wp_bind_valueI keep [THEN wp_bindI] Suc | assumption | rule Suc)+
  qed (use Suc.prems in simp)
qed simp

end
