(* ===== verification/ServerInv.thy ===== *)
theory ServerInv
  imports ServerTimers DemoState
begin

text \<open>
  The server as a transition system: a step serves a message, runs the signal handler of
  an existing timer, or executes a command; the environment changes the clock and the
  files.  In every reachable state each timer is the timer of its group and its signal
  fits the state of the group, which is why the handler's assertions hold.
\<close>

section \<open>The invariant\<close>

text \<open>Which states a group may be in when a timer with this signal exists.\<close>

fun signal_fits :: "timer_signal \<Rightarrow> server_state \<Rightarrow> ptr option \<Rightarrow> bool" where
  "signal_fits MOD_SEL_TIMEOUT fs md = (fs = MODERATOR_SELECTION_PENDING \<or> fs = TASK_IN_PROGRESS_MOD_SEL_PEND)"
| "signal_fits MOD_RSP_TIMEOUT fs md = (fs = GROUP_TASK_IN_PROGRESS \<and> md \<noteq> None)"

definition timers_fit :: "tview \<Rightarrow> bool" where
  "timers_fit x = (case x of (v, ts, n) \<Rightarrow> 0 < n \<and>
     (\<forall>t k. ts t = Some k \<longrightarrow> t \<noteq> 0 \<and> t < n \<and>
        (\<exists>fs md. v (kt_sival k) = Some (t, fs, md) \<and> signal_fits (kt_signal k) fs md)) \<and>
     (\<forall>p t fs md. v p = Some (t, fs, md) \<longrightarrow> t < n \<and> (\<forall>k. ts t = Some k \<longrightarrow> kt_sival k = p) \<and>
        (fs = MODERATOR_SELECTED \<longrightarrow> t = 0 \<and> md \<noteq> None)))"

lemma timers_fit_timer:
  "timers_fit (v, ts, n) \<Longrightarrow> ts t = Some k \<Longrightarrow>
   t \<noteq> 0 \<and> t < n \<and> (\<exists>fs md. v (kt_sival k) = Some (t, fs, md) \<and> signal_fits (kt_signal k) fs md)"
  by (simp add: timers_fit_def)

lemma timers_fit_group:
  "timers_fit (v, ts, n) \<Longrightarrow> v p = Some (t, fs, md) \<Longrightarrow>
   t < n \<and> (\<forall>k. ts t = Some k \<longrightarrow> kt_sival k = p) \<and> (fs = MODERATOR_SELECTED \<longrightarrow> t = 0 \<and> md \<noteq> None)"
  by (simp add: timers_fit_def)

lemma timers_fit_pos: "timers_fit (v, ts, n) \<Longrightarrow> 0 < n"
  by (simp add: timers_fit_def)

lemma timers_fit_no_zero: "timers_fit (v, ts, n) \<Longrightarrow> ts 0 = None"
  using timers_fit_timer [of v ts n 0] by (cases "ts 0") auto

lemma timers_fitI:
  assumes "0 < n" "\<And>t k. ts t = Some k \<Longrightarrow> t \<noteq> 0 \<and> t < n \<and>
      (\<exists>fs md. v (kt_sival k) = Some (t, fs, md) \<and> signal_fits (kt_signal k) fs md)"
    "\<And>p t fs md. v p = Some (t, fs, md) \<Longrightarrow> t < n \<and> (\<forall>k. ts t = Some k \<longrightarrow> kt_sival k = p) \<and>
      (fs = MODERATOR_SELECTED \<longrightarrow> t = 0 \<and> md \<noteq> None)"
  shows "timers_fit (v, ts, n)"
  unfolding timers_fit_def prod.case using assms by blast

text \<open>A group gives up its timer.\<close>

lemma timers_fit_clear:
  assumes "timers_fit (v, ts, n)" "v p = Some (t, fs, md)" "fs' = MODERATOR_SELECTED \<Longrightarrow> md' \<noteq> None"
  shows "timers_fit (v(p \<mapsto> (0, fs', md')), ts(t := None), n)"
proof (rule timers_fitI, rule timers_fit_pos [OF assms(1)])
  fix t' k assume k: "(ts(t := None)) t' = Some k"
  then have "ts t' = Some k" "t' \<noteq> t" by (auto split: if_splits)
  with timers_fit_timer [OF assms(1)] assms(2) show "t' \<noteq> 0 \<and> t' < n \<and>
      (\<exists>fs md. (v(p \<mapsto> (0, fs', md'))) (kt_sival k) = Some (t', fs, md) \<and> signal_fits (kt_signal k) fs md)"
    by fastforce
next
  fix q t' fs1 md1 assume "(v(p \<mapsto> (0, fs', md'))) q = Some (t', fs1, md1)"
  with timers_fit_group [OF assms(1)] assms(2,3) timers_fit_no_zero [OF assms(1)]
  show "t' < n \<and> (\<forall>k. (ts(t := None)) t' = Some k \<longrightarrow> kt_sival k = q) \<and> (fs1 = MODERATOR_SELECTED \<longrightarrow> t' = 0 \<and> md1 \<noteq> None)"
    by (fastforce split: if_splits)
qed

text \<open>A group without a timer gets a new one.\<close>

lemma timers_fit_new:
  assumes "timers_fit (v, ts, n)" "v p = Some (0, fs, md)" "kt_sival k = p" "signal_fits (kt_signal k) fs' md'"
  shows "timers_fit (v(p \<mapsto> (n, fs', md')), ts(n \<mapsto> k), n + 1)"
proof (rule timers_fitI, simp)
  have n: "0 < n" using timers_fit_group [OF assms(1,2)] by simp
  fix t' k' assume k: "(ts(n \<mapsto> k)) t' = Some k'"
  then show "t' \<noteq> 0 \<and> t' < n + 1 \<and>
      (\<exists>fs md. (v(p \<mapsto> (n, fs', md'))) (kt_sival k') = Some (t', fs, md) \<and> signal_fits (kt_signal k') fs md)"
    using assms(3,4) n timers_fit_timer [OF assms(1), of t' k'] assms(2) by (auto split: if_splits)
next
  fix q t' fs1 md1 assume "(v(p \<mapsto> (n, fs', md'))) q = Some (t', fs1, md1)"
  moreover have "signal_fits s MODERATOR_SELECTED m = False" for s m by (cases s) auto
  ultimately show "t' < n + 1 \<and> (\<forall>k'. (ts(n \<mapsto> k)) t' = Some k' \<longrightarrow> kt_sival k' = q) \<and> (fs1 = MODERATOR_SELECTED \<longrightarrow> t' = 0 \<and> md1 \<noteq> None)"
    using assms(3,4) timers_fit_group [OF assms(1), of q t' fs1 md1] by (auto split: if_splits)
qed

text \<open>A group that keeps its timer, or has none, changes its state within what the signal allows.\<close>

lemma timers_fit_change:
  assumes "timers_fit (v, ts, n)" "v p = Some (t, fs, md)"
    "\<And>s. signal_fits s fs md \<Longrightarrow> signal_fits s fs' md'" "fs' = MODERATOR_SELECTED \<Longrightarrow> t = 0 \<and> md' \<noteq> None"
  shows "timers_fit (v(p \<mapsto> (t, fs', md')), ts, n)"
proof (rule timers_fitI, rule timers_fit_pos [OF assms(1)])
  fix t' k assume "ts t' = Some k"
  with timers_fit_timer [OF assms(1)] assms(2,3) show "t' \<noteq> 0 \<and> t' < n \<and>
      (\<exists>fs md. (v(p \<mapsto> (t, fs', md'))) (kt_sival k) = Some (t', fs, md) \<and> signal_fits (kt_signal k) fs md)"
    by fastforce
next
  fix q t' fs1 md1 assume "(v(p \<mapsto> (t, fs', md'))) q = Some (t', fs1, md1)"
  with timers_fit_group [OF assms(1)] assms(2,4)
  show "t' < n \<and> (\<forall>k. ts t' = Some k \<longrightarrow> kt_sival k = q) \<and> (fs1 = MODERATOR_SELECTED \<longrightarrow> t' = 0 \<and> md1 \<noteq> None)"
    by (auto split: if_splits)
qed

text \<open>A timer that was armed again keeps its signal and its group.\<close>

lemma timers_fit_rearm:
  assumes "timers_fit (v, ts, n)" "ts t = Some k" "kt_signal k' = kt_signal k" "kt_sival k' = kt_sival k"
  shows "timers_fit (v, ts(t \<mapsto> k'), n)"
proof (rule timers_fitI, rule timers_fit_pos [OF assms(1)])
  fix t' k1 assume "(ts(t \<mapsto> k')) t' = Some k1"
  with timers_fit_timer [OF assms(1)] assms(2-4) show "t' \<noteq> 0 \<and> t' < n \<and>
      (\<exists>fs md. v (kt_sival k1) = Some (t', fs, md) \<and> signal_fits (kt_signal k1) fs md)"
    by (auto split: if_splits)
next
  fix q t' fs1 md1 assume "v q = Some (t', fs1, md1)"
  with timers_fit_group [OF assms(1)] assms(2,4)
  show "t' < n \<and> (\<forall>k1. (ts(t \<mapsto> k')) t' = Some k1 \<longrightarrow> kt_sival k1 = q) \<and> (fs1 = MODERATOR_SELECTED \<longrightarrow> t' = 0 \<and> md1 \<noteq> None)"
    by auto
qed

section \<open>What the operations do to the view\<close>

lemma tview_change:
  assumes "tview s = (v, ts, n)" "groups s p = Some g" "gv (f g) = x"
  shows "wp (upd_grp s p f) (\<lambda>s'. tview s' = (v(p \<mapsto> x), ts, n))"
  using assms by (simp add: tview_grp)

lemma tview_delete: "tview s = (v, ts, n) \<Longrightarrow> tview (timer_delete s t) = (v, ts(t := None), n)"
  by (simp add: tview_def timer_delete_def)

lemma tview_split: "\<exists>v ts n. tview s = (v, ts, n)"
  by (simp add: tview_def)

lemma upd_grp_wpI: "(\<And>g. groups s p = Some g \<Longrightarrow> Q (s\<lparr>groups := (groups s)(p \<mapsto> f g)\<rparr>)) \<Longrightarrow> wp (upd_grp s p f) Q"
  by (rule wpI) (auto simp: upd_grp_def bindE_eq_Inr)

lemma groups_tview: "tview s = (v, ts, n) \<Longrightarrow> groups s p = Some g \<Longrightarrow> v p = Some (timer_id g, fsm_state g, moderator_client g)"
  by (auto simp: tview_def gv_def)

lemma tview_groups_Some: "tview s = (v, ts, n) \<Longrightarrow> v p = Some x \<Longrightarrow> \<exists>g. groups s p = Some g \<and> gv g = x"
  by (auto simp: tview_def)

lemma tview_group_at: "tview s = (v(p \<mapsto> x), ts, n) \<Longrightarrow> \<exists>g. groups s p = Some g \<and> gv g = x"
  using tview_groups_Some [of s "v(p \<mapsto> x)" ts n p x] by simp

lemma timer_delete_groups [simp]: "groups (timer_delete s t) = groups s"
  by (simp add: timer_delete_def)

text \<open>\<open>fits s\<close>: the invariant of a server state.\<close>

definition fits :: "server_info \<Rightarrow> bool" where
  "fits s = timers_fit (tview s)"

lemma fits_tsame: "tsame s s' \<Longrightarrow> fits s \<Longrightarrow> fits s'"
  by (simp add: fits_def)

lemma wp_keep_fits: "fits s \<Longrightarrow> wp m (tsame s) \<Longrightarrow> wp m fits"
  by (erule wp_mono) (erule fits_tsame)

lemma fits_clear:
  assumes "fits s" "groups s p = Some g" "\<And>g. timer_id (f g) = 0"
    "fsm_state (f g) = MODERATOR_SELECTED \<Longrightarrow> moderator_client (f g) \<noteq> None"
  shows "wp (upd_grp (timer_delete s (timer_id g)) p f) fits"
proof -
  obtain v ts n where v: "tview s = (v, ts, n)" using tview_split by blast
  note clear = timers_fit_clear [where v = v and ts = ts and n = n and p = p and t = "timer_id g"
    and fs' = "fsm_state (f g)" and md' = "moderator_client (f g)"]
  show ?thesis
    using clear [OF _ groups_tview [OF v assms(2)]] assms v tview_grp [OF _ tview_delete [OF v], where p = p and g = g and g' = "f g"]
    by (simp add: fits_def gv_def)
qed

text \<open>Deleting timer 0 does nothing, so the checks for it do not matter.\<close>

lemma delete_unless_zero:
  assumes "fits s"
  shows "(if t \<noteq> 0 then timer_delete s t else s) = timer_delete s t"
proof (cases "t = 0")
  case True
  moreover have "timers s 0 = None"
    using assms timers_fit_no_zero [of _ "timers s" "next_timer s"] by (simp add: fits_def tview_def)
  ultimately show ?thesis by (simp add: timer_delete_def fun_upd_idem)
qed simp

lemma set_group_available_view:
  assumes "tview s = (v, ts, n)" "v gp = Some (t, fs, md)" "ts 0 = None"
  shows "wp (set_group_available s gp) (\<lambda>s'. tview s' = (v(gp \<mapsto> (0, STATE_NONE, None)), ts(t := None), n))"
proof -
  obtain g where g: "groups s gp = Some g" "timer_id g = t" using tview_groups_Some [OF assms(1,2)] by (auto simp: gv_def)
  have s1: "tview (if t \<noteq> 0 then timer_delete s t else s) = (v, ts(t := None), n)"
    using assms(1,3) tview_delete [OF assms(1), of t] by (auto simp: fun_upd_idem)
  show ?thesis
    unfolding set_group_available_def Let_def grp_Some [OF g(1)] bindE_simps g(2)
    by (rule wp_bind_valueI tview_change [OF s1, where g = g] | simp add: gv_def g)+
qed

lemma fits_set_group_available:
  assumes "fits s"
  shows "wp (set_group_available s gp) fits"
proof (cases "groups s gp")
  case None
  then show ?thesis by (simp add: set_group_available_def grp_def deref_def)
next
  case (Some g)
  obtain v ts n where v: "tview s = (v, ts, n)" using tview_split by blast
  note fit = assms [unfolded fits_def v] and g = groups_tview [OF v Some]
  show ?thesis
    by (rule wp_mono [OF set_group_available_view [OF v g timers_fit_no_zero [OF fit]]])
      (use timers_fit_clear [OF fit g, of STATE_NONE None] in \<open>simp add: fits_def\<close>)
qed

lemma start_timer_new:
  assumes "tview s = (v, ts, n)" "v gp = Some (0, fs, md)"
  shows "wp (start_timer s gp i sg r) (\<lambda>s'. tview s' = (v(gp \<mapsto> (n, fs, md)),
    ts(n \<mapsto> \<lparr>kt_signal = sg, kt_sival = gp, kt_interval = i, kt_recurring = r\<rparr>), n + 1))"
proof -
  obtain g where g: "groups s gp = Some g" "timer_id g = 0" "gv g = (0, fs, md)"
    using tview_groups_Some [OF assms] by (auto simp: gv_def)
  then show ?thesis using assms(1)
    by (auto simp: start_timer_def tview_def gv_def fun_eq_iff)
qed

lemma fits_start_timer:
  assumes "fits s" "groups s gp = Some g" "timer_id g = 0 \<Longrightarrow> signal_fits sg (fsm_state g) (moderator_client g)"
  shows "wp (start_timer s gp i sg r) fits"
proof -
  obtain v ts n where v: "tview s = (v, ts, n)" using tview_split by blast
  note fit = assms(1) [unfolded fits_def v]
  show ?thesis
  proof (cases "timer_id g = 0")
    case True
    show ?thesis
    proof (rule wp_mono [OF start_timer_new [OF v groups_tview [OF v assms(2), unfolded True]]])
      fix s' assume "tview s' = (v(gp \<mapsto> (n, fsm_state g, moderator_client g)),
        ts(n \<mapsto> \<lparr>kt_signal = sg, kt_sival = gp, kt_interval = i, kt_recurring = r\<rparr>), n + 1)"
      then show "fits s'"
        using timers_fit_new [OF fit groups_tview [OF v assms(2), unfolded True]] assms(3) True by (simp add: fits_def)
    qed
  next
    case False
    then have "start_timer s gp i sg r = (case timers s (timer_id g) of None \<Rightarrow> Inl ProcExit
        | Some k \<Rightarrow> Inr (s\<lparr>timers := (timers s)(timer_id g \<mapsto> k\<lparr>kt_interval := i, kt_recurring := r\<rparr>)\<rparr>))"
      using assms(2) by (simp add: start_timer_def)
    moreover have "timers s (timer_id g) = Some k \<Longrightarrow>
        fits (s\<lparr>timers := (timers s)(timer_id g \<mapsto> k\<lparr>kt_interval := i, kt_recurring := r\<rparr>)\<rparr>)" for k
      using timers_fit_rearm [OF fit, of "timer_id g" k] v by (simp add: fits_def tview_def)
    ultimately show ?thesis by (auto split: option.splits)
  qed
qed

lemma fits_change:
  assumes "fits s" "groups s p = Some g" "\<And>g. timer_id (f g) = timer_id g"
    "\<And>sg. signal_fits sg (fsm_state g) (moderator_client g) \<Longrightarrow> signal_fits sg (fsm_state (f g)) (moderator_client (f g))"
    "fsm_state (f g) = MODERATOR_SELECTED \<Longrightarrow> timer_id g = 0 \<and> moderator_client (f g) \<noteq> None"
  shows "wp (upd_grp s p f) (\<lambda>s'. fits s' \<and> groups s' p = Some (f g))"
proof -
  obtain v ts n where v: "tview s = (v, ts, n)" using tview_split by blast
  note change = timers_fit_change [where v = v and ts = ts and n = n and p = p and t = "timer_id g"
    and fs' = "fsm_state (f g)" and md' = "moderator_client (f g)"]
  show ?thesis
    using change [OF _ groups_tview [OF v assms(2)]] assms v tview_grp [OF assms(2) v, of "f g"]
    by (simp add: fits_def gv_def)
qed

section \<open>Moderator selection\<close>

abbreviation selecting :: "server_state \<Rightarrow> bool" where
  "selecting fs \<equiv> fs = MODERATOR_SELECTION_PENDING \<or> fs = TASK_IN_PROGRESS_MOD_SEL_PEND"

lemma signal_fits_selecting: "selecting fs \<Longrightarrow> signal_fits sg fs md = (sg = MOD_SEL_TIMEOUT)"
  by (cases sg) auto

text \<open>The state of a group through an operation that keeps the view.\<close>

lemma tsame_gv: "tsame s s' \<Longrightarrow> groups s p = Some g \<Longrightarrow> \<exists>g'. groups s' p = Some g' \<and> gv g' = gv g"
  by (auto simp: tview_def fun_eq_iff) (metis option.map_disc_iff option.map_sel option.sel option.simps(9) not_None_eq)

lemma fits_moderator_selection:
  assumes "fits s" "groups s gp = Some g" "selecting (fsm_state g)"
  shows "wp (moderator_selection s gp) fits"
proof -
  have start: "wp (start_oneshot_timer s1 gp i MOD_SEL_TIMEOUT) fits"
    if "fits s1" "groups s1 gp = Some g1" "selecting (fsm_state g1)" for s1 g1 i
    unfolding start_oneshot_timer_def
    by (rule fits_start_timer [OF that(1,2)]) (use that(3) in auto)
  have after: "wp (bindE (upd_grp s1 gp (\<lambda>g. g\<lparr>moderator_client := md\<rparr>)) (\<lambda>s2. case md of
          Some _ \<Rightarrow> start_oneshot_timer s2 gp DEFAULT_TIMEOUT MOD_SEL_TIMEOUT
        | None \<Rightarrow>
            bindE (upd_grp s2 gp (\<lambda>g. g\<lparr>group_reachability_index := group_reachability_index g - 1\<rparr>)) (\<lambda>s3.
            bindE (grp s3 gp) (\<lambda>g3.
            if group_reachability_index g3 = 0 then set_group_available s3 gp
            else start_oneshot_timer s3 gp DEFAULT_TIMEOUT MOD_SEL_TIMEOUT)))) fits" if s1: "tsame s s1" for s1 md
  proof -
    obtain g1 where g1: "groups s1 gp = Some g1" "selecting (fsm_state g1)"
      using tsame_gv [OF s1 assms(2)] assms(3) by (auto simp: gv_def)
    have "wp (upd_grp s1 gp (\<lambda>g. g\<lparr>moderator_client := md\<rparr>))
        (\<lambda>s'. fits s' \<and> groups s' gp = Some (g1\<lparr>moderator_client := md\<rparr>))"
      using g1(2) by (intro fits_change [OF fits_tsame [OF s1 assms(1)] g1(1)]) (auto simp: signal_fits_selecting)
    moreover have "wp (upd_grp s2 gp (\<lambda>g. g\<lparr>group_reachability_index := group_reachability_index g - 1\<rparr>))
        (\<lambda>s'. fits s' \<and> groups s' gp = Some (g2\<lparr>group_reachability_index := group_reachability_index g2 - 1\<rparr>))"
      if "fits s2" "groups s2 gp = Some g2" "selecting (fsm_state g2)" for s2 g2
      using that by (intro fits_change) auto
    ultimately show ?thesis
      using g1(2)
      by (fastforce elim!: wp_bindI intro!: wp_bindI [of _ "\<lambda>s'. \<exists>g. fits s' \<and> groups s' gp = Some g \<and> selecting (fsm_state g)"]
          start fits_set_group_available split: option.split elim: wp_mono)
  qed
  show ?thesis
    unfolding moderator_selection_def Let_def
    by (rule wp_bind_valueI wp_bindI [OF keep_selection_loop [OF refl]])+ (auto split: prod.split intro!: after)
qed

text \<open>The moderator of a group is set, or the group is left alone.\<close>

lemma update_moderator_view:
  assumes "tview s = (v, ts, n)" "v gp = Some (t, fs, md)"
  shows "wp (update_moderator_info s gp c) (\<lambda>(ok, s'). if ok
    then \<exists>m. tview s' = (v(gp \<mapsto> (t, fs, Some m)), ts, n) else tview s' = (v, ts, n))"
proof (rule wpI)
  fix r assume "update_moderator_info s gp c = Inr r"
  then consider
      "r = (False, s)"
    | s1 where "upd_rbt s c (\<lambda>r. r\<lparr>rbc_av_status := RBBUSY, rbc_is_moderator := True\<rparr>) = Inr s1" "r = (False, s1)"
    | s1 s2 s3 m where "upd_rbt s c (\<lambda>r. r\<lparr>rbc_av_status := RBBUSY, rbc_is_moderator := True\<rparr>) = Inr s1"
        "upd_grp s1 gp (\<lambda>g. g\<lparr>moderator_client := Some m\<rparr>) = Inr s2"
        "upd_cl s2 m (\<lambda>n. n\<lparr>cl_av_status := CLBUSY\<rparr>) = Inr s3" "r = (True, s3)"
    by (auto simp: update_moderator_info_def bindE_eq_Inr split: option.splits)
  then show "(\<lambda>(ok, s'). if ok then \<exists>m. tview s' = (v(gp \<mapsto> (t, fs, Some m)), ts, n) else tview s' = (v, ts, n)) r"
  proof cases
    case 2
    with wpD [OF keep_upd_rbt [OF refl]] assms(1) show ?thesis by simp
  next
    case 3
    have s1: "tview s1 = (v, ts, n)" using 3(1) wpD [OF keep_upd_rbt [OF refl]] assms(1) by simp
    obtain g where g: "groups s1 gp = Some g" "gv g = (t, fs, md)" using tview_groups_Some [OF s1 assms(2)] by auto
    have "tview s2 = (v(gp \<mapsto> (t, fs, Some m)), ts, n)"
      by (rule wpD [OF tview_change [OF s1 g(1)] 3(2)]) (use g(2) in \<open>auto simp: gv_def\<close>)
    with 3(3,4) wpD [OF keep_upd_cl [OF refl]] show ?thesis by auto
  qed (use assms in simp)
qed

lemma wp_update_moderator:
  assumes "tview s = (v, ts, n)" "v gp = Some (t, fs, md)"
    "\<And>s'. tview s' = (v, ts, n) \<Longrightarrow> wp (f (False, s')) Q"
    "\<And>s' m. tview s' = (v(gp \<mapsto> (t, fs, Some m)), ts, n) \<Longrightarrow> wp (f (True, s')) Q"
  shows "wp (bindE (update_moderator_info s gp c) f) Q"
proof (rule wp_bindI [OF update_moderator_view [OF assms(1,2)]])
  fix r assume r: "case r of (ok, s') \<Rightarrow> if ok then \<exists>m. tview s' = (v(gp \<mapsto> (t, fs, Some m)), ts, n) else tview s' = (v, ts, n)"
  obtain ok s' where "r = (ok, s')" by (cases r)
  with r assms(3,4) show "wp (f r) Q" by (cases ok) auto
qed

text \<open>A client answers the echo request of a group that waits for its moderator.\<close>

lemma fits_mcast_send_chk_alive_msg:
  assumes "fits s" "groups s gp = Some g" "selecting (fsm_state g)"
  shows "wp (mcast_send_chk_alive_msg s gp pdu) fits"
proof -
  obtain v ts n where v: "tview s = (v, ts, n)" using tview_split by blast
  let ?v = "v(gp \<mapsto> (0, fsm_state g, moderator_client g))" and ?ts = "ts(timer_id g := None)"
  have fit: "timers_fit (?v(gp \<mapsto> x), ?ts, n)" if "x = (0, fs, md)" "fs = MODERATOR_SELECTED \<Longrightarrow> md \<noteq> None" for x fs md
    using timers_fit_clear [OF assms(1) [unfolded fits_def v] groups_tview [OF v assms(2)], of fs md] that by simp
  have start: "wp (upd_grp (timer_delete s (timer_id g)) gp (\<lambda>g. g\<lparr>timer_id := 0, group_reachability_index := GROUP_REACHABLE\<rparr>))
      (\<lambda>s'. tview s' = (?v, ?ts, n))"
    by (rule tview_change [OF tview_delete [OF v]]) (simp_all add: assms(2) gv_def)
  have selected: "wp (bindE (upd_grp s2 gp (\<lambda>g. g\<lparr>fsm_state := MODERATOR_SELECTED, heartbeat_remaining := MAX_ALLOWED_KA_MISSES\<rparr>)) f) fits"
    if s2: "tview s2 = (?v(gp \<mapsto> (0, fsm_state g, Some m)), ?ts, n)" and f: "\<And>s3. wp (f s3) (tsame s3)" for s2 m f
  proof -
    obtain g2 where g2: "groups s2 gp = Some g2" "gv g2 = (0, fsm_state g, Some m)" using tview_group_at [OF s2] by auto
    have "wp (upd_grp s2 gp (\<lambda>g. g\<lparr>fsm_state := MODERATOR_SELECTED, heartbeat_remaining := MAX_ALLOWED_KA_MISSES\<rparr>)) fits"
      using wp_mono [OF tview_change [OF s2 g2(1)]] fit g2(2) by (fastforce simp: fits_def gv_def)
    then show ?thesis using f by (blast intro: wp_bindI wp_keep_fits)
  qed
  have quiet: "tview s' = (?v, ?ts, n) \<Longrightarrow> fits s'" for s'
    using fit [of _ "fsm_state g" "moderator_client g"] assms(3) by (auto simp: fits_def)
  show ?thesis
    unfolding mcast_send_chk_alive_msg_def Let_def grp_Some [OF assms(2)] bindE_simps
  proof (rule wp_bindI [OF start], rule wp_ifI)
    fix s1 assume s1: "tview s1 = (?v, ?ts, n)"
    then show "wp (Inr s1) fits" by (simp add: quiet)
  qed (rule wp_update_moderator, assumption, rule fun_upd_same, simp add: quiet, simp, rule selected, simp,
      (rule wp_bind_valueI | simp)+)
qed

text \<open>The selected moderator accepts: the task is sent out.\<close>

lemma start_with_timer:
  assumes "fits s" "groups s gp = Some g" "timer_id g = 0" "signal_fits sg fs' (moderator_client g)"
    "\<And>g. gv (f g) = (timer_id g, fs', moderator_client g)"
  shows "wp (bindE (start_timer s gp i sg r) (\<lambda>s1. upd_grp s1 gp f)) fits"
proof -
  obtain v ts n where v: "tview s = (v, ts, n)" using tview_split by blast
  have g: "v gp = Some (0, fsm_state g, moderator_client g)" using groups_tview [OF v assms(2)] assms(3) by simp
  let ?k = "\<lparr>kt_signal = sg, kt_sival = gp, kt_interval = i, kt_recurring = r\<rparr>"
  show ?thesis
  proof (rule wp_bindI [OF start_timer_new [OF v g]])
    fix s1 assume s1: "tview s1 = (v(gp \<mapsto> (n, fsm_state g, moderator_client g)), ts(n \<mapsto> ?k), n + 1)"
    obtain g1 where g1: "groups s1 gp = Some g1" "timer_id g1 = n" "moderator_client g1 = moderator_client g" using tview_group_at [OF s1] by (auto simp: gv_def)
    have "wp (upd_grp s1 gp f) (\<lambda>s'. tview s' = (v(gp \<mapsto> (n, fs', moderator_client g)), ts(n \<mapsto> ?k), n + 1))"
      using tview_change [OF s1 g1(1), of f] assms(5) g1(2,3) by simp
    then show "wp (upd_grp s1 gp f) fits"
      by (rule wp_mono) (use timers_fit_new [OF assms(1) [unfolded fits_def v] g, of ?k fs' "moderator_client g"] assms(4) in \<open>simp add: fits_def\<close>)
  qed
qed

lemma wp_notify_rspI:
  "(\<And>r. x = Moderator_notify_rsp r \<Longrightarrow> wp (f r) Q) \<Longrightarrow> wp (case x of Moderator_notify_rsp r \<Rightarrow> f r | _ \<Rightarrow> Inl e) Q"
  by (cases x) auto

lemma fits_mcast_start_task_distribution:
  assumes "fits s" "groups s gp = Some g" "fsm_state g = MODERATOR_SELECTED"
  shows "wp (mcast_start_task_distribution s gp pdu) fits"
proof -
  obtain v ts n where v: "tview s = (v, ts, n)" using tview_split by blast
  note fit = timers_fit_group [OF assms(1) [unfolded fits_def v] groups_tview [OF v assms(2)]]
  then obtain m where m: "timer_id g = 0" "moderator_client g = Some m" using assms(3) by auto
  have finish: "wp (bindE (start_recurring_timer s4 gp i MOD_RSP_TIMEOUT) (\<lambda>s5.
      upd_grp s5 gp (\<lambda>g. g\<lparr>fsm_state := GROUP_TASK_IN_PROGRESS\<rparr>))) fits" if s4: "tsame s s4" for s4 i
  proof -
    obtain g4 where g4: "groups s4 gp = Some g4" "timer_id g4 = 0" "moderator_client g4 = Some m"
      using tsame_gv [OF s4 assms(2)] m by (auto simp: gv_def)
    show ?thesis unfolding start_recurring_timer_def
      by (rule start_with_timer [OF fits_tsame [OF s4 assms(1)] g4(1,2), where fs' = GROUP_TASK_IN_PROGRESS])
        (simp_all add: g4(3) gv_def)
  qed
  show ?thesis
    unfolding mcast_start_task_distribution_def Let_def
    by (rule wp_notify_rspI finish keep [THEN wp_bindI] wp_structure wp_bind_valueI | assumption | simp add: assms(1))+
qed

section \<open>Task results and a new moderator\<close>

lemma wp_task_rspI:
  "(\<And>r. x = Task_rsp r \<Longrightarrow> wp (f r) Q) \<Longrightarrow> wp (case x of Task_rsp r \<Rightarrow> f r | _ \<Rightarrow> Inl e) Q"
  by (cases x) auto

text \<open>The results arrive; the moderator of the group was already taken off.\<close>

lemma fits_mcast_handle_task_response:
  assumes "timers_fit (v, ts, n)" "v gp = Some (t, fs, md)" "tview s = (v(gp \<mapsto> (t, fs, md')), ts, n)"
  shows "wp (mcast_handle_task_response s gp pdu) fits"
proof -
  obtain g where g: "groups s gp = Some g" "timer_id g = t" using tview_group_at [OF assms(3)] by (auto simp: gv_def)
  have finish: "wp (set_group_available s2 gp) fits" if "tsame (timer_delete s t) s2" for s2
  proof (rule wp_mono [OF set_group_available_view])
    show "tview s2 = (v(gp \<mapsto> (t, fs, md')), ts(t := None), n)" using that tview_delete [OF assms(3)] by simp
    show "(ts(t := None)) 0 = None" using timers_fit_no_zero [OF assms(1)] by simp
    show "fits s'" if "tview s' = (v(gp \<mapsto> (t, fs, md'), gp \<mapsto> (0, STATE_NONE, None)), (ts(t := None))(t := None), n)" for s'
      using that timers_fit_clear [OF assms(1,2), of STATE_NONE None] by (simp add: fits_def)
  qed simp
  show ?thesis
    unfolding mcast_handle_task_response_def Let_def grp_Some [OF g(1)] bindE_simps g(2)
    by (rule wp_task_rspI finish keep [THEN wp_bindI] wp_structure wp_bind_valueI | assumption | simp)+
qed

lemma fits_send_new_moderator_info:
  assumes "fits s" "groups s gp = Some g"
  shows "wp (send_new_moderator_info s gp pdu) fits"
proof -
  obtain v ts n where v: "tview s = (v, ts, n)" using tview_split by blast
  let ?v = "v(gp \<mapsto> (0, GROUP_TASK_IN_PROGRESS, moderator_client g))" and ?ts = "ts(timer_id g := None)"
  have fit: "timers_fit (?v(gp \<mapsto> (0, GROUP_TASK_IN_PROGRESS, md)), ?ts, n)" for md
    using timers_fit_clear [OF assms(1) [unfolded fits_def v] groups_tview [OF v assms(2)], of GROUP_TASK_IN_PROGRESS md] by simp
  have start: "wp (upd_grp (timer_delete s (timer_id g)) gp (\<lambda>g. g\<lparr>timer_id := 0, fsm_state := GROUP_TASK_IN_PROGRESS\<rparr>))
      (\<lambda>s'. tview s' = (?v, ?ts, n))"
    by (rule tview_change [OF tview_delete [OF v]]) (simp_all add: assms(2) gv_def)
  have quiet: "fits s'" if "tview s' = (?v, ?ts, n)" for s'
    using that fit [of "moderator_client g"] by (simp add: fits_def)
  have finish: "wp (bindE (start_recurring_timer s4 gp i MOD_RSP_TIMEOUT) (\<lambda>s5. retransmit_task_req_for_client s5 gp)) fits"
    if s4: "tview s4 = (?v(gp \<mapsto> (0, GROUP_TASK_IN_PROGRESS, Some m)), ?ts, n)" for s4 i m
  proof -
    obtain g4 where g4: "groups s4 gp = Some g4" "gv g4 = (0, GROUP_TASK_IN_PROGRESS, Some m)" using tview_group_at [OF s4] by auto
    have "fits s4" using s4 fit by (simp add: fits_def)
    then have "wp (start_recurring_timer s4 gp i MOD_RSP_TIMEOUT) fits"
      unfolding start_recurring_timer_def by (rule fits_start_timer [OF _ g4(1)]) (use g4(2) in \<open>simp add: gv_def\<close>)
    then show ?thesis by (rule wp_bindI) (blast intro: wp_keep_fits keep)
  qed
  have tail: "wp (bindE (upd_grp s2 gp (\<lambda>g. g\<lparr>heartbeat_remaining := MAX_ALLOWED_KA_MISSES\<rparr>)) f) fits"
    if "tview s2 = (?v(gp \<mapsto> (0, GROUP_TASK_IN_PROGRESS, Some m)), ?ts, n)"
      "\<And>s3. tview s3 = (?v(gp \<mapsto> (0, GROUP_TASK_IN_PROGRESS, Some m)), ?ts, n) \<Longrightarrow> wp (f s3) fits" for s2 m f
    by (rule wp_bindI [OF keep_upd_grp [OF refl]]) (use that in \<open>simp_all add: gv_def\<close>)
  show ?thesis
    unfolding send_new_moderator_info_def Let_def grp_Some [OF assms(2)] bindE_simps delete_unless_zero [OF assms(1)]
  proof (rule wp_bindI [OF start], rule wp_ifI)
    fix s1 assume s1: "tview s1 = (?v, ?ts, n)"
    then show "wp (Inr s1) fits" by (simp add: quiet)
  qed (rule wp_update_moderator, assumption, rule fun_upd_same, simp add: quiet, simp, rule tail, simp,
      (rule finish wp_bind_valueI | simp)+)
qed

section \<open>The timer signals\<close>

lemma fits_after_delete: "fits s \<Longrightarrow> fits (timer_delete s t)"
proof -
  assume fit: "fits s"
  obtain v ts n where v: "tview s = (v, ts, n)" using tview_split by blast
  note fit = fit [unfolded fits_def v]
  have "timers_fit (v, ts(t := None), n)"
    by (rule timers_fitI) (use timers_fit_pos [OF fit] timers_fit_timer [OF fit] timers_fit_group [OF fit] in \<open>auto split: if_splits\<close>)
  then show "fits (timer_delete s t)" using tview_delete [OF v] by (simp add: fits_def)
qed

lemma group_by_timerid_from_group:
  "group_by_timerid_from s t ps None = Inr (Some p) \<Longrightarrow> \<exists>g. groups s p = Some g \<and> timer_id g = t"
  by (induction ps) (auto simp: bindE_eq_Inr split: if_splits)

text \<open>The signal of an existing timer finds the group the timer was made for.\<close>

lemma live_timer_group:
  assumes "fits s" "timers s t = Some k" "get_group_node_by_timerid s (kt_sival k) None = Inr (Some gp)"
  shows "gp = kt_sival k \<and> (\<exists>g. groups s gp = Some g \<and> timer_id g = t \<and> signal_fits (kt_signal k) (fsm_state g) (moderator_client g))"
proof -
  obtain v ts n where v: "tview s = (v, ts, n)" using tview_split by blast
  note fit = assms(1) [unfolded fits_def v]
  have ts: "ts = timers s" using v by (simp add: tview_def)
  obtain g where g: "groups s (kt_sival k) = Some g" "timer_id g = t" "signal_fits (kt_signal k) (fsm_state g) (moderator_client g)"
    using timers_fit_timer [OF fit, of t k] assms(2) ts tview_groups_Some [OF v] by (fastforce simp: gv_def)
  obtain g' where g': "groups s gp = Some g'" "timer_id g' = t"
    using assms(3) g(1,2) group_by_timerid_from_group [of s t _ gp] by (auto simp: get_group_node_by_timerid_def)
  then have "kt_sival k = gp" using timers_fit_group [OF fit groups_tview [OF v g'(1)]] assms(2) ts by simp
  with g show ?thesis by auto
qed

text \<open>The moderator misses its last heartbeat: another one is looked for.\<close>

lemma reselect:
  assumes "fits s" "groups s gp = Some g" "timer_id g = 0"
    "\<And>g. timer_id (f g) = timer_id g" "\<And>g. fsm_state (f g) = TASK_IN_PROGRESS_MOD_SEL_PEND"
  shows "wp (bindE (upd_grp s gp f) (\<lambda>s1. moderator_selection s1 gp)) fits"
proof -
  obtain v ts n where v: "tview s = (v, ts, n)" using tview_split by blast
  note fit = assms(1) [unfolded fits_def v] and g = groups_tview [OF v assms(2), unfolded assms(3)]
  let ?s1 = "s\<lparr>groups := (groups s)(gp \<mapsto> f g)\<rparr>"
  have "ts(0 := None) = ts" using timers_fit_no_zero [OF fit] by (simp add: fun_upd_idem)
  then have "fits ?s1"
    using timers_fit_clear [OF fit g, of TASK_IN_PROGRESS_MOD_SEL_PEND "moderator_client (f g)"] tview_grp [OF assms(2) v, of "f g"]
      assms(3-5) by (simp add: fits_def gv_def)
  then show ?thesis using fits_moderator_selection [of ?s1 gp "f g"] assms(2,5) by simp
qed

lemma wp_live_timer:
  assumes "fits s" "timers s t = Some k" "wp (f None) Q"
    "\<And>gp g. groups s gp = Some g \<Longrightarrow> timer_id g = t \<Longrightarrow>
       signal_fits (kt_signal k) (fsm_state g) (moderator_client g) \<Longrightarrow> wp (f (Some gp)) Q"
  shows "wp (bindE (get_group_node_by_timerid s (kt_sival k) None) f) Q"
proof (rule wp_bind_valueI)
  fix r assume "get_group_node_by_timerid s (kt_sival k) None = Inr r"
  with live_timer_group [OF assms(1,2)] assms(3,4) show "wp (f r) Q" by (cases r) auto
qed

lemma fits_handle_timeout_real:
  assumes "fits s" "timers s t = Some k"
  shows "wp (handle_timeout_real s masked (kt_signal k) (kt_sival k)) fits"
proof -
  have tail: "wp (bindE (upd_grp s6 gp f) (\<lambda>s7. moderator_selection s7 gp)) fits"
    if s6: "tsame s2 s6" and s2: "fits s2" "groups s2 gp = Some g2" "timer_id g2 = 0"
      and f: "\<And>g. timer_id (f g) = timer_id g" "\<And>g. fsm_state (f g) = TASK_IN_PROGRESS_MOD_SEL_PEND" for s2 s6 gp g2 f
  proof -
    obtain g6 where "groups s6 gp = Some g6" "timer_id g6 = 0" using tsame_gv [OF s6 s2(2)] s2(3) by (auto simp: gv_def)
    then show ?thesis by (rule reselect [OF fits_tsame [OF s6 s2(1)] _ _ f])
  qed
  have give_up: "wp (bindE (upd_grp (timer_delete s1 t) gp (\<lambda>g. g\<lparr>timer_id := 0\<rparr>)) f) fits"
    if s1: "tsame s s1" and g: "groups s gp = Some g" "timer_id g = t" "fsm_state g = GROUP_TASK_IN_PROGRESS"
      and f: "\<And>s2 g2. fits s2 \<Longrightarrow> groups s2 gp = Some g2 \<Longrightarrow> timer_id g2 = 0 \<Longrightarrow> wp (f s2) fits" for s1 gp g f
  proof -
    obtain g1 where g1: "groups s1 gp = Some g1" "gv g1 = gv g" using tsame_gv [OF s1 g(1)] by auto
    have "wp (upd_grp (timer_delete s1 (timer_id g1)) gp (\<lambda>g. g\<lparr>timer_id := 0\<rparr>)) fits"
      by (rule fits_clear [OF fits_tsame [OF s1 assms(1)] g1(1)]) (use g1(2) g(3) in \<open>simp_all add: gv_def\<close>)
    then show ?thesis using g1 g f by (simp add: gv_def)
  qed
  have signal: "wp (case Some gp of None \<Rightarrow> f | Some gp \<Rightarrow> bindE (grp s gp) (\<lambda>g. case kt_signal k of
        MOD_SEL_TIMEOUT \<Rightarrow> if fsm_state g = MODERATOR_SELECTED then Inl AssertFail else moderator_selection s gp
      | MOD_RSP_TIMEOUT \<Rightarrow> h gp g)) fits"
    if "groups s gp = Some g" "signal_fits (kt_signal k) (fsm_state g) (moderator_client g)"
      "fsm_state g = GROUP_TASK_IN_PROGRESS \<Longrightarrow> wp (h gp g) fits" for gp g f h
    using that fits_moderator_selection [OF assms(1) that(1)] by (cases "kt_signal k") auto
  have beat: "wp (bindE (upd_grp s gp (\<lambda>g. g\<lparr>heartbeat_remaining := heartbeat_remaining g - 1\<rparr>)) (\<lambda>s1.
        if b then Inr s1 else if fsm_state g = MODERATOR_SELECTED then f s1
        else if fsm_state g = GROUP_TASK_IN_PROGRESS then h s1 else m)) fits"
    if "fsm_state g = GROUP_TASK_IN_PROGRESS" "\<And>s1. tsame s s1 \<Longrightarrow> wp (h s1) fits" for gp g b f h m
    by (rule wp_bindI [OF keep_upd_grp [OF refl]]) (simp_all add: that fits_tsame [OF _ assms(1)])
  have lost: "wp (bindE (nonnull (moderator_client g)) (\<lambda>mp. bindE (cl s1 mp) (\<lambda>md.
         bindE (upd_grp (timer_delete s1 (timer_id g)) gp (\<lambda>g. g\<lparr>timer_id := 0\<rparr>)) (h md)))) fits"
    if "tsame s s1" "groups s gp = Some g" "timer_id g = t" "fsm_state g = GROUP_TASK_IN_PROGRESS"
      "\<And>md s2 g2. fits s2 \<Longrightarrow> groups s2 gp = Some g2 \<Longrightarrow> timer_id g2 = 0 \<Longrightarrow> wp (h md s2) fits" for s1 gp g h
    unfolding that(3) by (rule wp_bind_valueI, rule wp_bind_valueI, rule give_up [OF that])
  show ?thesis
    unfolding handle_timeout_real_def Let_def split_beta
    by (rule wp_ifI, simp add: assms, rule wp_live_timer [OF assms], simp add: fits_after_delete assms wp_bind_valueI,
        rule signal, assumption, assumption, rule beat, assumption, rule lost, assumption+)
      (rule tail keep [THEN wp_bindI] wp_bind_valueI | assumption | simp)+
qed

section \<open>Messages and commands\<close>

text \<open>
  Results are expected of a group whose moderator has accepted: in the state
  \<open>MODERATOR_SELECTED\<close> they would take the moderator away while the task is about to start.
\<close>

definition results_expected :: "server_info \<Rightarrow> pdu_t \<Rightarrow> bool" where
  "results_expected s pdu = (case idv (pdu_msg pdu) of
     Task_rsp rsp \<Rightarrow>
       (case group_of_client s (calc_key (Some (peer_addr pdu))) (tr_group_name rsp) of
          Inr (Some gp) \<Rightarrow> (case groups s gp of Some g \<Rightarrow> fsm_state g \<noteq> MODERATOR_SELECTED | None \<Rightarrow> True)
        | _ \<Rightarrow> True)
   | _ \<Rightarrow> True)"

lemma free_moderator_view:
  assumes "tview s = (v, ts, n)" "v gp = Some (t, fs, md)"
  shows "wp (free_moderator s gp c) (\<lambda>s'. \<exists>md'. tview s' = (v(gp \<mapsto> (t, fs, md')), ts, n))"
proof -
  have same: "tview s' = tview s \<Longrightarrow> \<exists>md'. tview s' = (v(gp \<mapsto> (t, fs, md')), ts, n)" for s'
    using assms by (intro exI [of _ md]) (simp add: fun_upd_idem)
  have gone: "wp (upd_grp s' gp (\<lambda>g. g\<lparr>moderator_client := None\<rparr>)) (\<lambda>s'. \<exists>md'. tview s' = (v(gp \<mapsto> (t, fs, md')), ts, n))"
    if s': "tsame s s'" for s'
  proof -
    have v: "tview s' = (v, ts, n)" using s' assms(1) by simp
    obtain g where g: "groups s' gp = Some g" "gv g = (t, fs, md)" using tview_groups_Some [OF v assms(2)] by auto
    show ?thesis by (rule wp_mono [OF tview_change [OF v g(1)]]) (use g(2) in \<open>auto simp: gv_def\<close>)
  qed
  have cl_same: "wp (upd_cl s' p f) (\<lambda>s'. \<exists>md'. tview s' = (v(gp \<mapsto> (t, fs, md')), ts, n))" if "tsame s s'" for s' p f
    by (rule wp_mono [OF keep_upd_cl [OF that]]) (rule same)
  have metrics: "wp (if b then upd_grp s1 gp (\<lambda>g. g\<lparr>server_metrics := f g\<rparr>) else Inr s1) (tsame s)" if "tsame s s1" for b s1 f
    using that by (auto intro: keep_upd_grp)
  show ?thesis
    unfolding free_moderator_def
    by (rule wp_bindI [OF keep_upd_rbt [OF refl]], rule wp_bind_valueI, rule wp_bindI [OF metrics], assumption)
      (rule wp_structure gone cl_same keep [THEN wp_bindI] wp_bind_valueI | assumption | simp add: same)+
qed

lemma fits_group_of_name:
  "named_group s nm = Inr (gp, g) \<Longrightarrow> groups s gp = Some g"
  by (auto simp: named_group_def bindE_eq_Inr)

lemma fits_server_main_fsm:
  assumes "fits s" "groups s gp = Some g" "event \<noteq> MOD_TASK_RSP_RCVD_EVENT"
    "server_main_fsm s event (fsm_state g) gp pdu = Some r"
  shows "wp r fits"
proof (cases "fsm_state g")
  case MODERATOR_SELECTION_PENDING
  then show ?thesis using assms fits_mcast_send_chk_alive_msg [OF assms(1,2)]
    by (auto simp: server_main_fsm_def server_fsm_mod_pend_state_def split: server_event.splits)
next
  case MODERATOR_SELECTED
  then show ?thesis using assms fits_mcast_start_task_distribution [OF assms(1,2)]
    by (auto simp: server_main_fsm_def server_fsm_mod_selected_def split: server_event.splits)
next
  case GROUP_TASK_IN_PROGRESS
  then show ?thesis using assms wp_keep_fits [OF assms(1) keep_echo_req_in_progress]
    by (auto simp: server_main_fsm_def server_fsm_task_in_progress_def split: server_event.splits)
next
  case TASK_IN_PROGRESS_MOD_SEL_PEND
  then show ?thesis using assms fits_send_new_moderator_info [OF assms(1,2)]
    by (auto simp: server_main_fsm_def server_fsm_task_in_progress_mod_sel_pend_def split: server_event.splits)
qed (use assms in \<open>auto simp: server_main_fsm_def\<close>)

lemma fits_task_response:
  assumes "fits s" "results_expected s pdu" "handle_moderator_task_response s pdu = Some r"
  shows "wp r fits"
proof (cases "idv (pdu_msg pdu)")
  case (Task_rsp rsp)
  let ?c = "calc_key (Some (peer_addr pdu))"
  show ?thesis
  proof (cases "group_of_client s ?c (tr_group_name rsp)")
    case (Inr gpo)
    show ?thesis
    proof (cases gpo)
      case None
      with Inr Task_rsp assms(1,3) show ?thesis by (auto simp: handle_moderator_task_response_def)
    next
      case (Some gp)
      obtain v ts n where v: "tview s = (v, ts, n)" using tview_split by blast
      note fit = assms(1) [unfolded fits_def v]
      show ?thesis
      proof (cases "bindE (free_moderator s gp ?c) (\<lambda>s1. bindE (grp s1 gp) (\<lambda>g. Inr (s1, fsm_state g)))")
        case (Inr x)
        then obtain s1 g1 where s1: "free_moderator s gp ?c = Inr s1" "groups s1 gp = Some g1" and x: "x = (s1, fsm_state g1)"
          by (auto simp: bindE_eq_Inr)
        then have gp: "groups s gp \<noteq> None"
          by (auto simp: free_moderator_def bindE_eq_Inr upd_rbt_def split: option.splits)
        then obtain g where g: "groups s gp = Some g" by auto
        obtain md' where md': "tview s1 = (v(gp \<mapsto> (timer_id g, fsm_state g, md')), ts, n)"
          using wpD [OF free_moderator_view [OF v groups_tview [OF v g]] s1(1)] by auto
        then have fs: "fsm_state g1 = fsm_state g" using groups_tview [OF md' s1(2)] by simp
        have r: "server_main_fsm s1 MOD_TASK_RSP_RCVD_EVENT (fsm_state g) gp pdu = Some r"
          using assms(3) Task_rsp \<open>group_of_client s ?c _ = _\<close> Some Inr x fs by (simp add: handle_moderator_task_response_def)
        have "fsm_state g \<noteq> MODERATOR_SELECTED"
          using assms(2) Task_rsp \<open>group_of_client s ?c _ = _\<close> Some g by (simp add: results_expected_def)
        moreover have "fits s1" if "fsm_state g \<noteq> MODERATOR_SELECTED" "fsm_state g \<noteq> GROUP_TASK_IN_PROGRESS"
        proof -
          have "signal_fits sg (fsm_state g) md'" if "signal_fits sg (fsm_state g) (moderator_client g)" for sg
            using that \<open>fsm_state g \<noteq> GROUP_TASK_IN_PROGRESS\<close> by (cases sg) auto
          then show ?thesis
            using timers_fit_change [OF fit groups_tview [OF v g], of "fsm_state g" md'] that(1) md' by (simp add: fits_def)
        qed
        ultimately show ?thesis
          using r fits_mcast_handle_task_response [OF fit groups_tview [OF v g] md', of pdu]
          by (cases "fsm_state g") (auto simp: server_main_fsm_def server_fsm_mod_pend_state_def server_fsm_task_in_progress_def
            server_fsm_task_in_progress_mod_sel_pend_def)
      qed (use assms(3) Task_rsp Inr Some in \<open>auto simp: handle_moderator_task_response_def\<close>)
    qed
  qed (use assms(3) Task_rsp in \<open>auto simp: handle_moderator_task_response_def\<close>)
qed (use assms(3) in \<open>auto simp: handle_moderator_task_response_def\<close>)

lemma fits_serve:
  assumes "fits s" "results_expected s pdu" "serve s pdu = Some r"
  shows "wp r fits"
proof -
  have group: "wp r fits" if "server_main_fsm s event (fsm_state g) gp pdu = Some r" "groups s gp = Some g"
    "event \<noteq> MOD_TASK_RSP_RCVD_EVENT" for gp g event
    using fits_server_main_fsm [OF assms(1) that(2,3,1)] .
  have group_send: "wp r fits" if "server_main_fsm (send s a m) event (fsm_state g) gp pdu = Some r" "groups s gp = Some g"
    "event \<noteq> MOD_TASK_RSP_RCVD_EVENT" for gp g event a m
    using fits_server_main_fsm [OF _ _ that(3,1)] that(2) assms(1) by (simp add: fits_def)
  have echo: "wp r fits" if "handle_echo_req s pdu = Some r"
    using that
    by (auto simp: handle_echo_req_def Let_def bindE_eq_Inr split: idv_t.splits sum.splits dest!: fits_group_of_name intro: group_send)
  have echo_rsp: "wp r fits" if "handle_echo_response s pdu = Some r"
    using that
    by (auto simp: handle_echo_response_def split: idv_t.splits sum.splits dest!: fits_group_of_name intro: group)
  have notify: "wp r fits" if "handle_moderator_notify_response s pdu = Some r"
    using that assms(1)
    by (auto simp: handle_moderator_notify_response_def split: idv_t.splits sum.splits option.splits intro: group)
  have join: "wp r fits" if "handle_join_req s a req = Some r" for a req
    using keep_handle_join_req [OF that] wp_keep_fits assms(1) by blast
  have "wp r fits" if "run_handler h s pdu = Some r" for h
    using that echo echo_rsp notify join fits_task_response [OF assms(1,2)] wp_keep_fits [OF assms(1)]
      keep_handle_leave_req [OF refl] keep_handle_checkpoint_req [OF refl]
    by (cases h) (auto simp: run_handler_def split: idv_t.splits)
  then show ?thesis using assms by (auto simp: serve_def split: option.splits)
qed

section \<open>Commands\<close>

lemma fits_assign_task:
  assumes "fits s"
  shows "wp (assign_task s nm k f d) fits"
proof -
  have start: "wp (moderator_selection (s\<lparr>groups := (groups s)(gp \<mapsto> f g)\<rparr>) gp) fits"
    if g: "groups s gp = Some g" "moderator_client g = None"
      and f: "timer_id (f g) = timer_id g" "fsm_state (f g) = MODERATOR_SELECTION_PENDING" "moderator_client (f g) = moderator_client g" for gp g f
  proof -
    obtain v ts n where v: "tview s = (v, ts, n)" using tview_split by blast
    note fit = assms [unfolded fits_def v]
    have "signal_fits sg MODERATOR_SELECTION_PENDING None" if "signal_fits sg (fsm_state g) None" for sg
      using that by (cases sg) auto
    then have "timers_fit (v(gp \<mapsto> (timer_id g, MODERATOR_SELECTION_PENDING, None)), ts, n)"
      using timers_fit_change [OF fit groups_tview [OF v g(1)], of MODERATOR_SELECTION_PENDING None] g(2) by simp
    then have "fits (s\<lparr>groups := (groups s)(gp \<mapsto> f g)\<rparr>)"
      using tview_grp [OF g(1) v, of "f g"] f g(2) by (simp add: fits_def gv_def)
    from fits_moderator_selection [OF this, of gp "f g"] show ?thesis using g f by simp
  qed
  show ?thesis
    unfolding assign_task_def using assms
    by (auto split: option.split intro!: wp_bind_valueI start [where f = "\<lambda>g. g\<lparr>task_type := k, task_set_format := d,
      task_set_filename := Own f, fsm_state := MODERATOR_SELECTION_PENDING, group_reachability_index := GROUP_REACHABLE\<rparr>"])
qed

lemma fits_server_stdin_data:
  assumes "fits s"
  shows "wp (server_stdin_data ia s input) fits"
proof -
  have task: "wp (task_command s line) fits" for line
    using fits_assign_task [OF assms] assms by (simp add: task_command_def Let_def)
  have migrate: "wp (send_new_server_info_to_all_groups s) fits"
    by (rule wp_keep_fits [OF assms]) (simp add: send_new_server_info_to_all_groups_def keep_notify_groups)
  have "tsame s s' \<Longrightarrow> fits s'" for s' using fits_tsame assms by blast
  then show ?thesis
    unfolding server_stdin_data_def Let_def using assms task migrate by (auto split: option.split)
qed

section \<open>Steps and reachable states\<close>

text \<open>
  The steps of the server.  A message is served under an assumption on the environment,
  \<open>results_expected\<close>: no results of a task arrive for a group whose chosen moderator has
  yet to accept (a client sends results only after a task was given to it).  The code does
  not check this, and \<open>unexpected_results_lose_moderator\<close> in the theory of the event loops
  shows what happens without it; every statement about reachable states is under it.
\<close>

inductive srv_step :: "(string \<Rightarrow> u32) \<Rightarrow> server_info \<Rightarrow> server_info \<Rightarrow> bool" for inet_addr where
  configured: "groups s (next_ptr s) = None \<Longrightarrow> ADD_GROUP_IN_LL s name addr port = Inr s' \<Longrightarrow> srv_step inet_addr s s'"
| served: "results_expected s pdu \<Longrightarrow> serve s pdu = Some (Inr s') \<Longrightarrow> srv_step inet_addr s s'"
| signalled: "timers s t = Some k \<Longrightarrow> handle_timeout_real s masked (kt_signal k) (kt_sival k) = Inr s' \<Longrightarrow> srv_step inet_addr s s'"
| commanded: "server_stdin_data inet_addr s input = Inr s' \<Longrightarrow> srv_step inet_addr s s'"
| elapsed: "srv_step inet_addr s (s\<lparr>clock := c, stamp := d, files := fs\<rparr>)"

inductive_cases srv_stepE: "srv_step inet_addr s s'"

text \<open>
  The process starts without groups and timers.  The identifiers \<open>timer_create\<close> hands out
  are taken to be different from 0, which is how the code says that a group has no timer.
\<close>

inductive srv_reachable :: "(string \<Rightarrow> u32) \<Rightarrow> server_info \<Rightarrow> bool" for inet_addr where
  started: "groups s = Map.empty \<Longrightarrow> timers s = Map.empty \<Longrightarrow> 0 < next_timer s \<Longrightarrow> srv_reachable inet_addr (allocate_server_info s)"
| stepped: "srv_reachable inet_addr s \<Longrightarrow> srv_step inet_addr s s' \<Longrightarrow> srv_reachable inet_addr s'"

lemma fits_step: "srv_step inet_addr s s' \<Longrightarrow> fits s \<Longrightarrow> fits s'"
proof (erule srv_stepE)
  fix name addr port assume fit: "fits s" and new: "groups s (next_ptr s) = None" and s': "ADD_GROUP_IN_LL s name addr port = Inr s'"
  obtain v ts n where v: "tview s = (v, ts, n)" using tview_split by blast
  note fit = fit [unfolded fits_def v]
  have p: "v (next_ptr s) = None" using v new by (auto simp: tview_def)
  have "timers_fit (v(next_ptr s \<mapsto> (0, STATE_NONE, None)), ts, n)"
    by (rule timers_fitI) (use timers_fit_pos [OF fit] timers_fit_timer [OF fit] timers_fit_group [OF fit] timers_fit_no_zero [OF fit] p
      in \<open>fastforce split: if_splits\<close>)+
  moreover have "tview s' = (v(next_ptr s \<mapsto> (0, STATE_NONE, None)), ts, n)"
    using s' v by (auto simp: ADD_GROUP_IN_LL_def allocate_mcast_group_node_def Let_def tview_def gv_def new_group_def fun_eq_iff)
  ultimately show "fits s'" by (simp add: fits_def)
next
  fix t k masked assume "fits s" "timers s t = Some k" "handle_timeout_real s masked (kt_signal k) (kt_sival k) = Inr s'"
  then show "fits s'" using wpD [OF fits_handle_timeout_real] by blast
next
  fix input assume "fits s" "server_stdin_data inet_addr s input = Inr s'"
  then show "fits s'" using wpD [OF fits_server_stdin_data] by blast
qed (use fits_serve fits_tsame in \<open>fastforce simp: fits_def\<close>)+

lemma fits_reachable: "srv_reachable inet_addr s \<Longrightarrow> fits s"
proof (induction rule: srv_reachable.induct)
  case (started s)
  then show ?case
    by (simp add: fits_def tview_def timers_fit_def allocate_server_info_def allocate_mcast_group_list_def)
qed (rule fits_step)

section \<open>The assertions of the signal handler\<close>

definition no_assert :: "'a result \<Rightarrow> bool" where
  "no_assert m = (m \<noteq> Inl AssertFail)"

lemma no_assert_simps [simp]: "no_assert (Inr x)" "no_assert (Inl e) = (e \<noteq> AssertFail)"
  by (simp_all add: no_assert_def)

lemma no_assert_bindI: "no_assert m \<Longrightarrow> (\<And>x. m = Inr x \<Longrightarrow> no_assert (f x)) \<Longrightarrow> no_assert (bindE m f)"
  by (cases m) auto

lemma no_assert_ifI: "(b \<Longrightarrow> no_assert m) \<Longrightarrow> (\<not> b \<Longrightarrow> no_assert m') \<Longrightarrow> no_assert (if b then m else m')"
  by simp

lemma no_assert_optionI: "(x = None \<Longrightarrow> no_assert m) \<Longrightarrow> (\<And>y. x = Some y \<Longrightarrow> no_assert (f y)) \<Longrightarrow> no_assert (case x of None \<Rightarrow> m | Some y \<Rightarrow> f y)"
  by (cases x) auto

named_theorems quiet "operations without assertions"

lemma no_assert_access [quiet]:
  "no_assert (grp s p)" "no_assert (cl s p)" "no_assert (upd_grp s p f)" "no_assert (upd_cl s p h)" "no_assert (upd_rbt s k r)"
  "no_assert (nonnull x)" "no_assert (own_get y)" "no_assert (own_free y)" "no_assert (at xs i)" "no_assert (upd_at xs i v)"
  by (auto simp: no_assert_def grp_def cl_def deref_def upd_grp_def upd_cl_def upd_rbt_def nonnull_def at_def upd_at_def
      bindE_eq_Inl split: option.split) (cases y; simp)+

lemmas no_assert_rules = no_assert_bindI no_assert_ifI no_assert_optionI

lemma no_assert_copy_gname [quiet]: "no_assert (copy_gname g)"
  by (simp add: copy_gname_def no_assert_def)

lemma no_assert_send_echo [quiet]: "no_assert (send_echo_request s a nm)"
  unfolding send_echo_request_def by (rule quiet no_assert_rules no_assert_simps)+

lemma no_assert_start_timer [quiet]: "no_assert (start_timer s gp i sg r)"
  unfolding start_timer_def split_beta by (rule quiet no_assert_rules no_assert_simps | simp add: quiet split: list.split option.split)+

lemma no_assert_free_entries [quiet]: "no_assert (free_entries m n)"
  by (induction m n rule: free_entries.induct) simp_all

lemma no_assert_set_group_available [quiet]: "no_assert (set_group_available s gp)"
  unfolding set_group_available_def Let_def by (rule quiet no_assert_rules no_assert_simps | simp add: quiet split: list.split option.split)+

lemma no_assert_selection_loop [quiet]: "no_assert (selection_loop s nm l n c)"
  by (induction s nm l n c rule: selection_loop.induct) (auto intro!: quiet no_assert_rules)

lemma no_assert_moderator_selection [quiet]: "no_assert (moderator_selection s gp)"
  unfolding moderator_selection_def Let_def split_beta start_oneshot_timer_def by (rule quiet no_assert_rules no_assert_simps | simp add: quiet split: list.split option.split)+

lemma no_assert_find_worker [quiet]: "no_assert (find_worker m cid j n)"
  by (induction m cid j n rule: find_worker.induct) (auto intro!: quiet no_assert_rules)

lemma no_assert_remember_dead [quiet]: "no_assert (remember_dead s gp cid)"
  unfolding remember_dead_def Let_def by (rule quiet no_assert_rules no_assert_simps | simp add: quiet split: list.split option.split)+

lemma no_assert_group_by_timerid [quiet]: "no_assert (get_group_node_by_timerid s p prev)"
proof -
  have "no_assert (group_by_timerid_from s t ps prev)" for t ps
    by (induction ps) (auto intro!: quiet no_assert_rules)
  then show ?thesis unfolding get_group_node_by_timerid_def by (intro quiet no_assert_rules)
qed

lemma no_assert_mark_dead [quiet]: "no_assert (mark_dead_clients_in_group m n d c)"
proof -
  have scan: "no_assert (dead_scan dead k x)" for dead k x
    by (induction dead k x rule: dead_scan.induct) simp_all
  have mark: "no_assert (mark_loop m c dead dc k)" for m c dead dc k
    by (induction m c dead dc k rule: mark_loop.induct) (auto intro!: scan no_assert_rules)
  have zero: "no_assert (seek_zero m c i)" for m c i
    by (induction m c i rule: seek_zero.induct) (subst seek_zero.simps, auto intro!: quiet no_assert_rules)
  have used: "no_assert (seek_used m i j)" for m i j
    by (induction m i j rule: seek_used.induct) (auto intro!: quiet no_assert_rules)
  have "no_assert (compress m c k i j)" for m c k i j
    by (induction m c k i j rule: compress.induct) (auto intro!: zero used quiet no_assert_rules simp: swap_struct_def)
  then show ?thesis unfolding mark_dead_clients_in_group_def split_beta by (intro mark no_assert_rules no_assert_simps)
qed

lemma signal_asserts:
  assumes "fits s" "timers s t = Some k"
  shows "no_assert (handle_timeout_real s masked (kt_signal k) (kt_sival k))"
proof -
  have live: "no_assert (bindE (get_group_node_by_timerid s (kt_sival k) None) f)"
    if "no_assert (f None)" "\<And>gp g. groups s gp = Some g \<Longrightarrow> signal_fits (kt_signal k) (fsm_state g) (moderator_client g)
      \<Longrightarrow> no_assert (f (Some gp))" for f
  proof (rule no_assert_bindI, rule quiet)
    fix gpo assume "get_group_node_by_timerid s (kt_sival k) None = Inr gpo"
    with that live_timer_group [OF assms] show "no_assert (f gpo)" by (cases gpo) auto
  qed
  have signal: "no_assert (case Some gp of None \<Rightarrow> h | Some gp \<Rightarrow> bindE (grp s gp) (\<lambda>g. case kt_signal k of
        MOD_SEL_TIMEOUT \<Rightarrow> if fsm_state g = MODERATOR_SELECTED then Inl AssertFail else moderator_selection s gp
      | MOD_RSP_TIMEOUT \<Rightarrow> bindE (b gp g) (\<lambda>s1. if c g then Inr s1 else if fsm_state g = MODERATOR_SELECTED then f1 gp g s1
          else if fsm_state g = GROUP_TASK_IN_PROGRESS then f2 gp g s1 else Inl AssertFail)))"
    if "groups s gp = Some g" "signal_fits (kt_signal k) (fsm_state g) (moderator_client g)"
      "\<And>gp g. no_assert (b gp g)" "\<And>gp g s1. no_assert (f2 gp g s1)" for gp g h b c f1 f2
    using that by (cases "kt_signal k") (auto intro!: no_assert_rules quiet)
  show ?thesis
    unfolding handle_timeout_real_def Let_def split_beta
    by (rule no_assert_ifI, simp, rule live, simp add: no_assert_bindI quiet, rule signal, assumption, assumption)
      (rule quiet no_assert_rules no_assert_simps)+
qed

section \<open>Properties\<close>

text \<open>A run of the server: group \<open>G1\<close>, a client that joins it, a task given to the group.\<close>

definition demo_boot :: server_info where
  "demo_boot = demo_server\<lparr>groups := Map.empty, server_list := []\<rparr>"

definition demo_member :: pdu_t where
  "demo_member = \<lparr>peer_addr = demo_addr, pdu_msg = \<lparr>msg_id = checkpoint_req,
     idv = Checkpoint_req \<lparr>cp_chkpoint_type = ADD_CHECKPOINT, cp_num_groups = 1, cp_group_ips =
       [zero_saddr\<lparr>ls_sin_family := AF_INET, ls_sin_port := 80, ls_s_addr := 5, ls_group_name := Some ''G1''\<rparr>], cp_capability = 4\<rparr>\<rparr>\<rparr>"

definition demo_run :: "server_info result option" where
  "demo_run = (case ADD_GROUP_IN_LL (allocate_server_info demo_boot) ''G1'' \<lparr>sin_family = AF_INET, sin_port = 90, s_addr = 9\<rparr> 90 of
     Inl e \<Rightarrow> Some (Inl e)
   | Inr s1 \<Rightarrow> map_option (\<lambda>r. bindE r (\<lambda>s2.
       server_stdin_data (\<lambda>_. 0) (s2\<lparr>clock := 5, stamp := ''noon'', files := [''data'' \<mapsto> [49, 10]]\<rparr>)
         (''task prime group G1 file data'' @ [CHR 0x0A])))
       (serve s1 demo_member))"

lemma demo_run_timer:
  "case demo_run of Some (Inr s) \<Rightarrow> timers s 1 = Some \<lparr>kt_signal = MOD_SEL_TIMEOUT, kt_sival = 2, kt_interval = 3, kt_recurring = False\<rparr> | _ \<Rightarrow> False"
  by code_simp

lemma demo_boot_reachable: "srv_reachable ia (allocate_server_info demo_boot)"
  by (rule started) (simp_all add: demo_boot_def demo_server_def)

lemma demo_boot_fresh: "groups (allocate_server_info demo_boot) (next_ptr (allocate_server_info demo_boot)) = None"
  by (simp add: demo_boot_def allocate_server_info_def allocate_mcast_group_list_def)

lemma demo_run_reachable:
  assumes "demo_run = Some (Inr s)"
  shows "srv_reachable (\<lambda>_. 0) s"
proof -
  obtain s1 where s1: "ADD_GROUP_IN_LL (allocate_server_info demo_boot) ''G1'' \<lparr>sin_family = AF_INET, sin_port = 90, s_addr = 9\<rparr> 90 = Inr s1"
    using assms by (auto simp: demo_run_def split: sum.splits)
  with assms obtain r where r: "serve s1 demo_member = Some r"
    "bindE r (\<lambda>s2. server_stdin_data (\<lambda>_. 0) (s2\<lparr>clock := 5, stamp := ''noon'', files := [''data'' \<mapsto> [49, 10]]\<rparr>)
         (''task prime group G1 file data'' @ [CHR 0x0A])) = Inr s"
    by (auto simp: demo_run_def)
  then obtain s2 where s2: "r = Inr s2" by (auto simp: bindE_eq_Inr)
  have "srv_reachable (\<lambda>_. 0) s1" by (rule stepped [OF demo_boot_reachable configured [OF demo_boot_fresh s1]])
  moreover have "results_expected s1 demo_member" by (simp add: results_expected_def demo_member_def)
  ultimately have "srv_reachable (\<lambda>_. 0) s2" using r(1) s2 by (blast intro: stepped served)
  then show ?thesis using r(2) s2 by (auto intro: stepped elapsed commanded)
qed

lemma demo_pending_reachable:
  "\<exists>s. srv_reachable (\<lambda>_. 0) s \<and> timers s 1 = Some \<lparr>kt_signal = MOD_SEL_TIMEOUT, kt_sival = 2, kt_interval = 3, kt_recurring = False\<rparr>"
  using demo_run_timer demo_run_reachable by (auto split: option.splits sum.splits)

text \<open>The client answers and becomes the moderator.\<close>

definition demo_answer :: pdu_t where
  "demo_answer = \<lparr>peer_addr = demo_addr, pdu_msg = \<lparr>msg_id = echo_response,
     idv = Echo_resp \<lparr>er_status = 11, er_group_name = Some ''G1''\<rparr>\<rparr>\<rparr>"

definition demo_selected :: "server_info result option" where
  "demo_selected = (case demo_run of Some (Inr s) \<Rightarrow> handle_echo_response s demo_answer | _ \<Rightarrow> None)"

lemma demo_selected_state:
  "case demo_selected of Some (Inr s) \<Rightarrow> map_option fsm_state (groups s 2) = Some MODERATOR_SELECTED \<and>
      get_group_node_by_name s ''G1'' None = Inr (Some 2) | _ \<Rightarrow> False"
  by code_simp

lemma demo_selected_reachable:
  "\<exists>s g. srv_reachable (\<lambda>_. 0) s \<and> groups s 2 = Some g \<and> fsm_state g = MODERATOR_SELECTED \<and>
      get_group_node_by_name s ''G1'' None = Inr (Some 2)"
proof -
  obtain s where s: "demo_selected = Some (Inr s)" "map_option fsm_state (groups s 2) = Some MODERATOR_SELECTED"
      "get_group_node_by_name s ''G1'' None = Inr (Some 2)"
    using demo_selected_state by (auto split: option.splits sum.splits)
  then obtain s1 where s1: "demo_run = Some (Inr s1)" "handle_echo_response s1 demo_answer = Some (Inr s)"
    by (auto simp: demo_selected_def split: option.splits sum.splits)
  have "serve s1 demo_answer = Some (Inr s)"
    using s1(2) by (simp add: serve_def demo_answer_def server_func_handler_def run_handler_def)
  then have "srv_reachable (\<lambda>_. 0) s"
    by (intro stepped [OF demo_run_reachable [OF s1(1)]] served) (simp_all add: results_expected_def demo_answer_def)
  with s show ?thesis by auto
qed

text \<open>
  What the invariant says of a timer: the group it belongs to, and how its signal fits the
  state of the group.
\<close>

lemma timer_matches_group:
  assumes "srv_reachable inet_addr s" "timers s t = Some k"
  shows "\<exists>g. groups s (kt_sival k) = Some g \<and> timer_id g = t \<and>
    (case kt_signal k of
       MOD_SEL_TIMEOUT \<Rightarrow> fsm_state g = MODERATOR_SELECTION_PENDING \<or> fsm_state g = TASK_IN_PROGRESS_MOD_SEL_PEND
     | MOD_RSP_TIMEOUT \<Rightarrow> fsm_state g = GROUP_TASK_IN_PROGRESS \<and> moderator_client g \<noteq> None)"
proof -
  obtain v ts n where v: "tview s = (v, ts, n)" using tview_split by blast
  have "timers_fit (v, ts, n)" using fits_reachable [OF assms(1)] v by (simp add: fits_def)
  then obtain g where "groups s (kt_sival k) = Some g" "timer_id g = t" "signal_fits (kt_signal k) (fsm_state g) (moderator_client g)"
    using timers_fit_timer [of v ts n t k] assms(2) v tview_groups_Some [OF v] by (fastforce simp: gv_def tview_def)
  then show ?thesis by (cases "kt_signal k") auto
qed

text \<open>
  The assertions of the signal handler hold whenever an existing timer expires.
\<close>

theorem signal_assertions_hold:
  assumes "srv_reachable inet_addr s" "timers s t = Some k"
  shows "handle_timeout_real s masked (kt_signal k) (kt_sival k) \<noteq> Inl AssertFail"
  using signal_asserts [OF fits_reachable [OF assms(1)] assms(2)] by (simp add: no_assert_def)

lemma signal_assertions_hold_witness:
  "\<exists>s. srv_reachable (\<lambda>_. 0) s \<and> handle_timeout_real s False MOD_SEL_TIMEOUT 2 \<noteq> Inl AssertFail"
  using demo_pending_reachable signal_assertions_hold by fastforce

text \<open>
  C23: in the states reachable while results arrive only when expected
  (\<open>results_expected\<close>): while the server waits for the chosen moderator to accept, the
  group has no timer, and a task given to the group is ignored, so that neither a timer nor
  another command frees the group of a moderator that never answers.
\<close>

theorem no_timer_while_selected:
  assumes "srv_reachable inet_addr s" "groups s p = Some g" "fsm_state g = MODERATOR_SELECTED"
    "get_group_node_by_name s nm None = Inr (Some p)"
  shows "(\<nexists>t k. timers s t = Some k \<and> kt_sival k = p) \<and> assign_task s (Some nm) kind filename format = Inr s"
proof -
  obtain v ts n where v: "tview s = (v, ts, n)" using tview_split by blast
  have fit: "timers_fit (v, ts, n)" using fits_reachable [OF assms(1)] v by (simp add: fits_def)
  note grp = timers_fit_group [OF fit groups_tview [OF v assms(2)]]
  then have "timer_id g = 0" "moderator_client g \<noteq> None" using assms(3) by auto
  moreover have "ts = timers s" using v by (simp add: tview_def)
  ultimately show ?thesis
    using timers_fit_timer [OF fit] groups_tview [OF v assms(2)] assms(2,4)
    by (fastforce simp: assign_task_def split: option.split)
qed

lemma no_timer_while_selected_witness:
  "\<exists>s. srv_reachable (\<lambda>_. 0) s \<and> (\<nexists>t k. timers s t = Some k \<and> kt_sival k = 2) \<and>
     assign_task s (Some ''G1'') 1 ''data'' 0 = Inr s"
  using demo_selected_reachable no_timer_while_selected by blast

end
