(* ===== verification/ClientPrime.thy ===== *)
theory ClientPrime
  imports CPrelude
begin

text \<open>
  \<open>is_prime\<close> of \<open>src/src/client.c\<close>: trial division up to \<open>(unsigned long)sqrt(number)\<close>.
  The number is rounded to a double, its square root rounded to a double and truncated;
  both roundings are modelled (to nearest, ties to even), and neither makes the answer
  wrong for any 64-bit number.
\<close>

section \<open>Bits and integer square roots\<close>

fun bits :: "nat \<Rightarrow> nat" where
  "bits n = (if n = 0 then 0 else Suc (bits (n div 2)))"

declare bits.simps [simp del]

lemma bits_upper: "n < 2 ^ bits n"
proof (induction n rule: bits.induct)
  case (1 n)
  show ?case
  proof (cases "n = 0")
    case False
    then have "n div 2 < 2 ^ bits (n div 2)" by (rule 1)
    then have "n < 2 * 2 ^ bits (n div 2)" by linarith
    then show ?thesis using False by (simp add: bits.simps [of n])
  qed simp
qed

lemma bits_lower: "0 < n \<Longrightarrow> 2 ^ (bits n - 1) \<le> n"
proof (induction n rule: bits.induct)
  case (1 n)
  show ?case
  proof (cases "n div 2 = 0")
    case True
    then show ?thesis using 1(2) by (subst bits.simps) (simp add: bits.simps [of 0])
  next
    case False
    then have ih: "2 ^ (bits (n div 2) - 1) \<le> n div 2" using 1 by simp
    have "bits (n div 2) = Suc (bits (n div 2) - 1)" using False by (subst (1 2) bits.simps) simp
    then have "(2 :: nat) ^ bits (n div 2) = 2 * 2 ^ (bits (n div 2) - 1)" by (metis power_Suc)
    also have "\<dots> \<le> n" using ih by linarith
    finally show ?thesis using 1(2) by (subst bits.simps) simp
  qed
qed

lemma bits_le: "n < 2 ^ k \<Longrightarrow> bits n \<le> k"
proof (rule ccontr)
  assume n: "n < 2 ^ k" "\<not> bits n \<le> k"
  then have "0 < n" by (auto simp: bits.simps [of 0] intro: Nat.gr0I)
  then have "2 ^ (bits n - 1) \<le> n" by (rule bits_lower)
  moreover have "(2 :: nat) ^ k \<le> 2 ^ (bits n - 1)" using n(2) by (intro power_increasing) auto
  ultimately show False using n(1) by linarith
qed

fun isqrt :: "nat \<Rightarrow> nat" where
  "isqrt m = (if m = 0 then 0 else let r = 2 * isqrt (m div 4) in if (r + 1) * (r + 1) \<le> m then r + 1 else r)"

declare isqrt.simps [simp del]

lemma isqrt_bounds: "isqrt m * isqrt m \<le> m \<and> m < (isqrt m + 1) * (isqrt m + 1)"
proof (induction m rule: isqrt.induct)
  case (1 m)
  show ?case
  proof (cases "m = 0")
    case True
    then show ?thesis by (simp add: isqrt.simps)
  next
    case False
    define q where "q = isqrt (m div 4)"
    have ih: "q * q \<le> m div 4" "m div 4 < (q + 1) * (q + 1)" using 1 False by (simp_all add: q_def)
    have lo: "4 * (q * q) \<le> m" using ih(1) by linarith
    have "m div 4 + 1 \<le> (q + 1) * (q + 1)" using ih(2) by linarith
    then have hi: "m < 4 * ((q + 1) * (q + 1))" using mod_less_divisor [of 4 m] div_mult_mod_eq [of m 4] by linarith
    have "isqrt m = (if (2 * q + 1) * (2 * q + 1) \<le> m then 2 * q + 1 else 2 * q)"
      using False by (subst isqrt.simps) (simp add: q_def Let_def)
    then show ?thesis using lo hi by (auto simp: algebra_simps)
  qed
qed

lemma isqrt_ge: "j * j \<le> m \<Longrightarrow> j \<le> isqrt m"
  using isqrt_bounds [of m] by (metis Suc_eq_plus1 le_trans less_Suc_eq_le linorder_not_le mult_le_mono)

section \<open>The square root of the C library\<close>

text \<open>Conversion to a double: 53 bits are kept, rounding to nearest, ties to even.\<close>

definition double_of :: "nat \<Rightarrow> nat" where
  "double_of n =
     (if bits n \<le> 53 then n
      else let e = bits n - 53; q = n div 2 ^ e; r = n mod 2 ^ e; h = 2 ^ (e - 1)
           in (if h < r \<or> (r = h \<and> odd q) then q + 1 else q) * 2 ^ e)"

text \<open>
  The truncated square root of \<open>m\<close>: the root is rounded up to the next integer \<open>k1\<close> when
  it is at least half way between \<open>k1\<close> and the double below, which is \<open>2 ^ - s\<close> less.
\<close>

definition sqrt_trunc :: "nat \<Rightarrow> nat" where
  "sqrt_trunc m =
     (let k1 = isqrt m + 1; l = bits k1 - 1; s = (if k1 = 2 ^ l then 54 - l else 53 - l)
      in if (k1 * 2 ^ s - 1) * (k1 * 2 ^ s - 1) \<le> m * (2 ^ s * 2 ^ s) then k1 else isqrt m)"

definition sqrt_ulong :: "u64 \<Rightarrow> u64" where
  "sqrt_ulong n = of_nat (sqrt_trunc (double_of (unat n)))"

fun trial :: "u64 \<Rightarrow> u64 \<Rightarrow> nat \<Rightarrow> bool" where
  "trial number j 0 = True"
| "trial number j (Suc k) = (if number mod j = 0 then False else trial number (j + 1) k)"

definition is_prime :: "u64 \<Rightarrow> bool" where
  "is_prime number = (if number < 2 then False else trial number 2 (unat (sqrt_ulong number) - 1))"

section \<open>The root is large enough\<close>

lemma bits_range: "0 < n \<Longrightarrow> \<exists>l. bits n = Suc l \<and> 2 ^ l \<le> n \<and> n < 2 ^ Suc l"
  using bits_lower [of n] bits_upper [of n] by (cases "bits n") (auto simp: bits.simps [of n] split: if_splits)

lemma double_of_bounds:
  assumes "53 < bits n" "e = bits n - 53"
  shows "n \<le> double_of n + 2 ^ (e - 1)" "double_of n \<le> n + 2 ^ (e - 1)" "2 ^ (52 + e) \<le> double_of n"
proof -
  define q r where "q = n div 2 ^ e" and "r = n mod 2 ^ e"
  have e: "0 < e" "bits n = 53 + e" using assms by auto
  have h: "(2 :: nat) ^ e = 2 * 2 ^ (e - 1)" using e(1) by (cases e) auto
  have n: "n = q * 2 ^ e + r" "r < 2 ^ e" unfolding q_def r_def by (rule div_mult_mod_eq [symmetric]) simp
  have d: "double_of n = (if 2 ^ (e - 1) < r \<or> (r = 2 ^ (e - 1) \<and> odd q) then q + 1 else q) * 2 ^ e"
    using assms by (simp add: double_of_def Let_def q_def r_def)
  show "n \<le> double_of n + 2 ^ (e - 1)" "double_of n \<le> n + 2 ^ (e - 1)"
    unfolding d h using n [unfolded h] by (auto simp: algebra_simps)
  have "0 < n" using assms(1) by (intro Nat.gr0I) (simp add: bits.simps [of 0])
  then have "2 ^ (52 + e) \<le> n" using bits_lower [of n] e(2) by simp
  then have "2 ^ 52 * 2 ^ e \<le> n" by (simp only: power_add)
  moreover have "(q + 1) * 2 ^ e = q * 2 ^ e + 2 ^ e" by simp
  ultimately have "2 ^ 52 * 2 ^ e < (q + 1) * 2 ^ e" using n by linarith
  then have "2 ^ 52 < q + 1" by (metis mult_less_cancel2)
  then have "2 ^ 52 * 2 ^ e \<le> q * 2 ^ e" by simp
  then show "2 ^ (52 + e) \<le> double_of n" by (auto simp: d power_add)
qed

text \<open>The candidate is reached when its square is missed by little.\<close>

lemma half_way:
  fixes j m x t :: nat
  assumes "j * j \<le> m + x" "x * t < 2 * j" "0 < t" "0 < j"
  shows "(j * t - 1) * (j * t - 1) \<le> m * (t * t)"
proof -
  have "int j * int j \<le> int m + int x" using assms(1) by (metis of_nat_add of_nat_le_iff of_nat_mult)
  then have "int j * int j * (int t * int t) \<le> (int m + int x) * (int t * int t)" by (intro mult_right_mono) auto
  moreover have "int x * int t + 1 \<le> 2 * int j" using assms(2) by (metis Suc_eq_plus1 Suc_leI of_nat_1 of_nat_add of_nat_le_iff of_nat_mult of_nat_numeral)
  then have "(int x * int t + 1) * int t \<le> 2 * int j * int t" by (intro mult_right_mono) auto
  moreover have "1 \<le> int t" using assms(3) by simp
  ultimately have "(int j * int t - 1) * (int j * int t - 1) \<le> int m * (int t * int t)"
    by (simp add: algebra_simps)
  moreover have "int (j * t - 1) = int j * int t - 1" using assms(3,4) by (simp add: of_nat_diff Suc_leI)
  ultimately show ?thesis by (metis of_nat_le_iff of_nat_mult)
qed

lemma sqrt_trunc_isqrt: "isqrt m \<le> sqrt_trunc m" "sqrt_trunc m \<le> isqrt m + 1"
  by (simp_all add: sqrt_trunc_def Let_def)

lemma sqrt_trunc_up:
  assumes "isqrt m + 1 = j" "j * j \<le> m + 2 ^ (e - 1)" "2 ^ (52 + e) < j * j" "j < 2 ^ 32" "0 < e" "0 < j"
  shows "j \<le> sqrt_trunc m"
proof -
  obtain l where l: "bits j = Suc l" "2 ^ l \<le> j" "j < 2 ^ Suc l" using bits_range [OF assms(6)] by auto
  have "bits j \<le> 32" by (rule bits_le [OF assms(4)])
  then have l31: "l \<le> 31" using l(1) by simp
  define s where "s = (if j = 2 ^ l then 54 - l else 53 - l)"
  have "(2 :: nat) ^ (e - 1) * 2 ^ s < 2 * j"
  proof (cases "j = 2 ^ l")
    case True
    then have "(2 :: nat) ^ (52 + e) < 2 ^ (2 * l)" using assms(3) by (simp add: power_add [symmetric] mult_2)
    then have "52 + e < 2 * l" by (simp only: power_strict_increasing_iff)
    then have "(2 :: nat) ^ (e - 1 + s) \<le> 2 ^ l" using True assms(5) l31 by (intro power_increasing) (auto simp: s_def)
    also have "\<dots> < 2 * j" using True assms(6) by simp
    finally show ?thesis by (simp add: power_add)
  next
    case False
    then have "e - 1 + s + l = 52 + e" using l31 assms(5) by (simp add: s_def)
    then have "(2 :: nat) ^ (e - 1) * 2 ^ s * 2 ^ l = 2 ^ (52 + e)" by (simp only: power_add [symmetric])
    also have "\<dots> < j * j" by (rule assms(3))
    also have "\<dots> < j * 2 ^ Suc l" using l(3) assms(6) by simp
    finally have "(2 :: nat) ^ (e - 1) * 2 ^ s * 2 ^ l < (2 * j) * 2 ^ l" by (simp add: algebra_simps)
    then show ?thesis by (metis mult_less_cancel2)
  qed
  from half_way [OF assms(2) this _ assms(6)]
  have "(j * 2 ^ s - 1) * (j * 2 ^ s - 1) \<le> m * (2 ^ s * 2 ^ s)" by simp
  then show ?thesis unfolding sqrt_trunc_def Let_def assms(1) l(1) diff_Suc_1 s_def [symmetric] by simp
qed

lemma sqrt_trunc_ge:
  assumes "j * j \<le> n" "n < 2 ^ 64"
  shows "j \<le> sqrt_trunc (double_of n)"
proof (cases "j * j \<le> double_of n")
  case True
  then show ?thesis using isqrt_ge sqrt_trunc_isqrt(1) le_trans by blast
next
  case False
  then have b: "53 < bits n" using assms(1) by (cases "bits n \<le> 53") (auto simp: double_of_def)
  define e where "e = bits n - 53"
  note d = double_of_bounds [OF b e_def]
  have e: "0 < e" "e \<le> 11" using b bits_le [OF assms(2)] by (auto simp: e_def)
  then have x: "(2 :: nat) ^ (e - 1) \<le> 2 ^ 10" by (intro power_increasing) auto
  have big: "2 ^ (52 + e) < j * j" using d(3) False by linarith
  have "2 ^ 26 * 2 ^ 26 < j * j" using big e(1) power_increasing [of 52 "52 + e" "2 :: nat"] by simp
  then have j: "2 ^ 26 < j" by (metis linorder_not_le mult_le_mono)
  have "j < 2 ^ 32"
  proof (rule ccontr)
    assume "\<not> j < 2 ^ 32"
    then have "2 ^ 32 * 2 ^ 32 \<le> j * j" by (intro mult_le_mono) auto
    then show False using assms by simp
  qed
  moreover have "isqrt (double_of n) + 1 = j"
  proof (rule antisym)
    show "isqrt (double_of n) + 1 \<le> j" using isqrt_bounds [of "double_of n"] False
      by (metis Suc_eq_plus1 Suc_leI linorder_not_le mult_le_mono le_trans)
    obtain i where i: "j = Suc i" using j by (cases j) auto
    have "i * i + 2 ^ 10 \<le> j * j" using j by (simp add: i)
    then have "i * i \<le> double_of n" using assms(1) d(1) x by linarith
    then show "j \<le> isqrt (double_of n) + 1" using isqrt_ge [of i] i by simp
  qed
  moreover have "j * j \<le> double_of n + 2 ^ (e - 1)" using assms(1) d(1) by linarith
  ultimately show ?thesis using sqrt_trunc_up [of "double_of n" j e] big e(1) j by simp
qed

section \<open>The root is small enough\<close>

lemma sqrt_trunc_less:
  assumes "2 \<le> n" "n < 2 ^ 64"
  shows "sqrt_trunc (double_of n) < n"
proof (cases "n < 4")
  case True
  have "isqrt 2 = 1" "isqrt 3 = 1" "bits 2 = 2" "bits 3 = 2" "bits (Suc (Suc 0)) = 2"
    by (simp_all add: isqrt.simps [of 2] isqrt.simps [of 3] isqrt.simps [of 0] bits.simps [of 2] bits.simps [of 3]
        bits.simps [of 1] bits.simps [of "Suc 0"] bits.simps [of "Suc (Suc 0)"] bits.simps [of 0])
  then have "sqrt_trunc (double_of 2) < 2" "sqrt_trunc (double_of 3) < 3"
    by (simp_all add: sqrt_trunc_def double_of_def Let_def)
  moreover have "n = 2 \<or> n = 3" using True assms(1) by linarith
  ultimately show ?thesis by blast
next
  case False
  let ?k = "isqrt (double_of n)"
  have k: "?k * ?k \<le> double_of n" using isqrt_bounds by blast
  have "?k + 1 < n"
  proof (rule ccontr)
    assume "\<not> ?k + 1 < n"
    then have "(n - 1) * (n - 1) \<le> double_of n" using k mult_le_mono [of "n - 1" ?k "n - 1" ?k] by linarith
    moreover have "(n - 1) * (n - 1) = n * n - 2 * n + 1" using assms(1) by (cases n) (auto simp: algebra_simps)
    moreover have "4 * n \<le> n * n" using False by simp
    ultimately have le: "2 * n + 1 \<le> double_of n" by linarith
    show False
    proof (cases "bits n \<le> 53")
      case True
      then show False using le assms(1) by (simp add: double_of_def)
    next
      case False
      then have b: "53 < bits n" by simp
      have "(2 :: nat) ^ (bits n - 53 - 1) \<le> 2 ^ (bits n - 1)" by (intro power_increasing) auto
      then show False using double_of_bounds(2) [OF b refl] bits_lower [of n] assms(1) le by linarith
    qed
  qed
  then show ?thesis using sqrt_trunc_isqrt(2) [of "double_of n"] by linarith
qed

section \<open>Trial division decides primality\<close>

lemma trial_iff:
  "unat j + k \<le> 2 ^ 64 \<Longrightarrow> trial number j k \<longleftrightarrow> (\<forall>i. unat j \<le> i \<and> i < unat j + k \<longrightarrow> unat number mod i \<noteq> 0)"
proof (induction k arbitrary: j)
  case (Suc k)
  have z: "number mod j = 0 \<longleftrightarrow> unat number mod unat j = 0" by (simp add: unat_eq_zero [symmetric] unat_mod del: unat_eq_zero)
  show ?case
  proof (cases "k = 0")
    case True
    then show ?thesis using z by (auto simp: less_Suc_eq_le dest: le_antisym)
  next
    case False
    then have "unat j + 1 < 2 ^ 64" using Suc.prems by simp
    then have j1: "unat (j + 1) = unat j + 1" by (simp add: unat_word_ariths)
    have split: "(\<forall>i. unat j \<le> i \<and> i < unat j + Suc k \<longrightarrow> P i) \<longleftrightarrow> P (unat j) \<and> (\<forall>i. unat j + 1 \<le> i \<and> i < unat j + 1 + k \<longrightarrow> P i)" for P :: "nat \<Rightarrow> bool"
      by (auto simp: Suc_le_eq) (metis le_neq_implies_less)
    show ?thesis
      unfolding split [of "\<lambda>i. unat number mod i \<noteq> 0"] using Suc.IH [of "j + 1"] Suc.prems z j1 by simp
  qed
qed simp

text \<open>
  C31: \<open>is_prime\<close> answers yes for the prime numbers below 2 to the 64 and no others,
  although the bound of its loop is computed in floating point.
\<close>

theorem is_prime_correct:
  "is_prime number \<longleftrightarrow> 1 < unat number \<and> (\<forall>d. d dvd unat number \<longrightarrow> d = 1 \<or> d = unat number)"
proof (cases "number < 2")
  case True
  then have "unat number < 2" by (simp add: word_less_nat_alt)
  then show ?thesis using True by (simp add: is_prime_def)
next
  case False
  let ?n = "unat number" and ?r = "sqrt_trunc (double_of (unat number))"
  have n: "2 \<le> ?n" "?n < 2 ^ 64" using False unsigned_less [of number, where ?'a = nat] by (simp_all add: word_less_nat_alt)
  have r: "unat (sqrt_ulong number) = ?r" "?r < ?n" using sqrt_trunc_less [OF n] n(2) by (simp_all add: sqrt_ulong_def unat_of_nat)
  have tr: "is_prime number \<longleftrightarrow> (\<forall>i. 2 \<le> i \<and> i < 2 + (?r - 1) \<longrightarrow> ?n mod i \<noteq> 0)"
    using False r trial_iff [of 2 "?r - 1" number] n(2) by (simp add: is_prime_def)
  show ?thesis
  proof
    assume p: "is_prime number"
    have "d = 1 \<or> d = ?n" if "d dvd ?n" for d
    proof (rule ccontr)
      assume d: "\<not> (d = 1 \<or> d = ?n)"
      obtain c where c: "?n = d * c" using \<open>d dvd ?n\<close> by blast
      have "d \<noteq> 0" using c n(1) by (metis mult_0 not_numeral_le_zero)
      moreover have "c \<noteq> 0" using c n(1) by (metis mult_0_right not_numeral_le_zero)
      moreover have "c \<noteq> 1" using c d by auto
      ultimately have "d \<noteq> 0" "c \<noteq> 0" "c \<noteq> 1" by blast+
      then have dc: "2 \<le> d" "2 \<le> c" using d by linarith+
      define j where "j = min d c"
      have j: "2 \<le> j" "j dvd ?n" using dc c by (auto simp: j_def min_def)
      have "j * j \<le> ?n" unfolding c j_def by (intro mult_le_mono) auto
      then have "j \<le> ?r" by (rule sqrt_trunc_ge [OF _ n(2)])
      then show False using p tr j by (auto simp: dvd_eq_mod_eq_0)
    qed
    with n(1) show "1 < ?n \<and> (\<forall>d. d dvd ?n \<longrightarrow> d = 1 \<or> d = ?n)" by auto
  next
    assume p: "1 < ?n \<and> (\<forall>d. d dvd ?n \<longrightarrow> d = 1 \<or> d = ?n)"
    have "?n mod i \<noteq> 0" if "2 \<le> i" "i < 2 + (?r - 1)" for i
    proof
      assume "?n mod i = 0"
      then have "i = 1 \<or> i = ?n" using p by (simp add: dvd_eq_mod_eq_0)
      then show False using that r(2) by linarith
    qed
    then show "is_prime number" using tr by blast
  qed
qed

lemma is_prime_correct_witness: "\<not> is_prime 91"
proof -
  have "unat (91 :: u64) = 7 * 13" by simp
  then have "7 dvd unat (91 :: u64)" "7 \<noteq> unat (91 :: u64)" by simp_all
  then show ?thesis unfolding is_prime_correct by (metis numeral_eq_one_iff semiring_norm(86))
qed

end
