(* ===== verification/ClientCompute.thy ===== *)
theory ClientCompute
  imports ClientPrime TaskFiles
begin

text \<open>
  The computations a client runs on its share of a task (\<open>src/src/client.c\<close>): the prime
  numbers of a file, the sum of its numbers, the sum of its prime numbers.  A file has one
  number per line; it is read through a mapping, which ends with the last page.
\<close>

section \<open>Reading numbers\<close>

text \<open>\<open>atol\<close>: white space, a sign, digits; the value is kept within a \<open>long\<close>.\<close>

definition is_space :: "char \<Rightarrow> bool" where
  "is_space c = (c \<in> set [CHR '' '', CHR 0x09, CHR 0x0A, CHR 0x0B, CHR 0x0C, CHR 0x0D])"

definition is_digit :: "char \<Rightarrow> bool" where
  "is_digit c = (c \<in> set ''0123456789'')"

definition digit_val :: "char \<Rightarrow> nat" where
  "digit_val c = of_char c - 48"

fun digits_val :: "nat \<Rightarrow> string \<Rightarrow> nat" where
  "digits_val acc [] = acc"
| "digits_val acc (c # cs) = (if is_digit c then digits_val (10 * acc + digit_val c) cs else acc)"

text \<open>The sign and what follows it.\<close>

definition atol_sign :: "string \<Rightarrow> bool \<times> string" where
  "atol_sign s = (case dropWhile is_space s of
     [] \<Rightarrow> (False, [])
   | c # cs \<Rightarrow> if c = CHR ''-'' then (True, cs) else if c = CHR ''+'' then (False, cs) else (False, c # cs))"

definition atol :: "string \<Rightarrow> u64" where
  "atol s = (let (neg, t) = atol_sign s; v = int (digits_val 0 t)
     in if neg then of_int (max (- (2 ^ 63)) (- v)) else of_int (min (2 ^ 63 - 1) v))"

text \<open>In memory: reading past the mapping is a fault.\<close>

definition atol_mem :: "u8 list \<Rightarrow> u64 result" where
  "atol_mem bs = (let s = map u8_char bs
     in if dropWhile is_digit (snd (atol_sign s)) = [] then Inl OutOfBounds else Inr (atol s))"

text \<open>The length of the line that starts here.\<close>

fun scan_line :: "u8 list \<Rightarrow> nat result" where
  "scan_line [] = Inl OutOfBounds"
| "scan_line (b # bs) = (if b = 10 then Inr 0 else bindE (scan_line bs) (\<lambda>n. Inr (Suc n)))"

section \<open>The loops\<close>

text \<open>
  \<open>k\<close> lines are left, the next one starts at \<open>len\<close>; every tenth of the lines the progress
  is printed, for which the line number is divided by \<open>x\<close>, a tenth of their number.
\<close>

fun sum_loop :: "(u64 \<Rightarrow> bool) \<Rightarrow> u8 list \<Rightarrow> int \<Rightarrow> nat \<Rightarrow> nat \<Rightarrow> u64 \<Rightarrow> u64 result" where
  "sum_loop sel src x 0 len tot = Inr tot"
| "sum_loop sel src x (Suc k) len tot =
     bindE (scan_line (drop len src)) (\<lambda>n.
     bindE (atol_mem (drop len src)) (\<lambda>number.
     if x = 0 then Inl DivByZero
     else sum_loop sel src x k (len + n + 1) (if sel number then tot + number else tot)))"

text \<open>\<open>fprintf(fptr, "%10u")\<close> of an \<open>unsigned long\<close>: its low 32 bits, in ten columns.\<close>

definition print_10u :: "u64 \<Rightarrow> string" where
  "print_10u number = (let d = dec_str (unat (ucast number :: u32)) in replicate (10 - length d) (CHR '' '') @ d)"

fun prime_loop :: "u8 list \<Rightarrow> int \<Rightarrow> nat \<Rightarrow> nat \<Rightarrow> u8 list \<Rightarrow> u8 list result" where
  "prime_loop src x 0 len out = Inr out"
| "prime_loop src x (Suc k) len out =
     bindE (scan_line (drop len src)) (\<lambda>n.
     bindE (atol_mem (drop len src)) (\<lambda>number.
     let out1 = (if is_prime number then out @ map char_u8 (print_10u number) @ [10] else out)
     in if x = 0 then Inl DivByZero else prime_loop src x k (len + n + 1) out1))"

section \<open>The three computations\<close>

text \<open>The number of lines \<open>wc -l\<close> counts, and a tenth of it as the code divides an \<open>int\<close>.\<close>

definition line_count :: "u8 list \<Rightarrow> u32" where
  "line_count b = of_nat (length (List.filter (\<lambda>x. x = 10) b))"

definition tenth :: "u32 \<Rightarrow> int" where
  "tenth c = (if sint c < 0 then - ((- sint c) div 10) else sint c div 10)"

text \<open>An empty file ends the process.\<close>

definition sum_of_file :: "(u64 \<Rightarrow> bool) \<Rightarrow> (string \<rightharpoonup> u8 list) \<Rightarrow> string \<Rightarrow> string result" where
  "sum_of_file sel fls file_path =
     (case fls file_path of
        None \<Rightarrow> Inl ProcExit
      | Some b \<Rightarrow>
          if b = [] then Inl ProcExit
          else bindE (sum_loop sel (mapped b) (tenth (line_count b)) (unat (line_count b)) 0 0) (\<lambda>tot.
               Inr (dec_str (unat tot))))"

definition find_sum :: "(string \<rightharpoonup> u8 list) \<Rightarrow> string \<Rightarrow> string result" where
  "find_sum fls file_path = sum_of_file (\<lambda>_. True) fls file_path"

definition find_prime_sum :: "(string \<rightharpoonup> u8 list) \<Rightarrow> string \<Rightarrow> string result" where
  "find_prime_sum fls file_path = sum_of_file is_prime fls file_path"

text \<open>
  The result file is created before the loop; \<open>can_open\<close> says whether \<open>fopen\<close> succeeds.
  The new files and the path of the result, null when it could not be created.
\<close>

definition find_prime_numbers ::
  "(string \<rightharpoonup> u8 list) \<Rightarrow> bool \<Rightarrow> string \<Rightarrow> string \<Rightarrow> string \<Rightarrow> (string option \<times> (string \<rightharpoonup> u8 list)) result"
where
  "find_prime_numbers fls can_open gname task_fname file_path =
     (case fls file_path of
        None \<Rightarrow> Inl ProcExit
      | Some b \<Rightarrow>
          if b = [] then Inl AssertFail
          else let folder_path = ''/tmp/client/task_result/'' @ gname;
                   dst_file_path = folder_path @ ''/'' @ task_fname
               in if length folder_path \<ge> 120 \<or> length dst_file_path \<ge> 180 then Inl OutOfBounds
                  else if \<not> can_open then Inr (None, fls)
                  else bindE (prime_loop (mapped b) (tenth (line_count b)) (unat (line_count b)) 0 []) (\<lambda>out.
                       Inr (Some dst_file_path, fls(dst_file_path \<mapsto> out))))"

section \<open>Files of numbers\<close>

definition line_of :: "nat \<Rightarrow> u8 list" where
  "line_of n = map char_u8 (dec_str n) @ [10]"

definition lines_of :: "nat list \<Rightarrow> u8 list" where
  "lines_of ns = concat (map line_of ns)"

lemma lines_of_simps [simp]: "lines_of [] = []" "lines_of (n # ns) = line_of n @ lines_of ns"
  by (simp_all add: lines_of_def)

lemma digit_cases: "\<exists>k<10. digit d = ''0123456789'' ! k \<and> k = d mod 10"
  by (simp add: digit_def)

lemma digit_range: "k < 10 \<Longrightarrow> k = 0 \<or> k = 1 \<or> k = 2 \<or> k = 3 \<or> k = 4 \<or> k = 5 \<or> k = 6 \<or> k = 7 \<or> k = 8 \<or> k = (9 :: nat)"
  by presburger

lemma digit_facts [simp]:
  "is_digit (digit d)" "digit_val (digit d) = d mod 10" "\<not> is_space (digit d)" "digit d \<noteq> CHR ''-''" "digit d \<noteq> CHR ''+''"
  "char_u8 (digit d) \<noteq> 10" "u8_char (char_u8 (digit d)) = digit d"
  using digit_range [of "d mod 10"]
  by (auto simp: digit_def is_digit_def digit_val_def is_space_def char_u8_def u8_char_def char_of_eq_iff)

lemma newline_facts [simp]: "u8_char 10 = CHR 0x0A" "\<not> is_digit (CHR 0x0A)"
  by (simp_all add: u8_char_def char_of_eq_iff is_digit_def)

lemma dec_str_digits: "c \<in> set (dec_str n) \<Longrightarrow> \<exists>d. c = digit d"
proof (induction n rule: dec_str.induct)
  case (1 n)
  then show ?case by (subst (asm) (2) dec_str.simps) (auto split: if_splits)
qed

lemma digits_val_dec: "\<not> is_digit c \<Longrightarrow> digits_val acc (dec_str n @ c # t) = acc * 10 ^ length (dec_str n) + n"
proof -
  have app: "\<forall>c\<in>set ds. is_digit c \<Longrightarrow> digits_val acc (ds @ t) = digits_val (digits_val acc ds) t" for ds acc t
    by (induction ds arbitrary: acc) auto
  have all: "\<forall>c\<in>set (dec_str n). is_digit c" for n using dec_str_digits by fastforce
  have dec: "digits_val acc (dec_str n) = acc * 10 ^ length (dec_str n) + n" for acc n
  proof (induction n arbitrary: acc rule: dec_str.induct)
    case (1 n)
    show ?case
    proof (cases "n < 10")
      case True
      then show ?thesis by (simp add: dec_str.simps [of n])
    next
      case False
      then show ?thesis using 1 app [OF all] by (simp add: dec_str.simps [of n] algebra_simps)
    qed
  qed
  assume "\<not> is_digit c"
  then show ?thesis using app [OF all] dec by simp
qed

lemma dec_str_head: "\<exists>d cs. dec_str n = digit d # cs"
proof (induction n rule: dec_str.induct)
  case (1 n)
  show ?case
  proof (cases "n < 10")
    case True
    then show ?thesis by (simp add: dec_str.simps [of n]) blast
  next
    case False
    then show ?thesis using 1 by (auto simp: dec_str.simps [of n])
  qed
qed

lemma atol_sign_dec: "atol_sign (dec_str n @ t) = (False, dec_str n @ t)"
  using dec_str_head [of n] by (auto simp: atol_sign_def)

text \<open>\<open>atol\<close> reads back what \<open>%lu\<close> prints, up to the largest \<open>long\<close>.\<close>

lemma atol_dec: "\<not> is_digit c \<Longrightarrow> n < 2 ^ 63 \<Longrightarrow> atol (dec_str n @ c # t) = of_nat n"
  using digits_val_dec [of c 0 n t] by (simp add: atol_def atol_sign_dec)

lemma digits_val_end: "\<not> is_digit c \<Longrightarrow> digits_val acc (ds @ [c]) = digits_val acc ds"
  by (induction ds arbitrary: acc) auto

lemma atol_dec_str: "n < 2 ^ 63 \<Longrightarrow> atol (dec_str n) = of_nat n"
  using digits_val_dec [of "CHR 0x0A" 0 n "[]"] digits_val_end [of "CHR 0x0A" 0 "dec_str n"] atol_sign_dec [of n "[]"]
  by (simp add: atol_def)

lemma scan_line_of: "scan_line (line_of n @ bs) = Inr (length (dec_str n))"
proof -
  have "10 \<notin> set ds \<Longrightarrow> scan_line (ds @ 10 # bs) = Inr (length ds)" for ds
    by (induction ds) auto
  moreover have "10 \<notin> set (map char_u8 (dec_str n))" using dec_str_digits by force
  ultimately show ?thesis by (simp add: line_of_def)
qed

lemma atol_mem_line_of:
  assumes "n < 2 ^ 63"
  shows "atol_mem (line_of n @ bs) = Inr (of_nat n)"
proof -
  have m: "map u8_char (map char_u8 (dec_str n)) = dec_str n"
    unfolding map_map comp_def by (rule map_idI) (use dec_str_digits in fastforce)
  have all: "\<forall>c\<in>set (dec_str n). is_digit c" using dec_str_digits by fastforce
  then have "dropWhile is_digit (dec_str n @ CHR 0x0A # t) = CHR 0x0A # t" for t
    by (simp add: dropWhile_append2)
  then show ?thesis
    using atol_dec [OF newline_facts(2) assms] m by (simp add: atol_mem_def line_of_def atol_sign_dec Let_def)
qed

lemma line_of_length: "length (line_of n) = length (dec_str n) + 1"
  by (simp add: line_of_def)

lemma sum_loop_lines:
  assumes "x \<noteq> 0" "\<forall>n\<in>set ns. n < 2 ^ 63"
  shows "sum_loop sel (pre @ lines_of ns @ post) x (length ns) (length pre) acc =
    Inr (acc + sum_list (map of_nat (filter (sel \<circ> of_nat) ns)))"
  using assms(2)
proof (induction ns arbitrary: pre acc)
  case (Cons n ns)
  have n: "n < 2 ^ 63" using Cons.prems by simp
  show ?case
    using Cons.IH [of "pre @ line_of n"] Cons.prems assms(1)
    by (simp add: scan_line_of atol_mem_line_of [OF n] line_of_length add.assoc)
qed simp

lemma prime_loop_lines:
  assumes "x \<noteq> 0" "\<forall>n\<in>set ns. n < 2 ^ 63"
  shows "prime_loop (pre @ lines_of ns @ post) x (length ns) (length pre) out =
    Inr (out @ concat (map (\<lambda>n. map char_u8 (print_10u (of_nat n)) @ [10]) (filter (is_prime \<circ> of_nat) ns)))"
  using assms(2)
proof (induction ns arbitrary: pre out)
  case (Cons n ns)
  have n: "n < 2 ^ 63" using Cons.prems by simp
  show ?case
    using Cons.IH [of "pre @ line_of n"] Cons.prems assms(1)
    by (simp add: scan_line_of atol_mem_line_of [OF n] line_of_length)
qed simp

lemma line_count_lines: "line_count (lines_of ns) = of_nat (length ns)"
proof -
  have "filter (\<lambda>x. x = 10) (map char_u8 (dec_str n)) = []" for n
    using dec_str_digits by (force simp: filter_empty_conv)
  then have "length (filter (\<lambda>x. x = 10) (lines_of ns)) = length ns"
    by (induction ns) (simp_all add: line_of_def)
  then show ?thesis by (simp add: line_count_def)
qed

lemma tenth_of_nat: "n < 2 ^ 31 \<Longrightarrow> tenth (of_nat n) = int (n div 10)"
  by (simp add: tenth_def signed_of_nat signed_take_bit_int_eq_self zdiv_int)

lemma lines_ne: "ns \<noteq> [] \<Longrightarrow> lines_of ns \<noteq> []"
  by (cases ns) (simp_all add: line_of_def)

lemma enough_lines:
  assumes "10 \<le> length ns" "length ns < 2 ^ 31"
  shows "tenth (line_count (lines_of ns)) \<noteq> 0" "unat (line_count (lines_of ns)) = length ns" "lines_of ns \<noteq> []"
proof -
  have t: "tenth (line_count (lines_of ns)) = int (length ns div 10)"
    unfolding line_count_lines by (rule tenth_of_nat [OF assms(2)])
  have "0 < length ns div 10" using assms(1) by (simp add: div_greater_zero_iff)
  then show "tenth (line_count (lines_of ns)) \<noteq> 0" unfolding t by linarith
  show "unat (line_count (lines_of ns)) = length ns"
    using assms(2) by (simp add: line_count_lines unat_of_nat)
  have "ns \<noteq> []" using assms(1) by (intro notI) simp
  then show "lines_of ns \<noteq> []" by (rule lines_ne)
qed

text \<open>The loop over a file of at least ten numbers.\<close>

lemma sum_of_file_lines:
  assumes "fls f = Some (lines_of ns)" "10 \<le> length ns" "length ns < 2 ^ 31" "\<forall>n\<in>set ns. n < 2 ^ 63"
  shows "sum_of_file sel fls f = Inr (dec_str (sum_list (filter (sel \<circ> of_nat) ns) mod 2 ^ 64))"
proof -
  note x = enough_lines [OF assms(2,3)]
  have "(of_nat (sum_list ms) :: u64) = sum_list (map of_nat ms)" for ms
    by (induction ms) simp_all
  then have "unat (sum_list (map of_nat ms) :: u64) = sum_list ms mod 2 ^ 64" for ms
    by (simp only: \<open>\<And>ms. of_nat (sum_list ms) = sum_list (map of_nat ms)\<close> [symmetric]) (simp add: unat_of_nat)
  then show ?thesis
    using assms(1) x sum_loop_lines [OF x(1) assms(4), of sel "[]" _ 0]
    by (simp add: sum_of_file_def mapped_def)
qed

section \<open>Properties\<close>

text \<open>
  A client adds up the numbers of its file, and its prime numbers, modulo 2 to the 64
  and prints the result; the file has at least ten lines.
\<close>

theorem client_sums:
  assumes "fls f = Some (lines_of ns)" "10 \<le> length ns" "length ns < 2 ^ 31" "\<forall>n\<in>set ns. n < 2 ^ 63"
  shows "find_sum fls f = Inr (dec_str (sum_list ns mod 2 ^ 64)) \<and>
    find_prime_sum fls f = Inr (dec_str (sum_list (filter (\<lambda>n. is_prime (of_nat n)) ns) mod 2 ^ 64))"
  using sum_of_file_lines [where fls = fls and f = f and ns = ns] assms by (simp add: find_sum_def find_prime_sum_def comp_def)

lemma client_sums_witness:
  "find_sum [''f'' \<mapsto> lines_of [1, 2, 3, 4, 5, 6, 7, 8, 9, 10]] ''f'' = Inr (dec_str 55)"
  using client_sums [of "[''f'' \<mapsto> lines_of [1, 2, 3, 4, 5, 6, 7, 8, 9, 10]]" "''f''" "[1, 2, 3, 4, 5, 6, 7, 8, 9, 10]"] by simp

text \<open>
  C32: the result file of a search for prime numbers has the prime numbers of the file in
  their order, each in ten columns; of larger numbers the low 32 bits are printed.
\<close>

theorem client_primes:
  assumes "fls f = Some (lines_of ns)" "10 \<le> length ns" "length ns < 2 ^ 31" "\<forall>n\<in>set ns. n < 2 ^ 63"
    "length g < 10" "length t < 100"
  shows "find_prime_numbers fls True g t f =
    (let d = ''/tmp/client/task_result/'' @ g @ ''/'' @ t in
     Inr (Some d, fls(d \<mapsto> concat (map (\<lambda>n. map char_u8
       (replicate (10 - length (dec_str (n mod 2 ^ 32))) (CHR '' '') @ dec_str (n mod 2 ^ 32)) @ [10])
       (filter (\<lambda>n. is_prime (of_nat n)) ns)))))"
proof -
  note x = enough_lines [OF assms(2,3)]
  have p: "print_10u (of_nat n) = replicate (10 - length (dec_str (n mod 2 ^ 32))) (CHR '' '') @ dec_str (n mod 2 ^ 32)" for n
    by (simp add: print_10u_def Let_def unsigned_ucast_eq unsigned_of_nat take_bit_eq_mod mod_mod_cancel)
  show ?thesis
    using assms(1,5,6) x prime_loop_lines [OF x(1) assms(4), of "[]" _ "[]"]
    by (simp add: find_prime_numbers_def mapped_def comp_def p Let_def)
qed

lemma client_primes_witness:
  "find_prime_numbers [''f'' \<mapsto> lines_of [10, 11, 12, 13, 14, 15, 16, 18, 20, 21]] True ''g'' ''t'' ''f'' \<noteq> Inl DivByZero"
  using client_primes [of "[''f'' \<mapsto> lines_of [10, 11, 12, 13, 14, 15, 16, 18, 20, 21]]" "''f''" "[10, 11, 12, 13, 14, 15, 16, 18, 20, 21]" "''g''" "''t''"]
  by (simp add: Let_def)

text \<open>
  C33: with fewer than ten lines the progress report divides by zero in the first round of
  every computation.
\<close>

theorem small_share_divides_by_zero:
  assumes "fls f = Some (lines_of ns)" "ns \<noteq> []" "length ns < 10" "\<forall>n\<in>set ns. n < 2 ^ 63" "length g < 10" "length t < 100"
  shows "find_sum fls f = Inl DivByZero \<and> find_prime_sum fls f = Inl DivByZero \<and>
    find_prime_numbers fls True g t f = Inl DivByZero"
proof -
  have x: "tenth (line_count (lines_of ns)) = 0" "unat (line_count (lines_of ns)) = length ns" "lines_of ns \<noteq> []"
    using assms(2,3) lines_ne [of ns] by (auto simp: line_count_lines tenth_of_nat unat_of_nat)
  obtain n ms where ns: "ns = n # ms" using assms(2) by (cases ns) auto
  have n: "n < 2 ^ 63" using assms(4) ns by simp
  show ?thesis
    using assms(1,5,6) x
    by (simp add: find_sum_def find_prime_sum_def sum_of_file_def find_prime_numbers_def mapped_def ns scan_line_of atol_mem_line_of [OF n])
qed

lemma small_share_divides_by_zero_witness:
  "find_sum [''f'' \<mapsto> lines_of [4, 5]] ''f'' = Inl DivByZero"
  using small_share_divides_by_zero [of "[''f'' \<mapsto> lines_of [4, 5]]" "''f''" "[4, 5]" "[]" "[]"] by simp

end
