(* ===== verification/ServerStart.thy ===== *)
theory ServerStart
  imports ServerProps ServerInv MembershipProps ClientCompute
begin

text \<open>
  The start of the server (\<open>src/src/server.c\<close>): the groups of the mapping file; and the
  thread that fetches the result files from a moderator.
\<close>

section \<open>The mapping file\<close>

text \<open>
  A word of \<open>fscanf\<close>'s \<open>%s\<close>, with the rest of the text; none at the end of the text.  What
  \<open>strcpy\<close> and the number routines read of it ends at a NUL.
\<close>

definition scan_word :: "string \<Rightarrow> (string \<times> string) option" where
  "scan_word str = (let r = dropWhile is_space str
     in if r = [] then None else Some (takeWhile (\<lambda>c. \<not> is_space c) r, dropWhile (\<lambda>c. \<not> is_space c) r))"

definition cstr :: "string \<Rightarrow> string" where
  "cstr w = takeWhile (\<lambda>c. c \<noteq> CHR 0x00) w"

text \<open>
  One \<open>fscanf\<close> of a name, an address and a port into arrays of 10, 16 and 16 characters;
  what it does not reach keeps its value, none before the first assignment.
\<close>

definition scan_entry :: "string \<Rightarrow> string option \<Rightarrow> string option \<Rightarrow> (string \<times> string option \<times> string option \<times> string) result" where
  "scan_entry str ip port =
     (case scan_word str of
        None \<Rightarrow> Inl Uninit
      | Some (g, r1) \<Rightarrow>
          if length g \<ge> 10 then Inl OutOfBounds
          else case scan_word r1 of
                 None \<Rightarrow> Inr (cstr g, ip, port, [])
               | Some (i, r2) \<Rightarrow>
                   if length i \<ge> 16 then Inl OutOfBounds
                   else case scan_word r2 of
                          None \<Rightarrow> Inr (cstr g, Some (cstr i), port, [])
                        | Some (p, r3) \<Rightarrow>
                            if length p \<ge> 16 then Inl OutOfBounds else Inr (cstr g, Some (cstr i), Some (cstr p), r3))"

definition htons :: "u16 \<Rightarrow> u16" where
  "htons w = join2 (byte 1 w) (byte 0 w)"

fun mapping_loop ::
  "(string \<Rightarrow> u32) \<Rightarrow> server_info \<Rightarrow> string \<Rightarrow> string option \<Rightarrow> string option \<Rightarrow> nat \<Rightarrow> server_info result"
where
  "mapping_loop inet_addr s str ip port 0 = Inr s"
| "mapping_loop inet_addr s str ip port (Suc k) =
     bindE (scan_entry str ip port) (\<lambda>(name, ip1, port1, str1).
     bindE (case (ip1, port1) of (Some i, Some p) \<Rightarrow> Inr (i, ucast (atol p) :: u32) | _ \<Rightarrow> Inl Uninit) (\<lambda>(i, p).
     bindE (ADD_GROUP_IN_LL s name \<lparr>sin_family = AF_INET, sin_port = htons (ucast p), s_addr = inet_addr i\<rparr> p) (\<lambda>s1.
     mapping_loop inet_addr s1 str1 ip1 port1 k)))"

text \<open>The number of lines of the file, as \<open>wc\<close> counts them, is the number of entries read.\<close>

definition initialize_mapping :: "(string \<Rightarrow> u32) \<Rightarrow> string \<Rightarrow> server_info \<Rightarrow> (u32 \<times> server_info) result" where
  "initialize_mapping inet_addr filename s =
     bindE (get_task_count s filename) (\<lambda>count.
     case files s filename of
       None \<Rightarrow> Inl NullDeref
     | Some b \<Rightarrow> bindE (mapping_loop inet_addr s (map u8_char b) None None (unat count)) (\<lambda>s1. Inr (count, s1)))"

text \<open>The part of \<open>main\<close> that sets up the data: the process starts without groups and timers.\<close>

definition blank_server :: "(string \<rightharpoonup> u8 list) \<Rightarrow> server_info" where
  "blank_server fs = \<lparr>groups = Map.empty, clients = Map.empty, next_ptr = 1, server_list = [],
     client_RBT = Map.empty, secondary_server = \<lparr>sin_family = 0, sin_port = 0, s_addr = 0\<rparr>, task_id = 0,
     is_stdby_available = False, is_show_metrics = False, timers = Map.empty, next_timer = 1, clock = 0,
     stamp = [], files = fs, outbox = [], threads = []\<rparr>"

definition server_start :: "(string \<Rightarrow> u32) \<Rightarrow> (string \<rightharpoonup> u8 list) \<Rightarrow> server_info result" where
  "server_start inet_addr fs =
     bindE (initialize_mapping inet_addr ''src/ip_mappings.txt'' (allocate_server_info (blank_server fs))) (\<lambda>(count, s).
     Inr (s\<lparr>is_show_metrics := False\<rparr>))"

section \<open>Fetching the result files\<close>

text \<open>
  \<open>fetch_file\<close> of \<open>common.c\<close> with the commands run so far: it frees the destination when the
  command cannot be run, \<open>run\<close> says whether it can.
\<close>

definition server_fetch_file :: "(string \<Rightarrow> bool) \<Rightarrow> string list \<Rightarrow> string \<Rightarrow> string own \<Rightarrow> (string own \<times> string list) result" where
  "server_fetch_file run cmds src dest =
     (case dest of
        Own d \<Rightarrow>
          (let cmd = ''./file_tf '' @ src @ '' '' @ d @ '' >>/tmp/file_tf.logs''
           in if length cmd \<ge> 180 then Inl OutOfBounds
              else Inr (if run cmd then Own d else Freed, cmds @ [cmd]))
      | _ \<Rightarrow> Inl UseAfterFree)"

fun fetch_results :: "(string \<Rightarrow> bool) \<Rightarrow> string list \<Rightarrow> string \<Rightarrow> string own \<Rightarrow> string list \<Rightarrow> nat \<Rightarrow> (string own \<times> string list) result" where
  "fetch_results run cmds src dest fs 0 = Inr (dest, cmds)"
| "fetch_results run cmds src dest [] (Suc k) = Inl OutOfBounds"
| "fetch_results run cmds src dest (f # fs) (Suc k) =
     (let path = src @ ''/'' @ f
      in if length path \<ge> 200 then Inl OutOfBounds
         else bindE (server_fetch_file run cmds path dest) (\<lambda>(dest1, cmds1). fetch_results run cmds1 src dest1 fs k))"

text \<open>The arguments are freed at the end, the destination among them.\<close>

definition free_thread_args :: "string own \<Rightarrow> unit result" where
  "free_thread_args dest = (case dest of Own d \<Rightarrow> Inr () | _ \<Rightarrow> Inl DoubleFree)"

definition fetch_task_response_files_from_moderator :: "(string \<Rightarrow> bool) \<Rightarrow> thread_args \<Rightarrow> string list result" where
  "fetch_task_response_files_from_moderator run t =
     bindE (fetch_results run [] (source_folder t) (Own (dest_folder t)) (ta_task_filename t) (ta_file_count t)) (\<lambda>(dest, cmds).
     bindE (free_thread_args dest) (\<lambda>_. Inr cmds))"


section \<open>A well-formed mapping file\<close>

text \<open>A group of the file: its name, its address and its port, and the line that holds them.\<close>

type_synonym mapping_entry = "string \<times> string \<times> nat"

definition word_ok :: "nat \<Rightarrow> string \<Rightarrow> bool" where
  "word_ok n w \<longleftrightarrow> w \<noteq> [] \<and> length w < n \<and> (\<forall>c\<in>set w. \<not> is_space c \<and> c \<noteq> CHR 0x00)"

fun entry_ok :: "mapping_entry \<Rightarrow> bool" where
  "entry_ok (nm, ip, port) \<longleftrightarrow> word_ok 10 nm \<and> word_ok 16 ip \<and> port < 2 ^ 16"

fun entry_line :: "mapping_entry \<Rightarrow> string" where
  "entry_line (nm, ip, port) = nm @ CHR '' '' # ip @ CHR '' '' # dec_str port @ [CHR 0x0A]"

definition mapping_text :: "mapping_entry list \<Rightarrow> u8 list" where
  "mapping_text ls = map char_u8 (concat (map entry_line ls))"

fun entry_group :: "(string \<Rightarrow> u32) \<Rightarrow> mapping_entry \<Rightarrow> mcast_group_node" where
  "entry_group ia (nm, ip, port) = new_group\<lparr>group_name := nm,
     grp_mcast_addr := \<lparr>sin_family = AF_INET, sin_port = htons (of_nat port), s_addr = ia ip\<rparr>,
     group_port := of_nat port, moderator_client := None\<rparr>"

lemma is_space_simps [simp]: "is_space (CHR '' '')" "is_space (CHR 0x0A)"
  by (simp_all add: is_space_def)

lemma dec_str_word: "port < 2 ^ 16 \<Longrightarrow> word_ok 16 (dec_str port)"
proof -
  assume "port < 2 ^ 16"
  then have "length (dec_str port) \<le> 5" by (intro dec_str_length) simp_all
  moreover have "\<not> is_digit (CHR 0x00)" by (simp add: is_digit_def)
  then have "\<not> is_space c \<and> c \<noteq> CHR 0x00" if "c \<in> set (dec_str port)" for c
    using dec_str_digits [of c port] that by (metis digit_facts(1,3))
  ultimately show ?thesis using dec_str_head [of port] by (auto simp: word_ok_def)
qed

lemma scan_word_space: "is_space c \<Longrightarrow> scan_word (c # t) = scan_word t"
  by (simp add: scan_word_def)

lemma scan_word_ok: "word_ok n w \<Longrightarrow> is_space c \<Longrightarrow> scan_word (w @ c # t) = Some (w, c # t)"
  by (cases w) (auto simp: scan_word_def word_ok_def takeWhile_append2 dropWhile_append2)

lemma cstr_ok: "word_ok n w \<Longrightarrow> cstr w = w"
  unfolding cstr_def by (rule takeWhile_eq_all_conv [THEN iffD2]) (simp add: word_ok_def)

lemma word_ok_length: "word_ok n w \<Longrightarrow> length w < n"
  by (simp add: word_ok_def)

lemma scan_entry_line:
  assumes "entry_ok (nm, ip, port)" "\<forall>c\<in>set pre. is_space c"
  shows "scan_entry (pre @ entry_line (nm, ip, port) @ t) ip0 port0 = Inr (nm, Some ip, Some (dec_str port), CHR 0x0A # t)"
proof -
  have pre: "scan_word (pre @ u) = scan_word u" for u
    using assms(2) by (induction pre) (simp_all add: scan_word_space)
  note w = assms(1) [unfolded entry_ok.simps] and d = dec_str_word [of port]
  show ?thesis
    using w d word_ok_length [of 10 nm] word_ok_length [of 16 ip] word_ok_length [of 16 "dec_str port"]
      cstr_ok [of 10 nm] cstr_ok [of 16 ip] cstr_ok [of 16 "dec_str port"]
    by (simp add: scan_entry_def pre scan_word_space scan_word_ok [of 10 nm] scan_word_ok [of 16 ip] scan_word_ok [of 16 "dec_str port"])
qed

text \<open>The state when the groups \<open>ls\<close> have been added.\<close>

definition loaded :: "(string \<Rightarrow> u32) \<Rightarrow> server_info \<Rightarrow> mapping_entry list \<Rightarrow> server_info" where
  "loaded ia s ls = s\<lparr>groups := placed (next_ptr s) (map (entry_group ia) ls) (groups s), next_ptr := next_ptr s + length ls,
     server_list := rev [next_ptr s..<next_ptr s + length ls] @ server_list s\<rparr>"

lemma loaded_one: "ADD_GROUP_IN_LL s nm a p = Inr (s\<lparr>groups := (groups s)(next_ptr s \<mapsto> new_group\<lparr>group_name := nm,
     grp_mcast_addr := a, group_port := p, moderator_client := None\<rparr>), next_ptr := next_ptr s + 1,
     server_list := next_ptr s # server_list s\<rparr>)"
  by (simp add: ADD_GROUP_IN_LL_def allocate_mcast_group_node_def upd_grp_def Let_def)

lemma loaded_Cons:
  "loaded ia (s\<lparr>groups := (groups s)(next_ptr s \<mapsto> entry_group ia l), next_ptr := next_ptr s + 1,
     server_list := next_ptr s # server_list s\<rparr>) ls = loaded ia s (l # ls)"
  using rev_upt_Cons [of "next_ptr s" l ls] by (simp add: loaded_def placed_Cons)

lemma mapping_loop_lines:
  "\<forall>l\<in>set ls. entry_ok l \<Longrightarrow> \<forall>c\<in>set pre. is_space c \<Longrightarrow>
   mapping_loop ia s (pre @ concat (map entry_line ls)) ip port (length ls) = Inr (loaded ia s ls)"
proof (induction ls arbitrary: s pre ip port)
  case Nil
  then show ?case by (simp add: loaded_def)
next
  case (Cons l ls)
  obtain nm i p where l: "l = (nm, i, p)" by (metis prod_cases3)
  have p: "p < 2 ^ 16" using Cons.prems(1) l by simp
  have a: "(ucast (atol (dec_str p)) :: u32) = of_nat p" "(ucast (of_nat p :: u32) :: u16) = of_nat p"
    using p atol_dec_str [of p] by (simp_all add: unsigned_of_nat take_bit_nat_eq_self)
  have "scan_entry (pre @ entry_line (nm, i, p) @ concat (map entry_line ls)) ip port =
      Inr (nm, Some i, Some (dec_str p), [CHR 0x0A] @ concat (map entry_line ls))"
    using scan_entry_line [of nm i p pre] Cons.prems l by simp
  then show ?case
    using Cons.IH [of "[CHR 0x0A]"] Cons.prems(1) loaded_Cons [of ia s l ls] l
    by (simp add: loaded_one a del: entry_line.simps)
qed


section \<open>The started server\<close>

lemma newlines_text: "\<forall>l\<in>set ls. entry_ok l \<Longrightarrow> length (filter (\<lambda>b. b = 10) (mapping_text ls)) = length ls"
proof (induction ls)
  case (Cons l ls)
  obtain nm ip port where l: "l = (nm, ip, port)" by (metis prod_cases3)
  have "char_u8 c \<noteq> 10" if "\<not> is_space c" for c
    using that u8_char_u8 [of c] by (metis is_space_simps(2) newline_facts(1))
  then have "filter (\<lambda>b. b = 10) (map char_u8 w) = []" if "word_ok n w" for n w
    using that by (auto simp: word_ok_def filter_empty_conv)
  then have w: "filter (\<lambda>b. b = 10) (map char_u8 nm) = []" "filter (\<lambda>b. b = 10) (map char_u8 ip) = []"
      "filter (\<lambda>b. b = 10) (map char_u8 (dec_str port)) = []"
    using Cons.prems l dec_str_word [of port] by auto
  have "char_u8 (CHR '' '') \<noteq> 10" "char_u8 (CHR 0x0A) = 10" by (simp_all add: char_u8_def)
  then show ?case using Cons w l by (simp add: mapping_text_def)
qed (simp add: mapping_text_def)

lemma initialize_mapping_text:
  assumes "files s f = Some (mapping_text ls)" "\<forall>l\<in>set ls. entry_ok l" "length ls < 2 ^ 32"
  shows "initialize_mapping ia f s = Inr (of_nat (length ls), loaded ia s ls)"
proof -
  have "map u8_char (mapping_text ls) = concat (map entry_line ls)" by (simp add: mapping_text_def comp_def)
  moreover have "unat (of_nat (length ls) :: u32) = length ls" using assms(3) by (simp add: unat_of_nat)
  ultimately show ?thesis
    using assms(1) newlines_text [OF assms(2)] mapping_loop_lines [OF assms(2), of "[]" ia s]
    by (simp add: initialize_mapping_def get_task_count_def)
qed

lemma mapping_loop_reachable:
  "mapping_loop ia s str ip port k = Inr s' \<Longrightarrow> srv_reachable ia s \<Longrightarrow> \<forall>p\<ge>next_ptr s. groups s p = None \<Longrightarrow>
   srv_reachable ia s'"
proof (induction k arbitrary: s str ip port)
  case (Suc k)
  from Suc.prems(1) obtain nm a p s1 str1 ip1 port1 where
    s1: "ADD_GROUP_IN_LL s nm a p = Inr s1" and r: "mapping_loop ia s1 str1 ip1 port1 k = Inr s'"
    by (auto simp: bindE_eq_Inr split: prod.splits)
  have "srv_reachable ia s1" using Suc.prems(2,3) s1 by (blast intro: stepped configured)
  moreover have "\<forall>p\<ge>next_ptr s1. groups s1 p = None" using s1 Suc.prems(3) by (auto simp: loaded_one)
  ultimately show ?case using Suc.IH r by blast
qed simp

lemma entry_group_simps [simp]: "client_info (entry_group ia l) = None" "number_of_clients (entry_group ia l) = 0"
  "grp_capability (entry_group ia l) = 0"
  by (cases l; simp add: new_group_def)+

lemma consistent_loaded:
  assumes "groups s = Map.empty" "clients s = Map.empty" "client_RBT s = Map.empty"
  shows "consistent (loaded ia s ls)"
  using assms by (auto simp: consistent_def wf_heap_def loaded_def placed_def clist_def cids_def split: if_splits)

lemma blank_simps [simp]:
  "groups (allocate_server_info (blank_server fs)) = Map.empty" "clients (allocate_server_info (blank_server fs)) = Map.empty"
  "client_RBT (allocate_server_info (blank_server fs)) = Map.empty" "next_ptr (allocate_server_info (blank_server fs)) = 1"
  "server_list (allocate_server_info (blank_server fs)) = []" "files (allocate_server_info (blank_server fs)) = fs"
  "is_show_metrics (allocate_server_info (blank_server fs)) = False"
  by (simp_all add: blank_server_def allocate_server_info_def allocate_mcast_group_list_def)

lemma blank_reachable: "srv_reachable ia (allocate_server_info (blank_server fs))"
  by (rule started) (simp_all add: blank_server_def)

lemma mapping_loop_metrics:
  "mapping_loop ia s str ip port k = Inr s' \<Longrightarrow> is_show_metrics s' = is_show_metrics s"
proof (induction k arbitrary: s str ip port)
  case (Suc k)
  then obtain nm a p s1 str1 ip1 port1 where
    s1: "ADD_GROUP_IN_LL s nm a p = Inr s1" and r: "mapping_loop ia s1 str1 ip1 port1 k = Inr s'"
    by (auto simp: bindE_eq_Inr split: prod.splits)
  then show ?case using Suc.IH [OF r] by (auto simp: loaded_one)
qed simp

text \<open>Whatever the mapping file, a server that starts is in a reachable state.\<close>

lemma start_reachable:
  assumes "server_start ia fs = Inr s"
  shows "srv_reachable ia s"
proof -
  from assms obtain b n s1 where s1: "mapping_loop ia (allocate_server_info (blank_server fs)) (map u8_char b) None None n = Inr s1"
      "s = s1\<lparr>is_show_metrics := False\<rparr>"
    by (auto simp: server_start_def initialize_mapping_def bindE_eq_Inr split: option.splits)
  then have "s = s1" using mapping_loop_metrics [OF s1(1)] by (cases s1) simp
  then show ?thesis using mapping_loop_reachable [OF s1(1) blank_reachable] by simp
qed

lemma server_start_text:
  assumes "fs ''src/ip_mappings.txt'' = Some (mapping_text ls)" "\<forall>l\<in>set ls. entry_ok l" "length ls < 2 ^ 32"
  shows "server_start ia fs = Inr (loaded ia (allocate_server_info (blank_server fs)) ls)"
proof -
  let ?s = "loaded ia (allocate_server_info (blank_server fs)) ls"
  have "is_show_metrics ?s = False" by (simp add: loaded_def)
  then have "?s\<lparr>is_show_metrics := False\<rparr> = ?s" by simp
  then show ?thesis using initialize_mapping_text [OF _ assms(2,3)] assms(1) by (simp add: server_start_def)
qed

text \<open>
  C27: started with a mapping file of well-formed lines the server has one group for each
  line, with its name, address and port, the last line first in its list; the state is
  reachable and its two views of membership agree.
\<close>

theorem server_starts:
  assumes "fs ''src/ip_mappings.txt'' = Some (mapping_text ls)" "\<forall>l\<in>set ls. entry_ok l" "length ls < 2 ^ 32"
  shows "\<exists>s. server_start ia fs = Inr s \<and> srv_reachable ia s \<and> consistent s \<and>
    server_list s = rev [1..<1 + length ls] \<and> (\<forall>i<length ls. groups s (1 + i) = Some (entry_group ia (ls ! i)))"
proof -
  have st: "server_start ia fs = Inr (loaded ia (allocate_server_info (blank_server fs)) ls)"
    by (rule server_start_text, rule assms(1), rule assms(2), rule assms(3))
  then show ?thesis
    using start_reachable [OF st] consistent_loaded [of "allocate_server_info (blank_server fs)"]
    by (auto simp: loaded_def placed_def)
qed

definition demo_mapping :: "mapping_entry list" where
  "demo_mapping = [(''G1'', ''224.0.1.2'', 4341), (''G2'', ''224.1.3.90'', 4352)]"

lemma demo_mapping_ok: "\<forall>l\<in>set demo_mapping. entry_ok l" "length demo_mapping < 2 ^ 32"
  by (simp_all add: demo_mapping_def word_ok_def is_space_def)

lemma server_starts_witness:
  "\<exists>s. server_start (\<lambda>_. 7) [''src/ip_mappings.txt'' \<mapsto> mapping_text demo_mapping] = Inr s \<and> consistent s \<and>
    server_list s = [2, 1] \<and> map_option group_name (groups s 2) = Some ''G2''"
proof -
  obtain s where "server_start (\<lambda>_. 7) [''src/ip_mappings.txt'' \<mapsto> mapping_text demo_mapping] = Inr s" "consistent s"
      "server_list s = rev [1..<1 + length demo_mapping]"
      "\<forall>i<length demo_mapping. groups s (1 + i) = Some (entry_group (\<lambda>_. 7) (demo_mapping ! i))"
    using server_starts [of "[''src/ip_mappings.txt'' \<mapsto> mapping_text demo_mapping]" demo_mapping "\<lambda>_. 7"] demo_mapping_ok
    by auto
  then show ?thesis by (auto simp: demo_mapping_def numeral_2_eq_2 upt_rec dest!: spec [of _ 1])
qed

section \<open>The results of a moderator\<close>

text \<open>The command that fetches one file.\<close>

definition fetch_cmd :: "string \<Rightarrow> string \<Rightarrow> string \<Rightarrow> string" where
  "fetch_cmd src d f = ''./file_tf '' @ (src @ ''/'' @ f) @ '' '' @ d @ '' >>/tmp/file_tf.logs''"

lemma fetch_results_ok:
  assumes "\<forall>f\<in>set fs. length (fetch_cmd src d f) < 180"
  shows "fetch_results run cmds src (Own d) fs (length fs) =
    (if list_all (\<lambda>f. run (fetch_cmd src d f)) (butlast fs)
     then Inr (if fs = [] \<or> run (fetch_cmd src d (last fs)) then Own d else Freed, cmds @ map (fetch_cmd src d) fs)
     else Inl UseAfterFree)"
  using assms
proof (induction fs arbitrary: cmds)
  case (Cons f fs)
  have len: "length (fetch_cmd src d f) < 180" using Cons.prems by simp
  then have "length (src @ ''/'' @ f) < 200" by (simp add: fetch_cmd_def)
  moreover have "server_fetch_file run cmds (src @ ''/'' @ f) (Own d) =
      Inr (if run (fetch_cmd src d f) then Own d else Freed, cmds @ [fetch_cmd src d f])"
    using len by (simp add: server_fetch_file_def fetch_cmd_def Let_def)
  moreover have "fetch_results run c src Freed fs (length fs) = (if fs = [] then Inr (Freed, c) else Inl UseAfterFree)" for c
    using Cons.prems by (cases fs) (auto simp: server_fetch_file_def Let_def fetch_cmd_def)
  ultimately show ?case using Cons.IH [of "cmds @ [fetch_cmd src d f]"] Cons.prems by (cases "run (fetch_cmd src d f)") (auto simp: Let_def)
qed simp

text \<open>
  C28: the thread for a moderator's results fetches every file of the response once, in
  order; when a command cannot be run, the destination it shares with the others is freed
  under them, and freed again at the end.
\<close>

theorem results_fetched:
  assumes "ta_file_count t = length (ta_task_filename t)"
    "\<forall>f\<in>set (ta_task_filename t). length (fetch_cmd (source_folder t) (dest_folder t) f) < 180"
  shows "fetch_task_response_files_from_moderator run t =
    (let cmds = map (fetch_cmd (source_folder t) (dest_folder t)) (ta_task_filename t)
     in if list_all run cmds then Inr cmds else if list_all run (butlast cmds) then Inl DoubleFree else Inl UseAfterFree)"
proof -
  have "list_all P fs = (list_all P (butlast fs) \<and> (fs = [] \<or> P (last fs)))" for P and fs :: "string list"
    by (cases fs rule: rev_cases) auto
  from this [of "\<lambda>f. run (fetch_cmd (source_folder t) (dest_folder t) f)" "ta_task_filename t"]
  show ?thesis
    using fetch_results_ok [OF assms(2), of run "[]"]
    by (auto simp: fetch_task_response_files_from_moderator_def free_thread_args_def assms(1) Let_def list.pred_map comp_def map_butlast [symmetric])
qed

lemma results_fetched_witness:
  "fetch_task_response_files_from_moderator (\<lambda>_. True)
     \<lparr>ta_file_count = 2, ta_task_filename = [''a'', ''b''], source_folder = ''h:/x'', dest_folder = ''/y''\<rparr> =
   Inr [''./file_tf h:/x/a /y >>/tmp/file_tf.logs'', ''./file_tf h:/x/b /y >>/tmp/file_tf.logs'']"
  using results_fetched [of "\<lparr>ta_file_count = 2, ta_task_filename = [''a'', ''b''], source_folder = ''h:/x'', dest_folder = ''/y''\<rparr>" "\<lambda>_. True"]
  by (simp add: fetch_cmd_def)

end
