(* ===== verification/ClientDS.thy ===== *)
theory ClientDS
  imports CommTypes
begin

text \<open>
  The data structures of the client (\<open>src/include/client_DS.h\<close>) and what it does on them:
  the heap of group nodes and of the nodes a moderator keeps of its peers, the kernel
  timers, the messages handed to \<open>write_record\<close>, the shell commands it runs.  As on the
  server, a list of nodes is the list of their addresses, head first.  The field names
  carry the initials of their structure.
\<close>

datatype moderator_state =
    MODERATOR_NOTIFY_RSP_PENDING | MODERATOR_NOTIFY_RSP_SENT | MODERATOR_TASK_RSP_PENDING
  | MOD_STATE_NONE | MOD_STATE_MAX

datatype moderator_event = MOD_ECHO_REQ_RCVD_EVENT | MOD_EVENT_NONE | MOD_EVENT_MAX

text \<open>
  The state of a group on the client; \<open>GRP_STATE_NONE\<close> is the value 4 of the moderator's
  \<open>STATE_NONE\<close>, which \<open>handle_perform_task_req\<close> stores in this field.
\<close>

datatype client_grp_state =
    MOD_INFO_AWAITED | TASK_AWAITED | TASK_EXECUTION_IN_PROGRESS | IDLE | TASK_RES_SENT | GRP_STATE_NONE

datatype client_signal = MODERATOR_TIMEOUT | CLIENT_TIMEOUT

text \<open>The field a kernel timer was created for: the moderator's or that of a group.\<close>

datatype timer_owner = Mod_timer | Grp_timer ptr

abbreviation CL_DEFAULT_TIMEOUT :: u8 where "CL_DEFAULT_TIMEOUT \<equiv> 3"
abbreviation CL_MAX_KA_MISSES :: u8 where "CL_MAX_KA_MISSES \<equiv> 5"
abbreviation CL_FREE :: u32 where "CL_FREE \<equiv> 55"
abbreviation TYPE_LONG :: u32 where "TYPE_LONG \<equiv> 2"
abbreviation TYPE_FILE :: u32 where "TYPE_FILE \<equiv> 3"

text \<open>The size of the buffers for group names.\<close>

abbreviation GROUP_NAME_SIZE :: nat where "GROUP_NAME_SIZE \<equiv> 10"

record mod_client_node =
  mn_peer_client_id :: u32
  mn_peer_client_addr :: sockaddr
  mn_heartbeat_remaining :: u8
  mn_ref_count :: u8

text \<open>The function pointer \<open>fsm\<close> only ever holds \<open>moderator_main_fsm\<close>.\<close>

record moderator_information =
  mi_group_name :: string
  mi_timer_id :: nat
  mi_pending_client_list :: "ptr list"
  mi_done_client_list :: "ptr list"
  mi_fsm_state :: moderator_state
  mi_active_client_count :: u8
  mi_moderator_resp_msg :: "comm_struct_t option"
  mi_expected_responses :: int

text \<open>The five result paths are owned strings; a null slot is \<open>None\<close>.\<close>

record client_grp_node =
  cg_group_name :: string
  cg_timer_id :: nat
  cg_moderator :: sockaddr
  cg_group_addr :: sockaddr_in
  cg_group_port :: u32
  cg_mcast_fd :: u32
  cg_last_task_result_path :: "string option list"
  cg_last_task_file_count :: u32
  cg_last_task_id :: u32
  cg_last_task_rsp_type :: u8
  cg_pending_task_count :: u32
  cg_state :: client_grp_state

text \<open>The arguments of a thread that executes a task.\<close>

record task_args =
  tk_group :: ptr
  tk_task_filename :: string
  tk_task_folder_path :: string
  tk_task_id :: u32
  tk_task_type :: u32

record client_timer =
  ct_signal :: client_signal
  ct_owner :: timer_owner
  ct_interval :: u8
  ct_recurring :: bool

text \<open>
  The state of the client process: \<open>client_information_t\<close> with its heap, the global list
  of clients that answered during the notification (255 entries) with its counter, the
  counter of echo requests, whether the signals are ignored, the timers, the messages
  sent with their destination, the commands given to \<open>system\<close>, the threads started, and
  the time printed by \<open>strftime\<close>.
\<close>

record client_information =
  ci_is_moderator :: bool
  ci_moderator_info :: "moderator_information option"
  ci_client_id :: u32
  ci_client_capability :: u32
  ci_client_status :: u32
  ci_server :: sockaddr_in
  ci_active_group :: "ptr option"
  ci_client_grp_list :: "ptr list"
  ci_groups :: "ptr \<rightharpoonup> client_grp_node"
  ci_nodes :: "ptr \<rightharpoonup> mod_client_node"
  ci_next_ptr :: ptr
  ci_rsp_list :: "u32 list"
  ci_rsp_cntr :: nat
  ci_echo_cntr :: int
  ci_masked :: bool
  ci_timers :: "nat \<rightharpoonup> client_timer"
  ci_next_timer :: nat
  ci_outbox :: "(sockaddr \<times> comm_struct_t) list"
  ci_commands :: "string list"
  ci_jobs :: "task_args list"
  ci_stamp :: string

section \<open>Access\<close>

definition cgrp :: "client_information \<Rightarrow> ptr \<Rightarrow> client_grp_node result" where
  "cgrp s p = deref (ci_groups s) p"

definition mnode :: "client_information \<Rightarrow> ptr \<Rightarrow> mod_client_node result" where
  "mnode s p = deref (ci_nodes s) p"

definition minfo :: "client_information \<Rightarrow> moderator_information result" where
  "minfo s = nonnull (ci_moderator_info s)"

definition upd_cgrp :: "client_information \<Rightarrow> ptr \<Rightarrow> (client_grp_node \<Rightarrow> client_grp_node) \<Rightarrow> client_information result" where
  "upd_cgrp s p f = bindE (cgrp s p) (\<lambda>g. Inr (s\<lparr>ci_groups := (ci_groups s)(p \<mapsto> f g)\<rparr>))"

definition upd_mnode :: "client_information \<Rightarrow> ptr \<Rightarrow> (mod_client_node \<Rightarrow> mod_client_node) \<Rightarrow> client_information result" where
  "upd_mnode s p f = bindE (mnode s p) (\<lambda>n. Inr (s\<lparr>ci_nodes := (ci_nodes s)(p \<mapsto> f n)\<rparr>))"

definition upd_minfo :: "client_information \<Rightarrow> (moderator_information \<Rightarrow> moderator_information) \<Rightarrow> client_information result" where
  "upd_minfo s f = bindE (minfo s) (\<lambda>m. Inr (s\<lparr>ci_moderator_info := Some (f m)\<rparr>))"

text \<open>The group the client works for; the pointer is null or may dangle.\<close>

definition active_grp :: "client_information \<Rightarrow> client_grp_node result" where
  "active_grp s = bindE (nonnull (ci_active_group s)) (cgrp s)"

definition client_send :: "client_information \<Rightarrow> sockaddr \<Rightarrow> comm_struct_t \<Rightarrow> client_information" where
  "client_send s addr m = s\<lparr>ci_outbox := ci_outbox s @ [(addr, m)]\<rparr>"

text \<open>\<open>strcpy\<close> into a buffer of \<open>GROUP_NAME_SIZE\<close> characters.\<close>

definition copy_name10 :: "string \<Rightarrow> string result" where
  "copy_name10 s = (if length s < GROUP_NAME_SIZE then Inr s else Inl OutOfBounds)"

text \<open>A task response held in a message.\<close>

definition task_rsp_of :: "comm_struct_t \<Rightarrow> task_rsp_t result" where
  "task_rsp_of m = (case idv m of Task_rsp t \<Rightarrow> Inr t | _ \<Rightarrow> Inl WrongMember)"

section \<open>Signals and timers\<close>

definition mask_client_signals :: "client_information \<Rightarrow> bool \<Rightarrow> client_information" where
  "mask_client_signals s flag = s\<lparr>ci_masked := flag\<rparr>"

definition client_timer_delete :: "client_information \<Rightarrow> nat \<Rightarrow> client_information" where
  "client_timer_delete s t = s\<lparr>ci_timers := (ci_timers s)(t := None)\<rparr>"

definition timer_field :: "client_information \<Rightarrow> timer_owner \<Rightarrow> nat result" where
  "timer_field s ow =
     (case ow of
        Mod_timer \<Rightarrow> (case ci_moderator_info s of None \<Rightarrow> Inl UseAfterFree | Some m \<Rightarrow> Inr (mi_timer_id m))
      | Grp_timer p \<Rightarrow> bindE (cgrp s p) (\<lambda>g. Inr (cg_timer_id g)))"

definition set_timer_field :: "client_information \<Rightarrow> timer_owner \<Rightarrow> nat \<Rightarrow> client_information result" where
  "set_timer_field s ow t =
     (case ow of
        Mod_timer \<Rightarrow> upd_minfo s (\<lambda>m. m\<lparr>mi_timer_id := t\<rparr>)
      | Grp_timer p \<Rightarrow> upd_cgrp s p (\<lambda>g. g\<lparr>cg_timer_id := t\<rparr>))"

text \<open>\<open>start_oneshot_timer\<close> and \<open>start_recurring_timer\<close> of \<open>common.c\<close>, as on the server.\<close>

definition client_start_timer :: "client_information \<Rightarrow> timer_owner \<Rightarrow> u8 \<Rightarrow> client_signal \<Rightarrow> bool \<Rightarrow> client_information result" where
  "client_start_timer s ow interval sigval recurring =
     bindE (timer_field s ow) (\<lambda>t0.
     bindE (if t0 = 0
            then bindE (set_timer_field (s\<lparr>ci_timers := (ci_timers s)(ci_next_timer s \<mapsto>
                            \<lparr>ct_signal = sigval, ct_owner = ow, ct_interval = 0, ct_recurring = False\<rparr>),
                          ci_next_timer := ci_next_timer s + 1\<rparr>) ow (ci_next_timer s))
                       (\<lambda>s1. Inr (s1, ci_next_timer s))
            else Inr (s, t0)) (\<lambda>(s1, t).
     case ci_timers s1 t of
       None \<Rightarrow> Inl ProcExit
     | Some k \<Rightarrow> Inr (s1\<lparr>ci_timers := (ci_timers s1)(t \<mapsto> k\<lparr>ct_interval := interval, ct_recurring := recurring\<rparr>)\<rparr>)))"

section \<open>Helpers of \<open>common.c\<close>\<close>

definition client_send_echo_request :: "client_information \<Rightarrow> sockaddr \<Rightarrow> string \<Rightarrow> client_information result" where
  "client_send_echo_request s addr grp_name =
     bindE (copy_gname grp_name) (\<lambda>g.
     Inr (client_send s addr \<lparr>msg_id = echo_req,
       idv = Echo_req \<lparr>eq_group_name = g, eq_num_clients = 0, eq_client_ids = []\<rparr>\<rparr>))"

text \<open>
  \<open>fetch_file\<close> runs a shell command, built in a buffer of 180 characters.  \<open>run\<close> says
  whether \<open>system\<close> could start it; when not, the destination string is freed.
\<close>

definition fetch_file :: "(string \<Rightarrow> bool) \<Rightarrow> client_information \<Rightarrow> string \<Rightarrow> string \<Rightarrow> (string own \<times> client_information) result" where
  "fetch_file run s src dest =
     (let cmd = ''./file_tf '' @ src @ '' '' @ dest @ '' >>/tmp/file_tf.logs''
      in if length cmd \<ge> 180 then Inl OutOfBounds
         else Inr (if run cmd then Own dest else Freed, s\<lparr>ci_commands := ci_commands s @ [cmd]\<rparr>))"

section \<open>Basic facts\<close>

lemma cgrp_Inr [simp]: "cgrp s p = Inr g \<longleftrightarrow> ci_groups s p = Some g"
  by (simp add: cgrp_def)

lemma cgrp_Some [simp]: "ci_groups s p = Some g \<Longrightarrow> cgrp s p = Inr g"
  by simp

lemma mnode_Inr [simp]: "mnode s p = Inr g \<longleftrightarrow> ci_nodes s p = Some g"
  by (simp add: mnode_def)

lemma mnode_Some [simp]: "ci_nodes s p = Some g \<Longrightarrow> mnode s p = Inr g"
  by simp

lemma minfo_Inr [simp]: "minfo s = Inr m \<longleftrightarrow> ci_moderator_info s = Some m"
  by (simp add: minfo_def)

lemma minfo_Some [simp]: "ci_moderator_info s = Some m \<Longrightarrow> minfo s = Inr m"
  by simp

lemma upd_cgrp_Some [simp]: "ci_groups s p = Some g \<Longrightarrow> upd_cgrp s p f = Inr (s\<lparr>ci_groups := (ci_groups s)(p \<mapsto> f g)\<rparr>)"
  by (simp add: upd_cgrp_def)

lemma upd_mnode_Some [simp]: "ci_nodes s p = Some g \<Longrightarrow> upd_mnode s p f = Inr (s\<lparr>ci_nodes := (ci_nodes s)(p \<mapsto> f g)\<rparr>)"
  by (simp add: upd_mnode_def)

lemma upd_minfo_Some [simp]: "ci_moderator_info s = Some m \<Longrightarrow> upd_minfo s f = Inr (s\<lparr>ci_moderator_info := Some (f m)\<rparr>)"
  by (simp add: upd_minfo_def)

lemma active_grp_Inr [simp]: "active_grp s = Inr g \<longleftrightarrow> (\<exists>p. ci_active_group s = Some p \<and> ci_groups s p = Some g)"
  by (cases "ci_active_group s") (simp_all add: active_grp_def)

lemma active_grp_Some [simp]: "ci_active_group s = Some p \<Longrightarrow> ci_groups s p = Some g \<Longrightarrow> active_grp s = Inr g"
  by simp

lemma task_rsp_of_Task [simp]: "idv m = Task_rsp t \<Longrightarrow> task_rsp_of m = Inr t"
  by (simp add: task_rsp_of_def)

end
