(* ===== verification/ClientLL.thy ===== *)
theory ClientLL
  imports ClientDS
begin

text \<open>
  \<open>src/src/client_ll.c\<close>: the client's list of groups and the moderator's lists of pending
  and done clients.  Removing a node clears its links (\<open>SnList\<close>).
\<close>

section \<open>The lists of the moderator\<close>

text \<open>The first pending node with the identifier.\<close>

fun find_pending :: "client_information \<Rightarrow> ptr list \<Rightarrow> u32 \<Rightarrow> ptr option result" where
  "find_pending s [] clientID = Inr None"
| "find_pending s (p # ps) clientID =
     bindE (mnode s p) (\<lambda>n. if mn_peer_client_id n = clientID then Inr (Some p) else find_pending s ps clientID)"

definition get_client_from_moderator_pending_list :: "client_information \<Rightarrow> u32 \<Rightarrow> ptr option result" where
  "get_client_from_moderator_pending_list s clientID =
     bindE (minfo s) (\<lambda>m. find_pending s (mi_pending_client_list m) clientID)"

text \<open>The nodes are unlinked and freed from the head.\<close>

fun free_nodes :: "client_information \<Rightarrow> ptr list \<Rightarrow> client_information result" where
  "free_nodes s [] = Inr s"
| "free_nodes s (p # ps) = bindE (mnode s p) (\<lambda>_. free_nodes (s\<lparr>ci_nodes := (ci_nodes s)(p := None)\<rparr>) ps)"

definition deallocate_mod_done_list :: "client_information \<Rightarrow> client_information result" where
  "deallocate_mod_done_list s =
     bindE (minfo s) (\<lambda>m.
     bindE (free_nodes s (mi_done_client_list m)) (\<lambda>s1. upd_minfo s1 (\<lambda>m. m\<lparr>mi_done_client_list := []\<rparr>)))"

definition deallocate_mod_pending_list :: "client_information \<Rightarrow> client_information result" where
  "deallocate_mod_pending_list s =
     bindE (minfo s) (\<lambda>m.
     bindE (free_nodes s (mi_pending_client_list m)) (\<lambda>s1. upd_minfo s1 (\<lambda>m. m\<lparr>mi_pending_client_list := []\<rparr>)))"

definition deallocate_moderator_list :: "client_information \<Rightarrow> client_information result" where
  "deallocate_moderator_list s =
     bindE (deallocate_mod_done_list s) (\<lambda>s1.
     bindE (deallocate_mod_pending_list s1) (\<lambda>s2. Inr (s2\<lparr>ci_moderator_info := None\<rparr>)))"

definition move_moderator_node_pending_to_done_list :: "client_information \<Rightarrow> ptr \<Rightarrow> client_information result" where
  "move_moderator_node_pending_to_done_list s node =
     (case ci_moderator_info s of
        None \<Rightarrow> Inr s
      | Some m \<Rightarrow> upd_minfo s (\<lambda>m. m\<lparr>mi_pending_client_list := remove1 node (mi_pending_client_list m),
                                     mi_done_client_list := node # mi_done_client_list m\<rparr>))"

text \<open>The address of the new node is set by the caller.\<close>

definition blank_mod_node :: mod_client_node where
  "blank_mod_node = \<lparr>mn_peer_client_id = 0, mn_peer_client_addr = \<lparr>sa_family = 0, sa_data = []\<rparr>,
     mn_heartbeat_remaining = CL_MAX_KA_MISSES, mn_ref_count = 1\<rparr>"

definition allocate_clnt_moderator_node :: "client_information \<Rightarrow> (ptr \<times> client_information) result" where
  "allocate_clnt_moderator_node s =
     (let new = ci_next_ptr s
      in bindE (upd_minfo (s\<lparr>ci_nodes := (ci_nodes s)(new \<mapsto> blank_mod_node), ci_next_ptr := new + 1\<rparr>)
                  (\<lambda>m. m\<lparr>mi_pending_client_list := new # mi_pending_client_list m\<rparr>)) (\<lambda>s1. Inr (new, s1)))"

definition allocate_moderator_list :: "moderator_information \<Rightarrow> moderator_information" where
  "allocate_moderator_list m = m\<lparr>mi_pending_client_list := [], mi_done_client_list := []\<rparr>"

text \<open>A moderator structure that was there before is lost; fields not set here are blank.\<close>

definition allocate_moderator_info :: "client_information \<Rightarrow> client_information" where
  "allocate_moderator_info s = s\<lparr>ci_moderator_info := Some (allocate_moderator_list
     \<lparr>mi_group_name = [], mi_timer_id = 0, mi_pending_client_list = [], mi_done_client_list = [],
      mi_fsm_state = MOD_STATE_NONE, mi_active_client_count = 0, mi_moderator_resp_msg = None,
      mi_expected_responses = 0\<rparr>)\<rparr>"

section \<open>The groups of the client\<close>

definition allocate_client_grp_list :: "client_information \<Rightarrow> client_information" where
  "allocate_client_grp_list s = s\<lparr>ci_client_grp_list := []\<rparr>"

text \<open>
  The argument stands for the memory that \<open>malloc\<close> returned: the fields that are not set
  here, \<open>is_moderator\<close> among them, keep what it held.
\<close>

definition allocate_client_info :: "client_information \<Rightarrow> client_information" where
  "allocate_client_info s = allocate_client_grp_list (s\<lparr>ci_moderator_info := None, ci_active_group := None\<rparr>)"

text \<open>A new group node; what \<open>malloc\<close> leaves unset is blank.\<close>

definition blank_client_grp :: client_grp_node where
  "blank_client_grp = \<lparr>cg_group_name = [], cg_timer_id = 0, cg_moderator = \<lparr>sa_family = 0, sa_data = []\<rparr>,
     cg_group_addr = \<lparr>sin_family = 0, sin_port = 0, s_addr = 0\<rparr>, cg_group_port = - 1, cg_mcast_fd = 2147483647,
     cg_last_task_result_path = replicate 5 None, cg_last_task_file_count = 0, cg_last_task_id = 0,
     cg_last_task_rsp_type = 0, cg_pending_task_count = 0, cg_state = MOD_INFO_AWAITED\<rparr>"

definition allocate_client_grp_node :: "client_information \<Rightarrow> ptr \<times> client_information" where
  "allocate_client_grp_node s =
     (let new = ci_next_ptr s
      in (new, s\<lparr>ci_groups := (ci_groups s)(new \<mapsto> blank_client_grp), ci_next_ptr := new + 1,
                 ci_client_grp_list := new # ci_client_grp_list s\<rparr>))"

definition deallocate_client_grp_node :: "client_information \<Rightarrow> ptr \<Rightarrow> client_information" where
  "deallocate_client_grp_node s node =
     s\<lparr>ci_client_grp_list := remove1 node (ci_client_grp_list s), ci_groups := (ci_groups s)(node := None)\<rparr>"

text \<open>
  The output parameter is assigned only when a group is found, \<open>prev\<close> is its old value.
  A name matches every group name it is a prefix of.
\<close>

fun client_group_by_name_from :: "client_information \<Rightarrow> string \<Rightarrow> ptr list \<Rightarrow> ptr option \<Rightarrow> ptr option result" where
  "client_group_by_name_from s name [] prev = Inr prev"
| "client_group_by_name_from s name (p # ps) prev =
     bindE (cgrp s p) (\<lambda>g.
     if strncmp_eq (cg_group_name g) name (length name) then Inr (Some p) else client_group_by_name_from s name ps prev)"

definition get_client_grp_node_by_group_name :: "client_information \<Rightarrow> string \<Rightarrow> ptr option \<Rightarrow> ptr option result" where
  "get_client_grp_node_by_group_name s name prev = client_group_by_name_from s name (ci_client_grp_list s) prev"

fun client_group_by_timerid_from :: "client_information \<Rightarrow> nat \<Rightarrow> ptr list \<Rightarrow> ptr option \<Rightarrow> ptr option result" where
  "client_group_by_timerid_from s t [] prev = Inr prev"
| "client_group_by_timerid_from s t (p # ps) prev =
     bindE (cgrp s p) (\<lambda>g. if t = cg_timer_id g then Inr (Some p) else client_group_by_timerid_from s t ps prev)"

text \<open>The timer pointer is read anew for each group; nothing changes between the reads.\<close>

definition get_client_grp_node_by_timerid :: "client_information \<Rightarrow> timer_owner \<Rightarrow> ptr option \<Rightarrow> ptr option result" where
  "get_client_grp_node_by_timerid s timer_ptr prev =
     (if ci_client_grp_list s = [] then Inr prev
      else bindE (timer_field s timer_ptr) (\<lambda>t. client_group_by_timerid_from s t (ci_client_grp_list s) prev))"

text \<open>The name is copied into a buffer of ten characters; the descriptor is the caller's.\<close>

definition ADD_CLIENT_IN_LL :: "client_information \<Rightarrow> string \<Rightarrow> sockaddr_in \<Rightarrow> u32 \<Rightarrow> (ptr \<times> client_information) result" where
  "ADD_CLIENT_IN_LL s name addr port =
     (let (new, s1) = allocate_client_grp_node s
      in bindE (copy_name10 name) (\<lambda>nm.
         bindE (upd_cgrp s1 new (\<lambda>g. g\<lparr>cg_group_name := nm, cg_group_addr := addr, cg_group_port := port\<rparr>)) (\<lambda>s2.
         Inr (new, s2))))"

definition IS_GROUP_IN_CLIENT_LL :: "client_information \<Rightarrow> string \<Rightarrow> bool result" where
  "IS_GROUP_IN_CLIENT_LL s name = bindE (get_client_grp_node_by_group_name s name None) (\<lambda>r. Inr (r \<noteq> None))"

end
