(* ===== verification/ClientMod.thy ===== *)
theory ClientMod
  imports ClientLL ClientCompute
begin

text \<open>
  The moderator's part of \<open>src/src/client.c\<close>, with \<open>src/src/moderator_fsm.c\<close>: answering the
  server when the peers have reported, collecting their results, sending the collected
  results on, the keepalive of the peers, and the handler of both timers.  \<open>run\<close> says of a
  shell command whether \<open>system\<close> can start it.
\<close>

section \<open>The answer to the notification\<close>

text \<open>
  The array of the message has room for \<open>active_client_count\<close> identifiers; as many are
  copied as clients have answered.
\<close>

definition send_moderator_notify_response :: "client_information \<Rightarrow> client_information result" where
  "send_moderator_notify_response s =
     bindE (upd_minfo s (\<lambda>m. m\<lparr>mi_fsm_state := MODERATOR_NOTIFY_RSP_SENT\<rparr>)) (\<lambda>s1.
     bindE (minfo s1) (\<lambda>m.
     let s2 = s1\<lparr>ci_echo_cntr := 0\<rparr>; n = ci_rsp_cntr s2
     in bindE (copy_gname (mi_group_name m)) (\<lambda>gn.
        if n > unat (mi_active_client_count m) \<or> n > length (ci_rsp_list s2) then Inl OutOfBounds
        else Inr ((client_send s2 (of_in (ci_server s2)) \<lparr>msg_id = moderator_notify_rsp,
               idv = Moderator_notify_rsp \<lparr>nr_group_name = gn, nr_moderator_id = ci_client_id s2,
                 nr_client_id_count = of_nat n, nr_client_ids = take n (ci_rsp_list s2)\<rparr>\<rparr>)\<lparr>ci_rsp_cntr := 0\<rparr>))))"

text \<open>A client that answered is added to the global list of 255 entries.\<close>

definition note_alive :: "client_information \<Rightarrow> u32 \<Rightarrow> client_information result" where
  "note_alive s cid =
     bindE (upd_at (ci_rsp_list s) (ci_rsp_cntr s) cid) (\<lambda>l.
     Inr (s\<lparr>ci_rsp_list := l, ci_rsp_cntr := ci_rsp_cntr s + 1\<rparr>))"

definition moderator_echo_req_notify_rsp_pending_state :: "client_information \<Rightarrow> pdu_t \<Rightarrow> client_information result" where
  "moderator_echo_req_notify_rsp_pending_state s pdu =
     bindE (note_alive (s\<lparr>ci_echo_cntr := ci_echo_cntr s + 1\<rparr>) (calc_key (Some (peer_addr pdu)))) (\<lambda>s1.
     bindE (minfo s1) (\<lambda>m.
     if ci_echo_cntr s1 = int (unat (mi_active_client_count m)) - 1
     then bindE (upd_minfo (client_timer_delete s1 (mi_timer_id m)) (\<lambda>m. m\<lparr>mi_timer_id := 0\<rparr>)) send_moderator_notify_response
     else Inr s1))"

definition moderator_echo_req_task_rsp_pending_state :: "client_information \<Rightarrow> pdu_t \<Rightarrow> client_information result" where
  "moderator_echo_req_task_rsp_pending_state s pdu =
     bindE (get_client_from_moderator_pending_list s (calc_key (Some (peer_addr pdu)))) (\<lambda>r.
     case r of
       None \<Rightarrow> Inr s
     | Some p \<Rightarrow> upd_mnode s p (\<lambda>n. n\<lparr>mn_heartbeat_remaining := CL_MAX_KA_MISSES\<rparr>))"

section \<open>The state machine\<close>

definition moderator_fsm_notify_rsp_pending_state :: "client_information \<Rightarrow> moderator_event \<Rightarrow> pdu_t \<Rightarrow> client_information result" where
  "moderator_fsm_notify_rsp_pending_state s event pdu =
     (case event of
        MOD_ECHO_REQ_RCVD_EVENT \<Rightarrow> moderator_echo_req_notify_rsp_pending_state s pdu
      | _ \<Rightarrow> Inr s)"

definition moderator_fsm_task_rsp_pending_state :: "client_information \<Rightarrow> moderator_event \<Rightarrow> pdu_t \<Rightarrow> client_information result" where
  "moderator_fsm_task_rsp_pending_state s event pdu =
     (case event of
        MOD_ECHO_REQ_RCVD_EVENT \<Rightarrow> moderator_echo_req_task_rsp_pending_state s pdu
      | _ \<Rightarrow> Inr s)"

definition moderator_main_fsm :: "client_information \<Rightarrow> moderator_event \<Rightarrow> moderator_state \<Rightarrow> pdu_t \<Rightarrow> client_information result" where
  "moderator_main_fsm s event state pdu =
     (case state of
        MODERATOR_NOTIFY_RSP_PENDING \<Rightarrow> moderator_fsm_notify_rsp_pending_state s event pdu
      | MODERATOR_TASK_RSP_PENDING \<Rightarrow> moderator_fsm_task_rsp_pending_state s event pdu
      | _ \<Rightarrow> Inr s)"

section \<open>Sending the collected results\<close>

definition copy_file :: "client_information \<Rightarrow> string \<Rightarrow> string \<Rightarrow> client_information result" where
  "copy_file s src dest =
     (let cmd = ''cp '' @ src @ '' '' @ dest
      in if length cmd \<ge> 200 then Inl OutOfBounds else Inr (s\<lparr>ci_commands := ci_commands s @ [cmd]\<rparr>))"

text \<open>The folder's name is printed into 100 characters.\<close>

definition client_task_result_folder_path :: "client_information \<Rightarrow> string \<Rightarrow> string result" where
  "client_task_result_folder_path s gname =
     (let dest = ''/tmp/client/moderator/'' @ gname @ ''/'' @ ci_stamp s
      in if length dest \<ge> 100 then Inl OutOfBounds else Inr dest)"

text \<open>\<open>dest\<close> is freed by \<open>fetch_file\<close> when it fails, and used again for the next client.\<close>

definition fetch_task_response_from_client ::
  "(string \<Rightarrow> bool) \<Rightarrow> client_information \<Rightarrow> u32 \<Rightarrow> string \<Rightarrow> string own \<Rightarrow> u32 \<Rightarrow> (string own \<times> client_information) result"
where
  "fetch_task_response_from_client run s cid file_path dest mod_id =
     bindE (own_get dest) (\<lambda>d.
     if mod_id \<noteq> cid
     then (let src = inet_ntoa cid @ '':'' @ file_path
           in if length src \<ge> 100 then Inl OutOfBounds else fetch_file run s src d)
     else bindE (copy_file s file_path d) (\<lambda>s1. Inr (dest, s1)))"

fun fetch_loop :: "(string \<Rightarrow> bool) \<Rightarrow> client_information \<Rightarrow> task_rsp_t \<Rightarrow> nat \<Rightarrow> nat \<Rightarrow> string own \<Rightarrow> client_information result" where
  "fetch_loop run s t i 0 dest = Inr s"
| "fetch_loop run s t i (Suc k) dest =
     bindE (at (tr_client_ids t) i) (\<lambda>cid.
     bindE (at (tr_result t) i) (\<lambda>r.
     bindE (nonnull r) (\<lambda>path.
     bindE (fetch_task_response_from_client run s cid path dest (ci_client_id s)) (\<lambda>(dest1, s1).
     fetch_loop run s1 t (i + 1) k dest1))))"

text \<open>The sum of the printed results.\<close>

fun sum_results :: "string_t list \<Rightarrow> nat \<Rightarrow> u64 \<Rightarrow> u64 result" where
  "sum_results rs 0 acc = Inr acc"
| "sum_results [] (Suc k) acc = Inl OutOfBounds"
| "sum_results (r # rs) (Suc k) acc = bindE (nonnull r) (\<lambda>str. sum_results rs k (acc + atol str))"

definition collate_results :: "(string \<Rightarrow> bool) \<Rightarrow> client_information \<Rightarrow> task_rsp_t \<Rightarrow> (client_information \<times> task_rsp_t) result" where
  "collate_results run s t =
     (let n = nat (sint (tr_num_clients t))
      in if tr_type t = TYPE_FILE
         then bindE (nonnull (tr_group_name t)) (\<lambda>gn.
              bindE (client_task_result_folder_path s gn) (\<lambda>dest.
              bindE (fetch_loop run s t 0 n (Own dest)) (\<lambda>s1. Inr (s1, t))))
         else if tr_type t = TYPE_LONG
         then bindE (sum_results (tr_result t) n 0) (\<lambda>tot. Inr (s, t\<lparr>tr_final_resp := Some (dec_str (unat tot))\<rparr>))
         else Inr (s, t))"

text \<open>Without \<open>force_cleanup\<close> the results go out when as many have come as are expected.\<close>

definition moderator_send_task_response_to_server :: "(string \<Rightarrow> bool) \<Rightarrow> client_information \<Rightarrow> bool \<Rightarrow> client_information result" where
  "moderator_send_task_response_to_server run s force_cleanup =
     (let s0 = mask_client_signals s True
      in bindE (minfo s0) (\<lambda>m.
      case mi_moderator_resp_msg m of
        None \<Rightarrow> Inr (mask_client_signals s0 False)
      | Some rsp \<Rightarrow>
          bindE (task_rsp_of rsp) (\<lambda>t.
          if \<not> force_cleanup \<and> sint (tr_num_clients t) \<noteq> mi_expected_responses m
          then Inr (mask_client_signals s0 False)
          else bindE (collate_results run s0 t) (\<lambda>(s1, t1).
               let s2 = client_send s1 (of_in (ci_server s1)) (rsp\<lparr>idv := Task_rsp t1\<rparr>)
               in bindE (upd_minfo (client_timer_delete s2 (mi_timer_id m)) (\<lambda>m. m\<lparr>mi_timer_id := 0\<rparr>)) (\<lambda>s3.
                  bindE (deallocate_moderator_list s3) (\<lambda>s4.
                  Inr (mask_client_signals (s4\<lparr>ci_is_moderator := False, ci_client_status := CL_FREE,
                                               ci_active_group := None\<rparr>) False)))))))"

section \<open>Collecting results\<close>

text \<open>Is a file of this name among the first \<open>n\<close> results?\<close>

fun has_file :: "string_t list \<Rightarrow> nat \<Rightarrow> string \<Rightarrow> bool result" where
  "has_file rs 0 name = Inr False"
| "has_file [] (Suc n) name = Inl OutOfBounds"
| "has_file (r # rs) (Suc n) name =
     (if strcmp_eq name (basename (case r of None \<Rightarrow> [] | Some p \<Rightarrow> p)) then Inr True else has_file rs n name)"

text \<open>As in the code: \<open>True\<close> when the response has not been received.\<close>

definition check_if_response_already_received :: "task_rsp_t \<Rightarrow> string \<Rightarrow> bool result" where
  "check_if_response_already_received t file_path =
     (if tr_type t = TYPE_FILE
      then bindE (has_file (tr_result t) (unat (tr_num_clients t)) (basename file_path)) (\<lambda>b. Inr (\<not> b))
      else Inr True)"

text \<open>The message of the moderator with one more result.\<close>

definition add_response :: "moderator_information \<Rightarrow> task_rsp_t \<Rightarrow> u32 \<Rightarrow> comm_struct_t result" where
  "add_response m rsp_in peer_id =
     (case mi_moderator_resp_msg m of
        Some rsp \<Rightarrow>
          bindE (task_rsp_of rsp) (\<lambda>t.
          bindE (at (tr_result rsp_in) 0) (\<lambda>r.
          bindE (nonnull r) (\<lambda>path.
          bindE (check_if_response_already_received t path) (\<lambda>is_new.
          if is_new
          then bindE (update_task_rsp t path peer_id) (\<lambda>t1. Inr (rsp\<lparr>idv := Task_rsp t1\<rparr>))
          else Inr rsp))))
      | None \<Rightarrow> populate_moderator_task_rsp (of_int (mi_expected_responses m)) rsp_in peer_id)"

definition update_moderator_info_with_task_response ::
  "(string \<Rightarrow> bool) \<Rightarrow> client_information \<Rightarrow> task_rsp_t \<Rightarrow> u32 \<Rightarrow> client_information result"
where
  "update_moderator_info_with_task_response run s rsp_in peer_id =
     (case ci_moderator_info s of
        None \<Rightarrow> Inr s
      | Some m \<Rightarrow>
          bindE (get_client_from_moderator_pending_list s peer_id) (\<lambda>r.
          case r of
            None \<Rightarrow> Inr s
          | Some node \<Rightarrow>
              bindE (upd_mnode s node (\<lambda>n. n\<lparr>mn_ref_count := mn_ref_count n - 1\<rparr>)) (\<lambda>s1.
              bindE (add_response m rsp_in peer_id) (\<lambda>rsp.
              bindE (upd_minfo s1 (\<lambda>m. m\<lparr>mi_moderator_resp_msg := Some rsp\<rparr>)) (\<lambda>s2.
              bindE (mnode s2 node) (\<lambda>n.
              bindE (if mn_ref_count n = 0 then move_moderator_node_pending_to_done_list s2 node else Inr s2) (\<lambda>s3.
              moderator_send_task_response_to_server run s3 False)))))))"

definition client_handle_task_response :: "(string \<Rightarrow> bool) \<Rightarrow> client_information \<Rightarrow> pdu_t \<Rightarrow> client_information result" where
  "client_handle_task_response run s pdu =
     (case idv (pdu_msg pdu) of
        Task_rsp t \<Rightarrow>
          (case ci_moderator_info s of
             None \<Rightarrow> Inr s
           | Some m \<Rightarrow>
               bindE (nonnull (tr_group_name t)) (\<lambda>gn.
               if strcmp_eq (mi_group_name m) gn
               then update_moderator_info_with_task_response run s t (calc_key (Some (peer_addr pdu)))
               else Inr s))
      | _ \<Rightarrow> Inl WrongMember)"

text \<open>
  A client hands its result to the moderator, or stores it when it is the moderator; the
  path is kept for a later moderator unless the result is sent again.
\<close>

definition send_task_results_to_moderator ::
  "(string \<Rightarrow> bool) \<Rightarrow> client_information \<Rightarrow> ptr \<Rightarrow> u32 \<Rightarrow> u32 \<Rightarrow> string \<Rightarrow> u32 \<Rightarrow> bool \<Rightarrow> client_information result"
where
  "send_task_results_to_moderator run s gp tid rtype file_path my_id is_task_reassigned =
     bindE (cgrp s gp) (\<lambda>g.
     bindE (populate_task_rsp tid (cg_group_name g) rtype file_path my_id) (\<lambda>msg.
     bindE (if \<not> ci_is_moderator s then Inr True
            else bindE (minfo s) (\<lambda>m. Inr (\<not> strcmp_eq (mi_group_name m) (cg_group_name g)))) (\<lambda>remote.
     bindE (if remote then Inr (client_send s (cg_moderator g) msg)
            else bindE (task_rsp_of msg) (\<lambda>t. update_moderator_info_with_task_response run s t (ci_client_id s))) (\<lambda>s1.
     if is_task_reassigned then Inr s1
     else bindE (cgrp s1 gp) (\<lambda>g1.
          bindE (upd_at (cg_last_task_result_path g1) (unat (cg_last_task_file_count g1)) (Some file_path)) (\<lambda>paths.
          upd_cgrp s1 gp (\<lambda>g. g\<lparr>cg_last_task_result_path := paths,
            cg_last_task_file_count := cg_last_task_file_count g + 1, cg_last_task_id := tid,
            cg_last_task_rsp_type := ucast rtype\<rparr>)))))))"

section \<open>Timeouts\<close>

text \<open>
  The walk over the pending clients; removing a dead one clears its link, which ends the
  walk.  The heartbeat counts down in 8 bits.
\<close>

fun pending_walk :: "client_information \<Rightarrow> ptr list \<Rightarrow> (client_information \<times> u32 list) result" where
  "pending_walk s [] = Inr (s, [])"
| "pending_walk s (p # ps) =
     bindE (mnode s p) (\<lambda>n.
     if mn_peer_client_id n = ci_client_id s then pending_walk s ps
     else bindE (upd_mnode s p (\<lambda>n. n\<lparr>mn_heartbeat_remaining := mn_heartbeat_remaining n - 1\<rparr>)) (\<lambda>s1.
          if mn_heartbeat_remaining n = 0
          then bindE (upd_minfo s1 (\<lambda>m. m\<lparr>mi_pending_client_list := remove1 p (mi_pending_client_list m)\<rparr>)) (\<lambda>s2.
               Inr (s2, [mn_peer_client_id n]))
          else pending_walk s1 ps))"

definition moderator_task_rsp_pending_timeout :: "client_information \<Rightarrow> client_information result" where
  "moderator_task_rsp_pending_timeout s =
     bindE (minfo s) (\<lambda>m.
     bindE (pending_walk s (mi_pending_client_list m)) (\<lambda>(s1, dead).
     bindE (active_grp s1) (\<lambda>g.
     Inr (client_send s1 (of_in (ci_server s1)) \<lparr>msg_id = echo_req,
       idv = Echo_req \<lparr>eq_group_name = Some (cg_group_name g), eq_num_clients = of_nat (length dead),
                       eq_client_ids = dead\<rparr>\<rparr>))))"

text \<open>
  The signal handler: \<open>busy\<close> is \<open>mask_modification_in_progress\<close>, \<open>timer_ptr\<close> the field the
  expired timer was created for.
\<close>

definition client_handle_timeout_real ::
  "(string \<Rightarrow> bool) \<Rightarrow> client_information \<Rightarrow> bool \<Rightarrow> client_signal \<Rightarrow> timer_owner \<Rightarrow> client_information result"
where
  "client_handle_timeout_real run s busy sig timer_ptr =
     (if busy then Inr s
      else case sig of
        MODERATOR_TIMEOUT \<Rightarrow>
          bindE (assertE (ci_moderator_info s \<noteq> None)) (\<lambda>_.
          bindE (assertE (ci_is_moderator s)) (\<lambda>_.
          bindE (minfo s) (\<lambda>m.
          case mi_fsm_state m of
            MODERATOR_NOTIFY_RSP_PENDING \<Rightarrow> send_moderator_notify_response s
          | MODERATOR_TASK_RSP_PENDING \<Rightarrow> moderator_task_rsp_pending_timeout s
          | _ \<Rightarrow> Inl AssertFail)))
      | CLIENT_TIMEOUT \<Rightarrow>
          if ci_is_moderator s
          then bindE (minfo s) (\<lambda>m.
               bindE (active_grp s) (\<lambda>g.
               bindE (client_send_echo_request s (of_in (ci_server s)) (cg_group_name g)) (\<lambda>s1.
               case mi_moderator_resp_msg m of
                 None \<Rightarrow> Inr s1
               | Some rsp \<Rightarrow>
                   bindE (task_rsp_of rsp) (\<lambda>t.
                   if of_int (mi_expected_responses m) = tr_num_clients t
                   then moderator_send_task_response_to_server run s1 False
                   else Inr s1))))
          else bindE (get_client_grp_node_by_timerid s timer_ptr None) (\<lambda>r.
               bindE (nonnull r) (\<lambda>p.
               bindE (cgrp s p) (\<lambda>g.
               client_send_echo_request s (cg_moderator g) (cg_group_name g)))))"

end
