(* ===== verification/ClientTask.thy ===== *)
theory ClientTask
  imports ClientMod
begin

text \<open>
  The client at work (\<open>src/src/client.c\<close>): the request to perform a task, the thread that
  fetches a file, computes its result and hands it to the moderator.  A thread is modelled
  as one step: it starts when the request has been handled.
\<close>

section \<open>The request\<close>

text \<open>The cached results are freed; a count above five would leave the array.\<close>

definition reset_results :: "client_grp_node \<Rightarrow> client_grp_node result" where
  "reset_results g =
     (if unat (cg_last_task_file_count g) > length (cg_last_task_result_path g) then Inl OutOfBounds
      else Inr (g\<lparr>cg_last_task_result_path :=
          (replicate (unat (cg_last_task_file_count g)) None @
           drop (unat (cg_last_task_file_count g)) (cg_last_task_result_path g))[0 := None],
        cg_last_task_id := - 1, cg_last_task_file_count := 0, cg_state := GRP_STATE_NONE\<rparr>))"

text \<open>The positions at which the client's identifier occurs, kept in an array of five.\<close>

fun occurrences :: "u32 \<Rightarrow> u32 list \<Rightarrow> nat \<Rightarrow> nat \<Rightarrow> nat list \<Rightarrow> nat list result" where
  "occurrences cid ids i 0 acc = Inr acc"
| "occurrences cid ids i (Suc k) acc =
     bindE (at ids i) (\<lambda>x.
     if cid = x
     then (if length acc \<ge> 5 then Inl OutOfBounds else occurrences cid ids (i + 1) k (acc @ [i]))
     else occurrences cid ids (i + 1) k acc)"

text \<open>The address the moderator stores for a client: port 3490 in network byte order.\<close>

definition peer_addr_of :: "u32 \<Rightarrow> sockaddr" where
  "peer_addr_of cid = of_in \<lparr>sin_family = AF_INET, sin_port = 0xA20D, s_addr = cid\<rparr>"

text \<open>The moderator's nodes for the working clients.\<close>

fun register_workers :: "client_information \<Rightarrow> u32 list \<Rightarrow> nat \<Rightarrow> nat \<Rightarrow> client_information result" where
  "register_workers s ids i 0 = Inr s"
| "register_workers s ids i (Suc k) =
     bindE (at ids i) (\<lambda>cid.
     bindE (get_client_from_moderator_pending_list s cid) (\<lambda>r.
     bindE (case r of
              None \<Rightarrow> allocate_clnt_moderator_node s
            | Some p \<Rightarrow> bindE (upd_mnode s p (\<lambda>n. n\<lparr>mn_ref_count := mn_ref_count n + 1\<rparr>)) (\<lambda>s1. Inr (p, s1))) (\<lambda>(p, s1).
     bindE (upd_mnode s1 p (\<lambda>n. n\<lparr>mn_peer_client_id := cid, mn_peer_client_addr := peer_addr_of cid\<rparr>)) (\<lambda>s2.
     register_workers s2 ids (i + 1) k))))"

definition prepare_moderator :: "client_information \<Rightarrow> perform_task_req_t \<Rightarrow> bool \<Rightarrow> client_information result" where
  "prepare_moderator s req found =
     bindE (upd_minfo s (\<lambda>m. m\<lparr>mi_fsm_state := MODERATOR_TASK_RSP_PENDING\<rparr>)) (\<lambda>s1.
     bindE (if pt_task_reassigned req \<noteq> 0 then Inr s1
            else upd_minfo s1 (\<lambda>m. m\<lparr>mi_active_client_count := ucast (pt_client_id_count req),
                                     mi_expected_responses := sint (pt_client_id_count req)\<rparr>)) (\<lambda>s2.
     bindE (register_workers s2 (pt_client_ids req) 0 (nat (sint (pt_client_id_count req)))) (\<lambda>s3.
     bindE (minfo s3) (\<lambda>m.
     if mi_timer_id m = 0
     then client_start_timer s3 Mod_timer CL_DEFAULT_TIMEOUT
            (if mi_active_client_count m = 1 \<and> found then CLIENT_TIMEOUT else MODERATOR_TIMEOUT) True
     else Inr s3))))"

definition fill_thread_args :: "client_information \<Rightarrow> perform_task_req_t \<Rightarrow> nat \<Rightarrow> task_args result" where
  "fill_thread_args s req index =
     bindE (nonnull (pt_group_name req)) (\<lambda>gn.
     bindE (get_client_grp_node_by_group_name s gn None) (\<lambda>r.
     bindE (at (pt_task_filename req) index) (\<lambda>f.
     bindE (nonnull f) (\<lambda>fname.
     bindE (nonnull (pt_task_folder_path req)) (\<lambda>folder.
     case r of
       None \<Rightarrow> Inl Uninit
     | Some p \<Rightarrow> Inr \<lparr>tk_group = p, tk_task_filename = fname, tk_task_folder_path = folder,
                      tk_task_id = pt_task_id req, tk_task_type = pt_task_type req\<rparr>)))))"

text \<open>\<open>spawn\<close> says whether \<open>pthread_create\<close> succeeds.\<close>

fun start_jobs :: "(task_args \<Rightarrow> bool) \<Rightarrow> client_information \<Rightarrow> ptr \<Rightarrow> perform_task_req_t \<Rightarrow> nat list \<Rightarrow> client_information result" where
  "start_jobs spawn s gp req [] = Inr s"
| "start_jobs spawn s gp req (i # is) =
     bindE (fill_thread_args s req i) (\<lambda>args.
     if \<not> spawn args then start_jobs spawn s gp req is
     else let s1 = s\<lparr>ci_jobs := ci_jobs s @ [args]\<rparr>
     in bindE (cgrp s1 gp) (\<lambda>g.
        bindE (if \<not> ci_is_moderator s1 then Inr True
               else bindE (active_grp s1) (\<lambda>a. Inr (\<not> strcmp_eq (cg_group_name g) (cg_group_name a)))) (\<lambda>own_timer.
        bindE (if own_timer \<and> cg_pending_task_count g = 0
               then client_start_timer s1 (Grp_timer gp) CL_DEFAULT_TIMEOUT CLIENT_TIMEOUT True
               else Inr s1) (\<lambda>s2.
        bindE (upd_cgrp s2 gp (\<lambda>g. g\<lparr>cg_pending_task_count := cg_pending_task_count g + 1,
                                      cg_state := TASK_EXECUTION_IN_PROGRESS\<rparr>)) (\<lambda>s3.
        start_jobs spawn s3 gp req is)))))"

definition handle_perform_task_req :: "(task_args \<Rightarrow> bool) \<Rightarrow> client_information \<Rightarrow> pdu_t \<Rightarrow> client_information result" where
  "handle_perform_task_req spawn s pdu =
     (case idv (pdu_msg pdu) of
        Perform_task_req req \<Rightarrow>
          bindE (nonnull (pt_group_name req)) (\<lambda>gn.
          bindE (get_client_grp_node_by_group_name s gn None) (\<lambda>r.
          case r of
            None \<Rightarrow> Inl AssertFail
          | Some gp \<Rightarrow>
              bindE (cgrp s gp) (\<lambda>g.
              bindE (if pt_task_reassigned req = 0
                     then bindE (reset_results g) (\<lambda>g1. upd_cgrp s gp (\<lambda>_. g1))
                     else Inr s) (\<lambda>s1.
              bindE (occurrences (ci_client_id s1) (pt_client_ids req) 0 (nat (sint (pt_client_id_count req))) []) (\<lambda>counts.
              bindE (case ci_moderator_info s1 of
                       Some m \<Rightarrow> if strcmp_eq (mi_group_name m) (cg_group_name g)
                                 then prepare_moderator s1 req (counts \<noteq> []) else Inr s1
                     | None \<Rightarrow> Inr s1) (\<lambda>s2.
              if counts = []
              then upd_cgrp s2 gp (\<lambda>g. if cg_pending_task_count g = 0 then g\<lparr>cg_state := IDLE\<rparr> else g)
              else start_jobs spawn s2 gp req counts))))))
      | _ \<Rightarrow> Inl WrongMember)"

section \<open>The thread\<close>

text \<open>The source is printed into 100 characters, the destination into 80.\<close>

definition fetch_file_from_server ::
  "(string \<Rightarrow> bool) \<Rightarrow> client_information \<Rightarrow> string \<Rightarrow> string \<Rightarrow> string \<Rightarrow> (string own \<times> client_information) result"
where
  "fetch_file_from_server run s file_folder file_name gname =
     (let src = inet_ntoa (s_addr (ci_server s)) @ '':'' @ file_folder @ ''/'' @ file_name;
          dest = ''/tmp/client/'' @ gname @ ''/'' @ file_name
      in if length src \<ge> 100 \<or> length dest \<ge> 80 then Inl OutOfBounds else fetch_file run s src dest)"

text \<open>
  \<open>fls\<close> holds the files when the computation starts, \<open>can_open\<close> says whether the result
  file can be created.  The result with its type, if there is one, and the files after.
\<close>

definition compute_result ::
  "bool \<Rightarrow> (string \<rightharpoonup> u8 list) \<Rightarrow> task_args \<Rightarrow> string \<Rightarrow> string \<Rightarrow> ((string \<times> u32) option \<times> (string \<rightharpoonup> u8 list)) result"
where
  "compute_result can_open fls args gname dest =
     (if tk_task_type args = 1
      then bindE (find_prime_numbers fls can_open gname (tk_task_filename args) dest) (\<lambda>(r, fls1).
           Inr (map_option (\<lambda>p. (p, TYPE_FILE)) r, fls1))
      else if tk_task_type args = 2
      then bindE (find_sum fls dest) (\<lambda>r. Inr (Some (r, TYPE_LONG), fls))
      else if tk_task_type args = 3
      then bindE (find_prime_sum fls dest) (\<lambda>r. Inr (Some (r, TYPE_LONG), fls))
      else Inr (None, fls))"

text \<open>The group's count goes down; a client that is done stops its timer.\<close>

definition finish_task :: "client_information \<Rightarrow> ptr \<Rightarrow> client_information result" where
  "finish_task s gp =
     bindE (upd_cgrp s gp (\<lambda>g. g\<lparr>cg_pending_task_count := cg_pending_task_count g - 1\<rparr>)) (\<lambda>s1.
     bindE (cgrp s1 gp) (\<lambda>g.
     bindE (assertE (sint (cg_pending_task_count g) \<ge> 0)) (\<lambda>_.
     bindE (if \<not> ci_is_moderator s1 then Inr True
            else bindE (active_grp s1) (\<lambda>a. Inr (\<not> strcmp_eq (cg_group_name a) (cg_group_name g)))) (\<lambda>own_timer.
     if own_timer \<and> cg_pending_task_count g = 0
     then upd_cgrp (client_timer_delete s1 (cg_timer_id g)) gp (\<lambda>g. g\<lparr>cg_timer_id := 0, cg_state := TASK_RES_SENT\<rparr>)
     else Inr s1))))"

definition execute_task ::
  "(string \<Rightarrow> bool) \<Rightarrow> bool \<Rightarrow> (string \<rightharpoonup> u8 list) \<Rightarrow> client_information \<Rightarrow> task_args \<Rightarrow> (client_information \<times> (string \<rightharpoonup> u8 list)) result"
where
  "execute_task run can_open fls s args =
     bindE (cgrp s (tk_group args)) (\<lambda>g.
     bindE (fetch_file_from_server run s (tk_task_folder_path args) (tk_task_filename args) (cg_group_name g)) (\<lambda>(dest, s1).
     case dest of
       Own d \<Rightarrow>
         bindE (compute_result can_open fls args (cg_group_name g) d) (\<lambda>(res, fls1).
         case res of
           None \<Rightarrow> Inr (s1, fls1)
         | Some (r, rtype) \<Rightarrow>
             bindE (finish_task s1 (tk_group args)) (\<lambda>s2.
             bindE (send_task_results_to_moderator run s2 (tk_group args) (tk_task_id args) rtype r (ci_client_id s2) False) (\<lambda>s3.
             Inr (s3, fls1))))
     | _ \<Rightarrow> Inr (s1, fls)))"

end
