(* ===== verification/ClientMain.thy ===== *)
theory ClientMain
  imports ClientTask
begin

text \<open>
  The client's handlers for the messages of the server, its commands and its main loop
  (\<open>src/src/client.c\<close>).
\<close>

section \<open>Moderators\<close>

text \<open>The results kept for a new moderator are sent one by one.\<close>

fun resend_results :: "(string \<Rightarrow> bool) \<Rightarrow> client_information \<Rightarrow> ptr \<Rightarrow> nat \<Rightarrow> nat \<Rightarrow> client_information result" where
  "resend_results run s gp i 0 = Inr s"
| "resend_results run s gp i (Suc k) =
     bindE (cgrp s gp) (\<lambda>g.
     bindE (at (cg_last_task_result_path g) i) (\<lambda>p.
     bindE (nonnull p) (\<lambda>path.
     bindE (send_task_results_to_moderator run s gp (cg_last_task_id g) (ucast (cg_last_task_rsp_type g)) path
              (ci_client_id s) True) (\<lambda>s1.
     resend_results run s1 gp (i + 1) k))))"

fun add_pending :: "client_information \<Rightarrow> u32 list \<Rightarrow> nat \<Rightarrow> nat \<Rightarrow> client_information result" where
  "add_pending s ids i 0 = Inr s"
| "add_pending s ids i (Suc k) =
     bindE (allocate_clnt_moderator_node s) (\<lambda>(p, s1).
     bindE (at ids i) (\<lambda>cid.
     bindE (upd_mnode s1 p (\<lambda>n. n\<lparr>mn_peer_client_id := cid, mn_peer_client_addr := peer_addr_of cid,
                                  mn_heartbeat_remaining := CL_MAX_KA_MISSES\<rparr>)) (\<lambda>s2.
     add_pending s2 ids (i + 1) k)))"

text \<open>The address of the moderator as the messages give it.\<close>

definition moderator_addr :: "u32 \<Rightarrow> u32 \<Rightarrow> sockaddr" where
  "moderator_addr mid port = of_in \<lparr>sin_family = AF_INET, sin_port = ucast port, s_addr = mid\<rparr>"

text \<open>The client becomes the moderator of the group in this state.\<close>

definition become_moderator :: "client_information \<Rightarrow> ptr \<Rightarrow> string \<Rightarrow> u32 \<Rightarrow> u32 \<Rightarrow> moderator_state \<Rightarrow> client_information result" where
  "become_moderator s gp name active expected st =
     (let s1 = (allocate_moderator_info s)\<lparr>ci_is_moderator := True, ci_active_group := Some gp\<rparr>
      in bindE (copy_name10 name) (\<lambda>nm.
         upd_minfo s1 (\<lambda>m. m\<lparr>mi_group_name := nm, mi_active_client_count := ucast active,
                             mi_expected_responses := sint expected, mi_fsm_state := st\<rparr>)))"

text \<open>A moderator that is told of its successor gives up the role.\<close>

definition give_up_moderator :: "client_information \<Rightarrow> client_information result" where
  "give_up_moderator s =
     bindE (minfo s) (\<lambda>m.
     bindE (upd_minfo (client_timer_delete s (mi_timer_id m)) (\<lambda>m. m\<lparr>mi_timer_id := 0\<rparr>)) (\<lambda>s1.
     bindE (deallocate_moderator_list s1) (\<lambda>s2.
     Inr (s2\<lparr>ci_is_moderator := False, ci_active_group := None\<rparr>))))"

text \<open>The signals stay ignored when the old moderator returns; the main loop restores them.\<close>

definition handle_moderator_update :: "(string \<Rightarrow> bool) \<Rightarrow> client_information \<Rightarrow> pdu_t \<Rightarrow> client_information result" where
  "handle_moderator_update run s pdu =
     (case idv (pdu_msg pdu) of
        Moderator_update_req req \<Rightarrow>
          (let s0 = mask_client_signals s True in
          bindE (nonnull (mu_group_name req)) (\<lambda>gn.
          bindE (get_client_grp_node_by_group_name s0 gn None) (\<lambda>r.
          case r of
            None \<Rightarrow> Inl AssertFail
          | Some gp \<Rightarrow>
              bindE (cgrp s0 gp) (\<lambda>g.
              bindE (if \<not> ci_is_moderator s0 then Inr False
                     else bindE (active_grp s0) (\<lambda>a. Inr (strcmp_eq (cg_group_name a) (cg_group_name g)))) (\<lambda>old.
              if old then give_up_moderator s0
              else bindE (upd_cgrp s0 gp (\<lambda>g. g\<lparr>cg_moderator := moderator_addr (mu_moderator_id req) (mu_moderator_port req)\<rparr>)) (\<lambda>s1.
                   bindE (resend_results run s1 gp 0 (unat (cg_last_task_file_count g))) (\<lambda>s2.
                   let s3 = mask_client_signals s2 False
                   in if ci_client_id s3 \<noteq> mu_moderator_id req then Inr s3
                      else bindE (become_moderator s3 gp gn (mu_client_id_count req) (mu_expected_task_responses req)
                                    MODERATOR_TASK_RSP_PENDING) (\<lambda>s4.
                           bindE (add_pending s4 (mu_client_ids req) 0 (unat (mu_client_id_count req))) (\<lambda>s5.
                           bindE (cgrp s5 gp) (\<lambda>g5.
                           bindE (if cg_state g5 = TASK_EXECUTION_IN_PROGRESS
                                  then upd_cgrp (client_timer_delete s5 (cg_timer_id g5)) gp (\<lambda>g. g\<lparr>cg_timer_id := 0\<rparr>)
                                  else Inr s5) (\<lambda>s6. Inr (mask_client_signals s6 False)))))))))))
          )
      | _ \<Rightarrow> Inl WrongMember)"

definition handle_new_server_notification :: "client_information \<Rightarrow> pdu_t \<Rightarrow> client_information result" where
  "handle_new_server_notification s pdu =
     (case idv (pdu_msg pdu) of
        New_server_notify n \<Rightarrow> Inr (s\<lparr>ci_server := (ci_server s)\<lparr>s_addr := ns_new_server_id n\<rparr>\<rparr>)
      | _ \<Rightarrow> Inl WrongMember)"

text \<open>
  A client that is not the moderator but is busy takes the moderator's branch too: the test
  joins the two conditions with \<open>&&\<close>.
\<close>

definition handle_mod_notification :: "client_information \<Rightarrow> pdu_t \<Rightarrow> client_information result" where
  "handle_mod_notification s pdu =
     (case idv (pdu_msg pdu) of
        Moderator_notify_req req \<Rightarrow>
          bindE (nonnull (nq_group_name req)) (\<lambda>gn.
          bindE (get_client_grp_node_by_group_name s gn None) (\<lambda>r.
          case r of
            None \<Rightarrow> Inl AssertFail
          | Some gp \<Rightarrow>
              bindE (upd_cgrp s gp (\<lambda>g. g\<lparr>cg_moderator := moderator_addr (nq_moderator_id req) (nq_moderator_port req),
                                         cg_state := TASK_AWAITED\<rparr>)) (\<lambda>s1.
              bindE (cgrp s1 gp) (\<lambda>g.
              if ci_client_id s1 \<noteq> nq_moderator_id req \<and> cg_pending_task_count g = 0
              then client_send_echo_request s1 (cg_moderator g) gn
              else bindE (become_moderator s1 gp gn (nq_num_of_clients_in_grp req) (nq_num_of_clients_in_grp req)
                            MODERATOR_NOTIFY_RSP_PENDING) (\<lambda>s2.
                   bindE (note_alive s2 (ci_client_id s2)) (\<lambda>s3.
                   bindE (minfo s3) (\<lambda>m.
                   if mi_active_client_count m = 1 then send_moderator_notify_response s3
                   else client_start_timer s3 Mod_timer (5 * CL_DEFAULT_TIMEOUT) MODERATOR_TIMEOUT False)))))))
      | _ \<Rightarrow> Inl WrongMember)"

section \<open>Joining and leaving groups\<close>

text \<open>
  One group of a leave response.  The pointer \<open>gpo\<close> found for the previous group is kept
  when the name is not found.  \<open>multicast_leave\<close> has no effect on this state.
\<close>

definition leave_rsp_step :: "leave_rsp_t \<Rightarrow> u8 \<Rightarrow> client_information \<Rightarrow> ptr option \<Rightarrow> (client_information \<times> ptr option) result" where
  "leave_rsp_step rsp i s gpo =
     bindE (at (lr_group_ids rsp) (unat i)) (\<lambda>name.
     if lr_cause rsp \<noteq> ACCEPTED then Inr (s, gpo)
     else bindE (nonnull name) (\<lambda>nm.
          bindE (get_client_grp_node_by_group_name s nm gpo) (\<lambda>r.
          case r of
            None \<Rightarrow> Inl AssertFail
          | Some gp \<Rightarrow>
              bindE (cgrp s gp) (\<lambda>g.
              bindE (if cg_timer_id g \<noteq> 0
                     then upd_cgrp (client_timer_delete s (cg_timer_id g)) gp (\<lambda>g. g\<lparr>cg_timer_id := 0\<rparr>)
                     else Inr s) (\<lambda>s1.
              Inr (deallocate_client_grp_node s1 gp, Some gp))))))"

text \<open>The loop counts in 8 bits up to a 32-bit bound.\<close>

partial_function (option) leave_rsp_loop ::
  "leave_rsp_t \<Rightarrow> u8 \<Rightarrow> client_information \<Rightarrow> ptr option \<Rightarrow> client_information result option"
where
  "leave_rsp_loop rsp i s gpo =
     (if ucast i < lr_num_groups rsp
      then case leave_rsp_step rsp i s gpo of
             Inl e \<Rightarrow> Some (Inl e)
           | Inr (s1, gpo1) \<Rightarrow> leave_rsp_loop rsp (i + 1) s1 gpo1
      else Some (Inr s))"

declare leave_rsp_loop.simps [code]

definition handle_leave_response :: "client_information \<Rightarrow> pdu_t \<Rightarrow> client_information result option" where
  "handle_leave_response s pdu =
     (case idv (pdu_msg pdu) of
        Leave_rsp rsp \<Rightarrow> leave_rsp_loop rsp 0 s None
      | _ \<Rightarrow> Some (Inl WrongMember))"

text \<open>
  \<open>mjoin\<close> is the descriptor \<open>multicast_join\<close> returns, \<open>ep\<close> whether \<open>epoll_ctl\<close> accepts it.
  A group that cannot be joined ends the handler.
\<close>

fun join_rsp_loop ::
  "(sockaddr_in \<Rightarrow> u32 \<Rightarrow> int) \<Rightarrow> (int \<Rightarrow> bool) \<Rightarrow> client_information \<Rightarrow> l_saddr_in_t list \<Rightarrow> nat \<Rightarrow> client_information result"
where
  "join_rsp_loop mjoin ep s ips 0 = Inr s"
| "join_rsp_loop mjoin ep s [] (Suc k) = Inl OutOfBounds"
| "join_rsp_loop mjoin ep s (e # ips) (Suc k) =
     (if ls_cause e = REJECTED then join_rsp_loop mjoin ep s ips k
      else bindE (nonnull (ls_group_name e)) (\<lambda>name.
           bindE (copy_name10 name) (\<lambda>nm.
           let addr = \<lparr>sin_family = ls_sin_family e, sin_port = ls_sin_port e, s_addr = ucast (ls_s_addr e)\<rparr>;
               fd = mjoin addr (ls_grp_port e)
           in if fd \<le> 0 then Inr s
              else if \<not> ep fd then Inl ProcExit
              else bindE (ADD_CLIENT_IN_LL s nm addr (ls_grp_port e)) (\<lambda>(p, s1).
                   bindE (upd_cgrp s1 p (\<lambda>g. g\<lparr>cg_mcast_fd := of_int fd, cg_state := MOD_INFO_AWAITED\<rparr>)) (\<lambda>s2.
                   join_rsp_loop mjoin ep s2 ips k)))))"

definition handle_join_response ::
  "(sockaddr_in \<Rightarrow> u32 \<Rightarrow> int) \<Rightarrow> (int \<Rightarrow> bool) \<Rightarrow> client_information \<Rightarrow> pdu_t \<Rightarrow> client_information result"
where
  "handle_join_response mjoin ep s pdu =
     (case idv (pdu_msg pdu) of
        Join_rsp rsp \<Rightarrow> join_rsp_loop mjoin ep s (jr_group_ips rsp) (unat (jr_num_groups rsp))
      | _ \<Rightarrow> Inl WrongMember)"

definition send_join_group_req :: "client_information \<Rightarrow> string \<Rightarrow> client_information result" where
  "send_join_group_req s name =
     bindE (IS_GROUP_IN_CLIENT_LL s name) (\<lambda>member.
     if member then Inr s
     else bindE (populate_join_req [name] 1 (ci_client_capability s)) (\<lambda>m. Inr (client_send s (of_in (ci_server s)) m)))"

definition send_leave_group_req :: "client_information \<Rightarrow> string \<Rightarrow> client_information result" where
  "send_leave_group_req s name =
     bindE (get_client_grp_node_by_group_name s name None) (\<lambda>r.
     bindE (case r of None \<Rightarrow> Inr False
            | Some p \<Rightarrow> bindE (cgrp s p) (\<lambda>g. Inr (cg_state g = TASK_EXECUTION_IN_PROGRESS))) (\<lambda>working.
     if working then Inr s
     else bindE (IS_GROUP_IN_CLIENT_LL s name) (\<lambda>member.
          if \<not> member then Inr s
          else bindE (populate_leave_req \<lparr>msg_id = leave_request, idv = Leave_req \<lparr>lq_num_groups = 0, lq_group_ids = []\<rparr>\<rparr> [name] 1) (\<lambda>m.
               Inr (client_send s (of_in (ci_server s)) m)))))"

section \<open>Echo requests\<close>

definition client_handle_echo_req :: "client_information \<Rightarrow> pdu_t \<Rightarrow> client_information result" where
  "client_handle_echo_req s pdu =
     (case idv (pdu_msg pdu) of
        Echo_req req \<Rightarrow>
          (let s0 = (if ci_is_moderator s then mask_client_signals s False else s)
           in bindE (nonnull (eq_group_name req)) (\<lambda>nm.
              bindE (copy_gname nm) (\<lambda>gn.
              let s1 = client_send s0 (peer_addr pdu) \<lparr>msg_id = echo_response,
                         idv = Echo_resp \<lparr>er_status = ci_client_status s0, er_group_name = gn\<rparr>\<rparr>
              in if \<not> ci_is_moderator s1 then Inr s1
                 else bindE (active_grp s1) (\<lambda>a.
                      if strcmp_eq (cg_group_name a) nm
                      then bindE (minfo s1) (\<lambda>m. moderator_main_fsm s1 MOD_ECHO_REQ_RCVD_EVENT (mi_fsm_state m) pdu)
                      else Inr s1))))
      | _ \<Rightarrow> Inl WrongMember)"

text \<open>An echo response is only logged.\<close>

definition client_handle_echo_response :: "client_information \<Rightarrow> pdu_t \<Rightarrow> client_information result" where
  "client_handle_echo_response s pdu = Inr s"

section \<open>Commands\<close>

text \<open>
  At most 99 bytes are read, the last one is replaced by a NUL; nothing read writes before
  the buffer.  The commands that only print leave the state.
\<close>

definition client_stdin_data :: "(string \<Rightarrow> bool) \<Rightarrow> client_information \<Rightarrow> string \<Rightarrow> client_information result" where
  "client_stdin_data run s input =
     (if input = [] then Inl OutOfBounds
      else let line = takeWhile (\<lambda>c. c \<noteq> CHR 0x00) (butlast (take 99 input))
      in if strncmp_eq line ''show help'' 9 then Inr s
         else if strncmp_eq line ''show client groups'' 22 then Inr s
         else if strncmp_eq line ''join group '' 11 then send_join_group_req s (drop 11 line)
         else if strncmp_eq line ''leave group '' 12 then send_leave_group_req s (drop 12 line)
         else if strncmp_eq line ''test echo'' 9 then client_send_echo_request s (of_in (ci_server s)) ''G2''
         else if strncmp_eq line ''show pending clients'' 19 then Inr s
         else if strncmp_eq line ''show done clients'' 13 then Inr s
         else if strncmp_eq line ''enable debug'' 12 then Inr s
         else if strncmp_eq line ''disable debug'' 12 then Inr s
         else if strcmp_eq line ''force cleanup''
         then (if ci_moderator_info s \<noteq> None then moderator_send_task_response_to_server run s True else Inr s)
         else Inr s)"

section \<open>The main loop\<close>

datatype client_handler =
    C_join_response | C_leave_response | C_echo_req | C_echo_response | C_task_response
  | C_mod_notification | C_moderator_update | C_perform_task_req | C_new_server_notification

definition client_func_handler :: "u32 \<Rightarrow> client_handler option" where
  "client_func_handler msgType =
     (if msgType = join_response then Some C_join_response
      else if msgType = leave_response then Some C_leave_response
      else if msgType = echo_req then Some C_echo_req
      else if msgType = echo_response then Some C_echo_response
      else if msgType = task_response then Some C_task_response
      else if msgType = moderator_notify_req then Some C_mod_notification
      else if msgType = moderator_update_req then Some C_moderator_update
      else if msgType = perform_task_req then Some C_perform_task_req
      else if msgType = new_server_notify then Some C_new_server_notification
      else None)"

text \<open>What the operating system answers to the client.\<close>

record client_env =
  env_run :: "string \<Rightarrow> bool"
  env_spawn :: "task_args \<Rightarrow> bool"
  env_mjoin :: "sockaddr_in \<Rightarrow> u32 \<Rightarrow> int"
  env_epoll :: "int \<Rightarrow> bool"

definition run_client_handler :: "client_env \<Rightarrow> client_handler \<Rightarrow> client_information \<Rightarrow> pdu_t \<Rightarrow> client_information result option" where
  "run_client_handler e h s pdu =
     (case h of
        C_join_response \<Rightarrow> Some (handle_join_response (env_mjoin e) (env_epoll e) s pdu)
      | C_leave_response \<Rightarrow> handle_leave_response s pdu
      | C_echo_req \<Rightarrow> Some (client_handle_echo_req s pdu)
      | C_echo_response \<Rightarrow> Some (client_handle_echo_response s pdu)
      | C_task_response \<Rightarrow> Some (client_handle_task_response (env_run e) s pdu)
      | C_mod_notification \<Rightarrow> Some (handle_mod_notification s pdu)
      | C_moderator_update \<Rightarrow> Some (handle_moderator_update (env_run e) s pdu)
      | C_perform_task_req \<Rightarrow> Some (handle_perform_task_req (env_spawn e) s pdu)
      | C_new_server_notification \<Rightarrow> Some (handle_new_server_notification s pdu))"

text \<open>The signals are ignored while a message is handled.\<close>

definition client_serve :: "client_env \<Rightarrow> client_information \<Rightarrow> pdu_t \<Rightarrow> client_information result option" where
  "client_serve e s pdu =
     (let s0 = mask_client_signals s True
      in case client_func_handler (msg_id (pdu_msg pdu)) of
           None \<Rightarrow> Some (Inr (mask_client_signals s0 False))
         | Some h \<Rightarrow> map_option (\<lambda>r. bindE r (\<lambda>s1. Inr (mask_client_signals s1 False))) (run_client_handler e h s0 pdu))"

text \<open>The group names of the command line, as \<open>strtok\<close> cuts them at commas.\<close>

function group_tokens :: "string \<Rightarrow> string list" where
  "group_tokens str =
     (let r = dropWhile (\<lambda>c. c = CHR '','') str
      in if r = [] then []
         else takeWhile (\<lambda>c. c \<noteq> CHR '','') r # group_tokens (dropWhile (\<lambda>c. c \<noteq> CHR '','') r))"
  by pat_completeness auto
termination
proof (relation "measure length")
  fix str r :: string
  assume r: "r = dropWhile (\<lambda>c. c = CHR '','') str" "r \<noteq> []"
  then obtain c cs where c: "r = c # cs" by (meson neq_Nil_conv)
  then have "c \<noteq> CHR '',''" using hd_dropWhile [of "\<lambda>c. c = CHR '',''" str] r by simp
  then have "length (dropWhile (\<lambda>c. c \<noteq> CHR '','') r) \<le> length cs"
    using c by (simp add: length_dropWhile_le)
  also have "\<dots> < length r" using c by simp
  also have "\<dots> \<le> length str" unfolding r(1) by (rule length_dropWhile_le)
  finally show "(dropWhile (\<lambda>c. c \<noteq> CHR '','') r, str) \<in> measure length" by simp
qed simp

declare group_tokens.simps [simp del]

text \<open>
  The set-up of \<open>main\<close>: the structure is allocated, the server's address stored and all
  groups of the command line are asked for in one request.  The names are copied into 50
  characters.  Nothing sets \<open>is_moderator\<close> before the first moderator is chosen: \<open>junk\<close> is
  the value that the allocated memory holds in its place.  The other fields given here are
  set by \<open>main\<close> or are global variables, which start as zero.
\<close>

definition client_start :: "bool \<Rightarrow> u32 \<Rightarrow> u32 \<Rightarrow> sockaddr_in \<Rightarrow> string \<Rightarrow> string \<Rightarrow> client_information result" where
  "client_start junk cid capability server names now =
     (let s = allocate_client_info \<lparr>ci_is_moderator = junk, ci_moderator_info = None, ci_client_id = cid,
            ci_client_capability = capability, ci_client_status = CL_FREE, ci_server = server,
            ci_active_group = None, ci_client_grp_list = [], ci_groups = Map.empty, ci_nodes = Map.empty,
            ci_next_ptr = 1, ci_rsp_list = replicate 255 0, ci_rsp_cntr = 0, ci_echo_cntr = 0,
            ci_masked = False, ci_timers = Map.empty, ci_next_timer = 1, ci_outbox = [], ci_commands = [],
            ci_jobs = [], ci_stamp = now\<rparr>;
          toks = group_tokens names
      in if length names \<ge> 50 then Inl OutOfBounds
         else bindE (populate_join_req toks (length toks) capability) (\<lambda>m.
              Inr (client_send s (of_in server) m)))"

end
