(* ===== verification/DemoClient.thy ===== *)
theory DemoClient
  imports ClientMain
begin

text \<open>
  A client that is a member of the group \<open>G1\<close>, as it is and as the moderator of two clients
  at work: the states the properties of the client are applied to in their witnesses.
\<close>

definition demo_cgrp :: client_grp_node where
  "demo_cgrp = blank_client_grp\<lparr>cg_group_name := ''G1'', cg_state := TASK_AWAITED\<rparr>"

definition demo_client :: client_information where
  "demo_client = \<lparr>ci_is_moderator = False, ci_moderator_info = None, ci_client_id = 5, ci_client_capability = 1,
     ci_client_status = CL_FREE, ci_server = \<lparr>sin_family = AF_INET, sin_port = 80, s_addr = 9\<rparr>,
     ci_active_group = None, ci_client_grp_list = [1], ci_groups = [1 \<mapsto> demo_cgrp], ci_nodes = Map.empty,
     ci_next_ptr = 4, ci_rsp_list = replicate 255 0, ci_rsp_cntr = 0, ci_echo_cntr = 0, ci_masked = False,
     ci_timers = Map.empty, ci_next_timer = 1, ci_outbox = [], ci_commands = [], ci_jobs = [], ci_stamp = ''t''\<rparr>"

definition demo_peer :: "u32 \<Rightarrow> u8 \<Rightarrow> mod_client_node" where
  "demo_peer cid hb = \<lparr>mn_peer_client_id = cid, mn_peer_client_addr = peer_addr_of cid, mn_heartbeat_remaining = hb,
     mn_ref_count = 1\<rparr>"

definition demo_minfo :: moderator_information where
  "demo_minfo = \<lparr>mi_group_name = ''G1'', mi_timer_id = 1, mi_pending_client_list = [2, 3], mi_done_client_list = [],
     mi_fsm_state = MODERATOR_TASK_RSP_PENDING, mi_active_client_count = 2, mi_moderator_resp_msg = None,
     mi_expected_responses = 2\<rparr>"

definition demo_moderator :: client_information where
  "demo_moderator = demo_client\<lparr>ci_is_moderator := True, ci_moderator_info := Some demo_minfo, ci_active_group := Some 1,
     ci_nodes := [2 \<mapsto> demo_peer 6 0, 3 \<mapsto> demo_peer 7 2],
     ci_timers := [1 \<mapsto> \<lparr>ct_signal = MODERATOR_TIMEOUT, ct_owner = Mod_timer, ct_interval = 3, ct_recurring = True\<rparr>],
     ci_next_timer := 2\<rparr>"

named_theorems demo_defs "the states of the example client"

declare demo_client_def [demo_defs] demo_cgrp_def [demo_defs] demo_peer_def [demo_defs] demo_minfo_def [demo_defs]
  demo_moderator_def [demo_defs] blank_client_grp_def [demo_defs]

text \<open>The address of a client and a result of the client for the group \<open>G1\<close>.\<close>

definition demo_client_addr :: "u32 \<Rightarrow> sockaddr" where
  "demo_client_addr cid = of_in \<lparr>sin_family = AF_INET, sin_port = 80, s_addr = cid\<rparr>"

lemma calc_key_client_addr [simp]: "calc_key (Some (demo_client_addr cid)) = cid"
  by (simp add: demo_client_addr_def calc_key_of_in)

definition demo_result :: "u32 \<Rightarrow> string \<Rightarrow> task_rsp_t" where
  "demo_result cid str = \<lparr>tr_group_name = Some ''G1'', tr_task_id = 1, tr_type = TYPE_LONG, tr_num_clients = 1,
     tr_client_ids = [cid, 0], tr_result = [Some str], tr_final_resp = Some ''''\<rparr>"

end
