(* ===== verification/ClientCollect.thy ===== *)
theory ClientCollect
  imports DemoClient
begin

text \<open>
  The moderator collects the results of its clients: each result moves a client from the
  pending list to the done list, and the last one sends the sum of all to the server and
  ends the moderator's role.
\<close>

section \<open>Lists of nodes\<close>

text \<open>The identifier in a node of the moderator.\<close>

definition nid :: "client_information \<Rightarrow> ptr \<Rightarrow> u32" where
  "nid s p = mn_peer_client_id (the (ci_nodes s p))"

lemma free_nodes_ok:
  "distinct ps \<Longrightarrow> set ps \<subseteq> dom (ci_nodes s) \<Longrightarrow> free_nodes s ps = Inr (s\<lparr>ci_nodes := ci_nodes s |` (- set ps)\<rparr>)"
proof (induction ps arbitrary: s)
  case (Cons p ps)
  obtain n where n: "ci_nodes s p = Some n" using Cons.prems by auto
  have "set ps \<subseteq> dom (ci_nodes (s\<lparr>ci_nodes := (ci_nodes s)(p := None)\<rparr>))" using Cons.prems by auto
  moreover have "((ci_nodes s)(p := None)) |` (- set ps) = ci_nodes s |` (- insert p (set ps))"
    by (auto simp: restrict_map_def)
  ultimately show ?case using Cons n by simp
qed (simp add: restrict_map_def)

lemma find_pending_ok:
  assumes "set ps \<subseteq> dom (ci_nodes s)"
  shows "find_pending s ps cid = Inr (find (\<lambda>p. nid s p = cid) ps)"
  using assms
proof (induction ps)
  case (Cons p ps)
  then obtain n where "ci_nodes s p = Some n" by auto
  with Cons show ?case by (simp add: nid_def)
qed simp

lemma dealloc_ok:
  assumes "ci_moderator_info s = Some m" "distinct (mi_pending_client_list m @ mi_done_client_list m)"
    "set (mi_pending_client_list m) \<union> set (mi_done_client_list m) \<subseteq> dom (ci_nodes s)"
  shows "deallocate_moderator_list s =
    Inr (s\<lparr>ci_nodes := ci_nodes s |` (- (set (mi_pending_client_list m) \<union> set (mi_done_client_list m))), ci_moderator_info := None\<rparr>)"
proof -
  let ?P = "mi_pending_client_list m" let ?D = "mi_done_client_list m"
  have 1: "free_nodes s ?D = Inr (s\<lparr>ci_nodes := ci_nodes s |` (- set ?D)\<rparr>)"
    using assms by (intro free_nodes_ok) auto
  have 2: "free_nodes (s\<lparr>ci_nodes := ci_nodes s |` (- set ?D), ci_moderator_info := Some x\<rparr>) ?P =
      Inr (s\<lparr>ci_nodes := (ci_nodes s |` (- set ?D)) |` (- set ?P), ci_moderator_info := Some x\<rparr>)" for x
    using assms by (subst free_nodes_ok) auto
  show ?thesis
    using assms(1) 1 2
    by (simp add: deallocate_moderator_list_def deallocate_mod_done_list_def deallocate_mod_pending_list_def
        Compl_Un Int_commute)
qed

section \<open>One result\<close>

text \<open>The moderator's message when the results \<open>dn\<close> of \<open>n\<close> have come.\<close>

definition collected :: "string \<Rightarrow> u32 \<Rightarrow> nat \<Rightarrow> (u32 \<times> string) list \<Rightarrow> task_rsp_t" where
  "collected g tid n dn = \<lparr>tr_group_name = Some g, tr_task_id = tid, tr_type = TYPE_LONG,
     tr_num_clients = of_nat (length dn), tr_client_ids = map fst dn @ replicate (2 * n - length dn) 0,
     tr_result = map (Some \<circ> snd) dn @ replicate (n - length dn) None, tr_final_resp = Some ''''\<rparr>"

lemma update_at_end: "k > 0 \<Longrightarrow> (xs @ replicate k x)[length xs := v] = xs @ v # replicate (k - 1) x"
  by (cases k) (simp_all add: list_update_append)

lemma update_collected:
  assumes "length dn < n" "n \<le> 255"
  shows "update_task_rsp (collected g tid n dn) path cid = Inr (collected g tid n (dn @ [(cid, path)]))"
proof -
  have u: "unat (word_of_nat (length dn) :: u32) = length dn" using assms by (simp add: unat_of_nat)
  have a: "(map fst dn @ replicate (2 * n - length dn) 0)[length dn := cid] = map fst dn @ cid # replicate (2 * n - Suc (length dn)) 0"
    using update_at_end [of "2 * n - length dn" "map fst dn" 0 cid] assms by simp
  have b: "(map (Some \<circ> snd) dn @ replicate (n - length dn) None)[length dn := Some path] =
      map (Some \<circ> snd) dn @ Some path # replicate (n - Suc (length dn)) None"
    using update_at_end [of "n - length dn" "map (Some \<circ> snd) dn" None "Some path"] assms by simp
  show ?thesis
    using assms by (simp add: update_task_rsp_def collected_def Let_def u upd_at_def a b del: list_update_append1)
qed

lemma populate_collected:
  assumes "0 < n" "n \<le> 255" "tr_group_name t = Some g" "tr_type t = TYPE_LONG" "tr_result t = Some path # rs"
  shows "populate_moderator_task_rsp (of_nat n) t cid =
    Inr \<lparr>msg_id = task_response, idv = Task_rsp (collected g (tr_task_id t) n [(cid, path)])\<rparr>"
proof -
  have "unat (word_of_nat n :: u8) = n" using assms(2) by (simp add: unat_of_nat)
  then show ?thesis
    using update_collected [of "[]" n g "tr_task_id t" path cid] assms
    by (simp add: populate_moderator_task_rsp_def collected_def)
qed

text \<open>The message so far: none before the first result.\<close>

definition so_far :: "string \<Rightarrow> u32 \<Rightarrow> nat \<Rightarrow> (u32 \<times> string) list \<Rightarrow> comm_struct_t option" where
  "so_far g tid n dn = (if dn = [] then None else Some \<lparr>msg_id = task_response, idv = Task_rsp (collected g tid n dn)\<rparr>)"

lemma add_response_collected:
  assumes "mi_moderator_resp_msg m = so_far g tid n dn" "mi_expected_responses m = int n"
    "length dn < n" "n \<le> 255" "tr_group_name t = Some g" "tr_type t = TYPE_LONG" "tr_result t = Some path # rs"
    "dn = [] \<longrightarrow> tid = tr_task_id t"
  shows "add_response m t cid = Inr \<lparr>msg_id = task_response, idv = Task_rsp (collected g tid n (dn @ [(cid, path)]))\<rparr>"
proof (cases "dn = []")
  case True
  then show ?thesis using assms populate_collected [of n t g path rs cid] by (simp add: add_response_def so_far_def)
next
  case False
  have c: "check_if_response_already_received (collected g tid n dn) path = Inr True"
    by (simp add: check_if_response_already_received_def collected_def)
  show ?thesis
    using assms False by (simp add: add_response_def so_far_def c update_collected task_rsp_of_def)
qed

text \<open>A result that is not the last.\<close>

lemma update_step:
  assumes "ci_moderator_info s = Some m" "find_pending s (mi_pending_client_list m) cid = Inr (Some p)"
    "ci_nodes s p = Some nd" "mn_ref_count nd = 1"
    "add_response m t cid = Inr rsp" "task_rsp_of rsp = Inr t1" "sint (tr_num_clients t1) \<noteq> mi_expected_responses m"
  shows "update_moderator_info_with_task_response run s t cid =
    Inr (s\<lparr>ci_nodes := (ci_nodes s)(p \<mapsto> nd\<lparr>mn_ref_count := 0\<rparr>),
       ci_moderator_info := Some (m\<lparr>mi_moderator_resp_msg := Some rsp,
         mi_pending_client_list := remove1 p (mi_pending_client_list m),
         mi_done_client_list := p # mi_done_client_list m\<rparr>), ci_masked := False\<rparr>)"
  using assms
  by (simp add: update_moderator_info_with_task_response_def get_client_from_moderator_pending_list_def
      move_moderator_node_pending_to_done_list_def moderator_send_task_response_to_server_def
      mask_client_signals_def Let_def)

text \<open>The state when the results have gone to the server.\<close>

definition role_ended :: "client_information \<Rightarrow> moderator_information \<Rightarrow> comm_struct_t \<Rightarrow> client_information" where
  "role_ended s m msg = s\<lparr>ci_nodes := ci_nodes s |` (- (set (mi_pending_client_list m) \<union> set (mi_done_client_list m))),
     ci_moderator_info := None, ci_is_moderator := False, ci_client_status := CL_FREE, ci_active_group := None,
     ci_timers := (ci_timers s)(mi_timer_id m := None), ci_outbox := ci_outbox s @ [(of_in (ci_server s), msg)],
     ci_masked := False\<rparr>"

text \<open>The last result.\<close>

lemma update_last:
  assumes "ci_moderator_info s = Some m" "find_pending s (mi_pending_client_list m) cid = Inr (Some p)"
    "ci_nodes s p = Some nd" "mn_ref_count nd = 1" "p \<in> set (mi_pending_client_list m)"
    "distinct (mi_pending_client_list m @ mi_done_client_list m)"
    "set (mi_pending_client_list m) \<union> set (mi_done_client_list m) \<subseteq> dom (ci_nodes s)"
    "add_response m t cid = Inr rsp" "task_rsp_of rsp = Inr t1" "sint (tr_num_clients t1) = mi_expected_responses m"
    "tr_type t1 = TYPE_LONG" "sum_results (tr_result t1) (nat (sint (tr_num_clients t1))) 0 = Inr tot"
  shows "update_moderator_info_with_task_response run s t cid =
    Inr (role_ended s m (rsp\<lparr>idv := Task_rsp (t1\<lparr>tr_final_resp := Some (dec_str (unat tot))\<rparr>)\<rparr>))"
proof -
  let ?m = "m\<lparr>mi_moderator_resp_msg := Some rsp, mi_pending_client_list := remove1 p (mi_pending_client_list m),
      mi_done_client_list := p # mi_done_client_list m, mi_timer_id := 0\<rparr>"
  have d: "distinct (mi_pending_client_list ?m @ mi_done_client_list ?m)"
    using assms(5,6) by (auto simp: distinct_remove1 set_remove1_eq)
  have e: "set (mi_pending_client_list ?m) \<union> set (mi_done_client_list ?m) =
      set (mi_pending_client_list m) \<union> set (mi_done_client_list m)"
    using assms(5,6) by (auto simp: set_remove1_eq)
  have "p \<in> set (mi_pending_client_list m) \<union> set (mi_done_client_list m)" using assms(5) by simp
  then have r: "((ci_nodes s)(p \<mapsto> x)) |` (- (set (mi_pending_client_list m) \<union> set (mi_done_client_list m))) =
      ci_nodes s |` (- (set (mi_pending_client_list m) \<union> set (mi_done_client_list m)))" for x
    by (auto simp: restrict_map_def)
  have dom: "set (mi_pending_client_list ?m) \<union> set (mi_done_client_list ?m) \<subseteq> dom ((ci_nodes s)(p \<mapsto> x))" for x
    unfolding e using assms(7) by auto
  have "deallocate_moderator_list s1 = Inr (s1\<lparr>ci_nodes := ci_nodes s |` (- (set (mi_pending_client_list m) \<union> set (mi_done_client_list m))),
      ci_moderator_info := None\<rparr>)"
    if "ci_moderator_info s1 = Some ?m" "ci_nodes s1 = (ci_nodes s)(p \<mapsto> x)" for s1 x
    by (rule dealloc_ok [OF that(1) d, unfolded that(2) e r, OF dom [of x, unfolded e]])
  then show ?thesis
    using assms(1-4,8-12)
    by (simp add: update_moderator_info_with_task_response_def get_client_from_moderator_pending_list_def
        move_moderator_node_pending_to_done_list_def moderator_send_task_response_to_server_def
        mask_client_signals_def Let_def collate_results_def client_send_def client_timer_delete_def role_ended_def)
qed

section \<open>All results\<close>

text \<open>Results as they reach the moderator, each with the client it comes from.\<close>

fun collect :: "(string \<Rightarrow> bool) \<Rightarrow> client_information \<Rightarrow> (task_rsp_t \<times> u32) list \<Rightarrow> client_information result" where
  "collect run s [] = Inr s"
| "collect run s ((t, cid) # rs) = bindE (update_moderator_info_with_task_response run s t cid) (\<lambda>s1. collect run s1 rs)"

text \<open>The pending clients are exactly those whose results \<open>cids\<close> are missing.\<close>

definition waiting_for :: "client_information \<Rightarrow> moderator_information \<Rightarrow> u32 list \<Rightarrow> bool" where
  "waiting_for s m cids \<longleftrightarrow> distinct (mi_pending_client_list m @ mi_done_client_list m) \<and>
     set (mi_pending_client_list m) \<union> set (mi_done_client_list m) \<subseteq> dom (ci_nodes s) \<and>
     (\<forall>p\<in>set (mi_pending_client_list m). mn_ref_count (the (ci_nodes s p)) = 1) \<and>
     distinct (map (nid s) (mi_pending_client_list m)) \<and> distinct cids \<and>
     nid s ` set (mi_pending_client_list m) = set cids"

lemma waiting_for_first:
  assumes "waiting_for s m (cid # cids)"
  obtains p nd where "find_pending s (mi_pending_client_list m) cid = Inr (Some p)" "ci_nodes s p = Some nd"
    "mn_ref_count nd = 1" "p \<in> set (mi_pending_client_list m)" "nid s p = cid"
proof -
  note w = assms [unfolded waiting_for_def]
  have "cid \<in> nid s ` set (mi_pending_client_list m)" using w by simp
  then have "find (\<lambda>p. nid s p = cid) (mi_pending_client_list m) \<noteq> None" by (auto simp: find_None_iff)
  then obtain p where p: "find (\<lambda>p. nid s p = cid) (mi_pending_client_list m) = Some p" by auto
  then have m: "p \<in> set (mi_pending_client_list m)" "nid s p = cid" by (auto simp: find_Some_iff)
  then obtain nd where "ci_nodes s p = Some nd" using w by auto
  moreover have "find_pending s (mi_pending_client_list m) cid = Inr (Some p)" using w p by (simp add: find_pending_ok)
  moreover have "mn_ref_count nd = 1" using w m(1) \<open>ci_nodes s p = Some nd\<close> by force
  ultimately show ?thesis using m that by blast
qed

lemma waiting_for_rest:
  assumes "waiting_for s m (cid # cids)" "p \<in> set (mi_pending_client_list m)" "nid s p = cid"
    "ci_nodes s p = Some nd" "ci_nodes s1 = (ci_nodes s)(p \<mapsto> nd\<lparr>mn_ref_count := 0\<rparr>)"
    "mi_pending_client_list m1 = remove1 p (mi_pending_client_list m)"
    "mi_done_client_list m1 = p # mi_done_client_list m"
  shows "waiting_for s1 m1 cids"
proof -
  note w = assms(1) [unfolded waiting_for_def]
  obtain as bs where ps: "mi_pending_client_list m = as @ p # bs" "p \<notin> set as" "p \<notin> set bs"
    using distinct_split_member [OF assms(2)] w by auto
  have rest: "mi_pending_client_list m1 = as @ bs" using ps by (simp add: assms(6) remove1_split)
  have n: "nid s1 = nid s" using assms(4,5) by (intro ext) (simp add: nid_def)
  have "insert cid (nid s ` set (as @ bs)) = insert cid (set cids)" using w ps(1) assms(3) by auto
  moreover have "cid \<notin> nid s ` set (as @ bs)" "cid \<notin> set cids" using w ps(1) assms(3) by auto
  ultimately have "nid s ` set (as @ bs) = set cids" by (metis insert_ident)
  moreover have "distinct (map (nid s) (as @ bs))" using w ps by auto
  ultimately show ?thesis
    using w ps assms(4,5,7) unfolding waiting_for_def rest by (auto simp: n image_Un)
qed

lemma sum_results_ok:
  "\<forall>str\<in>set strs. atol str = of_nat (val str) \<Longrightarrow>
   sum_results (map Some strs @ xs) (length strs) acc = Inr (acc + of_nat (sum_list (map val strs)))"
proof (induction strs arbitrary: acc)
  case (Cons str strs)
  then have "sum_results (map Some strs @ xs) (length strs) (acc + atol str) = Inr (acc + atol str + of_nat (sum_list (map val strs)))"
    by simp
  with Cons.prems show ?case by (simp add: add.assoc)
qed simp

text \<open>A task response with the result \<open>str\<close> for the group.\<close>

definition result_for :: "string \<Rightarrow> task_rsp_t \<Rightarrow> string \<Rightarrow> bool" where
  "result_for g t str \<longleftrightarrow> tr_group_name t = Some g \<and> tr_type t = TYPE_LONG \<and> (\<exists>rs. tr_result t = Some str # rs)"

text \<open>The message to the server, and what it leaves of the moderator.\<close>

definition final_msg :: "string \<Rightarrow> u32 \<Rightarrow> nat \<Rightarrow> (u32 \<times> string) list \<Rightarrow> nat \<Rightarrow> comm_struct_t" where
  "final_msg g tid n dn tot = \<lparr>msg_id = task_response,
     idv = Task_rsp ((collected g tid n dn)\<lparr>tr_final_resp := Some (dec_str (tot mod 2 ^ 64))\<rparr>)\<rparr>"

definition ended :: "client_information \<Rightarrow> client_information \<Rightarrow> moderator_information \<Rightarrow> comm_struct_t \<Rightarrow> bool" where
  "ended s s' m msg \<longleftrightarrow> ci_moderator_info s' = None \<and> \<not> ci_is_moderator s' \<and> ci_active_group s' = None \<and>
     ci_timers s' = (ci_timers s)(mi_timer_id m := None) \<and> ci_outbox s' = ci_outbox s @ [(of_in (ci_server s), msg)] \<and>
     ci_groups s' = ci_groups s \<and>
     ci_nodes s' = ci_nodes s |` (- (set (mi_pending_client_list m) \<union> set (mi_done_client_list m)))"

lemma role_ended_ended: "ended s (role_ended s m msg) m msg"
  by (simp add: ended_def role_ended_def)

lemma sint_small: "n \<le> 255 \<Longrightarrow> sint (word_of_nat n :: u32) = int n"
  by (simp add: signed_of_nat signed_take_bit_int_eq_self)

text \<open>The answer of a client the moderator waits for, added to the answers \<open>dn\<close> so far.\<close>

lemma answer_added:
  assumes "mi_expected_responses m = int n" "n \<le> 255" "mi_moderator_resp_msg m = so_far g tid n dn" "length dn < n"
    "result_for g t str" "dn = [] \<longrightarrow> tid = tr_task_id t"
  shows "add_response m t cid = Inr \<lparr>msg_id = task_response, idv = Task_rsp (collected g tid n (dn @ [(cid, str)]))\<rparr>"
    "sint (tr_num_clients (collected g tid n (dn @ [(cid, str)]))) = int (Suc (length dn))"
proof -
  obtain rs where t: "tr_group_name t = Some g" "tr_type t = TYPE_LONG" "tr_result t = Some str # rs"
    using assms(5) by (auto simp: result_for_def)
  show "add_response m t cid = Inr \<lparr>msg_id = task_response, idv = Task_rsp (collected g tid n (dn @ [(cid, str)]))\<rparr>"
    by (intro add_response_collected [OF assms(3,1,4,2) t assms(6)])
  show "sint (tr_num_clients (collected g tid n (dn @ [(cid, str)]))) = int (Suc (length dn))"
    using assms(2,4) sint_small [of "Suc (length dn)"] by (simp add: collected_def)
qed

lemma last_answer:
  assumes "ci_moderator_info s = Some m" "mi_expected_responses m = int n" "n \<le> 255"
    "mi_moderator_resp_msg m = so_far g tid n dn" "Suc (length dn) = n" "waiting_for s m [cid]" "result_for g t str"
    "\<forall>str\<in>set (map snd (dn @ [(cid, str)])). atol str = of_nat (val str)" "dn = [] \<longrightarrow> tid = tr_task_id t"
  shows "update_moderator_info_with_task_response run s t cid =
    Inr (role_ended s m (final_msg g tid n (dn @ [(cid, str)]) (sum_list (map val (map snd (dn @ [(cid, str)]))))))"
proof -
  let ?dn = "dn @ [(cid, str)]"
  have lt: "length dn < n" using assms(5) by simp
  note add = answer_added [OF assms(2-4) lt assms(7,9), of cid]
  obtain p nd where p: "find_pending s (mi_pending_client_list m) cid = Inr (Some p)" "ci_nodes s p = Some nd"
      "mn_ref_count nd = 1" "p \<in> set (mi_pending_client_list m)" "nid s p = cid"
    by (rule waiting_for_first [OF assms(6)])
  have "tr_result (collected g tid n ?dn) = map Some (map snd ?dn) @ []" using assms(5) by (simp add: collected_def)
  then have "sum_results (tr_result (collected g tid n ?dn)) (nat (sint (tr_num_clients (collected g tid n ?dn)))) 0 =
      Inr (of_nat (sum_list (map val (map snd ?dn))))"
    using sum_results_ok [of "map snd ?dn" val "[]" 0] assms(8) unfolding add(2) nat_int by simp
  then have "update_moderator_info_with_task_response run s t cid = Inr (role_ended s m \<lparr>msg_id = task_response, idv = Task_rsp
      ((collected g tid n ?dn)\<lparr>tr_final_resp := Some (dec_str (unat (of_nat (sum_list (map val (map snd ?dn))) :: u64)))\<rparr>)\<rparr>)"
    using assms(2,5) add(2) assms(6) [unfolded waiting_for_def]
    by (intro update_last [OF assms(1) p(1-4) _ _ add(1), simplified]) (auto simp: collected_def)
  also have "unat (of_nat k :: u64) = k mod 2 ^ 64" for k
    by (simp add: unsigned_of_nat take_bit_eq_mod)
  finally show ?thesis by (simp only: final_msg_def)
qed

lemma next_answer:
  assumes "ci_moderator_info s = Some m" "mi_expected_responses m = int n" "n \<le> 255"
    "mi_moderator_resp_msg m = so_far g tid n dn" "Suc (length dn) < n" "waiting_for s m (cid # cids)" "result_for g t str"
    "dn = [] \<longrightarrow> tid = tr_task_id t"
  obtains s1 m1 where "update_moderator_info_with_task_response run s t cid = Inr s1" "ci_moderator_info s1 = Some m1"
    "mi_expected_responses m1 = int n" "mi_moderator_resp_msg m1 = so_far g tid n (dn @ [(cid, str)])" "waiting_for s1 m1 cids"
    "\<forall>s' msg. ended s1 s' m1 msg \<longrightarrow> ended s s' m msg"
proof -
  let ?rsp = "\<lparr>msg_id = task_response, idv = Task_rsp (collected g tid n (dn @ [(cid, str)]))\<rparr>"
  have lt: "length dn < n" using assms(5) by simp
  note add = answer_added [OF assms(2-4) lt assms(7,8), of cid]
  obtain p nd where p: "find_pending s (mi_pending_client_list m) cid = Inr (Some p)" "ci_nodes s p = Some nd"
      "mn_ref_count nd = 1" "p \<in> set (mi_pending_client_list m)" "nid s p = cid"
    by (rule waiting_for_first [OF assms(6)])
  define m1 where "m1 = m\<lparr>mi_moderator_resp_msg := Some ?rsp, mi_pending_client_list := remove1 p (mi_pending_client_list m),
      mi_done_client_list := p # mi_done_client_list m\<rparr>"
  define s1 where "s1 = s\<lparr>ci_nodes := (ci_nodes s)(p \<mapsto> nd\<lparr>mn_ref_count := 0\<rparr>), ci_moderator_info := Some m1, ci_masked := False\<rparr>"
  have "(set (remove1 p (mi_pending_client_list m)) \<union> insert p (set (mi_done_client_list m))) =
      set (mi_pending_client_list m) \<union> set (mi_done_client_list m)"
    using assms(6) [unfolded waiting_for_def] p(4) by (auto simp: set_remove1_eq)
  then have "ended s s' m msg" if "ended s1 s' m1 msg" for s' msg
    using that p(4) by (auto simp: ended_def s1_def m1_def restrict_map_def fun_eq_iff)
  moreover have "update_moderator_info_with_task_response run s t cid = Inr s1"
    unfolding s1_def m1_def using assms(2,5) add(2) by (intro update_step [OF assms(1) p(1-3) add(1)]) auto
  moreover have "waiting_for s1 m1 cids"
    unfolding s1_def m1_def by (rule waiting_for_rest [OF assms(6) p(4,5,2)]) simp_all
  ultimately show ?thesis using that [of s1 m1] assms(2) by (simp add: s1_def m1_def so_far_def)
qed

lemma collect_all:
  assumes "ci_moderator_info s = Some m" "mi_expected_responses m = int n" "n \<le> 255"
    "mi_moderator_resp_msg m = so_far g tid n dn" "length dn + length rs = n" "rs \<noteq> []"
    "waiting_for s m (map snd rs)" "list_all2 (\<lambda>(t, _) str. result_for g t str) rs strs"
    "\<forall>str\<in>set (map snd dn @ strs). atol str = of_nat (val str)" "dn = [] \<longrightarrow> tid = tr_task_id (fst (hd rs))"
  shows "\<exists>s'. collect run s rs = Inr s' \<and>
    ended s s' m (final_msg g tid n (dn @ zip (map snd rs) strs) (sum_list (map val (map snd dn @ strs))))"
  using assms
proof (induction rs arbitrary: s m dn strs)
  case (Cons r rs)
  note P = Cons.prems
  obtain t cid where r: "r = (t, cid)" by force
  obtain str strs' where strs: "strs = str # strs'" "result_for g t str"
      "list_all2 (\<lambda>(t, _) str. result_for g t str) rs strs'"
    using P(8) r by (auto simp: list_all2_Cons1)
  let ?dn = "dn @ [(cid, str)]"
  have all: "dn @ zip (map snd (r # rs)) strs = ?dn @ zip (map snd rs) strs'" "map snd dn @ strs = map snd ?dn @ strs'"
    using r strs(1) by simp_all
  have w: "waiting_for s m (cid # map snd rs)" and tid: "dn = [] \<longrightarrow> tid = tr_task_id t" using P(7,10) r by simp_all
  show ?case
  proof (cases "rs = []")
    case True
    then have n: "Suc (length dn) = n" "strs' = []" "waiting_for s m [cid]" using P(5) strs(3) w by simp_all
    have vals: "\<forall>str\<in>set (map snd ?dn). atol str = of_nat (val str)" using P(9) n(2) by (simp only: all(2)) simp
    have u: "update_moderator_info_with_task_response run s t cid =
        Inr (role_ended s m (final_msg g tid n ?dn (sum_list (map val (map snd ?dn)))))"
      by (rule last_answer [OF P(1-4) n(1,3) strs(2) vals tid])
    have "collect run s (r # rs) = Inr (role_ended s m (final_msg g tid n ?dn (sum_list (map val (map snd ?dn)))))"
      using u True r by (simp only: collect.simps bindE_simps)
    moreover have "dn @ zip (map snd (r # rs)) strs = ?dn" "map snd dn @ strs = map snd ?dn"
      using all True n(2) by simp_all
    ultimately show ?thesis using role_ended_ended by (simp only:) blast
  next
    case False
    then have n: "Suc (length dn) < n" using P(5) by (cases rs) auto
    obtain s1 m1 where st: "update_moderator_info_with_task_response run s t cid = Inr s1" "ci_moderator_info s1 = Some m1"
        "mi_expected_responses m1 = int n" "mi_moderator_resp_msg m1 = so_far g tid n ?dn" "waiting_for s1 m1 (map snd rs)"
        "\<forall>s' msg. ended s1 s' m1 msg \<longrightarrow> ended s s' m msg"
      by (rule next_answer [OF P(1-4) n w strs(2) tid, where run = run])
    have "\<exists>s'. collect run s1 rs = Inr s' \<and>
        ended s1 s' m1 (final_msg g tid n (?dn @ zip (map snd rs) strs') (sum_list (map val (map snd ?dn @ strs'))))"
      using P(3,5,9) False strs st by (intro Cons.IH) simp_all
    then show ?thesis using st(1,6) r unfolding all by (simp only: collect.simps bindE_simps) blast
  qed
qed simp

section \<open>The sum of a distributed task\<close>

text \<open>What a client answers whose file has the numbers \<open>ns\<close>, at least ten of them.\<close>

definition share_summed :: "nat list \<Rightarrow> string \<Rightarrow> bool" where
  "share_summed ns str \<longleftrightarrow> 10 \<le> length ns \<and> length ns < 2 ^ 31 \<and> (\<forall>n\<in>set ns. n < 2 ^ 63) \<and> sum_list ns < 2 ^ 63 \<and>
     (\<exists>fls f. fls f = Some (lines_of ns) \<and> find_sum fls f = Inr str)"

lemma share_summed_val:
  assumes "share_summed ns str"
  shows "unat (atol str) = sum_list ns"
proof -
  note sh = assms [unfolded share_summed_def]
  obtain fls f where f: "fls f = Some (lines_of ns)" "find_sum fls f = Inr str" using sh by blast
  have "str = dec_str (sum_list ns mod 2 ^ 64)"
    using sum_of_file_lines [where fls = fls and f = f and ns = ns and sel = "\<lambda>_. True"] f sh by (simp add: find_sum_def comp_def)
  also have "sum_list ns mod 2 ^ 64 = sum_list ns" using sh by simp
  finally have "atol str = of_nat (sum_list ns)" using sh atol_dec_str by simp
  then show ?thesis using sh by (simp add: unat_of_nat)
qed

lemma sums_collected:
  assumes "ci_moderator_info s = Some m" "mi_expected_responses m = int (length rs)" "length rs \<le> 255" "rs \<noteq> []"
    "mi_moderator_resp_msg m = None" "waiting_for s m (map snd rs)"
    "list_all2 (\<lambda>(t, _) str. result_for g t str) rs strs" "list_all2 share_summed nss strs"
  shows "\<exists>s'. collect run s rs = Inr s' \<and>
    ended s s' m (final_msg g (tr_task_id (fst (hd rs))) (length rs) (zip (map snd rs) strs) (sum_list (concat nss)))"
proof -
  have "map (unat \<circ> atol) strs = map sum_list nss"
    using assms(8) by (induction rule: list_all2_induct) (simp_all add: share_summed_val)
  moreover have "sum_list (concat nss) = sum_list (map sum_list nss)" by (induction nss) simp_all
  ultimately have "sum_list (map (unat \<circ> atol) strs) = sum_list (concat nss)" by simp
  then show ?thesis
    using collect_all [where s = s and m = m and n = "length rs" and dn = "[]" and rs = rs and strs = strs
        and val = "unat \<circ> atol" and g = g and tid = "tr_task_id (fst (hd rs))" and run = run] assms(1-7)
    by (simp add: so_far_def)
qed

text \<open>
  C35: when every client of a sum task has answered with the sum of its file, the moderator
  sends the server the sum of all files, and is the moderator no longer: its nodes are
  freed, its timer deleted, and the group it worked for forgotten.
\<close>

theorem distributed_sum:
  assumes "ci_moderator_info s = Some m" "mi_expected_responses m = int (length rs)" "length rs \<le> 255" "rs \<noteq> []"
    "mi_moderator_resp_msg m = None" "waiting_for s m (map snd rs)"
    "list_all2 (\<lambda>(t, _) str. result_for g t str) rs strs" "list_all2 share_summed nss strs"
  shows "\<exists>s'. collect run s rs = Inr s' \<and>
    ended s s' m (final_msg g (tr_task_id (fst (hd rs))) (length rs) (zip (map snd rs) strs) (sum_list (concat nss)))"
  by (rule sums_collected [OF assms])

lemma demo_waiting: "waiting_for demo_moderator demo_minfo [7, 6]"
  by (auto simp: waiting_for_def demo_defs nid_def)

lemma demo_outbox: "ci_outbox demo_moderator = []"
  by (simp add: demo_defs)

lemma demo_result_id: "tr_task_id (demo_result c x) = 1"
  by (simp add: demo_result_def)

lemma demo_shares:
  "share_summed [1, 2, 3, 4, 5, 6, 7, 8, 9, 10] ''55''" "share_summed [11, 12, 13, 14, 15, 16, 17, 18, 19, 20] ''155''"
proof -
  have s: "share_summed ns (dec_str (sum_list ns))" if "10 \<le> length ns" "length ns < 2 ^ 31" "\<forall>n\<in>set ns. n < 2 ^ 63" "sum_list ns < 2 ^ 63" for ns
    using that sum_of_file_lines [of "[''f'' \<mapsto> lines_of ns]" "''f''" ns "\<lambda>_. True"]
    by (auto simp: share_summed_def find_sum_def comp_def intro!: exI [of _ "[''f'' \<mapsto> lines_of ns]"])
  have d: "dec_str 55 = ''55''" "dec_str 155 = ''155''" by (simp_all add: dec_str.simps digit_def)
  show "share_summed [1, 2, 3, 4, 5, 6, 7, 8, 9, 10] ''55''"
    using s [of "[1, 2, 3, 4, 5, 6, 7, 8, 9, 10]"] d by simp
  show "share_summed [11, 12, 13, 14, 15, 16, 17, 18, 19, 20] ''155''"
    using s [of "[11, 12, 13, 14, 15, 16, 17, 18, 19, 20]"] d by simp
qed

lemma distributed_sum_witness:
  "\<exists>s'. collect (\<lambda>_. True) demo_moderator [(demo_result 7 ''55'', 7), (demo_result 6 ''155'', 6)] = Inr s' \<and>
    ci_outbox s' = [(of_in (ci_server demo_moderator), final_msg ''G1'' 1 2 [(7, ''55''), (6, ''155'')] 210)]"
proof -
  have r: "result_for ''G1'' (demo_result c x) x" for c x by (simp add: result_for_def demo_result_def)
  let ?rs = "[(demo_result 7 ''55'', 7 :: u32), (demo_result 6 ''155'', 6)]"
  let ?nss = "[[1, 2, 3, 4, 5, 6, 7, 8, 9, 10], [11, 12, 13, 14, 15, 16, 17, 18, 19, 20]] :: nat list list"
  have "\<exists>s'. collect (\<lambda>_. True) demo_moderator ?rs = Inr s' \<and>
    ended demo_moderator s' demo_minfo (final_msg ''G1'' (tr_task_id (fst (hd ?rs))) (length ?rs)
      (zip (map snd ?rs) [''55'', ''155'']) (sum_list (concat ?nss)))"
    by (rule distributed_sum) (use demo_waiting demo_shares r in \<open>simp_all add: demo_moderator_def demo_minfo_def\<close>)
  then obtain s' where s': "collect (\<lambda>_. True) demo_moderator ?rs = Inr s'" "ended demo_moderator s' demo_minfo
      (final_msg ''G1'' (tr_task_id (fst (hd ?rs))) (length ?rs) (zip (map snd ?rs) [''55'', ''155'']) (sum_list (concat ?nss)))"
    by blast
  have "ci_outbox s' = [(of_in (ci_server demo_moderator), final_msg ''G1'' 1 2 [(7, ''55''), (6, ''155'')] 210)]"
    using s'(2) by (simp add: ended_def demo_outbox demo_result_id numeral_2_eq_2)
  then show ?thesis using s'(1) by blast
qed

end
