(* ===== verification/ClientInv.thy ===== *)
theory ClientInv
  imports ClientCollect
begin

text \<open>
  The client as a transition system: the main loop serves a message or a command, a timer's
  signal interrupts it, a thread executes a task.  Every step keeps the state consistent.
\<close>

section \<open>Consistency\<close>

text \<open>
  The heap: the moderator's lists are disjoint lists of allocated nodes, the list of groups
  holds the allocated groups, the arrays have their sizes and the cached results fit.
\<close>

definition heap_ok :: "client_information \<Rightarrow> bool" where
  "heap_ok s \<longleftrightarrow>
     (\<forall>m. ci_moderator_info s = Some m \<longrightarrow> distinct (mi_pending_client_list m @ mi_done_client_list m) \<and>
        set (mi_pending_client_list m) \<union> set (mi_done_client_list m) \<subseteq> dom (ci_nodes s)) \<and>
     (\<forall>p\<in>dom (ci_nodes s) \<union> dom (ci_groups s). p < ci_next_ptr s) \<and>
     distinct (ci_client_grp_list s) \<and> set (ci_client_grp_list s) = dom (ci_groups s) \<and>
     (\<forall>p g. ci_groups s p = Some g \<longrightarrow> length (cg_last_task_result_path g) = 5 \<and> unat (cg_last_task_file_count g) \<le> 5) \<and>
     length (ci_rsp_list s) = 255"

text \<open>A client is a moderator exactly when it has the moderator's structure and a group to moderate.\<close>

definition roles_ok :: "client_information \<Rightarrow> bool" where
  "roles_ok s \<longleftrightarrow> (ci_is_moderator s \<longleftrightarrow> ci_moderator_info s \<noteq> None) \<and> (ci_active_group s \<noteq> None \<longleftrightarrow> ci_is_moderator s)"

text \<open>
  A client whose structure was allocated in memory with the bit of \<open>is_moderator\<close> set and
  that has not been made a moderator since: it takes itself for one without the structure.
\<close>

definition stale_role :: "client_information \<Rightarrow> bool" where
  "stale_role s \<longleftrightarrow> ci_is_moderator s \<and> ci_moderator_info s = None \<and> ci_active_group s = None"

text \<open>\<open>junk\<close> is what the memory of the structure held in \<open>is_moderator\<close> when it was allocated.\<close>

definition client_ok :: "bool \<Rightarrow> client_information \<Rightarrow> bool" where
  "client_ok junk s \<longleftrightarrow> heap_ok s \<and> (roles_ok s \<or> junk \<and> stale_role s)"

lemma client_okD: "client_ok j s \<Longrightarrow> heap_ok s" "client_ok False s \<Longrightarrow> roles_ok s"
  by (simp_all add: client_ok_def)

text \<open>Fields the consistency does not depend on.\<close>

lemma client_ok_upd [simp]:
  "client_ok j (s\<lparr>ci_client_status := a\<rparr>) = client_ok j s" "client_ok j (s\<lparr>ci_server := b\<rparr>) = client_ok j s"
  "client_ok j (s\<lparr>ci_rsp_cntr := c\<rparr>) = client_ok j s" "client_ok j (s\<lparr>ci_echo_cntr := d\<rparr>) = client_ok j s"
  "client_ok j (s\<lparr>ci_masked := e\<rparr>) = client_ok j s" "client_ok j (s\<lparr>ci_timers := f\<rparr>) = client_ok j s"
  "client_ok j (s\<lparr>ci_next_timer := g\<rparr>) = client_ok j s" "client_ok j (s\<lparr>ci_outbox := h\<rparr>) = client_ok j s"
  "client_ok j (s\<lparr>ci_commands := i\<rparr>) = client_ok j s" "client_ok j (s\<lparr>ci_jobs := js\<rparr>) = client_ok j s"
  by (simp_all add: client_ok_def heap_ok_def roles_ok_def stale_role_def)

lemma client_ok_ops [simp]:
  "client_ok j (client_send s a m) = client_ok j s" "client_ok j (mask_client_signals s b) = client_ok j s"
  "client_ok j (client_timer_delete s t) = client_ok j s"
  by (simp_all add: client_send_def mask_client_signals_def client_timer_delete_def)

section \<open>Steps that keep the state consistent\<close>

named_theorems okr "operations after which the client is consistent"

lemma ok_return [okr]: "client_ok j s \<Longrightarrow> wp (Inr s) (client_ok j)"
  by simp

lemma ok_return_fst [okr]: "client_ok j s \<Longrightarrow> wp (Inr (s, x)) (\<lambda>r. client_ok j (fst r))"
  by simp

lemma ok_return_snd [okr]: "client_ok j s \<Longrightarrow> wp (Inr (x, s)) (\<lambda>r. client_ok j (snd r))"
  by simp

lemma client_ok_nodes: "dom ns = dom (ci_nodes s) \<Longrightarrow> client_ok j (s\<lparr>ci_nodes := ns\<rparr>) = client_ok j s"
  by (simp add: client_ok_def heap_ok_def roles_ok_def stale_role_def)

lemma client_ok_minfo:
  "ci_moderator_info s = Some m \<Longrightarrow> mi_pending_client_list m' = mi_pending_client_list m \<Longrightarrow>
   mi_done_client_list m' = mi_done_client_list m \<Longrightarrow> client_ok j (s\<lparr>ci_moderator_info := Some m'\<rparr>) = client_ok j s"
  by (simp add: client_ok_def heap_ok_def roles_ok_def stale_role_def)

lemma ok_upd_minfo [okr]:
  assumes "client_ok j s" "\<And>m. mi_pending_client_list (f m) = mi_pending_client_list m \<and> mi_done_client_list (f m) = mi_done_client_list m"
  shows "wp (upd_minfo s f) (client_ok j)"
  using assms by (intro wpI) (auto simp: upd_minfo_def bindE_eq_Inr client_ok_minfo)

lemma ok_upd_mnode [okr]: "client_ok j s \<Longrightarrow> wp (upd_mnode s p f) (client_ok j)"
  by (intro wpI) (auto simp: upd_mnode_def bindE_eq_Inr client_ok_nodes insert_absorb domI)

text \<open>The paths a group caches.\<close>

definition paths_ok :: "client_grp_node \<Rightarrow> bool" where
  "paths_ok g \<longleftrightarrow> length (cg_last_task_result_path g) = 5 \<and> unat (cg_last_task_file_count g) \<le> 5"

lemma ok_paths: "client_ok j s \<Longrightarrow> ci_groups s p = Some g \<Longrightarrow> paths_ok g"
  by (auto simp: client_ok_def heap_ok_def paths_ok_def)

lemma paths_ok_upd [simp]:
  "paths_ok (g\<lparr>cg_timer_id := a\<rparr>) = paths_ok g" "paths_ok (g\<lparr>cg_moderator := b\<rparr>) = paths_ok g"
  "paths_ok (g\<lparr>cg_mcast_fd := c\<rparr>) = paths_ok g" "paths_ok (g\<lparr>cg_pending_task_count := d\<rparr>) = paths_ok g"
  "paths_ok (g\<lparr>cg_state := e\<rparr>) = paths_ok g" "paths_ok (g\<lparr>cg_group_name := f\<rparr>) = paths_ok g"
  "paths_ok (g\<lparr>cg_group_addr := h\<rparr>) = paths_ok g" "paths_ok (g\<lparr>cg_group_port := i\<rparr>) = paths_ok g"
  by (simp_all add: paths_ok_def)

lemma ok_upd_cgrp [okr]:
  assumes "client_ok j s" "\<And>g. ci_groups s p = Some g \<Longrightarrow> paths_ok g \<Longrightarrow> paths_ok (f g)"
  shows "wp (upd_cgrp s p f) (client_ok j)"
proof (rule wpI)
  fix s' assume "upd_cgrp s p f = Inr s'"
  then obtain g where g: "ci_groups s p = Some g" "s' = s\<lparr>ci_groups := (ci_groups s)(p \<mapsto> f g)\<rparr>"
    by (auto simp: upd_cgrp_def bindE_eq_Inr)
  have "paths_ok (f g)" using assms g(1) ok_paths by blast
  then show "client_ok j s'"
    using assms(1) g by (auto simp: client_ok_def heap_ok_def roles_ok_def stale_role_def paths_ok_def)
qed

lemma ok_set_timer_field [okr]: "client_ok j s \<Longrightarrow> wp (set_timer_field s ow t) (client_ok j)"
  unfolding set_timer_field_def by (cases ow) (simp_all add: ok_upd_minfo ok_upd_cgrp)

text \<open>The ways through a body: the rules above, the structure of the code, any value read.\<close>

lemma ok_start_timer [okr]: "client_ok j s \<Longrightarrow> wp (client_start_timer s ow i sg r) (client_ok j)"
  unfolding client_start_timer_def split_beta
  by (rule okr okr [THEN wp_bindI] wp_structure | assumption | rule wp_bind_valueI | simp)+

lemma ok_note_alive [okr]: "client_ok j s \<Longrightarrow> wp (note_alive s c) (client_ok j)"
  by (intro wpI) (auto simp: note_alive_def bindE_eq_Inr upd_at_eq_Inr client_ok_def heap_ok_def roles_ok_def stale_role_def)

lemma ok_send_echo [okr]: "client_ok j s \<Longrightarrow> wp (client_send_echo_request s a n) (client_ok j)"
  unfolding client_send_echo_request_def by (rule wp_bind_valueI) simp

lemma ok_notify_response [okr]: "client_ok j s \<Longrightarrow> wp (send_moderator_notify_response s) (client_ok j)"
  unfolding send_moderator_notify_response_def Let_def
  by (rule okr okr [THEN wp_bindI] wp_structure | assumption | rule wp_bind_valueI | simp)+

section \<open>The moderator\<close>

lemma ok_echo_pending [okr]: "client_ok j s \<Longrightarrow> wp (moderator_echo_req_notify_rsp_pending_state s pdu) (client_ok j)"
  unfolding moderator_echo_req_notify_rsp_pending_state_def
  by (rule okr okr [THEN wp_bindI] wp_structure | assumption | rule wp_bind_valueI | simp)+

lemma ok_echo_task [okr]: "client_ok j s \<Longrightarrow> wp (moderator_echo_req_task_rsp_pending_state s pdu) (client_ok j)"
  unfolding moderator_echo_req_task_rsp_pending_state_def
  by (rule okr wp_structure | assumption | rule wp_bind_valueI)+

lemma ok_main_fsm [okr]: "client_ok j s \<Longrightarrow> wp (moderator_main_fsm s ev st pdu) (client_ok j)"
  unfolding moderator_main_fsm_def moderator_fsm_notify_rsp_pending_state_def moderator_fsm_task_rsp_pending_state_def
  by (cases st; cases ev) (simp_all add: ok_echo_pending ok_echo_task)

lemma ok_fetch_file [okr]: "client_ok j s \<Longrightarrow> wp (fetch_file run s src dest) (\<lambda>r. client_ok j (snd r))"
  by (simp add: fetch_file_def Let_def)

lemma ok_copy_file [okr]: "client_ok j s \<Longrightarrow> wp (copy_file s src dest) (client_ok j)"
  by (simp add: copy_file_def Let_def)

lemma ok_fetch_response [okr]:
  "client_ok j s \<Longrightarrow> wp (fetch_task_response_from_client run s c path dest me) (\<lambda>r. client_ok j (snd r))"
  unfolding fetch_task_response_from_client_def Let_def
  by (rule okr okr [THEN wp_bindI] wp_structure | assumption | rule wp_bind_valueI)+

lemma ok_fetch_loop [okr]: "client_ok j s \<Longrightarrow> wp (fetch_loop run s t i k dest) (client_ok j)"
proof (induction k arbitrary: s i dest)
  case (Suc k)
  then show ?case
    unfolding fetch_loop.simps split_beta
    by - (rule Suc.IH okr [THEN wp_bindI] | assumption | rule wp_bind_valueI)+
qed simp

lemma ok_collate [okr]: "client_ok j s \<Longrightarrow> wp (collate_results run s t) (\<lambda>r. client_ok j (fst r))"
  unfolding collate_results_def Let_def
  by (rule okr ok_fetch_loop [THEN wp_bindI] wp_structure | assumption | rule wp_bind_valueI | simp)+

text \<open>The end of the role frees the moderator's nodes.\<close>

lemma client_ok_status [simp]:
  "client_ok j (s\<lparr>ci_is_moderator := a, ci_client_status := b, ci_active_group := c\<rparr>) = client_ok j (s\<lparr>ci_is_moderator := a, ci_active_group := c\<rparr>)"
  by (simp add: client_ok_def heap_ok_def roles_ok_def stale_role_def)

lemma ok_dealloc:
  assumes "client_ok j s"
  shows "wp (deallocate_moderator_list s) (\<lambda>s1. client_ok j (s1\<lparr>ci_is_moderator := False, ci_active_group := None\<rparr>))"
proof (cases "ci_moderator_info s")
  case None
  then show ?thesis by (simp add: deallocate_moderator_list_def deallocate_mod_done_list_def minfo_def)
next
  case (Some m)
  have h: "distinct (mi_pending_client_list m @ mi_done_client_list m)"
      "set (mi_pending_client_list m) \<union> set (mi_done_client_list m) \<subseteq> dom (ci_nodes s)"
    using assms Some by (simp_all add: client_ok_def heap_ok_def)
  show ?thesis
    using assms unfolding dealloc_ok [OF Some h] by (auto simp: client_ok_def heap_ok_def roles_ok_def stale_role_def)
qed

lemma ok_moderator_send [okr]: "client_ok j s \<Longrightarrow> wp (moderator_send_task_response_to_server run s force) (client_ok j)"
  unfolding moderator_send_task_response_to_server_def Let_def split_beta
  by (rule okr okr [THEN wp_bindI] ok_dealloc [THEN wp_bindI] wp_structure | assumption | rule wp_bind_valueI | simp)+

lemma ok_move [okr]:
  assumes "client_ok j s" "\<And>m. ci_moderator_info s = Some m \<Longrightarrow> node \<in> set (mi_pending_client_list m)"
  shows "wp (move_moderator_node_pending_to_done_list s node) (client_ok j)"
proof (cases "ci_moderator_info s")
  case (Some m)
  then have "node \<in> set (mi_pending_client_list m)" using assms(2) by simp
  then show ?thesis
    using Some assms(1)
    by (auto simp: move_moderator_node_pending_to_done_list_def client_ok_def heap_ok_def roles_ok_def stale_role_def set_remove1_eq distinct_remove1)
qed (use assms(1) in \<open>simp add: move_moderator_node_pending_to_done_list_def\<close>)

lemma find_pending_mem: "find_pending s ps cid = Inr (Some p) \<Longrightarrow> p \<in> set ps"
  by (induction ps) (auto simp: bindE_eq_Inr split: if_splits)

lemma ok_update_moderator [okr]: "client_ok j s \<Longrightarrow> wp (update_moderator_info_with_task_response run s t cid) (client_ok j)"
proof (cases "ci_moderator_info s")
  case (Some m)
  assume ok: "client_ok j s"
  show ?thesis
  proof (rule wpI)
    fix s' assume r: "update_moderator_info_with_task_response run s t cid = Inr s'"
    show "client_ok j s'"
    proof (cases "find_pending s (mi_pending_client_list m) cid")
      case (Inr po)
      show ?thesis
      proof (cases po)
        case (Some p)
        obtain n rsp where n: "ci_nodes s p = Some n" "add_response m t cid = Inr rsp"
          using r Inr Some \<open>ci_moderator_info s = Some m\<close>
          by (auto simp: update_moderator_info_with_task_response_def get_client_from_moderator_pending_list_def bindE_eq_Inr upd_mnode_def)
        let ?s2 = "s\<lparr>ci_nodes := (ci_nodes s)(p \<mapsto> n\<lparr>mn_ref_count := mn_ref_count n - 1\<rparr>),
            ci_moderator_info := Some (m\<lparr>mi_moderator_resp_msg := Some rsp\<rparr>)\<rparr>"
        have ok2: "client_ok j ?s2"
          using ok n(1) \<open>ci_moderator_info s = Some m\<close>
            client_ok_nodes [of "(ci_nodes s)(p \<mapsto> n\<lparr>mn_ref_count := mn_ref_count n - 1\<rparr>)" s j]
          by (subst client_ok_minfo [of _ m]) (simp_all add: insert_absorb domI)
        have mv: "wp (move_moderator_node_pending_to_done_list ?s2 p) (client_ok j)"
          using ok2 find_pending_mem [OF Inr [unfolded Some]] by (intro ok_move) auto
        have "wp (bindE (if mn_ref_count n - 1 = 0 then move_moderator_node_pending_to_done_list ?s2 p else Inr ?s2)
            (\<lambda>s3. moderator_send_task_response_to_server run s3 False)) (client_ok j)"
          using mv ok2 by (intro wp_bindI [of _ "client_ok j"] wp_ifI ok_moderator_send) simp_all
        then show ?thesis
          using r Inr Some n \<open>ci_moderator_info s = Some m\<close>
          by (simp add: update_moderator_info_with_task_response_def get_client_from_moderator_pending_list_def wpD)
      qed (use ok r Inr \<open>ci_moderator_info s = Some m\<close> in
        \<open>simp add: update_moderator_info_with_task_response_def get_client_from_moderator_pending_list_def\<close>)
    qed (use r \<open>ci_moderator_info s = Some m\<close> in
        \<open>simp add: update_moderator_info_with_task_response_def get_client_from_moderator_pending_list_def\<close>)
  qed
qed (simp add: update_moderator_info_with_task_response_def)

lemma ok_handle_task_response [okr]: "client_ok j s \<Longrightarrow> wp (client_handle_task_response run s pdu) (client_ok j)"
  unfolding client_handle_task_response_def
  by (cases "idv (pdu_msg pdu)")
    (simp_all, (rule okr wp_structure | assumption | rule wp_bind_valueI)+)

lemma ok_send_results [okr]:
  assumes "client_ok j s"
  shows "wp (send_task_results_to_moderator run s gp tid rt path me re) (client_ok j)"
proof -
  have cache: "wp (bindE (cgrp s1 gp) (\<lambda>g1.
      bindE (upd_at (cg_last_task_result_path g1) (unat (cg_last_task_file_count g1)) (Some path)) (\<lambda>paths.
      upd_cgrp s1 gp (\<lambda>g. g\<lparr>cg_last_task_result_path := paths, cg_last_task_file_count := cg_last_task_file_count g + 1,
        cg_last_task_id := tid, cg_last_task_rsp_type := ucast rt\<rparr>)))) (client_ok j)" if s1: "client_ok j s1" for s1
  proof (rule wp_bind_valueI, rule wp_bind_valueI, rule ok_upd_cgrp [OF s1])
    fix g1 paths g
    assume a: "cgrp s1 gp = Inr g1" "upd_at (cg_last_task_result_path g1) (unat (cg_last_task_file_count g1)) (Some path) = Inr paths"
      "ci_groups s1 gp = Some g" "paths_ok g"
    then have "unat (cg_last_task_file_count g) < 5" "length paths = 5" by (auto simp: upd_at_eq_Inr paths_ok_def)
    then have "unat (cg_last_task_file_count g + 1) \<le> 5" by (simp add: unat_word_ariths)
    then show "paths_ok (g\<lparr>cg_last_task_result_path := paths, cg_last_task_file_count := cg_last_task_file_count g + 1,
        cg_last_task_id := tid, cg_last_task_rsp_type := ucast rt\<rparr>)"
      using \<open>length paths = 5\<close> by (simp add: paths_ok_def)
  qed
  show ?thesis
    unfolding send_task_results_to_moderator_def
    by (rule okr [THEN wp_bindI] okr cache assms wp_structure | assumption | rule wp_bind_valueI | simp)+
qed

lemma ok_remove_pending:
  assumes "client_ok j s"
  shows "wp (upd_minfo s (\<lambda>m. m\<lparr>mi_pending_client_list := remove1 p (mi_pending_client_list m)\<rparr>)) (client_ok j)"
proof (rule wpI)
  fix s' assume "upd_minfo s (\<lambda>m. m\<lparr>mi_pending_client_list := remove1 p (mi_pending_client_list m)\<rparr>) = Inr s'"
  then obtain m where m: "ci_moderator_info s = Some m"
      "s' = s\<lparr>ci_moderator_info := Some (m\<lparr>mi_pending_client_list := remove1 p (mi_pending_client_list m)\<rparr>)\<rparr>"
    by (auto simp: upd_minfo_def bindE_eq_Inr)
  have "set (remove1 p (mi_pending_client_list m)) \<subseteq> set (mi_pending_client_list m)" by (rule set_remove1_subset)
  moreover have "distinct (mi_pending_client_list m @ mi_done_client_list m)"
      "set (mi_pending_client_list m) \<union> set (mi_done_client_list m) \<subseteq> dom (ci_nodes s)"
    using assms m(1) by (simp_all add: client_ok_def heap_ok_def)
  ultimately have "distinct (remove1 p (mi_pending_client_list m) @ mi_done_client_list m)"
      "set (remove1 p (mi_pending_client_list m)) \<union> set (mi_done_client_list m) \<subseteq> dom (ci_nodes s)"
    by (auto simp: distinct_remove1)
  then show "client_ok j s'" using assms m by (simp add: client_ok_def heap_ok_def roles_ok_def stale_role_def)
qed

lemma ok_pending_walk [okr]: "client_ok j s \<Longrightarrow> wp (pending_walk s ps) (\<lambda>r. client_ok j (fst r))"
proof (induction ps arbitrary: s)
  case (Cons p ps)
  then show ?case
    unfolding pending_walk.simps
    by - (rule Cons.IH okr okr [THEN wp_bindI] ok_remove_pending [THEN wp_bindI] wp_structure | assumption | rule wp_bind_valueI)+
qed simp

lemma ok_pending_timeout [okr]: "client_ok j s \<Longrightarrow> wp (moderator_task_rsp_pending_timeout s) (client_ok j)"
  unfolding moderator_task_rsp_pending_timeout_def split_beta
  by (rule ok_pending_walk [THEN wp_bindI] | assumption | rule wp_bind_valueI | simp)+

lemma ok_timeout [okr]: "client_ok j s \<Longrightarrow> wp (client_handle_timeout_real run s busy sig ptr) (client_ok j)"
  unfolding client_handle_timeout_real_def
  by (cases sig; simp; intro conjI impI;
      (rule conjI impI okr okr [THEN wp_bindI] wp_structure | assumption | rule wp_bind_valueI | simp split: moderator_state.split)+)

section \<open>Tasks\<close>

lemma ok_allocate_node [okr]:
  assumes "client_ok j s"
  shows "wp (allocate_clnt_moderator_node s) (\<lambda>r. client_ok j (snd r))"
proof (rule wpI)
  fix r assume "allocate_clnt_moderator_node s = Inr r"
  then obtain m where m: "ci_moderator_info s = Some m" "snd r = s\<lparr>ci_nodes := (ci_nodes s)(ci_next_ptr s \<mapsto> blank_mod_node),
      ci_next_ptr := ci_next_ptr s + 1,
      ci_moderator_info := Some (m\<lparr>mi_pending_client_list := ci_next_ptr s # mi_pending_client_list m\<rparr>)\<rparr>"
    by (auto simp: allocate_clnt_moderator_node_def Let_def bindE_eq_Inr upd_minfo_def)
  have h: "\<forall>p\<in>dom (ci_nodes s) \<union> dom (ci_groups s). p < ci_next_ptr s"
      "distinct (mi_pending_client_list m @ mi_done_client_list m)"
      "set (mi_pending_client_list m) \<union> set (mi_done_client_list m) \<subseteq> dom (ci_nodes s)"
    using assms m(1) by (simp_all add: client_ok_def heap_ok_def)
  have "ci_next_ptr s \<notin> dom (ci_nodes s)" using h(1) by blast
  then have "ci_next_ptr s \<notin> set (mi_pending_client_list m) \<union> set (mi_done_client_list m)" using h(3) by blast
  then have "distinct (ci_next_ptr s # mi_pending_client_list m @ mi_done_client_list m)"
      "set (ci_next_ptr s # mi_pending_client_list m) \<union> set (mi_done_client_list m) \<subseteq> dom ((ci_nodes s)(ci_next_ptr s \<mapsto> blank_mod_node))"
    using h(2,3) by auto
  moreover have "\<forall>p\<in>dom ((ci_nodes s)(ci_next_ptr s \<mapsto> blank_mod_node)) \<union> dom (ci_groups s). p < ci_next_ptr s + 1"
    using h(1) by (simp add: less_Suc_eq)
  ultimately show "client_ok j (snd r)"
    using assms unfolding m(2) by (simp add: client_ok_def heap_ok_def roles_ok_def stale_role_def m(1))
qed

lemma ok_register [okr]: "client_ok j s \<Longrightarrow> wp (register_workers s ids i k) (client_ok j)"
proof (induction k arbitrary: s i)
  case (Suc k)
  then show ?case
    unfolding register_workers.simps split_beta
    by - (rule Suc.IH okr okr [THEN wp_bindI] wp_structure | assumption | rule wp_bind_valueI | simp)+
qed simp

lemma ok_prepare_moderator [okr]: "client_ok j s \<Longrightarrow> wp (prepare_moderator s req found) (client_ok j)"
  unfolding prepare_moderator_def
  by (rule okr okr [THEN wp_bindI] wp_structure | assumption | rule wp_bind_valueI | simp)+

lemma ok_start_jobs [okr]: "client_ok j s \<Longrightarrow> wp (start_jobs spawn s gp req is) (client_ok j)"
proof (induction "is" arbitrary: s)
  case (Cons i "is")
  then show ?case
    unfolding start_jobs.simps Let_def
    by - (rule Cons.IH okr okr [THEN wp_bindI] wp_structure | assumption | rule wp_bind_valueI | simp)+
qed simp

lemma reset_paths: "paths_ok g \<Longrightarrow> wp (reset_results g) paths_ok"
  by (simp add: reset_results_def paths_ok_def)

lemma ok_perform_task [okr]: "client_ok j s \<Longrightarrow> wp (handle_perform_task_req spawn s pdu) (client_ok j)"
proof (cases "idv (pdu_msg pdu)")
  case (Perform_task_req req)
  assume ok: "client_ok j s"
  have reset: "wp (bindE (reset_results g) (\<lambda>g1. upd_cgrp s gp (\<lambda>_. g1))) (client_ok j)" if "cgrp s gp = Inr g" for gp g
  proof (rule wp_bindI)
    show "wp (reset_results g) paths_ok" using that by (intro reset_paths ok_paths [OF ok]) simp
    show "wp (upd_cgrp s gp (\<lambda>_. g1)) (client_ok j)" if "paths_ok g1" for g1 using that by (intro ok_upd_cgrp [OF ok])
  qed
  show ?thesis
    unfolding handle_perform_task_req_def Perform_task_req idv_t.case
  proof (rule wp_bind_valueI, rule wp_bind_valueI, rule wp_optionI, simp, rule wp_bind_valueI)
    fix gn r gp g assume "cgrp s gp = Inr g"
    then have s1: "wp (if pt_task_reassigned req = 0 then bindE (reset_results g) (\<lambda>g1. upd_cgrp s gp (\<lambda>_. g1)) else Inr s) (client_ok j)"
      using reset ok by simp
    show "wp (bindE (if pt_task_reassigned req = 0 then bindE (reset_results g) (\<lambda>g1. upd_cgrp s gp (\<lambda>_. g1)) else Inr s) (\<lambda>s1.
              bindE (occurrences (ci_client_id s1) (pt_client_ids req) 0 (nat (sint (pt_client_id_count req))) []) (\<lambda>counts.
              bindE (case ci_moderator_info s1 of
                       Some m \<Rightarrow> if strcmp_eq (mi_group_name m) (cg_group_name g)
                                 then prepare_moderator s1 req (counts \<noteq> []) else Inr s1
                     | None \<Rightarrow> Inr s1) (\<lambda>s2.
              if counts = []
              then upd_cgrp s2 gp (\<lambda>g. if cg_pending_task_count g = 0 then g\<lparr>cg_state := IDLE\<rparr> else g)
              else start_jobs spawn s2 gp req counts)))) (client_ok j)"
      by (rule wp_bindI [OF s1])
        (rule okr okr [THEN wp_bindI] wp_structure | assumption | rule wp_bind_valueI | simp)+
  qed
qed (simp_all add: handle_perform_task_req_def)

lemma ok_fetch_from_server [okr]: "client_ok j s \<Longrightarrow> wp (fetch_file_from_server run s folder nm gn) (\<lambda>r. client_ok j (snd r))"
  unfolding fetch_file_from_server_def Let_def by (rule okr wp_structure | assumption | simp)+

lemma ok_finish_task [okr]: "client_ok j s \<Longrightarrow> wp (finish_task s gp) (client_ok j)"
  unfolding finish_task_def
  by (rule okr okr [THEN wp_bindI] wp_structure | assumption | rule wp_bind_valueI | simp)+

lemma wp_ownI: "wp m Q \<Longrightarrow> (\<And>d. x = Own d \<Longrightarrow> wp (f d) Q) \<Longrightarrow> wp (case x of Own d \<Rightarrow> f d | _ \<Rightarrow> m) Q"
  by (cases x) simp_all

lemma ok_execute_task [okr]: "client_ok j s \<Longrightarrow> wp (execute_task run can_open fls s args) (\<lambda>r. client_ok j (fst r))"
  unfolding execute_task_def split_beta
  by (rule okr ok_fetch_from_server [THEN wp_bindI] ok_finish_task [THEN wp_bindI] ok_send_results [THEN wp_bindI] wp_ownI wp_structure
      | assumption | rule wp_bind_valueI | simp)+

section \<open>The handlers\<close>

lemma ok_resend [okr]: "client_ok j s \<Longrightarrow> wp (resend_results run s gp i k) (client_ok j)"
proof (induction k arbitrary: s i)
  case (Suc k)
  then show ?case
    unfolding resend_results.simps
    by - (rule Suc.IH okr [THEN wp_bindI] | assumption | rule wp_bind_valueI)+
qed simp

lemma ok_add_pending [okr]: "client_ok j s \<Longrightarrow> wp (add_pending s ids i k) (client_ok j)"
proof (induction k arbitrary: s i)
  case (Suc k)
  then show ?case
    unfolding add_pending.simps split_beta
    by - (rule Suc.IH okr [THEN wp_bindI] | assumption | rule wp_bind_valueI)+
qed simp

lemma ok_become_moderator [okr]:
  assumes "client_ok j s"
  shows "wp (become_moderator s gp name n ex st) (client_ok j)"
proof -
  have "client_ok j ((allocate_moderator_info s)\<lparr>ci_is_moderator := True, ci_active_group := Some gp\<rparr>)"
    using assms by (simp add: allocate_moderator_info_def allocate_moderator_list_def client_ok_def heap_ok_def roles_ok_def stale_role_def)
  then show ?thesis
    unfolding become_moderator_def Let_def by - (rule okr | assumption | rule wp_bind_valueI | simp)+
qed

lemma ok_give_up [okr]: "client_ok j s \<Longrightarrow> wp (give_up_moderator s) (client_ok j)"
  unfolding give_up_moderator_def
  by (rule okr okr [THEN wp_bindI] ok_dealloc [THEN wp_bindI] | assumption | rule wp_bind_valueI | simp)+

lemma ok_moderator_update [okr]: "client_ok j s \<Longrightarrow> wp (handle_moderator_update run s pdu) (client_ok j)"
  unfolding handle_moderator_update_def Let_def
  by (cases "idv (pdu_msg pdu)"; simp)
    ((rule okr okr [THEN wp_bindI] wp_structure | assumption | rule wp_bind_valueI | simp)+)

lemma ok_new_server [okr]: "client_ok j s \<Longrightarrow> wp (handle_new_server_notification s pdu) (client_ok j)"
  unfolding handle_new_server_notification_def by (cases "idv (pdu_msg pdu)") simp_all

lemma ok_mod_notification [okr]: "client_ok j s \<Longrightarrow> wp (handle_mod_notification s pdu) (client_ok j)"
  unfolding handle_mod_notification_def
  by (cases "idv (pdu_msg pdu)"; simp)
    ((rule okr okr [THEN wp_bindI] wp_structure | assumption | rule wp_bind_valueI | simp)+)

lemma ok_deallocate_grp: "client_ok j s \<Longrightarrow> client_ok j (deallocate_client_grp_node s gp)"
  by (auto simp: deallocate_client_grp_node_def client_ok_def heap_ok_def roles_ok_def stale_role_def set_remove1_eq distinct_remove1)

lemma ok_leave_step: "client_ok j s \<Longrightarrow> wp (leave_rsp_step rsp i s gpo) (\<lambda>r. client_ok j (fst r))"
  unfolding leave_rsp_step_def
  by (rule okr okr [THEN wp_bindI] wp_structure | assumption | rule wp_bind_valueI | simp add: ok_deallocate_grp)+

lemma ok_leave_loop:
  assumes "leave_rsp_loop rsp i s gpo = Some r" "client_ok j s"
  shows "wp r (client_ok j)"
proof -
  have "client_ok j s \<longrightarrow> wp r (client_ok j)"
  proof (rule leave_rsp_loop.raw_induct [where P = "\<lambda>_ _ s _ r. client_ok j s \<longrightarrow> wp r (client_ok j)", OF _ assms(1)], intro impI)
    fix ll rsp s gpo r and i :: u8
    assume IH: "\<And>rsp i s gpo r. ll rsp i s gpo = Some r \<Longrightarrow> client_ok j s \<longrightarrow> wp r (client_ok j)"
      and r: "(if ucast i < lr_num_groups rsp
        then case leave_rsp_step rsp i s gpo of Inl e \<Rightarrow> Some (Inl e) | Inr (s1, gpo1) \<Rightarrow> ll rsp (i + 1) s1 gpo1
        else Some (Inr s)) = Some r"
      and s: "client_ok j s"
    show "wp r (client_ok j)"
      using r IH ok_leave_step [OF s, of rsp i gpo] s by (auto split: if_splits sum.splits)
  qed
  with assms(2) show ?thesis by simp
qed

lemma ok_leave_response: "handle_leave_response s pdu = Some r \<Longrightarrow> client_ok j s \<Longrightarrow> wp r (client_ok j)"
  unfolding handle_leave_response_def by (cases "idv (pdu_msg pdu)") (auto intro: ok_leave_loop)

lemma ok_add_group [okr]:
  assumes "client_ok j s"
  shows "wp (ADD_CLIENT_IN_LL s nm a pt) (\<lambda>r. client_ok j (snd r))"
proof -
  let ?s = "snd (allocate_client_grp_node s)"
  have h: "\<forall>p\<in>dom (ci_nodes s) \<union> dom (ci_groups s). p < ci_next_ptr s" "set (ci_client_grp_list s) = dom (ci_groups s)"
    using assms by (simp_all add: client_ok_def heap_ok_def)
  have "\<forall>p\<in>dom (ci_nodes s) \<union> dom ((ci_groups s)(ci_next_ptr s \<mapsto> blank_client_grp)). p < ci_next_ptr s + 1"
    using h(1) by (simp add: less_Suc_eq)
  moreover have "ci_next_ptr s \<notin> set (ci_client_grp_list s)" unfolding h(2) using h(1) by blast
  ultimately have "client_ok j ?s"
    using assms by (simp add: allocate_client_grp_node_def Let_def client_ok_def heap_ok_def roles_ok_def stale_role_def blank_client_grp_def)
  then show ?thesis
    unfolding ADD_CLIENT_IN_LL_def split_beta Let_def
    by - (rule okr okr [THEN wp_bindI] | assumption | rule wp_bind_valueI | simp)+
qed

lemma ok_join_loop [okr]: "client_ok j s \<Longrightarrow> wp (join_rsp_loop mj ep s ips k) (client_ok j)"
proof (induction mj ep s ips k rule: join_rsp_loop.induct)
  case (3 mj ep s e ips k)
  then show ?case
    unfolding join_rsp_loop.simps split_beta Let_def
    by - (rule 3 okr okr [THEN wp_bindI] wp_structure | assumption | rule wp_bind_valueI | simp)+
qed simp_all

lemma ok_join_response [okr]: "client_ok j s \<Longrightarrow> wp (handle_join_response mj ep s pdu) (client_ok j)"
  unfolding handle_join_response_def by (cases "idv (pdu_msg pdu)") (simp_all add: ok_join_loop)

lemma ok_handle_echo_req [okr]: "client_ok j s \<Longrightarrow> wp (client_handle_echo_req s pdu) (client_ok j)"
  unfolding client_handle_echo_req_def Let_def
  by (cases "idv (pdu_msg pdu)"; simp)
    ((rule conjI impI okr okr [THEN wp_bindI] wp_structure | assumption | rule wp_bind_valueI | simp)+)

lemma ok_send_join [okr]: "client_ok j s \<Longrightarrow> wp (send_join_group_req s name) (client_ok j)"
  unfolding send_join_group_req_def by (rule okr wp_structure | assumption | rule wp_bind_valueI | simp)+

lemma ok_send_leave [okr]: "client_ok j s \<Longrightarrow> wp (send_leave_group_req s name) (client_ok j)"
  unfolding send_leave_group_req_def by (rule okr wp_structure | assumption | rule wp_bind_valueI | simp)+

lemma ok_stdin [okr]: "client_ok j s \<Longrightarrow> wp (client_stdin_data run s input) (client_ok j)"
  unfolding client_stdin_data_def Let_def by (rule okr wp_structure | assumption)+

section \<open>The transition system\<close>

lemma ok_serve:
  assumes "client_serve e s pdu = Some (Inr s')" "client_ok j s"
  shows "client_ok j s'"
proof -
  have "wp r (client_ok j)" if "run_client_handler e h (mask_client_signals s True) pdu = Some r" for h r
    using that assms(2) ok_leave_response [of "mask_client_signals s True" pdu]
    unfolding run_client_handler_def
    by (cases h) (auto simp: client_handle_echo_response_def intro: okr)
  then have "wp (bindE r (\<lambda>s1. Inr (mask_client_signals s1 False))) (client_ok j)"
    if "run_client_handler e h (mask_client_signals s True) pdu = Some r" for h r
    using that by (intro wp_bindI [of r "client_ok j"]) simp_all
  then show ?thesis
    using assms by (fastforce simp: client_serve_def Let_def split: option.splits dest: wpD)
qed

text \<open>
  A step of the client: a message, a command, the signal of a timer while signals are not
  ignored, or a started thread.  The environment is arbitrary.
\<close>

inductive client_step :: "client_information \<Rightarrow> client_information \<Rightarrow> bool" where
  message: "client_serve e s pdu = Some (Inr s') \<Longrightarrow> client_step s s'"
| command: "client_stdin_data run s input = Inr s' \<Longrightarrow> client_step s s'"
| expiry: "ci_timers s t = Some k \<Longrightarrow> \<not> ci_masked s \<Longrightarrow>
    client_handle_timeout_real run s False (ct_signal k) (ct_owner k) = Inr s' \<Longrightarrow> client_step s s'"
| thread: "args \<in> set (ci_jobs s) \<Longrightarrow> execute_task run can_open fls s args = Inr (s', fls') \<Longrightarrow>
    client_step s (s'\<lparr>ci_jobs := remove1 args (ci_jobs s')\<rparr>)"

inductive_cases client_stepE: "client_step s s'"

inductive client_reachable :: "bool \<Rightarrow> client_information \<Rightarrow> bool" for junk where
  start: "client_start junk cid capability server names now = Inr s \<Longrightarrow> client_reachable junk s"
| step: "client_reachable junk s \<Longrightarrow> client_step s s' \<Longrightarrow> client_reachable junk s'"

lemma ok_step: "client_step s s' \<Longrightarrow> client_ok j s \<Longrightarrow> client_ok j s'"
  by (erule client_stepE) (auto dest: ok_serve wpD [OF ok_stdin] wpD [OF ok_timeout] wpD [OF ok_execute_task])

lemma ok_start: "client_start j cid capability server names now = Inr s \<Longrightarrow> client_ok j s"
  by (auto simp: client_start_def Let_def bindE_eq_Inr allocate_client_info_def allocate_client_grp_list_def
      client_ok_def heap_ok_def roles_ok_def stale_role_def client_send_def split: if_splits)

lemma ok_reachable: "client_reachable j s \<Longrightarrow> client_ok j s"
  by (induction rule: client_reachable.induct) (auto intro: ok_start ok_step)

text \<open>
  What the unset bit does: the first share that such a client starts a thread for ends it,
  since the name of the group it would be moderator of is read through a null pointer.
\<close>

lemma stale_role_faults:
  assumes "stale_role s" "fill_thread_args s req i = Inr args" "spawn args" "ci_groups s gp = Some g"
  shows "start_jobs spawn s gp req (i # is) = Inl NullDeref"
  using assms by (simp add: stale_role_def active_grp_def)

text \<open>A client that has started and asked to join the group \<open>G1\<close>, for the witnesses.\<close>

definition demo_begun :: "bool \<Rightarrow> client_information" where
  "demo_begun junk = (case client_start junk 5 1 (ci_server demo_client) ''G1'' ''t'' of Inr s \<Rightarrow> s | Inl _ \<Rightarrow> demo_client)"

lemma demo_started: "client_start junk 5 1 (ci_server demo_client) ''G1'' ''t'' = Inr (demo_begun junk)"
proof -
  have "group_tokens ''G1'' = [''G1'']" by (simp add: group_tokens.simps)
  then show ?thesis by (simp add: demo_begun_def client_start_def Let_def populate_join_req_def copy_gname_def)
qed

section \<open>Properties\<close>

text \<open>
  C34: in every reachable state a client's lists of peers are disjoint lists of allocated
  nodes, its list of groups holds exactly the allocated groups, and the cached result paths
  fit their array of five.  It is a moderator exactly when it has the moderator's structure
  and a group to moderate, if the memory its own structure was allocated in held a zero in
  \<open>is_moderator\<close>, which the code does not set; otherwise it may also take itself for a
  moderator without having either.
\<close>

theorem client_consistent:
  assumes "client_reachable junk s"
  shows "heap_ok s \<and> (if junk then roles_ok s \<or> stale_role s else roles_ok s)"
  using ok_reachable [OF assms] by (auto simp: client_ok_def)

lemma client_consistent_witness:
  "heap_ok (demo_begun False) \<and> roles_ok (demo_begun False) \<and> (roles_ok (demo_begun True) \<or> stale_role (demo_begun True))"
  using client_consistent [OF client_reachable.start [OF demo_started [of False]]]
    client_consistent [OF client_reachable.start [OF demo_started [of True]]] by simp

end
