(* ===== verification/ClientProps.thy ===== *)
theory ClientProps
  imports ClientInv
begin

text \<open>
  What the client does as a moderator and as a worker: answering the server when its peers
  have reported, reporting dead peers, starting and finishing its shares of a task, and the
  cases in which a timer is lost or a buffer overflows.
\<close>

section \<open>Answering the notification\<close>

text \<open>Messages served one after the other.\<close>

fun client_serve_all :: "client_env \<Rightarrow> client_information \<Rightarrow> pdu_t list \<Rightarrow> client_information result option" where
  "client_serve_all e s [] = Some (Inr s)"
| "client_serve_all e s (p # ps) =
     (case client_serve e s p of Some (Inr s1) \<Rightarrow> client_serve_all e s1 ps | r \<Rightarrow> r)"

text \<open>An echo request of a peer for the group, and the answer to it.\<close>

definition echo_from :: "string \<Rightarrow> pdu_t \<Rightarrow> bool" where
  "echo_from nm pdu \<longleftrightarrow> msg_id (pdu_msg pdu) = echo_req \<and> (\<exists>req. idv (pdu_msg pdu) = Echo_req req \<and> eq_group_name req = Some nm)"

definition echo_answer :: "client_information \<Rightarrow> string \<Rightarrow> pdu_t \<Rightarrow> sockaddr \<times> comm_struct_t" where
  "echo_answer s nm pdu = (peer_addr pdu, \<lparr>msg_id = echo_response,
     idv = Echo_resp \<lparr>er_status = ci_client_status s, er_group_name = Some nm\<rparr>\<rparr>)"

text \<open>A moderator waiting for its peers, \<open>k\<close> of which have reported.\<close>

definition awaiting :: "client_information \<Rightarrow> moderator_information \<Rightarrow> nat \<Rightarrow> bool" where
  "awaiting s m k \<longleftrightarrow> ci_is_moderator s \<and> ci_moderator_info s = Some m \<and> mi_fsm_state m = MODERATOR_NOTIFY_RSP_PENDING \<and>
     (\<exists>gp g. ci_active_group s = Some gp \<and> ci_groups s gp = Some g \<and> cg_group_name g = mi_group_name m) \<and>
     length (mi_group_name m) < GROUP_NAME_SIZE \<and> length (ci_rsp_list s) = 255 \<and> ci_rsp_cntr s = k + 1 \<and> ci_echo_cntr s = int k"

text \<open>The state after one more report.\<close>

definition reported :: "client_information \<Rightarrow> string \<Rightarrow> pdu_t \<Rightarrow> client_information" where
  "reported s nm pdu = s\<lparr>ci_masked := False, ci_outbox := ci_outbox s @ [echo_answer s nm pdu],
     ci_echo_cntr := ci_echo_cntr s + 1, ci_rsp_list := (ci_rsp_list s)[ci_rsp_cntr s := calc_key (Some (peer_addr pdu))],
     ci_rsp_cntr := ci_rsp_cntr s + 1\<rparr>"

lemma handler_echo [simp]: "client_func_handler echo_req = Some C_echo_req"
  by (simp add: client_func_handler_def)

lemma u8_bound: "unat (x :: u8) < 256"
proof -
  have "unat x < 2 ^ LENGTH(8)" by (rule unsigned_less)
  then show ?thesis by simp
qed

lemma unat_u8: "n \<le> 255 \<Longrightarrow> unat (word_of_nat n :: u8) = n"
  by (simp add: unat_of_nat)

lemma report_step:
  assumes "awaiting s m k" "echo_from (mi_group_name m) pdu" "k + 2 < unat (mi_active_client_count m)"
  shows "client_serve e s pdu = Some (Inr (reported s (mi_group_name m) pdu))"
proof -
  have "unat (mi_active_client_count m) < 256" by (rule u8_bound)
  moreover have "int k + 1 \<noteq> int (unat (mi_active_client_count m)) - 1" using assms(3) by linarith
  ultimately show ?thesis
    using assms
    by (auto simp: client_serve_def run_client_handler_def client_handle_echo_req_def awaiting_def echo_from_def
        copy_gname_def moderator_main_fsm_def moderator_fsm_notify_rsp_pending_state_def note_alive_def
        moderator_echo_req_notify_rsp_pending_state_def mask_client_signals_def client_send_def reported_def
        echo_answer_def strcmp_eq_def Let_def)
qed


lemma report_last:
  assumes "awaiting s m k" "echo_from (mi_group_name m) pdu" "k + 2 = unat (mi_active_client_count m)"
  shows "client_serve e s pdu = Some (Inr ((reported s (mi_group_name m) pdu)
    \<lparr>ci_timers := (ci_timers s)(mi_timer_id m := None),
      ci_moderator_info := Some (m\<lparr>mi_timer_id := 0, mi_fsm_state := MODERATOR_NOTIFY_RSP_SENT\<rparr>),
      ci_echo_cntr := 0, ci_rsp_cntr := 0,
      ci_outbox := ci_outbox s @ [echo_answer s (mi_group_name m) pdu, (of_in (ci_server s), \<lparr>msg_id = moderator_notify_rsp,
        idv = Moderator_notify_rsp \<lparr>nr_group_name = Some (mi_group_name m), nr_moderator_id = ci_client_id s,
          nr_client_id_count = of_nat (k + 2),
          nr_client_ids = take (k + 2) ((ci_rsp_list s)[k + 1 := calc_key (Some (peer_addr pdu))])\<rparr>\<rparr>)]\<rparr>))"
proof -
  have "unat (mi_active_client_count m) < 256" by (rule u8_bound)
  moreover have "int k + 1 = int (unat (mi_active_client_count m)) - 1" using assms(3) by linarith
  ultimately show ?thesis
    using assms
    by (auto simp: client_serve_def run_client_handler_def client_handle_echo_req_def awaiting_def echo_from_def
        copy_gname_def moderator_main_fsm_def moderator_fsm_notify_rsp_pending_state_def note_alive_def
        moderator_echo_req_notify_rsp_pending_state_def mask_client_signals_def client_send_def reported_def
        echo_answer_def strcmp_eq_def client_timer_delete_def send_moderator_notify_response_def Let_def)
qed

text \<open>The moderator's answer, naming the clients that are alive.\<close>

definition notify_answer :: "client_information \<Rightarrow> string \<Rightarrow> u32 list \<Rightarrow> sockaddr \<times> comm_struct_t" where
  "notify_answer s nm ids = (of_in (ci_server s), \<lparr>msg_id = moderator_notify_rsp,
     idv = Moderator_notify_rsp \<lparr>nr_group_name = Some nm, nr_moderator_id = ci_client_id s,
       nr_client_id_count = of_nat (length ids), nr_client_ids = ids\<rparr>\<rparr>)"

lemma awaiting_reported:
  "awaiting s m k \<Longrightarrow> awaiting (reported s nm pdu) m (k + 1)"
  by (simp add: awaiting_def reported_def)

lemma reports:
  assumes "awaiting s m k" "\<forall>pdu\<in>set pdus. echo_from (mi_group_name m) pdu" "pdus \<noteq> []"
    "k + 1 + length pdus = unat (mi_active_client_count m)"
  shows "\<exists>s'. client_serve_all e s pdus = Some (Inr s') \<and>
    ci_moderator_info s' = Some (m\<lparr>mi_timer_id := 0, mi_fsm_state := MODERATOR_NOTIFY_RSP_SENT\<rparr>) \<and>
    ci_timers s' = (ci_timers s)(mi_timer_id m := None) \<and> ci_rsp_cntr s' = 0 \<and> \<not> ci_masked s' \<and>
    ci_outbox s' = ci_outbox s @ map (echo_answer s (mi_group_name m)) pdus @
      [notify_answer s (mi_group_name m) (take (k + 1) (ci_rsp_list s) @ map (\<lambda>p. calc_key (Some (peer_addr p))) pdus)]"
  using assms
proof (induction pdus arbitrary: s k)
  case (Cons pdu pdus)
  have b: "unat (mi_active_client_count m) < 256" by (rule u8_bound)
  have len: "length (ci_rsp_list s) = 255" "ci_rsp_cntr s = k + 1" using Cons.prems(1) by (simp_all add: awaiting_def)
  have k: "k + 1 < 255" using Cons.prems(4) b by simp
  have tk: "take (k + 2) ((ci_rsp_list s)[k + 1 := x]) = take (k + 1) (ci_rsp_list s) @ [x]" for x
    using k len(1) by (simp add: take_Suc_conv_app_nth)
  have one: "echo_from (mi_group_name m) pdu" using Cons.prems(2) by simp
  show ?case
  proof (cases "pdus = []")
    case True
    then have "k + 2 = unat (mi_active_client_count m)" using Cons.prems(4) by simp
    from report_last [OF Cons.prems(1) one this, of e, unfolded tk] show ?thesis
      using True len k by (simp add: notify_answer_def reported_def fun_upd_def)
  next
    case False
    let ?s = "reported s (mi_group_name m) pdu"
    have "k + 2 < unat (mi_active_client_count m)" using False Cons.prems(4) by (cases pdus) auto
    from report_step [OF Cons.prems(1) one this, of e] have st: "client_serve e s pdu = Some (Inr ?s)" .
    have v: "ci_timers ?s = ci_timers s" "echo_answer ?s = echo_answer s" "notify_answer ?s = notify_answer s"
        "take (k + 1 + 1) (ci_rsp_list ?s) = take (k + 1) (ci_rsp_list s) @ [calc_key (Some (peer_addr pdu))]"
        "ci_outbox ?s = ci_outbox s @ [echo_answer s (mi_group_name m) pdu]"
      using tk len by (simp_all add: reported_def echo_answer_def notify_answer_def fun_eq_iff)
    have "k + 1 + 1 + length pdus = unat (mi_active_client_count m)" using Cons.prems(4) by simp
    from Cons.IH [OF awaiting_reported [OF Cons.prems(1), of "mi_group_name m" pdu] _ False this] Cons.prems(2)
    show ?thesis unfolding v by (simp add: st)
  qed
qed simp

text \<open>The notification makes the named client the moderator.\<close>

lemma group_by_name_masked [simp]:
  "client_group_by_name_from (s\<lparr>ci_masked := b\<rparr>) nm ps prev = client_group_by_name_from s nm ps prev"
  by (induction ps) (simp_all add: cgrp_def cong: if_cong)

lemma get_group_masked [simp]:
  "get_client_grp_node_by_group_name (s\<lparr>ci_masked := b\<rparr>) nm prev = get_client_grp_node_by_group_name s nm prev"
  by (simp add: get_client_grp_node_by_group_name_def)

definition notified :: "string \<Rightarrow> nat \<Rightarrow> nat \<Rightarrow> moderator_information" where
  "notified nm n t = \<lparr>mi_group_name = nm, mi_timer_id = t, mi_pending_client_list = [], mi_done_client_list = [],
     mi_fsm_state = MODERATOR_NOTIFY_RSP_PENDING, mi_active_client_count = of_nat n, mi_moderator_resp_msg = None,
     mi_expected_responses = int n\<rparr>"

definition notification :: "u32 \<Rightarrow> nat \<Rightarrow> string \<Rightarrow> pdu_t \<Rightarrow> bool" where
  "notification cid n nm pdu \<longleftrightarrow> msg_id (pdu_msg pdu) = moderator_notify_req \<and>
     (\<exists>req. idv (pdu_msg pdu) = Moderator_notify_req req \<and> nq_moderator_id req = cid \<and>
        nq_num_of_clients_in_grp req = of_nat n \<and> nq_group_name req = Some nm)"

definition oneshot_15 :: client_timer where
  "oneshot_15 = \<lparr>ct_signal = MODERATOR_TIMEOUT, ct_owner = Mod_timer, ct_interval = 15, ct_recurring = False\<rparr>"

lemma notification_step:
  assumes "get_client_grp_node_by_group_name s nm None = Inr (Some gp)" "ci_groups s gp = Some g" "length nm < GROUP_NAME_SIZE"
    "notification (ci_client_id s) n nm pdu" "2 \<le> n" "n \<le> 255" "ci_rsp_cntr s < length (ci_rsp_list s)"
  shows "\<exists>g'. client_serve e s pdu = Some (Inr (s\<lparr>ci_masked := False, ci_groups := (ci_groups s)(gp \<mapsto> g'),
      ci_is_moderator := True, ci_active_group := Some gp, ci_moderator_info := Some (notified nm n (ci_next_timer s)),
      ci_timers := (ci_timers s)(ci_next_timer s \<mapsto> oneshot_15), ci_next_timer := ci_next_timer s + 1,
      ci_rsp_list := (ci_rsp_list s)[ci_rsp_cntr s := ci_client_id s], ci_rsp_cntr := ci_rsp_cntr s + 1\<rparr>)) \<and>
    cg_group_name g' = cg_group_name g \<and> cg_timer_id g' = cg_timer_id g"
proof -
  obtain req where req: "msg_id (pdu_msg pdu) = moderator_notify_req" "idv (pdu_msg pdu) = Moderator_notify_req req"
      "nq_moderator_id req = ci_client_id s" "nq_num_of_clients_in_grp req = of_nat n" "nq_group_name req = Some nm"
    using assms(4) by (auto simp: notification_def)
  have f: "client_func_handler moderator_notify_req = Some C_mod_notification" by (simp add: client_func_handler_def)
  have "unat (word_of_nat n :: u8) = n" using assms(6) by (rule unat_u8)
  then have "word_of_nat n \<noteq> (1 :: u8)" using assms(5) by auto
  moreover have "sint (word_of_nat n :: u32) = int n" using assms(6) by (rule sint_small)
  moreover have "(ucast (word_of_nat n :: u32) :: u8) = word_of_nat n"
    by transfer (simp add: take_bit_of_nat [symmetric] take_bit_take_bit)
  ultimately show ?thesis
    using assms(1-3,7) req
    by (intro exI [of _ "g\<lparr>cg_moderator := moderator_addr (nq_moderator_id req) (nq_moderator_port req), cg_state := TASK_AWAITED\<rparr>"])
      (simp add: client_serve_def run_client_handler_def f handle_mod_notification_def mask_client_signals_def Let_def
        become_moderator_def allocate_moderator_info_def allocate_moderator_list_def copy_name10_def note_alive_def
        client_start_timer_def timer_field_def set_timer_field_def notified_def oneshot_15_def)
qed

lemma awaiting_notified:
  "cg_group_name g = nm \<Longrightarrow> length nm < GROUP_NAME_SIZE \<Longrightarrow> length (ci_rsp_list s) = 255 \<Longrightarrow> ci_rsp_cntr s = 0 \<Longrightarrow>
   ci_echo_cntr s = 0 \<Longrightarrow> awaiting (s\<lparr>ci_masked := False, ci_groups := (ci_groups s)(gp \<mapsto> g),
      ci_is_moderator := True, ci_active_group := Some gp, ci_moderator_info := Some (notified nm n t),
      ci_timers := ts, ci_next_timer := t1, ci_rsp_list := (ci_rsp_list s)[0 := x], ci_rsp_cntr := 1\<rparr>) (notified nm n t) 0"
  by (simp add: awaiting_def notified_def)

text \<open>
  C39: a client that the server names as the moderator of a group of n clients answers, when
  the n - 1 others have sent their echo requests, with its own identifier and theirs, in the
  order of the requests; its timer is deleted.
\<close>

theorem moderator_reports_alive:
  assumes "get_client_grp_node_by_group_name s nm None = Inr (Some gp)" "ci_groups s gp = Some g" "cg_group_name g = nm"
    "length nm < GROUP_NAME_SIZE" "length (ci_rsp_list s) = 255" "ci_rsp_cntr s = 0" "ci_echo_cntr s = 0"
    "notification (ci_client_id s) (length pdus + 1) nm npdu" "pdus \<noteq> []" "length pdus \<le> 254" "\<forall>pdu\<in>set pdus. echo_from nm pdu"
  shows "\<exists>s'. client_serve_all e s (npdu # pdus) = Some (Inr s') \<and> \<not> ci_masked s' \<and>
    ci_timers s' = (ci_timers s)(ci_next_timer s := None) \<and>
    ci_outbox s' = ci_outbox s @ map (echo_answer s nm) pdus @
      [notify_answer s nm (ci_client_id s # map (\<lambda>p. calc_key (Some (peer_addr p))) pdus)]"
proof -
  let ?n = "length pdus + 1" let ?m = "notified nm ?n (ci_next_timer s)"
  have "2 \<le> ?n" "?n \<le> 255" "ci_rsp_cntr s < length (ci_rsp_list s)" using assms(5,6,9,10) by (cases pdus; simp)+
  from notification_step [OF assms(1,2,4,8) this, of e]
  obtain g' where g': "cg_group_name g' = nm" and st: "client_serve e s npdu = Some (Inr (s\<lparr>ci_masked := False,
      ci_groups := (ci_groups s)(gp \<mapsto> g'), ci_is_moderator := True, ci_active_group := Some gp,
      ci_moderator_info := Some ?m, ci_timers := (ci_timers s)(ci_next_timer s \<mapsto> oneshot_15),
      ci_next_timer := ci_next_timer s + 1, ci_rsp_list := (ci_rsp_list s)[0 := ci_client_id s], ci_rsp_cntr := 1\<rparr>))"
    (is "_ = Some (Inr ?s1)")
    using assms(3,6) by auto
  have "awaiting ?s1 ?m 0" using g' assms(4-7) by (rule awaiting_notified)
  moreover have "\<forall>pdu\<in>set pdus. echo_from (mi_group_name ?m) pdu" using assms(11) by (simp add: notified_def)
  moreover have "0 + 1 + length pdus = unat (mi_active_client_count ?m)"
    using assms(10) unat_u8 [of "length pdus + 1"] by (simp add: notified_def)
  ultimately obtain s' where s': "client_serve_all e ?s1 pdus = Some (Inr s')" "\<not> ci_masked s'"
      "ci_timers s' = (ci_timers ?s1)(mi_timer_id ?m := None)"
      "ci_outbox s' = ci_outbox ?s1 @ map (echo_answer ?s1 (mi_group_name ?m)) pdus @
        [notify_answer ?s1 (mi_group_name ?m) (take (0 + 1) (ci_rsp_list ?s1) @ map (\<lambda>p. calc_key (Some (peer_addr p))) pdus)]"
    using reports [OF _ _ assms(9), of ?s1 ?m 0 e] by blast
  have "take 1 ((ci_rsp_list s)[0 := ci_client_id s]) = [ci_client_id s]" using assms(5) by (cases "ci_rsp_list s") auto
  then show ?thesis
    using s' by (intro exI [of _ s']) (simp add: st notified_def echo_answer_def notify_answer_def)
qed

text \<open>Messages of the example.\<close>

definition demo_notification :: "u32 \<Rightarrow> string \<Rightarrow> pdu_t" where
  "demo_notification n nm = \<lparr>peer_addr = demo_client_addr 9, pdu_msg = \<lparr>msg_id = moderator_notify_req,
     idv = Moderator_notify_req \<lparr>nq_moderator_id = 5, nq_moderator_port = 80, nq_num_of_clients_in_grp = n,
       nq_group_name = Some nm\<rparr>\<rparr>\<rparr>"

definition demo_echo :: "u32 \<Rightarrow> string \<Rightarrow> pdu_t" where
  "demo_echo cid nm = \<lparr>peer_addr = demo_client_addr cid, pdu_msg = \<lparr>msg_id = echo_req,
     idv = Echo_req \<lparr>eq_group_name = Some nm, eq_num_clients = 0, eq_client_ids = []\<rparr>\<rparr>\<rparr>"

definition demo_env :: client_env where
  "demo_env = \<lparr>env_run = \<lambda>_. True, env_spawn = \<lambda>_. True, env_mjoin = \<lambda>_ _. 4, env_epoll = \<lambda>_. True\<rparr>"

lemma echo_from_demo [simp]: "echo_from nm (demo_echo cid nm)"
  by (simp add: echo_from_def demo_echo_def)

lemma notification_demo: "n = of_nat k \<Longrightarrow> notification 5 k nm (demo_notification n nm)"
  by (simp add: notification_def demo_notification_def)

lemma demo_echo_key [simp]: "calc_key (Some (peer_addr (demo_echo cid nm))) = cid"
  by (simp add: demo_echo_def)

lemma demo_lookup: "get_client_grp_node_by_group_name demo_client ''G1'' None = Inr (Some 1)"
  by (simp add: get_client_grp_node_by_group_name_def demo_client_def demo_cgrp_def)

lemma demo_client_fields:
  "ci_groups demo_client 1 = Some demo_cgrp" "cg_group_name demo_cgrp = ''G1''" "length (ci_rsp_list demo_client) = 255"
  "ci_rsp_cntr demo_client = 0" "ci_echo_cntr demo_client = 0" "ci_client_id demo_client = 5" "ci_outbox demo_client = []"
  by (simp_all add: demo_client_def demo_cgrp_def)

lemma moderator_reports_alive_witness:
  "\<exists>s'. client_serve_all demo_env demo_client [demo_notification 3 ''G1'', demo_echo 7 ''G1'', demo_echo 6 ''G1''] = Some (Inr s') \<and>
    last (ci_outbox s') = notify_answer demo_client ''G1'' [5, 7, 6]"
proof -
  have "\<exists>s'. client_serve_all demo_env demo_client (demo_notification 3 ''G1'' # [demo_echo 7 ''G1'', demo_echo 6 ''G1'']) = Some (Inr s') \<and>
    \<not> ci_masked s' \<and> ci_timers s' = (ci_timers demo_client)(ci_next_timer demo_client := None) \<and>
    ci_outbox s' = ci_outbox demo_client @ map (echo_answer demo_client ''G1'') [demo_echo 7 ''G1'', demo_echo 6 ''G1''] @
      [notify_answer demo_client ''G1'' (ci_client_id demo_client # map (\<lambda>p. calc_key (Some (peer_addr p))) [demo_echo 7 ''G1'', demo_echo 6 ''G1''])]"
    by (rule moderator_reports_alive [OF demo_lookup demo_client_fields(1,2)])
      (simp_all add: demo_client_fields notification_demo)
  then show ?thesis by (elim exE conjE, intro exI conjI) (assumption, simp add: demo_client_fields)
qed

section \<open>A second notification\<close>

text \<open>
  A moderator that still waits for its peers and is named as the moderator of a further
  group of two loses its first timer, which stays armed without an owner; its list of
  clients is not emptied, so the report of the second group's other client makes the
  answer overflow its array.
\<close>

theorem second_notification_overflows:
  assumes "awaiting s m 0" "mi_timer_id m < ci_next_timer s"
    "get_client_grp_node_by_group_name s nm None = Inr (Some gp)" "ci_groups s gp = Some g" "cg_group_name g = nm"
    "length nm < GROUP_NAME_SIZE" "notification (ci_client_id s) 2 nm npdu" "echo_from nm pdu"
  shows "\<exists>s1 m1. client_serve e s npdu = Some (Inr s1) \<and> ci_moderator_info s1 = Some m1 \<and>
    ci_timers s1 (mi_timer_id m) = ci_timers s (mi_timer_id m) \<and> mi_timer_id m1 \<noteq> mi_timer_id m \<and>
    client_serve e s1 pdu = Some (Inl OutOfBounds)"
proof -
  note a = assms(1) [unfolded awaiting_def]
  obtain g' where g': "cg_group_name g' = nm" and st: "client_serve e s npdu = Some (Inr (s\<lparr>ci_masked := False,
      ci_groups := (ci_groups s)(gp \<mapsto> g'), ci_is_moderator := True, ci_active_group := Some gp,
      ci_moderator_info := Some (notified nm 2 (ci_next_timer s)), ci_timers := (ci_timers s)(ci_next_timer s \<mapsto> oneshot_15),
      ci_next_timer := ci_next_timer s + 1, ci_rsp_list := (ci_rsp_list s)[1 := ci_client_id s], ci_rsp_cntr := 2\<rparr>))"
    (is "_ = Some (Inr ?s1)")
    using notification_step [OF assms(3,4,6,7), of e] a assms(5) by auto
  obtain req where "msg_id (pdu_msg pdu) = echo_req" "idv (pdu_msg pdu) = Echo_req req" "eq_group_name req = Some nm"
    using assms(8) by (auto simp: echo_from_def)
  then have "client_serve e ?s1 pdu = Some (Inl OutOfBounds)"
    using g' a assms(6)
    by (simp add: client_serve_def run_client_handler_def client_handle_echo_req_def notified_def
        copy_gname_def moderator_main_fsm_def moderator_fsm_notify_rsp_pending_state_def note_alive_def
        moderator_echo_req_notify_rsp_pending_state_def mask_client_signals_def client_send_def
        strcmp_eq_def client_timer_delete_def send_moderator_notify_response_def Let_def)
  then show ?thesis using st assms(2) by (intro exI conjI) (assumption | simp add: notified_def)+
qed

text \<open>A client of two groups that waits as the moderator of the first.\<close>

definition demo_two_groups :: client_information where
  "demo_two_groups = demo_client\<lparr>ci_client_grp_list := [1, 2], ci_groups := [1 \<mapsto> demo_cgrp, 2 \<mapsto> demo_cgrp\<lparr>cg_group_name := ''G2''\<rparr>],
     ci_is_moderator := True, ci_active_group := Some 1, ci_moderator_info := Some (notified ''G1'' 2 1),
     ci_timers := [1 \<mapsto> oneshot_15], ci_next_timer := 2, ci_rsp_cntr := 1\<rparr>"

lemma demo_awaiting: "awaiting demo_two_groups (notified ''G1'' 2 1) 0"
  by (simp add: awaiting_def demo_two_groups_def notified_def demo_client_fields)

lemma second_notification_overflows_witness:
  "\<exists>s1. client_serve demo_env demo_two_groups (demo_notification 2 ''G2'') = Some (Inr s1) \<and>
    ci_timers s1 1 = Some oneshot_15 \<and> client_serve demo_env s1 (demo_echo 8 ''G2'') = Some (Inl OutOfBounds)"
proof -
  have "\<exists>s1 m1. client_serve demo_env demo_two_groups (demo_notification 2 ''G2'') = Some (Inr s1) \<and> ci_moderator_info s1 = Some m1 \<and>
    ci_timers s1 (mi_timer_id (notified ''G1'' 2 1)) = ci_timers demo_two_groups (mi_timer_id (notified ''G1'' 2 1)) \<and>
    mi_timer_id m1 \<noteq> mi_timer_id (notified ''G1'' 2 1) \<and> client_serve demo_env s1 (demo_echo 8 ''G2'') = Some (Inl OutOfBounds)"
    by (rule second_notification_overflows [OF demo_awaiting, where gp = 2 and nm = "''G2''" and g = "demo_cgrp\<lparr>cg_group_name := ''G2''\<rparr>"])
      (simp_all add: demo_two_groups_def notified_def demo_client_fields notification_demo
        get_client_grp_node_by_group_name_def)
  then show ?thesis
    by (elim exE conjE, intro exI conjI) (assumption, simp add: demo_two_groups_def notified_def, assumption)
qed

section \<open>A notification that times out\<close>

text \<open>What the preparation of the moderator leaves alone when its timer's identifier is set.\<close>

definition keeps_timer :: "client_information \<Rightarrow> nat \<Rightarrow> client_information \<Rightarrow> bool" where
  "keeps_timer s0 t s \<longleftrightarrow> ci_timers s = ci_timers s0 \<and> ci_is_moderator s = ci_is_moderator s0 \<and>
     ci_active_group s = ci_active_group s0 \<and> map_option cg_group_name \<circ> ci_groups s = map_option cg_group_name \<circ> ci_groups s0 \<and>
     (\<exists>m. ci_moderator_info s = Some m \<and> mi_timer_id m = t)"

lemma kt_upd_minfo: "keeps_timer s0 t s \<Longrightarrow> (\<And>m. mi_timer_id (f m) = mi_timer_id m) \<Longrightarrow> wp (upd_minfo s f) (keeps_timer s0 t)"
  by (intro wpI) (auto simp: upd_minfo_def bindE_eq_Inr keeps_timer_def)

lemma kt_upd_mnode: "keeps_timer s0 t s \<Longrightarrow> wp (upd_mnode s p f) (keeps_timer s0 t)"
  by (intro wpI) (auto simp: upd_mnode_def bindE_eq_Inr keeps_timer_def)

lemma kt_allocate: "keeps_timer s0 t s \<Longrightarrow> wp (allocate_clnt_moderator_node s) (\<lambda>r. keeps_timer s0 t (snd r))"
  by (intro wpI) (auto simp: allocate_clnt_moderator_node_def Let_def upd_minfo_def bindE_eq_Inr keeps_timer_def)

lemma kt_upd_cgrp:
  assumes "keeps_timer s0 t s" "\<And>g. cg_group_name (f g) = cg_group_name g"
  shows "wp (upd_cgrp s p f) (keeps_timer s0 t)"
proof (rule wpI)
  fix s' assume "upd_cgrp s p f = Inr s'"
  then obtain g where g: "ci_groups s p = Some g" "s' = s\<lparr>ci_groups := (ci_groups s)(p \<mapsto> f g)\<rparr>"
    by (auto simp: upd_cgrp_def bindE_eq_Inr)
  have "map_option cg_group_name \<circ> (ci_groups s)(p \<mapsto> f g) = map_option cg_group_name \<circ> ci_groups s"
    using g(1) assms(2) by (intro ext) simp
  then show "keeps_timer s0 t s'" using assms(1) g(2) by (simp add: keeps_timer_def)
qed

lemma kt_return_snd: "keeps_timer s0 t s \<Longrightarrow> wp (Inr (x, s)) (\<lambda>r. keeps_timer s0 t (snd r))"
  by simp

lemmas kt_rules = kt_upd_minfo kt_upd_mnode kt_allocate kt_upd_cgrp kt_return_snd

lemma kt_register: "keeps_timer s0 t s \<Longrightarrow> wp (register_workers s ids i k) (keeps_timer s0 t)"
proof (induction k arbitrary: s i)
  case (Suc k)
  then show ?case
    unfolding register_workers.simps split_beta
    by - (rule Suc.IH kt_rules kt_rules [THEN wp_bindI] wp_structure | assumption | rule wp_bind_valueI | simp)+
qed simp

lemma kt_prepare:
  assumes "keeps_timer s0 t s" "t \<noteq> 0"
  shows "wp (prepare_moderator s req found) (keeps_timer s0 t)"
proof -
  have last: "wp (bindE (minfo s3) (\<lambda>m. if mi_timer_id m = 0 then f m else Inr s3)) (keeps_timer s0 t)"
    if "keeps_timer s0 t s3" for s3 and f :: "moderator_information \<Rightarrow> client_information result"
    using that assms(2) by (auto simp: keeps_timer_def)
  show ?thesis
    unfolding prepare_moderator_def
    using assms(1)
    by - (rule last kt_register [THEN wp_bindI] kt_rules kt_rules [THEN wp_bindI] wp_structure | assumption | simp)+
qed

text \<open>The threads of the moderated group start no timer.\<close>

lemma kt_start_jobs:
  assumes "keeps_timer s0 t s" "ci_is_moderator s0" "ci_active_group s0 = Some gp"
  shows "wp (start_jobs spawn s gp req is) (keeps_timer s0 t)"
  using assms(1)
proof (induction "is" arbitrary: s)
  case (Cons i "is")
  have own: "wp (bindE (upd_cgrp s1 gp (\<lambda>g. g\<lparr>cg_pending_task_count := cg_pending_task_count g + 1,
      cg_state := TASK_EXECUTION_IN_PROGRESS\<rparr>)) (\<lambda>s3. start_jobs spawn s3 gp req is)) (keeps_timer s0 t)"
    if "keeps_timer s0 t s1" for s1
    using that by - (rule Cons.IH kt_rules [THEN wp_bindI] | assumption | simp)+
  have job: "keeps_timer s0 t (s\<lparr>ci_jobs := js\<rparr>)" for js using Cons.prems by (simp add: keeps_timer_def)
  show ?case
  proof (cases "ci_groups s gp")
    case (Some g)
    have "ci_active_group s = Some gp" "ci_is_moderator s"
      using Cons.prems assms(2,3) by (simp_all add: keeps_timer_def)
    then have "wp (start_jobs spawn s gp req (i # is)) (keeps_timer s0 t)"
      if "fill_thread_args s req i = Inr args" for args
      using that Some Cons.IH [OF Cons.prems] own [OF job [of "ci_jobs s @ [args]"]] by (simp add: strcmp_eq_def Let_def)
    then show ?thesis by (cases "fill_thread_args s req i") auto
  qed (auto intro!: wp_bind_valueI Cons.IH [OF Cons.prems] simp: Let_def)
qed simp

lemma kt_perform:
  assumes "keeps_timer s0 t s" "t \<noteq> 0" "ci_is_moderator s0" "ci_active_group s0 = Some gp"
    "idv (pdu_msg pdu) = Perform_task_req req" "pt_group_name req = Some nm" "get_client_grp_node_by_group_name s nm None = Inr (Some gp)"
    "ci_groups s gp = Some g"
  shows "wp (handle_perform_task_req spawn s pdu) (keeps_timer s0 t)"
proof -
  have name: "wp (reset_results g) (\<lambda>g1. cg_group_name g1 = cg_group_name g)" by (simp add: reset_results_def)
  have reset: "wp (bindE (reset_results g) (\<lambda>g1. upd_cgrp s gp (\<lambda>_. g1))) (keeps_timer s0 t)"
  proof (rule wp_bindI [OF name])
    fix g1 :: client_grp_node assume "cg_group_name g1 = cg_group_name g"
    then have "map_option cg_group_name \<circ> (ci_groups s)(gp \<mapsto> g1) = map_option cg_group_name \<circ> ci_groups s"
      using assms(8) by (intro ext) simp
    then show "wp (upd_cgrp s gp (\<lambda>_. g1)) (keeps_timer s0 t)"
      using assms(1,8) by (simp add: keeps_timer_def)
  qed
  have s1: "wp (if pt_task_reassigned req = 0 then bindE (reset_results g) (\<lambda>g1. upd_cgrp s gp (\<lambda>_. g1)) else Inr s) (keeps_timer s0 t)"
    using reset assms(1) by simp
  have rest: "wp (bindE (occurrences (ci_client_id s1) (pt_client_ids req) 0 (nat (sint (pt_client_id_count req))) []) (\<lambda>counts.
      bindE (case ci_moderator_info s1 of
               Some m \<Rightarrow> if strcmp_eq (mi_group_name m) (cg_group_name g) then prepare_moderator s1 req (counts \<noteq> []) else Inr s1
             | None \<Rightarrow> Inr s1) (\<lambda>s2.
      if counts = []
      then upd_cgrp s2 gp (\<lambda>g. if cg_pending_task_count g = 0 then g\<lparr>cg_state := IDLE\<rparr> else g)
      else start_jobs spawn s2 gp req counts))) (keeps_timer s0 t)" if "keeps_timer s0 t s1" for s1
    using that assms(2)
    by - (rule kt_prepare [THEN wp_bindI] kt_start_jobs [OF _ assms(3,4)] kt_rules wp_structure | assumption | rule wp_bind_valueI | simp)+
  show ?thesis
    using wp_bindI [OF s1 rest] assms(5-8) by (simp add: handle_perform_task_req_def)
qed

text \<open>
  When the time for the peers' reports runs out, the moderator answers the server, but
  its one-shot timer keeps its identifier; the task request that follows therefore starts
  no recurring timer, and the moderator sends the server no keepalive during the task.
\<close>

theorem late_answer_no_keepalive:
  assumes "awaiting s m k" "mi_timer_id m = t" "t \<noteq> 0" "ci_active_group s = Some gp"
    "client_handle_timeout_real run s False MODERATOR_TIMEOUT Mod_timer = Inr s1"
    "idv (pdu_msg pdu) = Perform_task_req req" "pt_group_name req = Some nm"
    "get_client_grp_node_by_group_name s1 nm None = Inr (Some gp)" "handle_perform_task_req spawn s1 pdu = Inr s2"
  shows "ci_timers s2 = ci_timers s \<and> (\<exists>m2. ci_moderator_info s2 = Some m2 \<and> mi_timer_id m2 = t)"
proof -
  note a = assms(1) [unfolded awaiting_def]
  have "keeps_timer s t s1" "ci_groups s1 = ci_groups s"
    using assms(5) a assms(2)
    by (auto simp: client_handle_timeout_real_def send_moderator_notify_response_def Let_def bindE_eq_Inr
        client_send_def keeps_timer_def split: if_splits)
  moreover obtain g where "ci_groups s gp = Some g" using a assms(4) by auto
  ultimately have "wp (handle_perform_task_req spawn s1 pdu) (keeps_timer s t)"
    using a assms(3,4,6-8) by (intro kt_perform [where gp = gp and g = g]) simp_all
  then show ?thesis using assms(9) by (simp add: keeps_timer_def)
qed

text \<open>A request to find primes on two clients.\<close>

definition demo_request :: "u32 list \<Rightarrow> string list \<Rightarrow> perform_task_req_t" where
  "demo_request ids fs = \<lparr>pt_group_name = Some ''G1'', pt_task_id = 1, pt_client_id_count = of_nat (length ids), pt_client_ids = ids,
     pt_task_filename = map Some fs, pt_task_folder_path = Some ''set1'', pt_task_type = 1, pt_task_reassigned = 0\<rparr>"

definition demo_task_pdu :: "u32 list \<Rightarrow> string list \<Rightarrow> pdu_t" where
  "demo_task_pdu ids fs = \<lparr>peer_addr = demo_client_addr 9, pdu_msg = \<lparr>msg_id = perform_task_req,
     idv = Perform_task_req (demo_request ids fs)\<rparr>\<rparr>"

definition demo_late :: client_information where
  "demo_late = demo_two_groups\<lparr>ci_moderator_info := Some (notified ''G1'' 3 1), ci_rsp_cntr := 2, ci_echo_cntr := 1\<rparr>"

definition demo_answered :: client_information where
  "demo_answered = (case client_handle_timeout_real (\<lambda>_. True) demo_late False MODERATOR_TIMEOUT Mod_timer of
     Inr s \<Rightarrow> s | Inl _ \<Rightarrow> demo_late)"

lemma demo_late_timeout:
  "client_handle_timeout_real (\<lambda>_. True) demo_late False MODERATOR_TIMEOUT Mod_timer = Inr demo_answered"
  by (simp add: demo_answered_def client_handle_timeout_real_def demo_late_def demo_two_groups_def notified_def
      send_moderator_notify_response_def Let_def copy_gname_def demo_defs)

lemma demo_late_task: "\<exists>s2. handle_perform_task_req (\<lambda>_. True) demo_answered (demo_task_pdu [5, 7] [''a'', ''b'']) = Inr s2"
  by (simp add: demo_answered_def client_handle_timeout_real_def demo_late_def demo_two_groups_def notified_def
      send_moderator_notify_response_def Let_def copy_gname_def demo_defs client_send_def handle_perform_task_req_def
      demo_task_pdu_def demo_request_def get_client_grp_node_by_group_name_def reset_results_def numeral_2_eq_2
      strcmp_eq_def prepare_moderator_def get_client_from_moderator_pending_list_def allocate_clnt_moderator_node_def
      fill_thread_args_def eval_nat_numeral)

lemma late_answer_no_keepalive_witness:
  "\<exists>s2. handle_perform_task_req (\<lambda>_. True) demo_answered (demo_task_pdu [5, 7] [''a'', ''b'']) = Inr s2 \<and>
    ci_timers s2 = [1 \<mapsto> oneshot_15]"
proof -
  obtain s2 where s2: "handle_perform_task_req (\<lambda>_. True) demo_answered (demo_task_pdu [5, 7] [''a'', ''b'']) = Inr s2"
    using demo_late_task by blast
  have aw: "awaiting demo_late (notified ''G1'' 3 1) 1"
    by (simp add: awaiting_def demo_late_def demo_two_groups_def notified_def demo_client_fields)
  have gr: "get_client_grp_node_by_group_name demo_answered ''G1'' None = Inr (Some 1)"
    by (simp add: demo_answered_def client_handle_timeout_real_def demo_late_def demo_two_groups_def notified_def
      send_moderator_notify_response_def Let_def copy_gname_def demo_defs client_send_def get_client_grp_node_by_group_name_def)
  have "ci_timers s2 = ci_timers demo_late \<and> (\<exists>m2. ci_moderator_info s2 = Some m2 \<and> mi_timer_id m2 = 1)"
    by (rule late_answer_no_keepalive [where req = "demo_request [5, 7] [''a'', ''b'']", OF aw _ _ _ demo_late_timeout _ _ gr s2])
      (simp_all add: notified_def demo_late_def demo_two_groups_def demo_task_pdu_def demo_request_def)
  then show ?thesis using s2 by (simp add: demo_late_def demo_two_groups_def)
qed

end
