(* ===== verification/ClientWork.thy ===== *)
theory ClientWork
  imports ClientProps
begin

text \<open>
  The keepalive of the peers of a moderator, and the client's share of a task from the
  request to the result.
\<close>

section \<open>Dead peers\<close>

text \<open>A peer that has heartbeats left, or the moderator itself.\<close>

definition alive_peer :: "client_information \<Rightarrow> ptr \<Rightarrow> bool" where
  "alive_peer s p \<longleftrightarrow> nid s p = ci_client_id s \<or> mn_heartbeat_remaining (the (ci_nodes s p)) \<noteq> 0"

text \<open>One heartbeat less.\<close>

definition beat :: "client_information \<Rightarrow> mod_client_node \<Rightarrow> mod_client_node" where
  "beat s n = (if mn_peer_client_id n = ci_client_id s then n
     else n\<lparr>mn_heartbeat_remaining := mn_heartbeat_remaining n - 1\<rparr>)"

definition beaten :: "client_information \<Rightarrow> ptr set \<Rightarrow> (ptr \<rightharpoonup> mod_client_node)" where
  "beaten s A = (\<lambda>p. if p \<in> A then map_option (beat s) (ci_nodes s p) else ci_nodes s p)"

lemma beat_self [simp]: "mn_peer_client_id n = ci_client_id s \<Longrightarrow> beat s n = n"
  by (simp add: beat_def)

lemma beat_nodes [simp]: "beat (s\<lparr>ci_nodes := x\<rparr>) = beat s"
  by (simp add: beat_def fun_eq_iff)

lemma dom_beaten [simp]: "dom (beaten s A) = dom (ci_nodes s)"
  by (auto simp: beaten_def dom_def)

lemma beaten_one: "ci_nodes s p = Some n \<Longrightarrow> (ci_nodes s)(p \<mapsto> beat s n) = beaten s {p}"
  by (auto simp: beaten_def)

lemma beaten_more:
  "p \<notin> A \<Longrightarrow> beaten (s\<lparr>ci_nodes := beaten s {p}\<rparr>) A = beaten s (insert p A)"
  by (auto simp: beaten_def fun_eq_iff)

lemma walk_ok:
  assumes "distinct ps" "set ps \<subseteq> dom (ci_nodes s)" "ci_moderator_info s = Some m"
  shows "pending_walk s ps =
    (let rest = dropWhile (alive_peer s) ps
     in Inr (s\<lparr>ci_nodes := beaten s (set (takeWhile (alive_peer s) ps) \<union> set (take 1 rest)),
       ci_moderator_info := Some (m\<lparr>mi_pending_client_list := foldr remove1 (take 1 rest) (mi_pending_client_list m)\<rparr>)\<rparr>,
       map (nid s) (take 1 rest)))"
  using assms
proof (induction ps arbitrary: s)
  case Nil
  have "beaten s {} = ci_nodes s" by (simp add: beaten_def)
  then show ?case using Nil by simp
next
  case (Cons p ps)
  obtain n where n: "ci_nodes s p = Some n" using Cons.prems(2) by auto
  let ?s = "s\<lparr>ci_nodes := beaten s {p}\<rparr>"
  have same: "alive_peer ?s q = alive_peer s q" "nid ?s q = nid s q" if "q \<in> set ps" for q
    using that Cons.prems(1) by (auto simp: alive_peer_def nid_def beaten_def)
  have tw: "takeWhile (alive_peer ?s) ps = takeWhile (alive_peer s) ps" "dropWhile (alive_peer ?s) ps = dropWhile (alive_peer s) ps"
    using same(1) by (auto intro: takeWhile_cong dropWhile_cong)
  have nids: "map (nid ?s) (take 1 (dropWhile (alive_peer s) ps)) = map (nid s) (take 1 (dropWhile (alive_peer s) ps))"
    using same(2) by (auto dest!: in_set_takeD set_dropWhileD)
  let ?A = "set (takeWhile (alive_peer s) ps) \<union> set (take 1 (dropWhile (alive_peer s) ps))"
  have "?A \<subseteq> set ps" by (auto dest!: in_set_takeD set_dropWhileD dest: set_takeWhileD)
  then have "p \<notin> ?A" using Cons.prems(1) by auto
  note more = beaten_more [OF this, of s]
  have ih: "pending_walk ?s ps = (let rest = dropWhile (alive_peer s) ps
     in Inr (s\<lparr>ci_nodes := beaten s (insert p ?A),
       ci_moderator_info := Some (m\<lparr>mi_pending_client_list := foldr remove1 (take 1 rest) (mi_pending_client_list m)\<rparr>)\<rparr>,
       map (nid s) (take 1 rest)))"
    using Cons.IH [of ?s] Cons.prems nids more unfolding tw by (simp add: Let_def)
  show ?case
  proof (cases "mn_peer_client_id n = ci_client_id s")
    case True
    then have "alive_peer s p" "?s = s" using n by (simp_all add: alive_peer_def nid_def beaten_one [symmetric] fun_upd_idem)
    then show ?thesis using True n ih by (simp add: Let_def)
  next
    case False
    then have b: "(ci_nodes s)(p \<mapsto> n\<lparr>mn_heartbeat_remaining := mn_heartbeat_remaining n - 1\<rparr>) = beaten s {p}"
      using n beaten_one [OF n] by (simp add: beat_def)
    have i: "nid s p = mn_peer_client_id n" using n by (simp add: nid_def)
    show ?thesis
    proof (cases "mn_heartbeat_remaining n = 0")
      case True
      then have "\<not> alive_peer s p" using False n by (simp add: alive_peer_def nid_def)
      then show ?thesis using True False n Cons.prems(3) i b by (simp add: Let_def)
    next
      case hb: False
      then have "alive_peer s p" using n by (simp add: alive_peer_def)
      then show ?thesis using False hb n ih b by (simp add: Let_def)
    qed
  qed
qed

text \<open>
  C40: when its timer expires a working moderator sends the server a keepalive that names the
  first pending client without heartbeats and no other; the clients before it lose one
  heartbeat, those after it none, and it alone leaves the pending list.
\<close>

theorem dead_peer_reported:
  assumes "ci_moderator_info s = Some m" "distinct (mi_pending_client_list m)" "set (mi_pending_client_list m) \<subseteq> dom (ci_nodes s)"
    "active_grp s = Inr g" "alive = takeWhile (alive_peer s) (mi_pending_client_list m)"
    "rest = dropWhile (alive_peer s) (mi_pending_client_list m)"
  shows "\<exists>s'. moderator_task_rsp_pending_timeout s = Inr s' \<and>
    ci_nodes s' = beaten s (set alive \<union> set (take 1 rest)) \<and>
    ci_moderator_info s' = Some (m\<lparr>mi_pending_client_list := alive @ drop 1 rest\<rparr>) \<and>
    ci_outbox s' = ci_outbox s @ [(of_in (ci_server s), \<lparr>msg_id = echo_req, idv = Echo_req \<lparr>eq_group_name = Some (cg_group_name g),
      eq_num_clients = of_nat (length (take 1 rest)), eq_client_ids = map (nid s) (take 1 rest)\<rparr>\<rparr>)]"
proof -
  have ps: "mi_pending_client_list m = alive @ rest" using assms(5,6) by simp
  have "foldr remove1 (take 1 rest) (mi_pending_client_list m) = alive @ drop 1 rest"
  proof (cases rest)
    case (Cons p bs)
    then have "p \<notin> set alive" using ps assms(2) by auto
    then show ?thesis using Cons ps by (simp add: remove1_split)
  qed (simp add: ps)
  then show ?thesis
    using assms(1,4) walk_ok [OF assms(2,3,1)] unfolding assms(5,6)
    by (auto simp: moderator_task_rsp_pending_timeout_def Let_def client_send_def)
qed

lemma dead_peer_reported_witness:
  "\<exists>s'. moderator_task_rsp_pending_timeout demo_moderator = Inr s' \<and>
    ci_outbox s' = [(of_in (ci_server demo_moderator), \<lparr>msg_id = echo_req, idv = Echo_req \<lparr>eq_group_name = Some ''G1'',
      eq_num_clients = 1, eq_client_ids = [6]\<rparr>\<rparr>)] \<and>
    map_option mn_heartbeat_remaining (ci_nodes s' 3) = Some 2"
proof -
  have st: "alive_peer demo_moderator 2 = False" "nid demo_moderator 2 = 6" by (simp_all add: alive_peer_def nid_def demo_defs)
  have "\<exists>s'. moderator_task_rsp_pending_timeout demo_moderator = Inr s' \<and>
    ci_nodes s' = beaten demo_moderator (set [] \<union> set (take 1 [2, 3])) \<and>
    ci_moderator_info s' = Some (demo_minfo\<lparr>mi_pending_client_list := [] @ drop 1 [2, 3]\<rparr>) \<and>
    ci_outbox s' = ci_outbox demo_moderator @ [(of_in (ci_server demo_moderator), \<lparr>msg_id = echo_req,
      idv = Echo_req \<lparr>eq_group_name = Some (cg_group_name demo_cgrp),
      eq_num_clients = of_nat (length (take 1 [2, 3 :: nat])), eq_client_ids = map (nid demo_moderator) (take 1 [2, 3])\<rparr>\<rparr>)]"
    by (rule dead_peer_reported) (simp_all add: demo_minfo_def st, simp_all add: demo_defs)
  then show ?thesis
    by (elim exE conjE, intro exI conjI) (assumption, simp_all add: st demo_outbox demo_client_fields beaten_def, simp add: demo_defs)
qed

section \<open>Starting the shares\<close>

text \<open>The positions at which the client occurs; more than five overflow the array.\<close>

lemma occurrences_ok:
  "i + k \<le> length ids \<Longrightarrow> length acc \<le> 5 \<Longrightarrow>
   occurrences cid ids i k acc =
     (if length acc + length (filter (\<lambda>j. ids ! j = cid) [i..<i + k]) \<le> 5
      then Inr (acc @ filter (\<lambda>j. ids ! j = cid) [i..<i + k]) else Inl OutOfBounds)"
proof (induction k arbitrary: i acc)
  case (Suc k)
  have r: "[i..<i + Suc k] = i # [Suc i..<Suc i + k]" by (simp add: upt_rec)
  show ?case
    using Suc.prems Suc.IH [of "i + 1" acc] Suc.IH [of "i + 1" "acc @ [i]"] unfolding r by auto
qed simp

lemma by_name_cong:
  assumes "map_option cg_group_name \<circ> ci_groups s' = map_option cg_group_name \<circ> ci_groups s"
  shows "client_group_by_name_from s' nm ps prev = client_group_by_name_from s nm ps prev"
proof (induction ps)
  case (Cons p ps)
  have "map_option cg_group_name (ci_groups s' p) = map_option cg_group_name (ci_groups s p)"
    using fun_cong [OF assms, of p] by simp
  then show ?case using Cons by (cases "ci_groups s p"; cases "ci_groups s' p") (simp_all add: cgrp_def)
qed simp

lemma lookup_cong:
  "map_option cg_group_name \<circ> ci_groups s' = map_option cg_group_name \<circ> ci_groups s \<Longrightarrow>
   ci_client_grp_list s' = ci_client_grp_list s \<Longrightarrow>
   get_client_grp_node_by_group_name s' nm prev = get_client_grp_node_by_group_name s nm prev"
  using by_name_cong [of s' s nm "ci_client_grp_list s" prev] by (simp add: get_client_grp_node_by_group_name_def)

text \<open>The arguments of the thread for the i-th file of the request.\<close>

definition job :: "ptr \<Rightarrow> perform_task_req_t \<Rightarrow> nat \<Rightarrow> task_args" where
  "job gp req i = \<lparr>tk_group = gp, tk_task_filename = the (pt_task_filename req ! i),
     tk_task_folder_path = the (pt_task_folder_path req), tk_task_id = pt_task_id req, tk_task_type = pt_task_type req\<rparr>"

text \<open>A request for the group whose files and folder are all given.\<close>

definition request_for :: "client_information \<Rightarrow> ptr \<Rightarrow> perform_task_req_t \<Rightarrow> bool" where
  "request_for s gp req \<longleftrightarrow> (\<exists>nm. pt_group_name req = Some nm \<and> get_client_grp_node_by_group_name s nm None = Inr (Some gp)) \<and>
     length (pt_task_filename req) = length (pt_client_ids req) \<and> None \<notin> set (pt_task_filename req) \<and>
     pt_task_folder_path req \<noteq> None \<and> sint (pt_client_id_count req) = int (length (pt_client_ids req))"

lemma fill_ok:
  assumes "request_for s gp req" "i < length (pt_client_ids req)"
  shows "fill_thread_args s req i = Inr (job gp req i)"
proof -
  have "pt_task_filename req ! i \<in> set (pt_task_filename req)" using assms by (simp add: request_for_def)
  then have "pt_task_filename req ! i \<noteq> None" using assms(1) by (metis request_for_def)
  then obtain f where f: "pt_task_filename req ! i = Some f" by blast
  obtain nm folder where nm: "pt_group_name req = Some nm" "get_client_grp_node_by_group_name s nm None = Inr (Some gp)"
      "pt_task_folder_path req = Some folder"
    using assms(1) by (auto simp: request_for_def)
  show ?thesis using assms f nm by (simp add: fill_thread_args_def job_def request_for_def)
qed

lemma request_for_cong:
  assumes "map_option cg_group_name \<circ> ci_groups s' = map_option cg_group_name \<circ> ci_groups s"
    "ci_client_grp_list s' = ci_client_grp_list s"
  shows "request_for s' gp req = request_for s gp req"
  unfolding request_for_def lookup_cong [OF assms] by (rule refl)

lemma names_upd: "ci_groups s gp = Some g \<Longrightarrow> cg_group_name g' = cg_group_name g \<Longrightarrow>
  map_option cg_group_name \<circ> (ci_groups s)(gp \<mapsto> g') = map_option cg_group_name \<circ> ci_groups s"
  by (intro ext) simp

text \<open>A client at work needs no further timer.\<close>

lemma start_jobs_working:
  assumes "request_for s gp req" "\<not> ci_is_moderator s" "ci_groups s gp = Some g" "cg_state g = TASK_EXECUTION_IN_PROGRESS"
    "cg_pending_task_count g \<noteq> 0" "unat (cg_pending_task_count g) + length is < 2 ^ 32" "\<forall>i\<in>set is. i < length (pt_client_ids req)"
  shows "start_jobs (\<lambda>_. True) s gp req is =
    Inr (s\<lparr>ci_jobs := ci_jobs s @ map (job gp req) is,
      ci_groups := (ci_groups s)(gp \<mapsto> g\<lparr>cg_pending_task_count := cg_pending_task_count g + of_nat (length is)\<rparr>)\<rparr>)"
  using assms
proof (induction "is" arbitrary: s g)
  case (Cons i "is")
  let ?g = "g\<lparr>cg_pending_task_count := cg_pending_task_count g + 1\<rparr>"
  let ?s = "s\<lparr>ci_jobs := ci_jobs s @ [job gp req i], ci_groups := (ci_groups s)(gp \<mapsto> ?g)\<rparr>"
  have one: "unat (cg_pending_task_count g + 1) = unat (cg_pending_task_count g) + 1"
    using Cons.prems(6) by (simp add: unat_word_ariths)
  then have "cg_pending_task_count g + 1 \<noteq> 0" by (metis add_is_0 one_neq_zero unsigned_0)
  moreover have "request_for ?s gp req"
    using Cons.prems(1,3) request_for_cong [of ?s s] names_upd [of s gp g ?g] by simp
  ultimately have ih: "start_jobs (\<lambda>_. True) ?s gp req is =
      Inr (?s\<lparr>ci_jobs := ci_jobs ?s @ map (job gp req) is,
        ci_groups := (ci_groups ?s)(gp \<mapsto> ?g\<lparr>cg_pending_task_count := cg_pending_task_count ?g + of_nat (length is)\<rparr>)\<rparr>)"
    using Cons.prems one by (intro Cons.IH) simp_all
  have g2: "g\<lparr>cg_pending_task_count := x, cg_state := TASK_EXECUTION_IN_PROGRESS\<rparr> = g\<lparr>cg_pending_task_count := x\<rparr>" for x
    using Cons.prems(4) by simp
  have fill: "fill_thread_args s req i = Inr (job gp req i)" using Cons.prems(1,7) by (intro fill_ok) simp_all
  have "start_jobs (\<lambda>_. True) s gp req (i # is) = start_jobs (\<lambda>_. True) ?s gp req is"
    using Cons.prems(2,3,5) fill by (simp add: Let_def g2 del: start_jobs.simps(1))
  also note ih
  finally show ?case by (rule trans) (simp add: add.assoc, simp add: fun_upd_def)
qed (simp add: fun_upd_idem)

text \<open>An idle member of the group with at most five cached results.\<close>

definition idle_member :: "client_information \<Rightarrow> ptr \<Rightarrow> client_grp_node \<Rightarrow> bool" where
  "idle_member s gp g \<longleftrightarrow> \<not> ci_is_moderator s \<and> ci_moderator_info s = None \<and> ci_groups s gp = Some g \<and> paths_ok g \<and>
     cg_pending_task_count g = 0 \<and> cg_timer_id g = 0"

text \<open>The files of the request that are meant for the client.\<close>

definition my_shares :: "client_information \<Rightarrow> perform_task_req_t \<Rightarrow> nat list" where
  "my_shares s req = filter (\<lambda>i. pt_client_ids req ! i = ci_client_id s) [0..<length (pt_client_ids req)]"

lemma perform_member:
  assumes "request_for s gp req" "idle_member s gp g" "idv (pdu_msg pdu) = Perform_task_req req" "pt_task_reassigned req = 0"
  obtains g1 where "reset_results g = Inr g1" "cg_group_name g1 = cg_group_name g" "cg_pending_task_count g1 = 0"
    "cg_timer_id g1 = 0"
    "handle_perform_task_req spawn s pdu =
      (if length (my_shares s req) > 5 then Inl OutOfBounds
       else if my_shares s req = [] then Inr (s\<lparr>ci_groups := (ci_groups s)(gp \<mapsto> g1\<lparr>cg_state := IDLE\<rparr>)\<rparr>)
       else start_jobs spawn (s\<lparr>ci_groups := (ci_groups s)(gp \<mapsto> g1)\<rparr>) gp req (my_shares s req))"
proof -
  note i = assms(2) [unfolded idle_member_def]
  obtain g1 where g1: "reset_results g = Inr g1" "cg_group_name g1 = cg_group_name g" "cg_pending_task_count g1 = 0" "cg_timer_id g1 = 0"
    using i by (simp add: reset_results_def paths_ok_def)
  obtain nm where nm: "pt_group_name req = Some nm" "get_client_grp_node_by_group_name s nm None = Inr (Some gp)"
    using assms(1) by (auto simp: request_for_def)
  have n: "nat (sint (pt_client_id_count req)) = length (pt_client_ids req)" using assms(1) by (simp add: request_for_def)
  have "handle_perform_task_req spawn s pdu =
      (if length (my_shares s req) > 5 then Inl OutOfBounds
       else if my_shares s req = [] then Inr (s\<lparr>ci_groups := (ci_groups s)(gp \<mapsto> g1\<lparr>cg_state := IDLE\<rparr>)\<rparr>)
       else start_jobs spawn (s\<lparr>ci_groups := (ci_groups s)(gp \<mapsto> g1)\<rparr>) gp req (my_shares s req))"
    using i g1 nm assms(3,4) occurrences_ok [of 0 "length (pt_client_ids req)" "pt_client_ids req" "[]" "ci_client_id s"]
    by (simp add: handle_perform_task_req_def n my_shares_def)
  then show ?thesis using g1 that by blast
qed

text \<open>
  C37: a task request that names an idle member of the group up to five times starts one
  thread for each of its files, with the group, the file, the folder and the task of the
  request, counts them as pending, marks the group as working and starts the recurring
  timer for keepalives to the moderator.
\<close>

theorem task_request_starts_shares:
  assumes "request_for s gp req" "idle_member s gp g" "idv (pdu_msg pdu) = Perform_task_req req" "pt_task_reassigned req = 0"
    "my_shares s req \<noteq> []" "length (my_shares s req) \<le> 5"
  shows "\<exists>s' g'. handle_perform_task_req (\<lambda>_. True) s pdu = Inr s' \<and> ci_groups s' gp = Some g' \<and>
    ci_jobs s' = ci_jobs s @ map (job gp req) (my_shares s req) \<and>
    cg_pending_task_count g' = of_nat (length (my_shares s req)) \<and> cg_state g' = TASK_EXECUTION_IN_PROGRESS \<and>
    cg_timer_id g' = ci_next_timer s \<and>
    ci_timers s' (ci_next_timer s) = Some \<lparr>ct_signal = CLIENT_TIMEOUT, ct_owner = Grp_timer gp, ct_interval = 3, ct_recurring = True\<rparr>"
proof -
  obtain g1 where g1: "cg_group_name g1 = cg_group_name g" "cg_pending_task_count g1 = 0" "cg_timer_id g1 = 0"
      and h: "handle_perform_task_req (\<lambda>_. True) s pdu =
        start_jobs (\<lambda>_. True) (s\<lparr>ci_groups := (ci_groups s)(gp \<mapsto> g1)\<rparr>) gp req (my_shares s req)"
    using perform_member [OF assms(1-4), of "\<lambda>_. True"] assms(5,6) by auto
  obtain i "is" where sh: "my_shares s req = i # is" using assms(5) by (cases "my_shares s req") auto
  have "\<forall>i\<in>set (my_shares s req). i < length (pt_client_ids req)" by (auto simp: my_shares_def)
  then have bounds: "i < length (pt_client_ids req)" "\<forall>i\<in>set is. i < length (pt_client_ids req)" using sh by simp_all
  note i = assms(2) [unfolded idle_member_def]
  let ?s = "s\<lparr>ci_groups := (ci_groups s)(gp \<mapsto> g1)\<rparr>"
  let ?g = "g1\<lparr>cg_timer_id := ci_next_timer s, cg_pending_task_count := 1, cg_state := TASK_EXECUTION_IN_PROGRESS\<rparr>"
  let ?k = "\<lparr>ct_signal = CLIENT_TIMEOUT, ct_owner = Grp_timer gp, ct_interval = 3, ct_recurring = True\<rparr>"
  let ?s1 = "s\<lparr>ci_jobs := ci_jobs s @ [job gp req i], ci_next_timer := ci_next_timer s + 1,
      ci_timers := (ci_timers s)(ci_next_timer s \<mapsto> ?k), ci_groups := (ci_groups s)(gp \<mapsto> ?g)\<rparr>"
  have "request_for ?s gp req" using assms(1) i g1(1) request_for_cong [of ?s s] names_upd [of s gp g g1] by simp
  then have fill: "fill_thread_args ?s req i = Inr (job gp req i)" using bounds(1) by (rule fill_ok)
  have first: "start_jobs (\<lambda>_. True) ?s gp req (i # is) = start_jobs (\<lambda>_. True) ?s1 gp req is"
    using i g1 fill by (simp add: Let_def client_start_timer_def timer_field_def set_timer_field_def)
  have "request_for ?s1 gp req" using assms(1) i g1(1) request_for_cong [of ?s1 s] names_upd [of s gp g ?g] by simp
  moreover have "length is < 5" using assms(6) sh by simp
  ultimately have "start_jobs (\<lambda>_. True) ?s1 gp req is =
    Inr (?s1\<lparr>ci_jobs := ci_jobs ?s1 @ map (job gp req) is,
      ci_groups := (ci_groups ?s1)(gp \<mapsto> ?g\<lparr>cg_pending_task_count := cg_pending_task_count ?g + of_nat (length is)\<rparr>)\<rparr>)"
    using i bounds(2) by (intro start_jobs_working) simp_all
  then show ?thesis unfolding h sh first by simp
qed

text \<open>
  A request that names a client six times or more overflows the array in which the
  client notes its files.
\<close>

theorem six_shares_overflow:
  assumes "request_for s gp req" "idle_member s gp g" "idv (pdu_msg pdu) = Perform_task_req req" "pt_task_reassigned req = 0"
    "5 < length (my_shares s req)"
  shows "handle_perform_task_req spawn s pdu = Inl OutOfBounds"
  using perform_member [OF assms(1-4), of spawn] assms(5) by auto


lemma demo_request_for: "length ids = length fs \<Longrightarrow> length ids < 2 ^ 31 \<Longrightarrow> request_for demo_client 1 (demo_request ids fs)"
  by (auto simp: request_for_def demo_request_def demo_defs get_client_grp_node_by_group_name_def signed_of_nat
      signed_take_bit_int_eq_self)

lemma demo_idle: "idle_member demo_client 1 demo_cgrp"
  by (simp add: idle_member_def paths_ok_def demo_defs)

lemma task_request_starts_shares_witness:
  "\<exists>s' g'. handle_perform_task_req (\<lambda>_. True) demo_client (demo_task_pdu [5, 7] [''a'', ''b'']) = Inr s' \<and> ci_groups s' 1 = Some g' \<and>
    ci_jobs s' = [\<lparr>tk_group = 1, tk_task_filename = ''a'', tk_task_folder_path = ''set1'', tk_task_id = 1, tk_task_type = 1\<rparr>] \<and>
    cg_state g' = TASK_EXECUTION_IN_PROGRESS"
proof -
  have sh: "my_shares demo_client (demo_request [5, 7] [''a'', ''b'']) = [0]"
    by (simp add: my_shares_def demo_request_def demo_defs upt_rec)
  have "\<exists>s' g'. handle_perform_task_req (\<lambda>_. True) demo_client (demo_task_pdu [5, 7] [''a'', ''b'']) = Inr s' \<and> ci_groups s' 1 = Some g' \<and>
    ci_jobs s' = ci_jobs demo_client @ map (job 1 (demo_request [5, 7] [''a'', ''b''])) (my_shares demo_client (demo_request [5, 7] [''a'', ''b''])) \<and>
    cg_pending_task_count g' = of_nat (length (my_shares demo_client (demo_request [5, 7] [''a'', ''b'']))) \<and>
    cg_state g' = TASK_EXECUTION_IN_PROGRESS \<and> cg_timer_id g' = ci_next_timer demo_client \<and>
    ci_timers s' (ci_next_timer demo_client) = Some \<lparr>ct_signal = CLIENT_TIMEOUT, ct_owner = Grp_timer 1, ct_interval = 3, ct_recurring = True\<rparr>"
    by (rule task_request_starts_shares [OF demo_request_for demo_idle])
      (simp_all add: demo_task_pdu_def sh, simp_all add: demo_request_def)
  then show ?thesis
    by (elim exE conjE, intro exI conjI) (assumption, assumption, simp_all add: sh, simp_all add: job_def demo_request_def demo_defs)
qed

lemma six_shares_overflow_witness:
  "handle_perform_task_req (\<lambda>_. True) demo_client (demo_task_pdu [5, 5, 5, 5, 5, 5] [''a'', ''b'', ''c'', ''d'', ''e'', ''f'']) = Inl OutOfBounds"
  by (rule six_shares_overflow [OF demo_request_for [of "[5, 5, 5, 5, 5, 5]" "[''a'', ''b'', ''c'', ''d'', ''e'', ''f'']"] demo_idle])
    (simp_all add: demo_task_pdu_def, simp_all add: my_shares_def demo_request_def demo_defs upt_rec)

section \<open>Performing a share\<close>

text \<open>The message a client sends for a result.\<close>

definition single_rsp :: "u32 \<Rightarrow> string \<Rightarrow> u32 \<Rightarrow> string \<Rightarrow> u32 \<Rightarrow> task_rsp_t" where
  "single_rsp tid g rtype path cid = \<lparr>tr_group_name = Some g, tr_task_id = tid, tr_type = rtype, tr_num_clients = 1,
     tr_client_ids = [cid, 0], tr_result = [Some path], tr_final_resp = Some ''''\<rparr>"

lemma populate_single: "populate_task_rsp tid g rtype path cid =
   Inr \<lparr>msg_id = task_response, idv = Task_rsp (single_rsp tid g rtype path cid)\<rparr>"
  by (simp add: populate_task_rsp_def update_task_rsp_def single_rsp_def upd_at_def)

text \<open>The group when its last share is done and its result cached.\<close>

definition share_done :: "client_grp_node \<Rightarrow> u32 \<Rightarrow> string \<Rightarrow> client_grp_node" where
  "share_done g tid path = g\<lparr>cg_pending_task_count := 0, cg_timer_id := 0, cg_state := TASK_RES_SENT,
     cg_last_task_result_path := (cg_last_task_result_path g)[unat (cg_last_task_file_count g) := Some path],
     cg_last_task_file_count := cg_last_task_file_count g + 1, cg_last_task_id := tid,
     cg_last_task_rsp_type := ucast TYPE_LONG\<rparr>"

text \<open>
  C36: when the file of the last share of a sum task has been fetched, a client that is no
  moderator sends the group's moderator one response with the sum of the numbers in the file,
  deletes the group's timer, marks the result as sent and keeps it for a later moderator.
\<close>

theorem client_executes_sum:
  assumes "ci_groups s (tk_group args) = Some g" "\<not> ci_is_moderator s" "cg_pending_task_count g = 1" "tk_task_type args = 2"
    "fetch_file_from_server run s (tk_task_folder_path args) (tk_task_filename args) (cg_group_name g) =
       Inr (Own d, s\<lparr>ci_commands := cs\<rparr>)"
    "fls d = Some (lines_of ns)" "10 \<le> length ns" "length ns < 2 ^ 31" "\<forall>n\<in>set ns. n < 2 ^ 63"
    "unat (cg_last_task_file_count g) < length (cg_last_task_result_path g)"
  shows "execute_task run can_open fls s args =
    Inr (s\<lparr>ci_commands := cs, ci_timers := (ci_timers s)(cg_timer_id g := None),
      ci_outbox := ci_outbox s @ [(cg_moderator g, \<lparr>msg_id = task_response,
        idv = Task_rsp (single_rsp (tk_task_id args) (cg_group_name g) TYPE_LONG (dec_str (sum_list ns mod 2 ^ 64)) (ci_client_id s))\<rparr>)],
      ci_groups := (ci_groups s)(tk_group args \<mapsto> share_done g (tk_task_id args) (dec_str (sum_list ns mod 2 ^ 64)))\<rparr>, fls)"
proof -
  have "find_sum fls d = Inr (dec_str (sum_list ns mod 2 ^ 64))"
    using sum_of_file_lines [where fls = fls and f = d and ns = ns and sel = "\<lambda>_. True"] assms(6-9) by (simp add: find_sum_def comp_def)
  then have c: "compute_result can_open fls args (cg_group_name g) d = Inr (Some (dec_str (sum_list ns mod 2 ^ 64), TYPE_LONG), fls)"
    using assms(4) by (simp add: compute_result_def)
  show ?thesis
    using assms(1-3,5,10) c
    by (simp add: execute_task_def finish_task_def send_task_results_to_moderator_def populate_single client_send_def
        client_timer_delete_def upd_at_def share_done_def)
qed

definition demo_worker :: client_information where
  "demo_worker = demo_client\<lparr>ci_groups := [1 \<mapsto> demo_cgrp\<lparr>cg_pending_task_count := 1, cg_timer_id := 1,
     cg_state := TASK_EXECUTION_IN_PROGRESS\<rparr>]\<rparr>"

definition demo_job :: task_args where
  "demo_job = \<lparr>tk_group = 1, tk_task_filename = ''a'', tk_task_folder_path = ''set1'', tk_task_id = 1, tk_task_type = 2\<rparr>"

lemma client_executes_sum_witness:
  "\<exists>s'. execute_task (\<lambda>_. True) True (\<lambda>_. Some (lines_of [1, 2, 3, 4, 5, 6, 7, 8, 9, 10])) demo_worker demo_job =
     Inr (s', (\<lambda>_. Some (lines_of [1, 2, 3, 4, 5, 6, 7, 8, 9, 10]))) \<and>
   ci_outbox s' = [(cg_moderator demo_cgrp, \<lparr>msg_id = task_response, idv = Task_rsp (single_rsp 1 ''G1'' TYPE_LONG ''55'' 5)\<rparr>)]"
proof -
  let ?g = "demo_cgrp\<lparr>cg_pending_task_count := 1, cg_timer_id := 1, cg_state := TASK_EXECUTION_IN_PROGRESS\<rparr>"
  let ?ns = "[1, 2, 3, 4, 5, 6, 7, 8, 9, 10] :: nat list"
  have d: "dec_str 55 = ''55''" by (simp add: dec_str.simps digit_def)
  have n: "length (inet_ntoa 9) \<le> 15"
    by (simp add: inet_ntoa_def byte_def dec_str.simps)
  have "\<exists>d cs. fetch_file_from_server (\<lambda>_. True) demo_worker (tk_task_folder_path demo_job) (tk_task_filename demo_job) (cg_group_name ?g) =
      Inr (Own d, demo_worker\<lparr>ci_commands := cs\<rparr>)"
    by (simp add: fetch_file_from_server_def fetch_file_def demo_worker_def demo_job_def demo_defs Let_def) (use n in linarith)
  then obtain dest cs where f: "fetch_file_from_server (\<lambda>_. True) demo_worker (tk_task_folder_path demo_job) (tk_task_filename demo_job)
      (cg_group_name ?g) = Inr (Own dest, demo_worker\<lparr>ci_commands := cs\<rparr>)" by blast
  note e = client_executes_sum [where run = "\<lambda>_. True" and can_open = True and s = demo_worker and args = demo_job and g = ?g
      and ns = ?ns and fls = "\<lambda>_. Some (lines_of ?ns)", OF _ _ _ _ f refl]
  show ?thesis
    by (rule exI, rule conjI, rule e)
      (simp_all add: demo_worker_def demo_job_def demo_defs d)
qed

end
