(* ===== verification/Network.thy ===== *)
theory Network
  imports ServerStart ClientWork CommSafety
begin

text \<open>
  Server and client joined by datagrams: what one side sends is what the other's handler
  gets, and the start of a client that joins its groups through the server.
\<close>

section \<open>Transport\<close>

text \<open>
  What the handlers rely on: a valid message that is encoded and decoded again arrives as
  it was, with the sender's address.
\<close>

locale transport =
  fixes encode :: "'m \<Rightarrow> 'b result" and decode :: "'b \<Rightarrow> 'a \<Rightarrow> ('m \<times> 'a) result"
    and valid :: "'m \<Rightarrow> bool" and plain :: "'a \<Rightarrow> bool"
  assumes delivers: "valid m \<Longrightarrow> plain a \<Longrightarrow> \<exists>b. encode m = Inr b \<and> decode b a = Inr (m, a)"
begin

lemma encode_total: "valid m \<Longrightarrow> plain a \<Longrightarrow> \<exists>b. encode m = Inr b"
  using delivers by blast

lemma relay: "valid m \<Longrightarrow> plain a \<Longrightarrow> bindE (encode m) (\<lambda>b. bindE (decode b a) f) = f (m, a)"
  using delivers [of m a] by auto

lemma encode_inj: "valid m \<Longrightarrow> valid m' \<Longrightarrow> plain a \<Longrightarrow> encode m = encode m' \<Longrightarrow> m = m'"
  using delivers by (metis prod.inject sum.inject(2))

end

text \<open>
  The datagram of a message, and what the receiver makes of it with its \<open>pdu\<close> structure;
  the address bytes of the sender are copied up to their first NUL.
\<close>

definition send_bytes :: "comm_struct_t \<Rightarrow> u8 list result" where
  "send_bytes m = write_record \<lparr>peer_addr = \<lparr>sa_family = 0, sa_data = []\<rparr>, pdu_msg = m\<rparr>"

definition receive_bytes :: "pdu_t \<Rightarrow> u8 list \<Rightarrow> sockaddr \<Rightarrow> (comm_struct_t \<times> sockaddr) result" where
  "receive_bytes pdu0 buf a = bindE (read_record buf a pdu0) (\<lambda>(_, pdu). Inr (pdu_msg pdu, peer_addr pdu))"

text \<open>An address that the copy up to its first NUL leaves as it was.\<close>

definition plain_addr :: "pdu_t \<Rightarrow> sockaddr \<Rightarrow> bool" where
  "plain_addr pdu0 a \<longleftrightarrow> strcpy_bytes (sa_data (peer_addr pdu0)) (sa_data a) = Inr (sa_data a)"

interpretation datagrams: transport send_bytes "receive_bytes pdu0" msg_ok "plain_addr pdu0" for pdu0
proof unfold_locales
  fix m a assume m: "msg_ok m" and a: "plain_addr pdu0 a"
  obtain buf where "write_record \<lparr>peer_addr = \<lparr>sa_family = 0, sa_data = []\<rparr>, pdu_msg = m\<rparr> = Inr buf"
      "read_record buf a pdu0 = Inr (msg_id m, \<lparr>peer_addr = \<lparr>sa_family = sa_family a, sa_data = sa_data a\<rparr>, pdu_msg = m\<rparr>)"
    using record_delivered [of "\<lparr>peer_addr = \<lparr>sa_family = 0, sa_data = []\<rparr>, pdu_msg = m\<rparr>" pdu0 a "sa_data a"] m a
    by (auto simp: plain_addr_def)
  then show "\<exists>b. send_bytes m = Inr b \<and> receive_bytes pdu0 b a = Inr (m, a)"
    by (simp add: send_bytes_def receive_bytes_def)
qed

text \<open>The main loops' treatment of a datagram: read, find the handler, run it.\<close>

definition serve_datagram :: "pdu_t \<Rightarrow> server_info \<Rightarrow> u8 list \<Rightarrow> sockaddr \<Rightarrow> server_info result option" where
  "serve_datagram pdu0 s buf a =
     (case receive_bytes pdu0 buf a of
        Inl e \<Rightarrow> Some (Inl e)
      | Inr (m, b) \<Rightarrow> serve s \<lparr>peer_addr = b, pdu_msg = m\<rparr>)"

definition client_datagram :: "client_env \<Rightarrow> pdu_t \<Rightarrow> client_information \<Rightarrow> u8 list \<Rightarrow> sockaddr \<Rightarrow> client_information result option" where
  "client_datagram e pdu0 c buf a =
     (case receive_bytes pdu0 buf a of
        Inl f \<Rightarrow> Some (Inl f)
      | Inr (m, b) \<Rightarrow> client_serve e c \<lparr>peer_addr = b, pdu_msg = m\<rparr>)"

lemma datagram_ok:
  assumes "msg_ok m" "plain_addr pdu0 a"
  obtains buf where "send_bytes m = Inr buf" "serve_datagram pdu0 s buf a = serve s \<lparr>peer_addr = a, pdu_msg = m\<rparr>"
    "client_datagram e pdu0 c buf a = client_serve e c \<lparr>peer_addr = a, pdu_msg = m\<rparr>"
  using datagrams.delivers [of m pdu0 a] assms that by (auto simp: serve_datagram_def client_datagram_def)

section \<open>The response to a join request\<close>

text \<open>The group a client makes of an entry.\<close>

definition entry_addr :: "l_saddr_in_t \<Rightarrow> sockaddr_in" where
  "entry_addr e = \<lparr>sin_family = ls_sin_family e, sin_port = ls_sin_port e, s_addr = ucast (ls_s_addr e)\<rparr>"

definition joined_node :: "client_env \<Rightarrow> l_saddr_in_t \<Rightarrow> client_grp_node" where
  "joined_node env e = blank_client_grp\<lparr>cg_group_name := the (ls_group_name e), cg_group_addr := entry_addr e,
     cg_group_port := ls_grp_port e, cg_mcast_fd := of_int (env_mjoin env (entry_addr e) (ls_grp_port e)),
     cg_state := MOD_INFO_AWAITED\<rparr>"

definition joins :: "client_env \<Rightarrow> l_saddr_in_t \<Rightarrow> bool" where
  "joins env e \<longleftrightarrow> ls_cause e = ACCEPTED \<and> (\<exists>nm. ls_group_name e = Some nm \<and> length nm < GROUP_NAME_SIZE) \<and>
     0 < env_mjoin env (entry_addr e) (ls_grp_port e) \<and> env_epoll env (env_mjoin env (entry_addr e) (ls_grp_port e))"

text \<open>The client when it has joined the groups of the entries.\<close>

definition joined_all :: "client_env \<Rightarrow> client_information \<Rightarrow> l_saddr_in_t list \<Rightarrow> client_information" where
  "joined_all env c es = c\<lparr>ci_next_ptr := ci_next_ptr c + length es,
     ci_client_grp_list := rev [ci_next_ptr c..<ci_next_ptr c + length es] @ ci_client_grp_list c,
     ci_groups := placed (ci_next_ptr c) (map (joined_node env) es) (ci_groups c)\<rparr>"

lemma joined_all_Cons:
  "joined_all env (c\<lparr>ci_next_ptr := ci_next_ptr c + 1, ci_client_grp_list := ci_next_ptr c # ci_client_grp_list c,
      ci_groups := (ci_groups c)(ci_next_ptr c \<mapsto> joined_node env e)\<rparr>) es = joined_all env c (e # es)"
  using rev_upt_Cons [of "ci_next_ptr c" e es] by (simp add: joined_all_def placed_Cons)

lemma join_rsp_accepts:
  "\<forall>e\<in>set es. joins env e \<Longrightarrow> join_rsp_loop (env_mjoin env) (env_epoll env) c es (length es) = Inr (joined_all env c es)"
proof (induction es arbitrary: c)
  case (Cons e es)
  let ?c1 = "c\<lparr>ci_next_ptr := ci_next_ptr c + 1, ci_client_grp_list := ci_next_ptr c # ci_client_grp_list c,
      ci_groups := (ci_groups c)(ci_next_ptr c \<mapsto> joined_node env e)\<rparr>"
  have j: "joins env e" using Cons.prems by simp
  then obtain nm where nm: "ls_group_name e = Some nm" "length nm < GROUP_NAME_SIZE" by (auto simp: joins_def)
  have "join_rsp_loop (env_mjoin env) (env_epoll env) c (e # es) (length (e # es)) =
      join_rsp_loop (env_mjoin env) (env_epoll env) ?c1 es (length es)"
    using j nm
    by (simp add: joins_def entry_addr_def joined_node_def copy_name10_def ADD_CLIENT_IN_LL_def allocate_client_grp_node_def Let_def)
  also have "\<dots> = Inr (joined_all env ?c1 es)" using Cons.prems by (intro Cons.IH) simp
  finally show ?case by (simp only: joined_all_Cons)
qed (simp add: joined_all_def)

section \<open>Joining\<close>

text \<open>The names a client may ask for: they fit its groups and are C strings.\<close>

definition names_sound :: "string list \<Rightarrow> bool" where
  "names_sound nms \<longleftrightarrow> length nms < 256 \<and> (\<forall>nm\<in>set nms. length nm < GROUP_NAME_SIZE \<and> CHR 0x00 \<notin> set nm)"

lemma copy_gnames_ok: "\<forall>nm\<in>set nms. length nm < max_gname_len \<Longrightarrow> copy_gnames nms (length nms) = Inr (map Some nms)"
  by (induction nms) (simp_all add: copy_gname_def)

text \<open>The request of a client that starts.\<close>

definition join_msg :: "string list \<Rightarrow> u32 \<Rightarrow> comm_struct_t" where
  "join_msg nms cap = \<lparr>msg_id = join_request,
     idv = Join_req \<lparr>jq_num_groups = of_nat (length nms), jq_group_ids = map Some nms, jq_capability = cap\<rparr>\<rparr>"

lemma client_start_asks:
  assumes "client_start junk me cap srv names now = Inr c" "names_sound (group_tokens names)"
  shows "ci_outbox c = [(of_in srv, join_msg (group_tokens names) cap)]" "ci_groups c = Map.empty" "ci_client_grp_list c = []"
    "ci_next_ptr c = 1" "ci_is_moderator c = junk" "ci_client_id c = me"
proof -
  have "\<forall>nm\<in>set (group_tokens names). length nm < max_gname_len" using assms(2) by (auto simp: names_sound_def)
  then have "populate_join_req (group_tokens names) (length (group_tokens names)) cap = Inr (join_msg (group_tokens names) cap)"
    by (simp add: populate_join_req_def copy_gnames_ok join_msg_def)
  then show "ci_outbox c = [(of_in srv, join_msg (group_tokens names) cap)]" "ci_groups c = Map.empty" "ci_client_grp_list c = []"
    "ci_next_ptr c = 1" "ci_is_moderator c = junk" "ci_client_id c = me"
    using assms(1)
    by (auto simp: client_start_def Let_def client_send_def allocate_client_info_def allocate_client_grp_list_def split: if_splits)
qed

lemma join_msg_ok: "names_sound nms \<Longrightarrow> msg_ok (join_msg nms cap)"
  by (auto simp: names_sound_def join_msg_def msg_ok_def join_req_ok_def arr_ok_def str_ok_def)

lemma addr_32_64 [simp]: "(ucast (ucast (w :: u32) :: u64) :: u32) = w"
  by (rule bit_word_eqI) (auto simp: bit_simps)

lemma entry_ok_saddr: "length nm < GROUP_NAME_SIZE \<Longrightarrow> CHR 0x00 \<notin> set nm \<Longrightarrow> saddr_ok (accepted_entry s nm gp)"
  by (simp add: accepted_entry_def Let_def saddr_ok_def str_ok_def)

text \<open>The answer that accepts all groups.\<close>

definition accept_msg :: "server_info \<Rightarrow> string list \<Rightarrow> ptr list \<Rightarrow> comm_struct_t" where
  "accept_msg s nms gps = \<lparr>msg_id = join_response, idv = Join_rsp \<lparr>jr_num_groups = of_nat (length nms),
     jr_group_ips = map (\<lambda>j. accepted_entry s (nms ! j) (gps ! j)) [0..<length nms]\<rparr>\<rparr>"

lemma accept_msg_ok: "names_sound nms \<Longrightarrow> msg_ok (accept_msg s nms gps)"
  by (auto simp: names_sound_def accept_msg_def msg_ok_def join_rsp_ok_def arr_ok_def intro!: entry_ok_saddr)

lemma client_serves_accept:
  assumes "names_sound nms" "\<forall>j<length nms. joins e (accepted_entry s (nms ! j) (gps ! j))"
  shows "client_serve e c \<lparr>peer_addr = a, pdu_msg = accept_msg s nms gps\<rparr> =
    Some (Inr (mask_client_signals (joined_all e (mask_client_signals c True)
      (map (\<lambda>j. accepted_entry s (nms ! j) (gps ! j)) [0..<length nms])) False))"
proof -
  let ?es = "map (\<lambda>j. accepted_entry s (nms ! j) (gps ! j)) [0..<length nms]"
  have "unat (of_nat (length nms) :: u32) = length ?es" using assms(1) by (simp add: names_sound_def unat_of_nat)
  moreover have "join_rsp_loop (env_mjoin e) (env_epoll e) (mask_client_signals c True) ?es (length ?es) =
      Inr (joined_all e (mask_client_signals c True) ?es)"
    using assms(2) by (intro join_rsp_accepts) auto
  ultimately show ?thesis
    by (simp add: client_serve_def client_func_handler_def run_client_handler_def handle_join_response_def accept_msg_def Let_def)
qed

text \<open>
  C2: a client that starts with the names of known groups sends one datagram, the server
  answers it with one, and after both the server has the client in exactly these groups
  while the client lists them with the server's addresses and ports, waiting for a
  moderator; the server's two views of membership agree.
\<close>

theorem join_handshake:
  assumes "client_start junk me cap srv names now = Inr c" "nms = group_tokens names" "names_sound nms"
    "length gps = length nms" "distinct gps" "k = calc_key (Some ca)" "k \<noteq> 0"
    "plain_addr pdu0 ca" "\<exists>d. strcpy_bytes (replicate 14 0) (sa_data ca) = Inr d" "plain_addr pdu1 sa"
    "consistent s" "\<forall>j<length nms. joinable s k (nms ! j) (gps ! j)" "\<forall>r. client_RBT s k = Some r \<longrightarrow> rbc_capability r = cap"
    "\<forall>j<length nms. joins e (accepted_entry s (nms ! j) (gps ! j))"
  shows "\<exists>buf s' buf' c'. send_bytes (snd (last (ci_outbox c))) = Inr buf \<and> serve_datagram pdu0 s buf ca = Some (Inr s') \<and>
    fst (last (outbox s')) = ca \<and> send_bytes (snd (last (outbox s'))) = Inr buf' \<and> client_datagram e pdu1 c buf' sa = Some (Inr c') \<and>
    consistent s' \<and>
    (\<forall>p g. groups s p = Some g \<longrightarrow> (\<exists>g'. groups s' p = Some g' \<and> cids s' g' = (if p \<in> set gps then k # cids s g else cids s g))) \<and>
    ci_client_grp_list c' = rev [1..<1 + length nms] \<and>
    (\<forall>j<length nms. \<exists>g. groups s (gps ! j) = Some g \<and> ci_groups c' (1 + j) = Some (blank_client_grp\<lparr>cg_group_name := nms ! j,
        cg_group_addr := grp_mcast_addr g, cg_group_port := group_port g,
        cg_mcast_fd := of_int (env_mjoin e (grp_mcast_addr g) (group_port g)), cg_state := MOD_INFO_AWAITED\<rparr>))"
proof -
  note c = client_start_asks [OF assms(1), folded assms(2), OF assms(3)]
  obtain buf where buf: "send_bytes (join_msg nms cap) = Inr buf"
      "serve_datagram pdu0 s buf ca = serve s \<lparr>peer_addr = ca, pdu_msg = join_msg nms cap\<rparr>"
    by (rule datagram_ok [OF join_msg_ok [OF assms(3), of cap] assms(8)])
  let ?req = "\<lparr>jq_num_groups = of_nat (length nms), jq_group_ids = map Some nms, jq_capability = cap\<rparr>"
  have "length nms < 256" using assms(3) by (simp add: names_sound_def)
  from join_req_accepted [OF this _ _ refl assms(4-7,9,11,12), of ?req] assms(13)
  obtain s' where s': "handle_join_req s ca ?req = Some (Inr s')" "consistent s'"
      "\<forall>p g. groups s p = Some g \<longrightarrow> (\<exists>g'. groups s' p = Some g' \<and> cids s' g' = (if p \<in> set gps then k # cids s g else cids s g))"
      "last (outbox s') = (ca, accept_msg s nms gps)"
    by (auto simp: accept_msg_def)
  have serve: "serve s \<lparr>peer_addr = ca, pdu_msg = join_msg nms cap\<rparr> = Some (Inr s')"
    using s'(1) by (simp add: serve_def server_func_handler_def run_handler_def join_msg_def)
  obtain buf' where buf': "send_bytes (accept_msg s nms gps) = Inr buf'"
      "client_datagram e pdu1 c buf' sa = client_serve e c \<lparr>peer_addr = sa, pdu_msg = accept_msg s nms gps\<rparr>"
    by (rule datagram_ok [OF accept_msg_ok [OF assms(3)] assms(10)])
  let ?f = "\<lambda>j. joined_node e (accepted_entry s (nms ! j) (gps ! j))"
  have "\<exists>g. groups s (gps ! j) = Some g \<and> ?f j = blank_client_grp\<lparr>cg_group_name := nms ! j,
        cg_group_addr := grp_mcast_addr g, cg_group_port := group_port g,
        cg_mcast_fd := of_int (env_mjoin e (grp_mcast_addr g) (group_port g)), cg_state := MOD_INFO_AWAITED\<rparr>"
    if j: "j < length nms" for j
  proof -
    obtain g where g: "groups s (gps ! j) = Some g" using assms(12) j by (auto simp: joinable_def)
    have "entry_addr (accepted_entry s (nms ! j) (gps ! j)) = grp_mcast_addr g"
      using g by (simp add: accepted_entry_def Let_def entry_addr_def)
    then show ?thesis using g by (simp add: joined_node_def accepted_entry_def Let_def)
  qed
  moreover have "placed 1 (map ?f [0..<length nms]) h (1 + j) = Some (?f j)" if "j < length nms" for h j
    using placed_nth [of j "map ?f [0..<length nms]" 1 h] that by simp
  ultimately show ?thesis
    using buf serve s' buf' client_serves_accept [OF assms(3,14), of c sa] c
    by (auto simp: joined_all_def mask_client_signals_def comp_def)
qed


definition blank_pdu :: pdu_t where
  "blank_pdu = \<lparr>peer_addr = \<lparr>sa_family = 0, sa_data = replicate 14 0\<rparr>,
     pdu_msg = \<lparr>msg_id = unknown_msg, idv = New_server_notify \<lparr>ns_new_server_id = 0\<rparr>\<rparr>\<rparr>"

definition plain_peer :: sockaddr where
  "plain_peer = of_in \<lparr>sin_family = AF_INET, sin_port = 0x5050, s_addr = 5\<rparr>"

lemma plain_peer_simps [simp]: "calc_key (Some plain_peer) = 5" "plain_addr blank_pdu plain_peer"
  "\<exists>d. strcpy_bytes (replicate 14 0) (sa_data plain_peer) = Inr d"
proof -
  have r: "replicate 14 (0 :: u8) = [0, 0, 0, 0, 0, 0, 0, 0, 0, 0, 0, 0, 0, 0]" "replicate 8 (0 :: u8) = [0, 0, 0, 0, 0, 0, 0, 0]"
    by (simp_all add: numeral_eq_Suc)
  show "calc_key (Some plain_peer) = 5" by (simp add: plain_peer_def calc_key_of_in)
  show "plain_addr blank_pdu plain_peer" "\<exists>d. strcpy_bytes (replicate 14 0) (sa_data plain_peer) = Inr d"
    by (simp_all add: plain_peer_def plain_addr_def blank_pdu_def of_in_def byte_def r)
qed

lemma join_handshake_witness:
  "\<exists>c buf s' buf' c'. client_start False 5 7 \<lparr>sin_family = AF_INET, sin_port = 80, s_addr = 9\<rparr> ''G1'' ''t'' = Inr c \<and>
    send_bytes (snd (last (ci_outbox c))) = Inr buf \<and> serve_datagram blank_pdu demo_server buf plain_peer = Some (Inr s') \<and>
    send_bytes (snd (last (outbox s'))) = Inr buf' \<and> client_datagram demo_env blank_pdu c buf' plain_peer = Some (Inr c') \<and>
    ci_client_grp_list c' = [1] \<and> map_option cg_group_name (ci_groups c' 1) = Some ''G1''"
proof -
  let ?srv = "\<lparr>sin_family = AF_INET, sin_port = 80, s_addr = 9\<rparr>"
  have tok: "group_tokens ''G1'' = [''G1'']" by (simp add: group_tokens.simps)
  then have "\<exists>c. client_start False 5 7 ?srv ''G1'' ''t'' = Inr c"
    by (simp add: client_start_def Let_def populate_join_req_def copy_gname_def)
  then obtain c where c: "client_start False 5 7 ?srv ''G1'' ''t'' = Inr c" by blast
  have "\<exists>buf s' buf' c'. send_bytes (snd (last (ci_outbox c))) = Inr buf \<and> serve_datagram blank_pdu demo_server buf plain_peer = Some (Inr s') \<and>
    fst (last (outbox s')) = plain_peer \<and> send_bytes (snd (last (outbox s'))) = Inr buf' \<and>
    client_datagram demo_env blank_pdu c buf' plain_peer = Some (Inr c') \<and> consistent s' \<and>
    (\<forall>p g. groups demo_server p = Some g \<longrightarrow> (\<exists>g'. groups s' p = Some g' \<and>
       cids s' g' = (if p \<in> set [1] then 5 # cids demo_server g else cids demo_server g))) \<and>
    ci_client_grp_list c' = rev [1..<1 + length [''G1'']] \<and>
    (\<forall>j<length [''G1'']. \<exists>g. groups demo_server ([1] ! j) = Some g \<and> ci_groups c' (1 + j) = Some (blank_client_grp\<lparr>cg_group_name := [''G1''] ! j,
        cg_group_addr := grp_mcast_addr g, cg_group_port := group_port g,
        cg_mcast_fd := of_int (env_mjoin demo_env (grp_mcast_addr g) (group_port g)), cg_state := MOD_INFO_AWAITED\<rparr>))"
    by (rule join_handshake [OF c tok [symmetric]])
      (simp_all add: names_sound_def joins_def demo_env_def accepted_entry_def Let_def)
  then show ?thesis using c by (elim exE conjE, intro exI conjI) (assumption, assumption, assumption, assumption, assumption, simp, force)
qed

end
