(* ===== verification/SumTask.thy ===== *)
theory SumTask
  imports Network TaskStart
begin

text \<open>
  A sum task from the server to the clients and back: the pieces of the task file, the sums
  the clients compute of them and the moderator's result.
\<close>

section \<open>Pieces of a file of numbers\<close>

lemma newlines_line_of [simp]: "newlines (line_of n) = 1"
proof -
  have "newlines (map char_u8 w) = 0" if "\<forall>c\<in>set w. \<exists>d. c = digit d" for w
    using that by (induction w) auto
  then show ?thesis using dec_str_digits by (simp add: line_of_def)
qed

lemma newlines_lines_of [simp]: "newlines (lines_of ns) = length ns"
  by (induction ns) simp_all

lemma lines_of_eq_Nil [simp]: "lines_of ns = [] \<longleftrightarrow> ns = []"
  by (cases ns) (simp_all add: line_of_def)

lemma last_lines_of: "ns \<noteq> [] \<Longrightarrow> last (lines_of ns) = 10"
  by (induction ns) (auto simp: line_of_def)

text \<open>A piece that ends with a line holds whole numbers.\<close>

lemma split_lines:
  assumes "p @ q = lines_of ns" "p = [] \<or> last p = 10"
  shows "\<exists>ns1 ns2. ns = ns1 @ ns2 \<and> p = lines_of ns1 \<and> q = lines_of ns2"
  using assms
proof (induction ns arbitrary: p)
  case (Cons n ns)
  show ?case
  proof (cases "p = []")
    case True
    then show ?thesis using Cons.prems(1) by (intro exI [of _ "[]"] exI [of _ "n # ns"]) simp
  next
    case False
    define ds where "ds = map char_u8 (dec_str n)"
    have line: "line_of n = ds @ [10]" by (simp add: line_of_def ds_def)
    have "10 \<notin> set ds" using dec_str_digits [of _ n] by (force simp: ds_def)
    moreover have "10 \<in> set p" using False Cons.prems(2) last_in_set by fastforce
    moreover have e: "p @ q = ds @ 10 # lines_of ns" using Cons.prems(1) line by simp
    ultimately obtain p' where p': "p = ds @ 10 # p'"
      by (auto simp: append_eq_append_conv2 Cons_eq_append_conv append_eq_Cons_conv)
    then have "p' @ q = lines_of ns" "p' = [] \<or> last p' = 10" using e Cons.prems(2) by (auto split: if_splits)
    from Cons.IH [OF this] obtain ns1 ns2 where "ns = ns1 @ ns2" "p' = lines_of ns1" "q = lines_of ns2" by blast
    then show ?thesis using p' line by (intro exI [of _ "n # ns1"] exI [of _ ns2]) simp
  qed
qed simp

lemma pieces_of_lines:
  assumes "concat ps = lines_of ns" "\<forall>p\<in>set ps. last p = 10 \<or> p = []"
  shows "\<exists>nss. ps = map lines_of nss \<and> concat nss = ns"
  using assms
proof (induction ps arbitrary: ns)
  case Nil
  then have "ns = []" by (metis concat.simps(1) lines_of_eq_Nil)
  then show ?case by simp
next
  case (Cons p ps)
  then obtain ns1 ns2 where "ns = ns1 @ ns2" "p = lines_of ns1" "concat ps = lines_of ns2"
    using split_lines [of p "concat ps" ns] by auto
  moreover from this obtain nss where "ps = map lines_of nss" "concat nss = ns2" using Cons by fastforce
  ultimately show ?case by (intro exI [of _ "ns1 # nss"]) simp
qed

text \<open>The numbers of each client.\<close>

lemma numbers_of_clients:
  assumes "concat (map h ids) = lines_of ns" "\<forall>c\<in>set ids. last (h c) = 10" "distinct ids"
  obtains f where "\<forall>c\<in>set ids. h c = lines_of (f c)" "concat (map f ids) = ns"
proof -
  obtain nss where nss: "map h ids = map lines_of nss" "concat nss = ns"
    using pieces_of_lines [of "map h ids" ns] assms(1,2) by auto
  have len: "length ids = length nss" using nss(1) by (rule map_eq_imp_length_eq)
  define f where "f c = the (map_of (zip ids nss) c)" for c
  have f: "f (ids ! i) = nss ! i" if "i < length ids" for i
    using that len assms(3) by (simp add: f_def map_of_zip_nth)
  have "map f ids = nss" by (rule nth_equalityI) (use len f in auto)
  moreover have "h c = lines_of (f c)" if c: "c \<in> set ids" for c
  proof -
    obtain i where "i < length ids" "c = ids ! i" using c by (auto simp: in_set_conv_nth)
    then show ?thesis using f len arg_cong [OF nss(1), of "\<lambda>l. l ! i"] by simp
  qed
  ultimately show ?thesis using nss(2) that by blast
qed

lemma choose_results: "\<forall>x\<in>set xs. \<exists>y. P x y \<Longrightarrow> \<exists>ys. list_all2 P xs ys"
proof (induction xs)
  case (Cons x xs)
  then obtain y ys where "P x y" "list_all2 P xs ys" by auto
  then show ?case by (intro exI [of _ "y # ys"]) simp
qed (rule exI [of _ "[]"], simp)

lemma member_sum_le: "c \<in> set cs \<Longrightarrow> sum_list (f c) \<le> sum_list (concat (map f cs))" for f :: "'a \<Rightarrow> nat list"
  by (induction cs) auto

lemma sum_concat_set: "distinct cs \<Longrightarrow> sum_list (concat (map f cs)) = (\<Sum>c\<in>set cs. sum_list (f c))" for f :: "'a \<Rightarrow> nat list"
  by (induction cs) simp_all

section \<open>The whole task\<close>

text \<open>
  A response holds the sum the client has found in a copy of its file: the copies of the
  transfer tool are taken to have the contents of the original.
\<close>

definition answers_share :: "(string \<rightharpoonup> u8 list) \<Rightarrow> (u32 \<Rightarrow> string) \<Rightarrow> string \<Rightarrow> task_rsp_t \<times> u32 \<Rightarrow> bool" where
  "answers_share fs path g r \<longleftrightarrow> (\<exists>fls d str. fls d = fs (path (snd r)) \<and> find_sum fls d = Inr str \<and> result_for g (fst r) str)"

text \<open>The numbers of the clients, from the pieces of the files.\<close>

lemma shares_of_pieces:
  assumes "concat (map (\<lambda>cl. the (fs (path cl))) ids) = lines_of ns"
    "\<forall>i<length ids. piece_of fs (path (ids ! i)) (pl i)" "\<forall>i<length ids. 10 \<le> pl i" "distinct ids"
  obtains f where "\<forall>cl\<in>set ids. fs (path cl) = Some (lines_of (f cl)) \<and> 10 \<le> length (f cl)" "concat (map f ids) = ns"
proof -
  have piece: "\<exists>b. fs (path cl) = Some b \<and> 10 \<le> newlines b \<and> last b = 10" if cl: "cl \<in> set ids" for cl
  proof -
    obtain i where i: "i < length ids" "cl = ids ! i" using cl by (auto simp: in_set_conv_nth)
    then have "piece_of fs (path cl) (pl i)" using assms(2) by simp
    then show ?thesis using assms(3) i(1) by (auto simp: piece_of_def)
  qed
  have "\<forall>cl\<in>set ids. last (the (fs (path cl))) = 10"
  proof
    fix cl assume "cl \<in> set ids"
    then obtain b where "fs (path cl) = Some b" "last b = 10" using piece by blast
    then show "last (the (fs (path cl))) = 10" by simp
  qed
  from numbers_of_clients [OF assms(1) this assms(4)]
  obtain f where f: "\<forall>cl\<in>set ids. the (fs (path cl)) = lines_of (f cl)" "concat (map f ids) = ns" by metis
  have "fs (path cl) = Some (lines_of (f cl)) \<and> 10 \<le> length (f cl)" if cl: "cl \<in> set ids" for cl
  proof -
    obtain b where b: "fs (path cl) = Some b" "10 \<le> newlines b" using piece [OF cl] by blast
    have "b = lines_of (f cl)" using b(1) f(1) cl by force
    then show ?thesis using b by simp
  qed
  then show ?thesis using f(2) that by blast
qed

lemma share_bounds:
  fixes ns :: "nat list"
  assumes "concat (map f ids) = ns" "length ns < 2 ^ 31" "sum_list ns < 2 ^ 63" "k \<in> set ids"
  shows "length (f k) < 2 ^ 31" "\<forall>n\<in>set (f k). n < 2 ^ 63" "sum_list (f k) < 2 ^ 63"
proof -
  have "length (f k) \<le> length (concat (map f ids))" using assms(4) by (induction ids) auto
  then show "length (f k) < 2 ^ 31" using assms(1,2) by simp
  show sm: "sum_list (f k) < 2 ^ 63" using member_sum_le [OF assms(4), of f] assms(1,3) by simp
  show "\<forall>n\<in>set (f k). n < 2 ^ 63" using sm by (auto dest: member_le_sum_list)
qed

lemma answers_summed:
  assumes "\<forall>cl\<in>set ids. fs (path cl) = Some (lines_of (f cl)) \<and> 10 \<le> length (f cl)" "concat (map f ids) = ns"
    "length ns < 2 ^ 31" "sum_list ns < 2 ^ 63" "set (map snd rs) \<subseteq> set ids" "\<forall>r\<in>set rs. answers_share fs path gn r"
  obtains strs where "list_all2 (\<lambda>(t, _) str. result_for gn t str) rs strs" "list_all2 share_summed (map f (map snd rs)) strs"
proof -
  have "\<exists>str. result_for gn (fst r) str \<and> share_summed (f (snd r)) str" if r: "r \<in> set rs" for r
  proof -
    have cl: "snd r \<in> set ids" using r assms(5) by auto
    have "answers_share fs path gn r" using assms(6) r by blast
    then obtain fls d str where str: "fls d = fs (path (snd r))" "find_sum fls d = Inr str" "result_for gn (fst r) str"
      unfolding answers_share_def by blast
    have "fls d = Some (lines_of (f (snd r)))" "10 \<le> length (f (snd r))" using str(1) assms(1) cl by simp_all
    then have "share_summed (f (snd r)) str"
      unfolding share_summed_def using str(2) share_bounds [OF assms(2-4) cl] by blast
    then show ?thesis using str(3) by blast
  qed
  then obtain strs where "list_all2 (\<lambda>r str. result_for gn (fst r) str \<and> share_summed (f (snd r)) str) rs strs"
    using choose_results [of rs "\<lambda>r str. result_for gn (fst r) str \<and> share_summed (f (snd r)) str"] by blast
  then have "list_all2 (\<lambda>(t, _) str. result_for gn t str) rs strs" "list_all2 share_summed (map f (map snd rs)) strs"
    by (auto simp: list_all2_conv_all_nth split: prod.splits)
  then show ?thesis by (rule that)
qed

text \<open>
  C1: the server splits a file of numbers among the clients of a group; when every client
  has answered its moderator with the sum of its file, in any order, the moderator sends the
  server the sum of all numbers of the task file.  Every client must get at least ten
  numbers and the sum must stay below 2 to the 63.
\<close>

theorem sum_task_end_to_end:
  assumes "groups s gp = Some g" "timer_id g = 0" "task_set_filename g = Own fname" "files s fname = Some (lines_of ns)"
    "task_set_format g = 0" "length (lines_of ns) < 2 ^ 31" "length (group_name g) < 79"
    "idv (pdu_msg pdu) = Moderator_notify_rsp rsp" "nr_client_ids rsp = ids" "nr_client_id_count rsp = of_nat (length ids)"
    "ids \<noteq> []" "distinct ids" "length ids < length ns" "\<forall>cl\<in>set ids. client_RBT s cl \<noteq> None"
    "sum_list (map (unat \<circ> cap_of s) ids) * length ns < 2 ^ 32"
    "\<forall>i<length ids. 0 < share (map (cap_of s) ids) (length ns) i"
    "\<forall>i<length ids. 10 \<le> piece_lines (map (cap_of s) ids) (length ns) i"
    "sum_list ns < 2 ^ 63" "length ids \<le> 255"
    "ci_moderator_info c = Some m" "mi_expected_responses m = int (length rs)" "mi_moderator_resp_msg m = None"
    "waiting_for c m (map snd rs)" "set (map snd rs) = set ids"
    "mcast_start_task_distribution s gp pdu = Inr s'"
    "\<forall>r\<in>set rs. answers_share (files s') (client_path (''/tmp/server/task_set/'' @ group_name g) (stamp s)) (group_name g) r"
  shows "\<exists>c' t. collect run c rs = Inr c' \<and> last (ci_outbox c') = (of_in (ci_server c), \<lparr>msg_id = task_response, idv = Task_rsp t\<rparr>) \<and>
    tr_final_resp t = Some (dec_str (sum_list ns)) \<and> tr_num_clients t = of_nat (length ids) \<and> tr_group_name t = Some (group_name g)"
proof -
  let ?path = "client_path (''/tmp/server/task_set/'' @ group_name g) (stamp s)"
  have ne: "ns \<noteq> []" using assms(13) by auto
  have nl: "newlines (lines_of ns) = length ns" by simp
  obtain fs where fs: "mcast_start_task_distribution s gp pdu = Inr (started s gp g ids (task_entries s ids) fs)"
      "divided s g (lines_of ns) ids fs"
    by (rule task_distribution_run [OF assms(1-5) last_lines_of [OF ne] assms(6-12), unfolded nl, OF assms(13-16)])
  have "files s' = fs" using fs(1) assms(25) by simp
  then have "concat (map (\<lambda>cl. the (files s' (?path cl))) ids) = lines_of ns"
      "\<forall>i<length ids. piece_of (files s') (?path (ids ! i)) (piece_lines (map (cap_of s) ids) (length ns) i)"
    using fs(2) by (simp_all add: divided_def)
  from this assms(17,12) obtain f where
    f: "\<forall>cl\<in>set ids. files s' (?path cl) = Some (lines_of (f cl)) \<and> 10 \<le> length (f cl)" "concat (map f ids) = ns"
    by (rule shares_of_pieces)
  have "length ns < 2 ^ 31" using assms(6) newlines_le [of "lines_of ns"] by simp
  then obtain strs where res: "list_all2 (\<lambda>(t, _) str. result_for (group_name g) t str) rs strs"
    "list_all2 share_summed (map f (map snd rs)) strs"
    by (rule answers_summed [OF f _ assms(18) equalityD1 [OF assms(24)] assms(26)])
  have d: "distinct (map snd rs)" using assms(23) by (simp add: waiting_for_def)
  have count: "length rs = length ids" using distinct_card [OF d] distinct_card [OF assms(12)] assms(24) by simp
  have "sum_list (concat (map f (map snd rs))) = sum_list ns"
    using sum_concat_set [OF d, of f] sum_concat_set [OF assms(12), of f] f(2) assms(24) by simp
  note total_sum = this
  have "length strs = length ids" using res(1) count by (auto dest: list_all2_lengthD)
  moreover have "rs \<noteq> []" "length rs \<le> 255" using count assms(11,19) by auto
  moreover from this obtain c' where "collect run c rs = Inr c'"
      "ended c c' m (final_msg (group_name g) (tr_task_id (fst (hd rs))) (length rs) (zip (map snd rs) strs) (sum_list ns))"
    using sums_collected [OF assms(20,21) _ _ assms(22,23) res, of run] unfolding total_sum by blast
  ultimately show ?thesis using count assms(18) by (auto simp: ended_def final_msg_def collected_def)
qed


section \<open>An example\<close>

definition demo_numbers :: "nat list" where
  "demo_numbers = [1, 2, 3, 4, 5, 6, 7, 8, 9, 10, 11, 12, 13, 14, 15, 16, 17, 18, 19, 20]"

definition demo_rb :: rb_client where
  "demo_rb = \<lparr>rbc_capability = 1, rbc_grp_list = [1], rbc_av_status = RBFREE, rbc_is_moderator = False\<rparr>"

definition demo_sum_server :: server_info where
  "demo_sum_server = demo_server\<lparr>groups := [1 \<mapsto> demo_start_group], files := [''t'' \<mapsto> lines_of demo_numbers],
     client_RBT := [6 \<mapsto> demo_rb, 7 \<mapsto> demo_rb]\<rparr>"

definition demo_sum_notify :: pdu_t where
  "demo_sum_notify = \<lparr>peer_addr = demo_addr, pdu_msg = \<lparr>msg_id = moderator_notify_rsp, idv = Moderator_notify_rsp
     \<lparr>nr_group_name = Some ''G1'', nr_moderator_id = 6, nr_client_id_count = 2, nr_client_ids = [6, 7]\<rparr>\<rparr>\<rparr>"

lemma demo_sum_fields:
  "groups demo_sum_server 1 = Some demo_start_group" "files demo_sum_server ''t'' = Some (lines_of demo_numbers)"
  "client_RBT demo_sum_server 6 = Some demo_rb" "client_RBT demo_sum_server 7 = Some demo_rb"
  "cap_of demo_sum_server 6 = 1" "cap_of demo_sum_server 7 = 1" "rbc_capability demo_rb = 1"
  by (simp_all add: demo_sum_server_def demo_rb_def cap_of_def)

lemma demo_start_group_fields:
  "timer_id demo_start_group = 0" "task_set_filename demo_start_group = Own ''t''" "task_set_format demo_start_group = 0"
  "group_name demo_start_group = ''G1''"
  by (simp_all add: demo_start_group_def demo_group_def new_group_def)

lemma demo_numbers_fields: "length demo_numbers = 20" "sum_list demo_numbers = 210" "\<forall>n\<in>set demo_numbers. n < 2 ^ 63"
  by (simp_all add: demo_numbers_def)

lemma demo_file_length: "length (lines_of demo_numbers) < 2 ^ 31"
proof -
  have "length (line_of n) \<le> 3" if "n < 100" for n using dec_str_length [of n 2] that by (simp add: line_of_length)
  then have "length (lines_of ns) \<le> 3 * length ns" if "\<forall>n\<in>set ns. n < 100" for ns
    using that by (induction ns) fastforce+
  from this [of demo_numbers] show ?thesis by (simp add: demo_numbers_def)
qed

lemma demo_shares_lines:
  "i < 2 \<Longrightarrow> share [1, 1] 20 i = 10" "i < 2 \<Longrightarrow> piece_lines [1, 1] 20 i = 10"
proof -
  have s: "share [1, 1] 20 j = 10" if "j < 2" for j
    using that by (auto simp: share_def less_2_cases_iff numeral_2_eq_2 [symmetric])
  then show "i < 2 \<Longrightarrow> share [1, 1] 20 i = 10" by blast
  show "i < 2 \<Longrightarrow> piece_lines [1, 1] 20 i = 10" using s by (auto simp: piece_lines_def less_2_cases_iff)
qed

abbreviation demo_path :: "u32 \<Rightarrow> string" where
  "demo_path \<equiv> client_path (''/tmp/server/task_set/'' @ group_name demo_start_group) (stamp demo_sum_server)"

lemma demo_sum_hyps:
  "length (group_name demo_start_group) < 79"
  "idv (pdu_msg demo_sum_notify) = Moderator_notify_rsp \<lparr>nr_group_name = Some ''G1'', nr_moderator_id = 6,
     nr_client_id_count = 2, nr_client_ids = [6, 7]\<rparr>"
  "[6, 7 :: u32] \<noteq> []" "distinct [6, 7 :: u32]" "length [6, 7 :: u32] < length demo_numbers"
  "\<forall>cl\<in>set [6, 7]. client_RBT demo_sum_server cl \<noteq> None"
  "sum_list (map (unat \<circ> cap_of demo_sum_server) [6, 7]) * length demo_numbers < 2 ^ 32"
  "\<forall>i<length [6, 7 :: u32]. 0 < share (map (cap_of demo_sum_server) [6, 7]) (length demo_numbers) i"
  "\<forall>i<length [6, 7 :: u32]. 10 \<le> piece_lines (map (cap_of demo_sum_server) [6, 7]) (length demo_numbers) i"
proof -
  have caps: "map (cap_of demo_sum_server) [6, 7] = [1, 1]" by (simp add: demo_sum_fields)
  show "\<forall>i<length [6, 7 :: u32]. 0 < share (map (cap_of demo_sum_server) [6, 7]) (length demo_numbers) i"
    "\<forall>i<length [6, 7 :: u32]. 10 \<le> piece_lines (map (cap_of demo_sum_server) [6, 7]) (length demo_numbers) i"
    unfolding caps demo_numbers_fields using demo_shares_lines by (simp_all add: numeral_2_eq_2 [symmetric])
qed (simp_all add: demo_start_group_fields demo_sum_fields demo_numbers_fields demo_sum_notify_def)

lemma demo_sum_count:
  "nr_client_ids \<lparr>nr_group_name = Some ''G1'', nr_moderator_id = 6, nr_client_id_count = 2, nr_client_ids = [6, 7]\<rparr> = [6, 7]"
  "nr_client_id_count \<lparr>nr_group_name = Some ''G1'', nr_moderator_id = 6, nr_client_id_count = 2, nr_client_ids = [6, 7]\<rparr> =
   of_nat (length [6, 7 :: u32])"
  by simp_all

lemma demo_sum_run:
  obtains s' str6 str7 where "mcast_start_task_distribution demo_sum_server 1 demo_sum_notify = Inr s'"
    "find_sum (files s') (demo_path 6) = Inr str6" "find_sum (files s') (demo_path 7) = Inr str7"
proof -
  have nl: "newlines (lines_of demo_numbers) = length demo_numbers" by simp
  have last10: "last (lines_of demo_numbers) = 10" by (rule last_lines_of) (simp add: demo_numbers_def)
  obtain fs where fs: "mcast_start_task_distribution demo_sum_server 1 demo_sum_notify =
      Inr (started demo_sum_server 1 demo_start_group [6, 7] (task_entries demo_sum_server [6, 7]) fs)"
      "divided demo_sum_server demo_start_group (lines_of demo_numbers) [6, 7] fs"
    by (rule task_distribution_run [OF demo_sum_fields(1) demo_start_group_fields(1,2) demo_sum_fields(2) demo_start_group_fields(3)
      last10 demo_file_length demo_sum_hyps(1,2) demo_sum_count, unfolded nl, OF demo_sum_hyps(3-8)])
  define s' where "s' = started demo_sum_server 1 demo_start_group [6, 7] (task_entries demo_sum_server [6, 7]) fs"
  have fls: "files s' = fs" by (simp add: s'_def)
  have s': "mcast_start_task_distribution demo_sum_server 1 demo_sum_notify = Inr s'"
      "concat (map (\<lambda>cl. the (files s' (demo_path cl))) [6, 7]) = lines_of demo_numbers"
      "\<forall>i<length [6, 7 :: u32]. piece_of (files s') (demo_path ([6, 7] ! i))
         (piece_lines (map (cap_of demo_sum_server) [6, 7]) (length demo_numbers) i)"
    using fs unfolding fls s'_def [symmetric] divided_def nl by blast+
  from s'(2,3) demo_sum_hyps(9,4) obtain f where
    f: "\<forall>cl\<in>set [6, 7]. files s' (demo_path cl) = Some (lines_of (f cl)) \<and> 10 \<le> length (f cl)" "concat (map f [6, 7]) = demo_numbers"
    by (rule shares_of_pieces)
  have "\<exists>str. find_sum (files s') (demo_path cl) = Inr str" if cl: "cl \<in> set [6, 7]" for cl
  proof -
    have lines: "files s' (demo_path cl) = Some (lines_of (f cl))" "10 \<le> length (f cl)" using cl f(1) by blast+
    have "length (f cl) < 2 ^ 31" "\<forall>n\<in>set (f cl). n < 2 ^ 63"
      using share_bounds [OF f(2) _ _ cl] demo_numbers_fields by simp_all
    then show ?thesis using lines
      sum_of_file_lines [where fls = "files s'" and f = "demo_path cl" and ns = "f cl" and sel = "\<lambda>_. True"]
      by (simp add: find_sum_def)
  qed
  then show ?thesis using s'(1) that by force
qed

lemma sum_task_end_to_end_witness:
  "\<exists>s' str6 str7 c' t. mcast_start_task_distribution demo_sum_server 1 demo_sum_notify = Inr s' \<and>
    collect (\<lambda>_. True) demo_moderator [(demo_result 7 str7, 7), (demo_result 6 str6, 6)] = Inr c' \<and>
    last (ci_outbox c') = (of_in (ci_server demo_moderator), \<lparr>msg_id = task_response, idv = Task_rsp t\<rparr>) \<and>
    tr_final_resp t = Some (dec_str 210)"
proof -
  obtain s' str6 str7 where r: "mcast_start_task_distribution demo_sum_server 1 demo_sum_notify = Inr s'"
    "find_sum (files s') (demo_path 6) = Inr str6" "find_sum (files s') (demo_path 7) = Inr str7"
    by (rule demo_sum_run)
  let ?rs = "[(demo_result 7 str7, 7 :: u32), (demo_result 6 str6, 6)]"
  have res: "result_for (group_name demo_start_group) (demo_result k str) str" for k str
    by (simp add: result_for_def demo_result_def demo_start_group_fields)
  have a: "\<forall>x\<in>set ?rs. answers_share (files s') demo_path (group_name demo_start_group) x"
    unfolding answers_share_def using r(2,3) res by fastforce
  have m: "ci_moderator_info demo_moderator = Some demo_minfo" "mi_expected_responses demo_minfo = int (length ?rs)"
    "mi_moderator_resp_msg demo_minfo = None" "waiting_for demo_moderator demo_minfo (map snd ?rs)" "set (map snd ?rs) = set [6, 7]"
    using demo_waiting by (auto simp: demo_moderator_def demo_minfo_def)
  have n: "sum_list demo_numbers < 2 ^ 63" "length [6, 7 :: u32] \<le> 255" by (simp_all add: demo_numbers_fields)
  show ?thesis
    using sum_task_end_to_end [OF demo_sum_fields(1) demo_start_group_fields(1,2) demo_sum_fields(2) demo_start_group_fields(3)
      demo_file_length demo_sum_hyps(1,2) demo_sum_count demo_sum_hyps(3-9) n m r(1) a, of "\<lambda>_. True"] r(1)
    unfolding demo_numbers_fields by blast
qed

end
