(* ===== verification/ServerQuiet.thy ===== *)
theory ServerQuiet
  imports ServerInv
begin

text \<open>
  No message handler and no command of \<open>src/src/server.c\<close> runs into an assertion: the only
  two are in the signal handler.
\<close>

section \<open>Lists and index\<close>

lemma no_assert_prodI: "(\<And>a b. x = (a, b) \<Longrightarrow> no_assert (f a b)) \<Longrightarrow> no_assert (case x of (a, b) \<Rightarrow> f a b)"
  by (cases x) simp

lemma no_assert_find_client [quiet]: "no_assert (find_client s l k)"
  by (induction l) (auto intro!: quiet no_assert_rules)

lemma no_assert_search_group [quiet]: "no_assert (search_rb_grp_node s ps nm)"
  by (induction ps) (auto intro!: quiet no_assert_rules)

lemma no_assert_remove_group [quiet]: "no_assert (remove_rb_grp_node s ps nm)"
  by (induction ps) (auto intro!: quiet no_assert_rules)

lemma no_assert_get_group [quiet]: "no_assert (get_group_node_by_name s nm prev)"
proof -
  have "no_assert (group_by_name_from s nm ps prev)" for ps
    by (induction ps) (auto intro!: quiet no_assert_rules)
  then show ?thesis by (simp add: get_group_node_by_name_def)
qed

lemma no_assert_best_fit [quiet]: "no_assert (get_group_node_by_best_fit s n prev)"
proof -
  have "no_assert (best_fit_from s n ps a b prev)" for ps a b prev
    by (induction ps arbitrary: a b prev) (auto intro!: quiet no_assert_rules simp: Let_def)
  then show ?thesis by (simp add: get_group_node_by_best_fit_def)
qed

lemma no_assert_search_client [quiet]: "no_assert (search_client_in_group_node s gp k)"
  unfolding search_client_in_group_node_def by (intro quiet no_assert_rules no_assert_simps)

lemma no_assert_member_nodes [quiet]:
  "no_assert (deallocate_mcast_client_node s gp c)" "no_assert (allocate_mcast_client_node s gp)"
  "no_assert (allocate_mcast_client_list s gp)"
  by (auto simp: deallocate_mcast_client_node_def allocate_mcast_client_node_def allocate_mcast_client_list_def Let_def
      intro!: quiet no_assert_rules split: option.split)

section \<open>Membership\<close>

lemma no_assert_strcpy [quiet]: "no_assert (strcpy_bytes d src)"
  by (induction d src rule: strcpy_bytes.induct) (auto intro!: quiet no_assert_rules)

lemma no_assert_send_checkpoint [quiet]: "no_assert (send_checkpoint k s a nm c)"
  unfolding send_checkpoint_def Let_def by (intro quiet no_assert_rules no_assert_simps)

lemma no_assert_membership [quiet]:
  "no_assert (remove_client_from_mcast_group_node s gpo k)" "no_assert (ADD_CLIENT_IN_GROUP s gp a k)" "no_assert (index_insert s k a gp c)"
  by (auto simp: remove_client_from_mcast_group_node_def ADD_CLIENT_IN_GROUP_def index_insert_def
      intro!: quiet no_assert_rules no_assert_prodI split: option.split)

lemma no_assert_rbt_node [quiet]: "no_assert (rbt_node s k)"
  by (simp add: rbt_node_def split: option.split)

lemma no_assert_insert_client [quiet]: "no_assert (insert_client_info_in_server_DS s gpo a c)"
  unfolding insert_client_info_in_server_DS_def Let_def
  by (auto intro!: quiet no_assert_rules no_assert_prodI split: option.split)

lemma no_assert_remove_client [quiet]: "no_assert (remove_client_info_from_server_DS s a nm)"
  unfolding remove_client_info_from_server_DS_def Let_def
  by (auto intro!: quiet no_assert_rules no_assert_prodI split: option.split)

lemma no_assert_requests [quiet]:
  "no_assert (handle_checkpoint_req s a creq)" "no_assert (handle_leave_req s a lreq)" "no_assert (join_step s a jreq i prev)"
  unfolding handle_checkpoint_req_def handle_leave_req_def join_step_def Let_def
  by (auto intro!: quiet no_assert_rules no_assert_prodI split: option.split)

text \<open>Handlers that may not end.\<close>

definition no_assert_opt :: "'a result option \<Rightarrow> bool" where
  "no_assert_opt r \<longleftrightarrow> (\<forall>m. r = Some m \<longrightarrow> no_assert m)"

lemma no_assert_opt_simps [simp]: "no_assert_opt (Some m) = no_assert m" "no_assert_opt None"
  by (simp_all add: no_assert_opt_def)

lemma no_assert_opt_caseI:
  "no_assert m \<Longrightarrow> (\<And>x. m = Inr x \<Longrightarrow> no_assert_opt (f x)) \<Longrightarrow> no_assert_opt (case m of Inl e \<Rightarrow> Some (Inl e) | Inr x \<Rightarrow> f x)"
  by (cases m) auto

lemma no_assert_opt_bindI:
  "no_assert_opt r \<Longrightarrow> (\<And>x. no_assert (f x)) \<Longrightarrow> no_assert_opt (map_option (\<lambda>r. bindE r f) r)"
  by (cases r) (auto intro: no_assert_bindI)

lemma no_assert_join_loop: "no_assert_opt (join_loop a req i s prev ips)"
proof -
  have "no_assert r" if "join_loop a req i s prev ips = Some r" for r
  proof (rule join_loop.raw_induct [where P = "\<lambda>_ _ _ _ _ _ r. no_assert r", OF _ that], goal_cases)
    case (1 rec a req i s prev ips r)
    then show ?case using no_assert_requests(3) [of s a req "unat i" prev] by (auto split: if_splits sum.splits)
  qed
  then show ?thesis by (simp add: no_assert_opt_def)
qed

lemma no_assert_join: "no_assert_opt (handle_join_req s a req)"
  unfolding handle_join_req_def by (intro no_assert_opt_bindI no_assert_join_loop) (simp split: prod.split)

section \<open>Tasks\<close>

lemma no_assert_task_lists [quiet]:
  "no_assert (assign_clients m ids i k)" "no_assert (first_files m i k)" "no_assert (worker_ids m k)"
  "no_assert (sum_capabilities s ids i k acc caps)" "no_assert (get_task_count s f)"
  subgoal by (induction m ids i k rule: assign_clients.induct) (auto intro!: quiet no_assert_rules)
  subgoal by (induction m i k rule: first_files.induct) (auto intro!: quiet no_assert_rules)
  subgoal by (induction m k rule: worker_ids.induct) (auto intro!: quiet no_assert_rules)
  subgoal by (induction s ids i k acc caps rule: sum_capabilities.induct) (auto intro!: quiet no_assert_rules split: option.split)
  subgoal by (auto simp: get_task_count_def split: option.split)
  done

lemma no_assert_create [quiet]:
  "no_assert (create_step fp src emp ids caps n tasks T i s m a r)" "no_assert (create_loop fp src emp ids caps n tasks T k s m a r)"
  "no_assert (create_task_sets_per_client s gp ids n tasks T)"
proof -
  show step: "no_assert (create_step fp src emp ids caps n tasks T i s m a r)" for i s m a r
    unfolding create_step_def Let_def by (auto intro!: quiet no_assert_rules no_assert_prodI split: option.split)
  show loop: "no_assert (create_loop fp src emp ids caps n tasks T k s m a r)" for fp src emp ids caps n tasks T k s m a r
    by (induction fp src emp ids caps n tasks T k s m a r rule: create_loop.induct)
      (auto intro!: quiet no_assert_rules no_assert_prodI simp: create_step_def Let_def split: option.split)
  show "no_assert (create_task_sets_per_client s gp ids n tasks T)"
    unfolding create_task_sets_per_client_def Let_def
    by (auto intro!: loop quiet no_assert_rules no_assert_prodI split: option.split)
qed


lemma no_assert_data [quiet]: "no_assert (get_data_set_for_client_based_on_capability s gp n ids c)"
  unfolding get_data_set_for_client_based_on_capability_def Let_def
  by (auto intro!: quiet no_assert_rules no_assert_prodI split: option.split)

lemma no_assert_start_task [quiet]: "no_assert (mcast_start_task_distribution s gp pdu)"
  unfolding mcast_start_task_distribution_def Let_def start_recurring_timer_def
  by (auto intro!: quiet no_assert_rules no_assert_prodI split: idv_t.split)

lemma no_assert_retransmit [quiet]: "no_assert (retransmit_task_req_for_client s gp)"
proof -
  have pick: "no_assert (pick_client m md n st i k)" for m md n st i k
    by (induction m md n st i k rule: pick_client.induct) (auto intro!: quiet no_assert_rules simp: Let_def)
  have picks: "no_assert (pick_clients m md n i k)" for m md n i k
    by (induction m md n i k rule: pick_clients.induct) (auto intro!: pick quiet no_assert_rules no_assert_prodI simp del: pick_client.simps)
  have hand: "no_assert (hand_over m fs i k)" for m fs i k
    by (induction m fs i k rule: hand_over.induct) (auto intro!: quiet no_assert_rules no_assert_prodI)
  show ?thesis
    unfolding retransmit_task_req_for_client_def Let_def
    by (auto intro!: picks hand quiet no_assert_rules no_assert_prodI)
qed

lemma no_assert_moderator [quiet]:
  "no_assert (update_moderator_info s gp c)" "no_assert (mcast_send_chk_alive_msg s gp pdu)" "no_assert (send_new_moderator_info s gp pdu)"
  "no_assert (free_moderator s gp c)"
proof -
  show u: "no_assert (update_moderator_info s gp c)" for s c
    unfolding update_moderator_info_def by (auto intro!: quiet no_assert_rules split: option.split)
  show "no_assert (mcast_send_chk_alive_msg s gp pdu)"
    unfolding mcast_send_chk_alive_msg_def Let_def by (auto intro!: u quiet no_assert_rules no_assert_prodI)
  show "no_assert (send_new_moderator_info s gp pdu)"
    unfolding send_new_moderator_info_def Let_def start_recurring_timer_def by (auto intro!: u quiet no_assert_rules no_assert_prodI)
  show "no_assert (free_moderator s gp c)"
    unfolding free_moderator_def by (auto intro!: quiet no_assert_rules split: option.split)
qed

lemma no_assert_results [quiet]:
  "no_assert (get_task_result_folder_path s nm)" "no_assert (collect_task_results s rsp f c)" "no_assert (print_execution_report s gp)"
  "no_assert (mcast_handle_task_response s gp pdu)"
proof -
  show r: "no_assert (get_task_result_folder_path s nm)" "no_assert (collect_task_results s rsp f c)" "no_assert (print_execution_report s gp)"
    for s nm rsp f c gp
    by (auto simp: get_task_result_folder_path_def collect_task_results_def print_execution_report_def Let_def
      intro!: quiet no_assert_rules split: option.split)
  show "no_assert (mcast_handle_task_response s gp pdu)"
    unfolding mcast_handle_task_response_def Let_def by (auto intro!: r quiet no_assert_rules no_assert_prodI split: idv_t.split)
qed

section \<open>Handlers\<close>

lemma no_assert_dead_step [quiet]: "no_assert (dead_step s gp k)"
  unfolding dead_step_def by (auto intro!: quiet no_assert_rules split: option.split)

lemma no_assert_dead_loop: "no_assert_opt (dead_loop gp req i s)"
proof -
  have "no_assert r" if "dead_loop gp req i s = Some r" for r
  proof (rule dead_loop.raw_induct [where P = "\<lambda>_ _ _ _ r. no_assert r", OF _ that], goal_cases)
    case (1 rec gp req i s r)
    let ?m = "bindE (at (eq_client_ids req) (unat i)) (dead_step s gp)"
    have m: "no_assert ?m" by (intro quiet no_assert_rules)
    show ?case
    proof (cases ?m)
      case (Inl e)
      with 1(2) show ?thesis by (auto split: if_splits intro: m)
    next
      case (Inr s1)
      with 1(2) show ?thesis by (auto split: if_splits dest: 1(1))
    qed
  qed
  then show ?thesis by (simp add: no_assert_opt_def)
qed

lemma no_assert_mark_and_retransmit [quiet]: "no_assert (mark_and_retransmit s gp d c)"
  unfolding mark_and_retransmit_def split_beta by (intro quiet no_assert_rules)

lemma no_assert_echo_in_progress: "no_assert_opt (server_echo_req_task_in_progress_state s gp pdu)"
  unfolding server_echo_req_task_in_progress_state_def
  by (intro no_assert_opt_caseI quiet no_assert_rules)
    (auto intro!: no_assert_opt_caseI no_assert_opt_bindI no_assert_dead_loop quiet no_assert_rules split: idv_t.split)

lemma no_assert_fsm: "no_assert_opt (server_main_fsm s ev fs gp pdu)"
  by (cases fs; cases ev) (simp_all add: server_main_fsm_def server_fsm_mod_pend_state_def server_fsm_mod_selected_def
    server_fsm_task_in_progress_def server_fsm_task_in_progress_mod_sel_pend_def quiet no_assert_echo_in_progress)

lemma no_assert_group_of_client [quiet]: "no_assert (group_of_client s k nm)"
  unfolding group_of_client_def by (auto intro!: quiet no_assert_rules split: option.split)

lemma no_assert_named_group [quiet]: "no_assert (named_group s nm)"
  unfolding named_group_def by (intro quiet no_assert_rules no_assert_simps)

lemma no_assert_handle_echo: "no_assert_opt (handle_echo_req s pdu)" "no_assert_opt (handle_echo_response s pdu)"
  unfolding handle_echo_req_def handle_echo_response_def
  by (auto intro!: no_assert_opt_caseI no_assert_fsm quiet no_assert_rules no_assert_prodI simp: Let_def split: idv_t.split)

lemma no_assert_handle_moderator:
  "no_assert_opt (handle_moderator_task_response s pdu)" "no_assert_opt (handle_moderator_notify_response s pdu)"
  unfolding handle_moderator_task_response_def handle_moderator_notify_response_def Let_def
  by (auto intro!: no_assert_opt_caseI no_assert_fsm quiet no_assert_rules no_assert_prodI split: idv_t.split option.split)

lemma no_assert_serve: "no_assert_opt (serve s pdu)"
  unfolding serve_def run_handler_def
  by (auto intro!: no_assert_handle_echo no_assert_handle_moderator no_assert_join quiet
    split: option.split handler.split idv_t.split)

section \<open>Commands\<close>

lemma no_assert_notify_groups [quiet]: "no_assert (notify_groups s m ps)"
  by (induction s m ps rule: notify_groups.induct) (auto intro!: quiet no_assert_rules)

lemma no_assert_assign_task [quiet]: "no_assert (assign_task s nm kind f ty)"
  unfolding assign_task_def Let_def by (auto intro!: quiet no_assert_rules split: option.split)

lemma no_assert_task_command [quiet]: "no_assert (task_command s line)"
  unfolding task_command_def Let_def by (auto intro!: quiet no_assert_rules)

lemma no_assert_command: "no_assert (server_stdin_data ia s input)"
  unfolding server_stdin_data_def Let_def send_new_server_info_to_all_groups_def
  by (auto intro!: quiet no_assert_rules split: option.split)

end
