(* ===== verification/EventLoops.thy ===== *)
theory EventLoops
  imports Network ServerQuiet
begin

text \<open>
  The main loops of the server and of a client (\<open>main\<close> in \<open>src/src/server.c\<close> and
  \<open>src/src/client.c\<close>): from the set-up through any sequence of datagrams, lines typed,
  expired timers and finished threads.  No run of the server ends in an assertion as long as
  results only come when they are expected; a client ends in one when a notification names
  a group it is not in.
\<close>

section \<open>The server\<close>

text \<open>
  What \<open>epoll_wait\<close> and the kernel hand to the loop.  A datagram is decoded into the structure
  on the stack, whatever that holds; an expiry may fall into a change of the signal mask;
  between two events the clock and the files may change.
\<close>

datatype server_input =
    Datagram pdu_t "u8 list" sockaddr
  | Typed string
  | Expired bool nat
  | Elapsed nat string "string \<rightharpoonup> u8 list"

definition server_event_step :: "(string \<Rightarrow> u32) \<Rightarrow> server_info \<Rightarrow> server_input \<Rightarrow> server_info result option" where
  "server_event_step inet_addr s i =
     (case i of
        Datagram pdu0 buf a \<Rightarrow> serve_datagram pdu0 s buf a
      | Typed line \<Rightarrow> Some (server_stdin_data inet_addr s line)
      | Expired masked t \<Rightarrow>
          Some (case timers s t of
                  None \<Rightarrow> Inr s
                | Some k \<Rightarrow> handle_timeout_real s masked (kt_signal k) (kt_sival k))
      | Elapsed c d fs \<Rightarrow> Some (Inr (s\<lparr>clock := c, stamp := d, files := fs\<rparr>)))"

text \<open>\<open>None\<close> when a handler does not return, \<open>Inl\<close> when the process dies.\<close>

fun server_loop :: "(string \<Rightarrow> u32) \<Rightarrow> server_info \<Rightarrow> server_input list \<Rightarrow> server_info result option" where
  "server_loop inet_addr s [] = Some (Inr s)"
| "server_loop inet_addr s (i # is) =
     (case server_event_step inet_addr s i of
        Some (Inr s') \<Rightarrow> server_loop inet_addr s' is
      | r \<Rightarrow> r)"

definition server_main :: "(string \<Rightarrow> u32) \<Rightarrow> (string \<rightharpoonup> u8 list) \<Rightarrow> server_input list \<Rightarrow> server_info result option" where
  "server_main inet_addr fs inputs =
     (case server_start inet_addr fs of
        Inl e \<Rightarrow> Some (Inl e)
      | Inr s \<Rightarrow> server_loop inet_addr s inputs)"

text \<open>
  A run in which no client sends results for a group whose moderator has yet to accept.
\<close>

definition input_expected :: "server_info \<Rightarrow> server_input \<Rightarrow> bool" where
  "input_expected s i = (case i of
     Datagram pdu0 buf a \<Rightarrow>
       (case receive_bytes pdu0 buf a of
          Inr (m, b) \<Rightarrow> results_expected s \<lparr>peer_addr = b, pdu_msg = m\<rparr>
        | Inl _ \<Rightarrow> True)
   | _ \<Rightarrow> True)"

fun run_expected :: "(string \<Rightarrow> u32) \<Rightarrow> server_info \<Rightarrow> server_input list \<Rightarrow> bool" where
  "run_expected inet_addr s [] = True"
| "run_expected inet_addr s (i # is) =
     (input_expected s i \<and>
      (case server_event_step inet_addr s i of Some (Inr s') \<Rightarrow> run_expected inet_addr s' is | _ \<Rightarrow> True))"

lemma run_expected_append:
  "run_expected ia s (is @ js) \<longleftrightarrow> run_expected ia s is \<and>
     (case server_loop ia s is of Some (Inr s') \<Rightarrow> run_expected ia s' js | _ \<Rightarrow> True)"
  by (induction "is" arbitrary: s) (auto split: option.split sum.split)

lemma server_loop_append:
  "server_loop ia s (is @ js) = (case server_loop ia s is of Some (Inr s') \<Rightarrow> server_loop ia s' js | r \<Rightarrow> r)"
  by (induction "is" arbitrary: s) (auto split: option.split sum.split)

lemma event_srv_step:
  "input_expected s i \<Longrightarrow> server_event_step ia s i = Some (Inr s') \<Longrightarrow> s' = s \<or> srv_step ia s s'"
  by (cases i) (auto simp: server_event_step_def input_expected_def serve_datagram_def
    intro: served commanded signalled elapsed split: option.splits sum.splits)

lemma event_no_assert:
  assumes "srv_reachable ia s"
  shows "no_assert_opt (server_event_step ia s i)"
proof (cases i)
  case (Datagram pdu0 buf a)
  obtain b rest m where d: "process_comm_struct (dec (take MAXMSGSIZE buf)) ((pdu_msg pdu0)\<lparr>msg_id := unknown_msg\<rparr>) = Inr (b, dec rest, m)"
    using dwp_comm_struct unfolding dwp_def by blast
  have "no_assert (receive_bytes pdu0 buf a)"
    unfolding receive_bytes_def read_record_def d by (auto intro!: quiet no_assert_rules)
  then show ?thesis
    using Datagram by (auto simp: server_event_step_def serve_datagram_def intro!: no_assert_opt_caseI no_assert_serve)
next
  case (Expired masked t)
  then show ?thesis
    using signal_asserts [OF fits_reachable [OF assms]] by (auto simp: server_event_step_def split: option.split)
qed (simp_all add: server_event_step_def no_assert_command)

lemma loop_safe:
  "srv_reachable ia s \<Longrightarrow> run_expected ia s is \<Longrightarrow>
     no_assert_opt (server_loop ia s is) \<and> (\<forall>s'. server_loop ia s is = Some (Inr s') \<longrightarrow> srv_reachable ia s')"
proof (induction "is" arbitrary: s)
  case (Cons i "is")
  show ?case
  proof (cases "\<exists>s1. server_event_step ia s i = Some (Inr s1)")
    case True
    then obtain s1 where s1: "server_event_step ia s i = Some (Inr s1)" by blast
    moreover have "srv_reachable ia s1"
      using event_srv_step [OF _ s1] Cons.prems by (auto intro: stepped)
    ultimately show ?thesis using Cons.IH Cons.prems(2) by simp
  next
    case False
    then show ?thesis
      using event_no_assert [OF Cons.prems(1), of i] by (auto split: option.splits sum.splits)
  qed
qed simp

section \<open>Safety of the server\<close>

lemma no_assert_start: "no_assert (server_start ia fs)"
proof -
  have entry: "no_assert (scan_entry str ip port)" for str ip port
    unfolding scan_entry_def by (auto split: option.split prod.split)
  have "no_assert (mapping_loop ia s str ip port k)" for s str ip port k
    by (induction k arbitrary: s str ip port)
      (auto intro!: entry quiet no_assert_rules no_assert_prodI simp: ADD_GROUP_IN_LL_def split: option.split)
  then show ?thesis
    unfolding server_start_def initialize_mapping_def
    by (auto intro!: quiet no_assert_rules no_assert_prodI split: option.split)
qed

text \<open>
  C22: whatever the mapping file and whatever the server is sent, no assertion of the server
  fails as long as no results arrive for a group whose moderator has yet to accept, and the
  loop keeps to the reachable states of the server.
\<close>

theorem server_never_aborts:
  assumes "\<forall>s. server_start inet_addr fs = Inr s \<longrightarrow> run_expected inet_addr s inputs"
  shows "server_main inet_addr fs inputs \<noteq> Some (Inl AssertFail) \<and>
    (\<forall>s. server_main inet_addr fs inputs = Some (Inr s) \<longrightarrow> srv_reachable inet_addr s)"
proof (cases "server_start inet_addr fs")
  case (Inl e)
  then show ?thesis using no_assert_start [of inet_addr fs] by (simp add: server_main_def)
next
  case (Inr s)
  then show ?thesis
    using loop_safe [OF start_reachable [OF Inr], of inputs] assms
    by (auto simp: server_main_def no_assert_opt_def no_assert_def)
qed

text \<open>
  C21: in a run of the server's main loop in which no results arrive for a group whose
  moderator has yet to accept, a timer belongs to an existing group, is that group's only
  timer, and its signal fits the state: a selection timer while a moderator is being
  selected, a response timer while a task is running and has a moderator.
\<close>

theorem timers_match_groups:
  assumes "server_start inet_addr fs = Inr s0" "run_expected inet_addr s0 inputs"
    "server_loop inet_addr s0 inputs = Some (Inr s)" "timers s t = Some k"
  shows "\<exists>g. groups s (kt_sival k) = Some g \<and> timer_id g = t \<and>
    (case kt_signal k of
       MOD_SEL_TIMEOUT \<Rightarrow> fsm_state g = MODERATOR_SELECTION_PENDING \<or> fsm_state g = TASK_IN_PROGRESS_MOD_SEL_PEND
     | MOD_RSP_TIMEOUT \<Rightarrow> fsm_state g = GROUP_TASK_IN_PROGRESS \<and> moderator_client g \<noteq> None) \<and>
    (\<forall>t' k'. timers s t' = Some k' \<longrightarrow> kt_sival k' = kt_sival k \<longrightarrow> t' = t)"
proof -
  have "srv_reachable inet_addr s" using loop_safe [OF start_reachable [OF assms(1)] assms(2)] assms(3) by blast
  note owner = timer_matches_group [OF this]
  obtain g where g: "groups s (kt_sival k) = Some g" "timer_id g = t"
    "case kt_signal k of
       MOD_SEL_TIMEOUT \<Rightarrow> fsm_state g = MODERATOR_SELECTION_PENDING \<or> fsm_state g = TASK_IN_PROGRESS_MOD_SEL_PEND
     | MOD_RSP_TIMEOUT \<Rightarrow> fsm_state g = GROUP_TASK_IN_PROGRESS \<and> moderator_client g \<noteq> None"
    using owner [OF assms(4)] by blast
  have "t' = t" if "timers s t' = Some k'" "kt_sival k' = kt_sival k" for t' k'
    using owner [OF that(1)] that(2) g(1,2) by auto
  with g show ?thesis by blast
qed

text \<open>
  A run: the client with identifier 5 joins \<open>G1\<close>, a task is typed for the group, the client
  answers the server's question and becomes the moderator.
\<close>

definition demo_line :: mapping_entry where
  "demo_line = (''G1'', ''224.0.1.2'', 90)"

abbreviation demo_fs :: "string \<rightharpoonup> u8 list" where
  "demo_fs \<equiv> [''src/ip_mappings.txt'' \<mapsto> mapping_text [demo_line]]"

definition demo_typed :: "u8 list \<Rightarrow> server_input list" where
  "demo_typed b1 = [Datagram blank_pdu b1 plain_peer, Elapsed 5 ''noon'' [''data'' \<mapsto> [49, 10]],
     Typed (''task prime group G1 file data'' @ [CHR 0x0A])]"

definition demo_inputs :: "u8 list \<Rightarrow> u8 list \<Rightarrow> server_input list" where
  "demo_inputs b1 b2 = demo_typed b1 @ [Datagram blank_pdu b2 plain_peer]"

definition demo_asked :: "(string \<rightharpoonup> u8 list) \<Rightarrow> server_info result option" where
  "demo_asked fs = (case ADD_GROUP_IN_LL (allocate_server_info (blank_server fs)) ''G1''
       \<lparr>sin_family = AF_INET, sin_port = htons 90, s_addr = 7\<rparr> 90 of
     Inl e \<Rightarrow> Some (Inl e)
   | Inr s \<Rightarrow> (case serve s \<lparr>peer_addr = plain_peer, pdu_msg = join_msg [''G1''] 4\<rparr> of
        Some (Inr s1) \<Rightarrow> Some (server_stdin_data (\<lambda>_. 7) (s1\<lparr>clock := 5, stamp := ''noon'', files := [''data'' \<mapsto> [49, 10]]\<rparr>)
            (''task prime group G1 file data'' @ [CHR 0x0A]))
      | r \<Rightarrow> r))"

definition demo_session :: "(string \<rightharpoonup> u8 list) \<Rightarrow> server_info result option" where
  "demo_session fs = (case demo_asked fs of
     Some (Inr s2) \<Rightarrow> serve s2 \<lparr>peer_addr = plain_peer, pdu_msg = pdu_msg demo_answer\<rparr> | r \<Rightarrow> r)"

lemma demo_session_asks:
  "case demo_session demo_fs of Some (Inr s) \<Rightarrow> map_option fsm_state (groups s 1) = Some MODERATOR_SELECTED | _ \<Rightarrow> False"
  by code_simp

lemma demo_asked_timer:
  "case demo_asked demo_fs of Some (Inr s) \<Rightarrow> timers s 1 = Some \<lparr>kt_signal = MOD_SEL_TIMEOUT, kt_sival = 1, kt_interval = 3, kt_recurring = False\<rparr>
   | _ \<Rightarrow> False"
  by code_simp

lemma datagram_served:
  "receive_bytes pdu0 b a = Inr (m, a') \<Longrightarrow> serve_datagram pdu0 s b a = serve s \<lparr>peer_addr = a', pdu_msg = m\<rparr>"
  by (simp add: serve_datagram_def)

lemma demo_messages_ok: "msg_ok (join_msg [''G1''] 4)" "msg_ok (pdu_msg demo_answer)"
  by (rule join_msg_ok) (simp_all add: names_sound_def demo_answer_def msg_ok_def echo_rsp_ok_def str_ok_def)

lemma demo_start_state: "server_start (\<lambda>_. 7) demo_fs = ADD_GROUP_IN_LL (allocate_server_info (blank_server demo_fs)) ''G1''
      \<lparr>sin_family = AF_INET, sin_port = htons 90, s_addr = 7\<rparr> 90"
  using server_start_text [of demo_fs "[demo_line]" "\<lambda>_. 7"]
  by (simp add: loaded_one loaded_def placed_Cons [symmetric] demo_line_def word_ok_def is_space_def)

lemma demo_typed_run:
  assumes "receive_bytes blank_pdu b1 plain_peer = Inr (join_msg [''G1''] 4, plain_peer)" "demo_asked demo_fs = Some (Inr s)"
  obtains s0 where "server_start (\<lambda>_. 7) demo_fs = Inr s0" "server_loop (\<lambda>_. 7) s0 (demo_typed b1) = Some (Inr s)"
    "run_expected (\<lambda>_. 7) s0 (demo_typed b1)"
proof -
  obtain s0 s1 where steps: "server_start (\<lambda>_. 7) demo_fs = Inr s0"
      "serve s0 \<lparr>peer_addr = plain_peer, pdu_msg = join_msg [''G1''] 4\<rparr> = Some (Inr s1)"
      "server_stdin_data (\<lambda>_. 7) (s1\<lparr>clock := 5, stamp := ''noon'', files := [''data'' \<mapsto> [49, 10]]\<rparr>)
         (''task prime group G1 file data'' @ [CHR 0x0A]) = Inr s"
    using assms(2) by (auto simp: demo_asked_def demo_start_state split: sum.splits option.splits)
  show ?thesis
  proof (rule that [OF steps(1)])
    show "server_loop (\<lambda>_. 7) s0 (demo_typed b1) = Some (Inr s)"
      using steps by (simp add: demo_typed_def server_event_step_def datagram_served [OF assms(1)])
    show "run_expected (\<lambda>_. 7) s0 (demo_typed b1)"
      by (simp add: demo_typed_def input_expected_def assms(1) results_expected_def join_msg_def split: sum.split option.split)
  qed
qed

lemma demo_datagrams:
  obtains b1 b2 where "send_bytes (join_msg [''G1''] 4) = Inr b1" "send_bytes (pdu_msg demo_answer) = Inr b2"
    "receive_bytes blank_pdu b1 plain_peer = Inr (join_msg [''G1''] 4, plain_peer)"
    "receive_bytes blank_pdu b2 plain_peer = Inr (pdu_msg demo_answer, plain_peer)"
  using datagrams.delivers [OF demo_messages_ok(1) plain_peer_simps(2)] datagrams.delivers [OF demo_messages_ok(2) plain_peer_simps(2)]
  by blast

lemma timers_match_groups_witness:
  "\<exists>b1 s0 s g. server_start (\<lambda>_. 7) demo_fs = Inr s0 \<and> server_loop (\<lambda>_. 7) s0 (demo_typed b1) = Some (Inr s) \<and>
    timers s 1 \<noteq> None \<and> groups s 1 = Some g \<and> timer_id g = 1 \<and>
    (fsm_state g = MODERATOR_SELECTION_PENDING \<or> fsm_state g = TASK_IN_PROGRESS_MOD_SEL_PEND)"
proof -
  obtain b1 where b1: "receive_bytes blank_pdu b1 plain_peer = Inr (join_msg [''G1''] 4, plain_peer)"
    by (rule demo_datagrams)
  obtain s where s: "demo_asked demo_fs = Some (Inr s)"
      "timers s 1 = Some \<lparr>kt_signal = MOD_SEL_TIMEOUT, kt_sival = 1, kt_interval = 3, kt_recurring = False\<rparr>"
    using demo_asked_timer by (auto split: option.splits sum.splits)
  obtain s0 where "server_start (\<lambda>_. 7) demo_fs = Inr s0" "server_loop (\<lambda>_. 7) s0 (demo_typed b1) = Some (Inr s)"
      "run_expected (\<lambda>_. 7) s0 (demo_typed b1)"
    by (rule demo_typed_run [OF b1 s(1)])
  with timers_match_groups [OF this(1,3,2) s(2)] s(2) show ?thesis by auto
qed

lemma server_never_aborts_witness:
  "\<exists>b1 b2 s. send_bytes (join_msg [''G1''] 4) = Inr b1 \<and> send_bytes (pdu_msg demo_answer) = Inr b2 \<and>
    server_main (\<lambda>_. 7) demo_fs (demo_inputs b1 b2) = Some (Inr s) \<and>
    map_option fsm_state (groups s 1) = Some MODERATOR_SELECTED \<and> srv_reachable (\<lambda>_. 7) s"
proof -
  obtain b1 b2 where b: "send_bytes (join_msg [''G1''] 4) = Inr b1" "send_bytes (pdu_msg demo_answer) = Inr b2"
    "receive_bytes blank_pdu b1 plain_peer = Inr (join_msg [''G1''] 4, plain_peer)"
    "receive_bytes blank_pdu b2 plain_peer = Inr (pdu_msg demo_answer, plain_peer)"
    by (rule demo_datagrams)
  obtain s where s: "demo_session demo_fs = Some (Inr s)" "map_option fsm_state (groups s 1) = Some MODERATOR_SELECTED"
    using demo_session_asks by (auto split: option.splits sum.splits)
  then obtain s2 where s2: "demo_asked demo_fs = Some (Inr s2)" "serve s2 \<lparr>peer_addr = plain_peer, pdu_msg = pdu_msg demo_answer\<rparr> = Some (Inr s)"
    by (auto simp: demo_session_def split: option.splits sum.splits)
  obtain s0 where s0: "server_start (\<lambda>_. 7) demo_fs = Inr s0" "server_loop (\<lambda>_. 7) s0 (demo_typed b1) = Some (Inr s2)"
      "run_expected (\<lambda>_. 7) s0 (demo_typed b1)"
    by (rule demo_typed_run [OF b(3) s2(1)])
  have run: "server_main (\<lambda>_. 7) demo_fs (demo_inputs b1 b2) = Some (Inr s)"
    using s0 s2(2) by (simp add: server_main_def demo_inputs_def server_loop_append server_event_step_def datagram_served [OF b(4)])
  have "run_expected (\<lambda>_. 7) s0 (demo_inputs b1 b2)"
    using s0 by (simp add: demo_inputs_def run_expected_append input_expected_def b(4) results_expected_def demo_answer_def
      split: sum.split option.split)
  then have "\<forall>s. server_start (\<lambda>_. 7) demo_fs = Inr s \<longrightarrow> run_expected (\<lambda>_. 7) s (demo_inputs b1 b2)" using s0(1) by simp
  with run s b server_never_aborts [of "\<lambda>_. 7" demo_fs "demo_inputs b1 b2"] show ?thesis by blast
qed

text \<open>
  Why results must be expected: a response (the repetition of one from an earlier task, say)
  of the client that is the chosen moderator but has yet to accept takes the moderator away
  without leaving the state.  When the client then accepts, the task starts with a response
  timer and no moderator, and the server reads a null pointer when the heartbeats run out.
\<close>

definition demo_stale_result :: pdu_t where
  "demo_stale_result = \<lparr>peer_addr = plain_peer, pdu_msg = \<lparr>msg_id = task_response, idv = Task_rsp
     \<lparr>tr_group_name = Some ''G1'', tr_task_id = 0, tr_type = TYPE_LONG, tr_num_clients = 1, tr_client_ids = [5],
      tr_result = [Some ''7''], tr_final_resp = Some ''7''\<rparr>\<rparr>\<rparr>"

definition demo_accepts :: pdu_t where
  "demo_accepts = \<lparr>peer_addr = plain_peer, pdu_msg = \<lparr>msg_id = moderator_notify_rsp, idv = Moderator_notify_rsp
     \<lparr>nr_group_name = Some ''G1'', nr_moderator_id = 5, nr_client_id_count = 1, nr_client_ids = [5]\<rparr>\<rparr>\<rparr>"

definition demo_lost :: "server_info result option" where
  "demo_lost = (case demo_session demo_fs of
     Some (Inr s) \<Rightarrow> (case serve (s\<lparr>files := [''data'' \<mapsto> [49, 10, 50, 10, 51, 10]]\<rparr>) demo_stale_result of
        Some (Inr s1) \<Rightarrow> serve s1 demo_accepts
      | r \<Rightarrow> r)
   | r \<Rightarrow> r)"

fun missed_heartbeats :: "nat \<Rightarrow> server_info \<Rightarrow> server_info result" where
  "missed_heartbeats 0 s = Inr s"
| "missed_heartbeats (Suc n) s = bindE (handle_timeout_real s False MOD_RSP_TIMEOUT 1) (missed_heartbeats n)"

lemma unexpected_results_lose_moderator:
  "case demo_lost of
     Some (Inr s) \<Rightarrow> map_option (\<lambda>g. (fsm_state g, moderator_client g, timer_id g)) (groups s 1) = Some (GROUP_TASK_IN_PROGRESS, None, 2) \<and>
       map_option kt_signal (timers s 2) = Some MOD_RSP_TIMEOUT \<and>
       (case missed_heartbeats 6 s of Inl e \<Rightarrow> e = NullDeref | Inr s' \<Rightarrow> False)
   | _ \<Rightarrow> False"
  by code_simp

section \<open>A client\<close>

text \<open>
  The loop of a client keeps one structure for all datagrams: what it holds from before is
  part of the input.  A thread that was started runs to its end in one step, over the files
  of the client; \<open>can_open\<close> says whether its result file can be written.
\<close>

datatype client_input =
    C_datagram pdu_t "u8 list" sockaddr
  | C_typed string
  | C_expired nat
  | C_thread task_args bool

type_synonym client_world = "client_information \<times> (string \<rightharpoonup> u8 list)"

definition client_event_step :: "client_env \<Rightarrow> client_world \<Rightarrow> client_input \<Rightarrow> client_world result option" where
  "client_event_step e w i =
     (let (c, fls) = w
      in case i of
           C_datagram pdu0 buf a \<Rightarrow> map_option (\<lambda>r. bindE r (\<lambda>c1. Inr (c1, fls))) (client_datagram e pdu0 c buf a)
         | C_typed line \<Rightarrow> Some (bindE (client_stdin_data (env_run e) c line) (\<lambda>c1. Inr (c1, fls)))
         | C_expired t \<Rightarrow>
             Some (case ci_timers c t of
                     None \<Rightarrow> Inr w
                   | Some k \<Rightarrow>
                       if ci_masked c then Inr w
                       else bindE (client_handle_timeout_real (env_run e) c False (ct_signal k) (ct_owner k)) (\<lambda>c1. Inr (c1, fls)))
         | C_thread args can_open \<Rightarrow>
             Some (if args \<in> set (ci_jobs c)
                   then bindE (execute_task (env_run e) can_open fls c args) (\<lambda>(c1, fls1).
                        Inr (c1\<lparr>ci_jobs := remove1 args (ci_jobs c1)\<rparr>, fls1))
                   else Inr w))"

fun client_loop :: "client_env \<Rightarrow> client_world \<Rightarrow> client_input list \<Rightarrow> client_world result option" where
  "client_loop e w [] = Some (Inr w)"
| "client_loop e w (i # is) =
     (case client_event_step e w i of
        Some (Inr w') \<Rightarrow> client_loop e w' is
      | r \<Rightarrow> r)"

lemma client_event_reachable:
  assumes "client_event_step e (c, fls) i = Some (Inr (c', fls'))"
  shows "c' = c \<or> client_step c c'"
proof (cases i)
  case (C_datagram pdu0 buf a)
  with assms obtain m b where "receive_bytes pdu0 buf a = Inr (m, b)" "client_serve e c \<lparr>peer_addr = b, pdu_msg = m\<rparr> = Some (Inr c')"
    by (auto simp: client_event_step_def client_datagram_def bindE_eq_Inr split: sum.splits)
  then show ?thesis by (auto intro: message)
next
  case (C_typed line)
  with assms show ?thesis by (auto simp: client_event_step_def bindE_eq_Inr intro: command)
next
  case (C_expired t)
  with assms show ?thesis
    by (auto simp: client_event_step_def bindE_eq_Inr intro: expiry split: option.splits if_splits)
next
  case (C_thread args can_open)
  with assms show ?thesis
    by (auto simp: client_event_step_def bindE_eq_Inr intro: thread split: if_splits)
qed

lemma client_loop_reachable:
  "client_reachable junk (fst w) \<Longrightarrow> client_loop e w is = Some (Inr w') \<Longrightarrow> client_reachable junk (fst w')"
proof (induction "is" arbitrary: w)
  case (Cons i "is")
  then obtain w1 where w1: "client_event_step e w i = Some (Inr w1)" "client_loop e w1 is = Some (Inr w')"
    by (auto split: option.splits sum.splits)
  then have "client_reachable junk (fst w1)"
    using client_event_reachable [of e "fst w" "snd w" i "fst w1" "snd w1"] Cons.prems(1) by (auto intro: step)
  then show ?case using Cons.IH w1(2) by blast
qed simp

lemma client_loop_append:
  "client_loop e w (is @ js) = (case client_loop e w is of Some (Inr w') \<Rightarrow> client_loop e w' js | r \<Rightarrow> r)"
  by (induction "is" arbitrary: w) (auto split: option.split sum.split)

lemma client_loop_ok: "client_start junk me cap srv names now = Inr c \<Longrightarrow> client_loop e (c, fls) is = Some (Inr w) \<Longrightarrow> client_ok junk (fst w)"
  by (rule ok_reachable, rule client_loop_reachable [rotated], assumption, simp, rule client_reachable.start)

text \<open>The notification the server multicasts to a group.\<close>

definition notify_msg :: "string \<Rightarrow> moderator_notify_req_t \<Rightarrow> comm_struct_t" where
  "notify_msg nm req = \<lparr>msg_id = moderator_notify_req, idv = Moderator_notify_req (req\<lparr>nq_group_name := Some nm\<rparr>)\<rparr>"

lemma stranger_aborts:
  assumes "heap_ok c" "\<forall>p g. ci_groups c p = Some g \<longrightarrow> \<not> strncmp_eq (cg_group_name g) nm (length nm)"
  shows "client_serve e c \<lparr>peer_addr = a, pdu_msg = notify_msg nm req\<rparr> = Some (Inl AssertFail)"
proof -
  let ?c = "mask_client_signals c True"
  have "client_group_by_name_from ?c nm ps None = Inr None" if "set ps \<subseteq> dom (ci_groups c)" for ps
    using that assms(2) by (induction ps) (auto simp: cgrp_def deref_def mask_client_signals_def)
  moreover have "set (ci_client_grp_list c) = dom (ci_groups c)" using assms(1) by (simp add: heap_ok_def)
  ultimately have "get_client_grp_node_by_group_name ?c nm None = Inr None"
    by (simp add: get_client_grp_node_by_group_name_def mask_client_signals_def)
  then show ?thesis
    by (simp add: client_serve_def client_func_handler_def run_client_handler_def handle_mod_notification_def notify_msg_def)
qed

text \<open>
  C38: whatever a client has been through, a well-formed notification of a moderator whose
  group name no name of the client's groups begins with ends it with a failed assertion: one
  for a group it has just left, or one whose join has not been answered yet.  Names are
  compared up to the length of the one received, so that \<open>G1\<close> is taken for \<open>G10\<close> by a
  member of the latter and does not end it.
\<close>

theorem stray_notification_aborts:
  assumes "client_start junk me cap srv names now = Inr c0" "client_loop e (c0, fls0) is = Some (Inr (c, fls))"
    "msg_ok (notify_msg nm req)" "plain_addr pdu0 a"
    "\<forall>p g. ci_groups c p = Some g \<longrightarrow> \<not> strncmp_eq (cg_group_name g) nm (length nm)"
  shows "\<exists>buf. send_bytes (notify_msg nm req) = Inr buf \<and>
    client_loop e (c0, fls0) (is @ C_datagram pdu0 buf a # js) = Some (Inl AssertFail)"
proof -
  obtain buf where buf: "send_bytes (notify_msg nm req) = Inr buf" "receive_bytes pdu0 buf a = Inr (notify_msg nm req, a)"
    using datagrams.delivers [OF assms(3,4)] by blast
  have "heap_ok c" using client_loop_ok [OF assms(1,2)] by (simp add: client_ok_def)
  then have "client_event_step e (c, fls) (C_datagram pdu0 buf a) = Some (Inl AssertFail)"
    using stranger_aborts [OF _ assms(5)] buf(2) by (simp add: client_event_step_def client_datagram_def)
  then show ?thesis using buf(1) assms(2) by (simp add: client_loop_append)
qed

text \<open>A client that joins \<open>G1\<close> and leaves it, and the notification that was under way.\<close>

definition demo_join_rsp :: comm_struct_t where
  "demo_join_rsp = \<lparr>msg_id = join_response, idv = Join_rsp \<lparr>jr_num_groups = 1, jr_group_ips =
     [zero_saddr\<lparr>ls_sin_family := AF_INET, ls_sin_port := 80, ls_s_addr := 7, ls_group_name := Some ''G1'',
        ls_grp_port := 90, ls_cause := ACCEPTED\<rparr>]\<rparr>\<rparr>"

definition demo_leave_rsp :: comm_struct_t where
  "demo_leave_rsp = \<lparr>msg_id = leave_response,
     idv = Leave_rsp \<lparr>lr_num_groups = 1, lr_group_ids = [Some ''G1''], lr_cause = ACCEPTED\<rparr>\<rparr>"

definition demo_left :: "client_information result option" where
  "demo_left = (case client_start False 5 1 (ci_server demo_client) ''G1'' ''t'' of
     Inl e \<Rightarrow> Some (Inl e)
   | Inr c \<Rightarrow> (case client_serve demo_env c \<lparr>peer_addr = plain_peer, pdu_msg = demo_join_rsp\<rparr> of
        Some (Inr c1) \<Rightarrow> client_serve demo_env c1 \<lparr>peer_addr = plain_peer, pdu_msg = demo_leave_rsp\<rparr>
      | r \<Rightarrow> r))"

lemma demo_left_list: "case demo_left of Some (Inr c) \<Rightarrow> ci_client_grp_list c = [] \<and> ci_next_ptr c = 2 | _ \<Rightarrow> False"
  by code_simp

lemma demo_responses_ok: "msg_ok demo_join_rsp" "msg_ok demo_leave_rsp"
  by (simp_all add: demo_join_rsp_def demo_leave_rsp_def msg_ok_def join_rsp_ok_def leave_rsp_ok_def arr_ok_def str_ok_def
    saddr_ok_def zero_saddr_def)

lemma stray_notification_aborts_witness:
  "\<exists>b1 b2 b3. send_bytes demo_join_rsp = Inr b1 \<and> send_bytes demo_leave_rsp = Inr b2 \<and>
    send_bytes (notify_msg ''G1'' \<lparr>nq_moderator_id = 6, nq_moderator_port = 80, nq_num_of_clients_in_grp = 1, nq_group_name = None\<rparr>) = Inr b3 \<and>
    client_loop demo_env (demo_begun False, Map.empty) [C_datagram blank_pdu b1 plain_peer, C_datagram blank_pdu b2 plain_peer,
      C_datagram blank_pdu b3 plain_peer] = Some (Inl AssertFail)"
proof -
  let ?req = "\<lparr>nq_moderator_id = 6, nq_moderator_port = 80, nq_num_of_clients_in_grp = 1, nq_group_name = None\<rparr>"
  obtain b1 where b1: "send_bytes demo_join_rsp = Inr b1" "receive_bytes blank_pdu b1 plain_peer = Inr (demo_join_rsp, plain_peer)"
    using datagrams.delivers [OF demo_responses_ok(1) plain_peer_simps(2)] by blast
  obtain b2 where b2: "send_bytes demo_leave_rsp = Inr b2" "receive_bytes blank_pdu b2 plain_peer = Inr (demo_leave_rsp, plain_peer)"
    using datagrams.delivers [OF demo_responses_ok(2) plain_peer_simps(2)] by blast
  obtain c where c: "demo_left = Some (Inr c)" "ci_client_grp_list c = []"
    using demo_left_list by (auto split: option.splits sum.splits)
  let ?is = "[C_datagram blank_pdu b1 plain_peer, C_datagram blank_pdu b2 plain_peer]"
  from c(1) obtain c1 where "client_serve demo_env (demo_begun False) \<lparr>peer_addr = plain_peer, pdu_msg = demo_join_rsp\<rparr> = Some (Inr c1)"
      "client_serve demo_env c1 \<lparr>peer_addr = plain_peer, pdu_msg = demo_leave_rsp\<rparr> = Some (Inr c)"
    by (auto simp: demo_left_def demo_started split: option.splits sum.splits)
  then have run: "client_loop demo_env (demo_begun False, Map.empty) ?is = Some (Inr (c, Map.empty))"
    by (simp add: client_event_step_def client_datagram_def b1(2) b2(2))
  have "heap_ok c" using client_loop_ok [OF demo_started run] by (simp add: client_ok_def)
  then have none: "\<forall>p g. ci_groups c p = Some g \<longrightarrow> \<not> strncmp_eq (cg_group_name g) ''G1'' (length ''G1'')"
    using c(2) by (auto simp: heap_ok_def)
  have "msg_ok (notify_msg ''G1'' ?req)"
    by (simp add: notify_msg_def msg_ok_def moderator_notify_req_ok_def str_ok_def)
  from stray_notification_aborts [OF demo_started run this plain_peer_simps(2) none, of "[]"] b1(1) b2(1)
  show ?thesis by auto
qed

end
