(* ===== verification/Spec2Isabelle.thy ===== *)
theory Spec2Isabelle
  imports SnList RbtDelete CommSafety CommonHelpers MembershipProps DeadClients TaskCycle SumTask EventLoops
begin

text \<open>
  Verification of the distributed task system of \<open>src/src\<close> and \<open>src/include\<close>: one server, and
  clients in multicast groups that work on the shares of a task.

  \<^bold>\<open>The program.\<close>  The server (\<open>server.c\<close>) reads its groups from a mapping file.  A client
  (\<open>client.c\<close>) asks to join groups by name; the server keeps a list of groups with a list of
  clients each (\<open>server_ll.c\<close> over the intrusive list \<open>sn_ll.c\<close>) and a red-black tree of clients
  with a list of groups each (\<open>rbt.c\<close>).  A task command makes the server ask some clients of a
  group for a sign of life; the first to answer becomes the moderator of the group, collects
  the clients that are alive and reports them; the server splits the task file among them by
  capability and multicasts the request; every client fetches its share, computes, and sends
  the result to the moderator, which sends one response to the server.  Echo requests and
  timers find dead clients and dead moderators (\<open>server_fsm.c\<close>, \<open>moderator_fsm.c\<close>).  All messages
  are XDR records in datagrams (\<open>comm_primitives.c\<close>).

  \<^bold>\<open>Conventions\<close> (\<open>CPrelude\<close>).  A C function that can go wrong returns \<open>Inl\<close> of a fault
  (a null or freed pointer, a read outside an array, a division by zero, a failed assertion,
  the end of the process) or \<open>Inr\<close> of its result, composed with \<open>bindE\<close>; a loop that may not
  end is a \<open>partial_function (option)\<close> with \<open>None\<close> for "does not return".  Machine integers are
  words of their width.  Heap objects are maps from addresses, which are numbers with 0 as
  the null pointer; an intrusive list whose operations are all by the list library is the
  list of the addresses of its elements, head first.  Sending a datagram appends to an
  \<open>outbox\<close>, starting a thread appends to a list of jobs, and the timers of the kernel are a map
  from identifiers to what they signal.

  \<^bold>\<open>Theories.\<close>
  \<^item> Lists (\<open>sn_ll.c\<close>): \<open>SnList\<close> models every operation pointer write by pointer write over a
    heap and proves that they refine operations on lists; the locale \<open>sn_deque\<close> states the
    contract, \<open>sn\<close> is its interpretation on the model.
  \<^item> Client index (\<open>rbt.c\<close>): \<open>RbtHeap\<close> is the code, \<open>RbtShape\<close> the abstraction of the heap to
    trees of addresses and the rotations, \<open>RbtColour\<close> the red-black invariants, \<open>RbtInsert\<close> and
    \<open>RbtFixup\<close> the two fix-up loops, \<open>RbtIndex\<close> insertion, lookup, neighbours, height and
    destruction, \<open>RbtDelete\<close> deletion.  The locales \<open>client_index\<close> and \<open>removable_index\<close> state
    what the server relies on (a finite map from identifiers to nodes) and are interpreted on
    the heap operations as \<open>rbi\<close> and \<open>rbd\<close>; therefore \<open>ServerDS\<close> keeps the index as a map.
  \<^item> Messages: \<open>NetAddr\<close> (addresses, \<open>calc_key\<close>, \<open>strcpy\<close> on address bytes), \<open>Xdr\<close> (the memory
    streams of the C library, from their documentation), \<open>CommTypes\<close> (\<open>comm_primitives.h\<close>),
    \<open>CommCodec\<close> (\<open>comm_primitives.c\<close>), \<open>CommWire\<close> (the wire format on its own, round trips),
    \<open>CommSafety\<close> (decoding of arbitrary bytes).
  \<^item> Server: \<open>ServerDS\<close> (\<open>server_DS.h\<close>), \<open>ServerLL\<close> (\<open>server_ll.c\<close>), \<open>ServerMembership\<close>
    (join, leave, checkpoints), \<open>TaskFiles\<close> (task files, dead clients), \<open>ServerTask\<close> (moderator
    selection, task distribution, results), \<open>ServerFsm\<close> (the state machine, the handlers, the
    signal handler, the commands, \<open>serve\<close>), \<open>ServerStart\<close> (the mapping file, the set-up in \<open>main\<close>,
    the thread that fetches results).  Their proofs: \<open>MembershipInv\<close> and \<open>MembershipProps\<close> (the
    two views of membership agree), \<open>TaskSplit\<close> and \<open>TaskStart\<close> (the pieces of the task file),
    \<open>DeadClients\<close>, \<open>ServerTimers\<close> and \<open>ServerInv\<close> (the server as a transition system and its
    reachable states), \<open>ServerQuiet\<close> (no message handler and no command asserts anything),
    \<open>ServerProps\<close> (how a task ends), \<open>TaskCycle\<close> (a task from notification to
    answer); \<open>DemoState\<close> has the states of the examples.
  \<^item> Client: \<open>ClientDS\<close> (\<open>client_DS.h\<close>), \<open>ClientLL\<close> (\<open>client_ll.c\<close>), \<open>ClientPrime\<close> and
    \<open>ClientCompute\<close> (the computations), \<open>ClientMod\<close> (\<open>moderator_fsm.c\<close> and the moderator's part
    of \<open>client.c\<close>), \<open>ClientTask\<close> (the worker's part), \<open>ClientMain\<close> (the handlers of the server's
    messages, commands, main loop).  Their proofs: \<open>ClientInv\<close> (the client as a transition
    system), \<open>ClientCollect\<close>, \<open>ClientProps\<close>, \<open>ClientWork\<close>; \<open>DemoClient\<close> has the examples.
  \<^item> Both together: \<open>Network\<close> (the locale \<open>transport\<close>, interpreted on the datagram reader and
    writer as \<open>datagrams\<close>; joining over the network), \<open>SumTask\<close> (a task from its file on the
    server to the moderator's final response) and \<open>EventLoops\<close> (the main loops of both processes
    over datagrams, typed lines, expired timers and threads).
  \<^item> Helpers of both (\<open>common.c\<close>): \<open>CommonHelpers\<close> (interface types, the socket and its flags,
    the device address, folders, the random capability); its timers, echo requests and line
    counts are with the server and the client that use them.

  \<^bold>\<open>What is shown.\<close>  The lists and the index refine lists and finite maps, and every operation
  of the index ends, the balance bounding the cost of a lookup.  A well-formed message arrives
  as it was sent; no datagram whatever makes the decoder fault.  Joins and leaves change
  exactly the groups they name and keep both views of membership and the capability of the
  group in step.  The pieces of a task file are the file, in order, split by capability.  In
  a run of the server's main loop in which results come only when they are expected (see
  below) a timer belongs to one group and fits its state, so that no assertion of the server
  fails; in every reachable state of a client its lists are sound, and the moderator's data
  and its role go together if its structure was allocated in zeroed memory.  The moderator's response to a sum task is the sum of the numbers of
  the task file.  \<open>is_prime\<close> decides primality of all 64-bit numbers although its square root
  goes through a double.  Theorems of the kind
  "error" state where the code breaks its own promises, with a concrete instance each.

  \<^bold>\<open>Bounds.\<close>  Recursion is structural, or partial with termination proved where the property
  claims it (the loops of the index, the traversals of the lists, the handlers).  The only
  loop with fuel is \<open>pick_client\<close>, which visits every entry of a map at most once and has one
  round more than there are entries (\<open>pick_client_enough\<close>: more change nothing);
  \<open>find_within\<close> counts passes only to state the cost of a lookup.  Sizes of C arrays
  (command and path buffers, names of 10 and 25 characters, five shares of a client) appear
  in the model as checks that fault, and in the theorems as hypotheses.

  \<^bold>\<open>Hypotheses on the environment.\<close>  Files are a map from paths to bytes; the transfer tool
  \<open>./file_tf\<close>, \<open>inet_addr\<close>, the joining of a multicast address and the creation of threads are
  parameters.  \<open>sum_task_end_to_end\<close> takes a copy made by the tool to have the contents of its
  source.  Memory allocation succeeds.  The reachable states of the server (\<open>srv_reachable\<close>)
  are those of runs in which no results arrive for a group whose chosen moderator has yet to
  accept (\<open>results_expected\<close>); \<open>unexpected_results_lose_moderator\<close> is a run without it that
  ends in a null pointer.  \<open>timer_create\<close> never hands out the identifier 0, which the code
  uses for "no timer".  Time passes between steps only: all files of one request carry one
  timestamp.

  \<^bold>\<open>Memory.\<close>  A heap maps an address to its object or, when it was freed or never allocated,
  to nothing; reading an index node that \<open>RBDelete\<close> has freed is the fault \<open>UseAfterFree\<close>
  (\<open>rbt_node\<close>).  The field \<open>is_moderator\<close> of the client's structure is read before anything
  sets it (\<open>client_ll.c\<close>): its first value is the parameter \<open>junk\<close> of \<open>client_start\<close>, and the
  properties of the client hold for either value or say for which.  The structure of an
  index is not part of the heap of its nodes, so the last \<open>free\<close> of \<open>RBTreeDestroy\<close> leaves no
  trace in the model.

  \<^bold>\<open>Not modelled.\<close>  Output (\<open>PRINT\<close>, logging, the \<open>display_\<close> functions, \<open>misc.c\<close>, \<open>print.h\<close>,
  \<open>logg.cpp\<close>) with the arguments computed only for it; the registration with \<open>epoll\<close>, multicast
  options, the check of the program's arguments and the samples \<open>receiver.c\<close>,
  \<open>ip_address_picking.c\<close>, \<open>checker.c\<close> and \<open>logging_sample.c\<close>; the vendored tools under
  \<open>src/utility\<close>.  A message handler is one step, since signals are masked while it runs; a
  typed command is one step as well, although a signal may interrupt it, and so is a thread's
  work after the request that starts it.  Interleavings inside a step (a thread that ends
  before the handler has counted it, a signal already queued for a deleted timer) are outside
  the model.
\<close>

end
